(* ===== verification/Prelude.thy ===== *)
theory Prelude
  imports Main "HOL-Library.Word" "HOL-Library.Monad_Syntax" "HOL-Library.AList"
    "HOL-Library.Code_Target_Nat" "HOL-Library.Code_Target_Int"
begin

unbundle bit_operations_syntax

text \<open>
  The shared prelude of the libreatrust development: the machine integer types of the Rust
  sources, \<open>Result\<close> values as sums, checked indexing and slicing (a Rust panic is the value
  \<open>None\<close>), big-endian byte conversions, and \<open>HashMap\<close> as an association list in its
  (unspecified) iteration order, with the map contract as a locale.
\<close>

named_theorems result_simps "rewrite rules of the Result combinators"
named_theorems wire_simps "rewrite rules of byte conversions, checked indexing and slicing"
named_theorems hmap_simps "rewrite rules of the HashMap model"

section \<open>Machine integers and bytes\<close>

type_synonym u8 = "8 word"
type_synonym u16 = "16 word"
type_synonym u32 = "32 word"
type_synonym u64 = "64 word"
type_synonym bytes = "8 word list"

text \<open>\<open>u16::to_be_bytes\<close>, \<open>u16::from_be_bytes\<close> and their 32-bit versions.\<close>

definition u16_to_be_bytes :: "u16 \<Rightarrow> bytes" where
  "u16_to_be_bytes w = [word_of_nat (unat w div 256), word_of_nat (unat w)]"

definition u16_from_be_bytes :: "u8 \<Rightarrow> u8 \<Rightarrow> u16" where
  "u16_from_be_bytes a b = word_of_nat (unat a * 256 + unat b)"

definition u32_from_be_bytes :: "u8 \<Rightarrow> u8 \<Rightarrow> u8 \<Rightarrow> u8 \<Rightarrow> u32" where
  "u32_from_be_bytes a b c d =
     word_of_nat (((unat a * 256 + unat b) * 256 + unat c) * 256 + unat d)"

definition u32_to_be_bytes :: "u32 \<Rightarrow> bytes" where
  "u32_to_be_bytes w =
     [word_of_nat (unat w div 16777216), word_of_nat (unat w div 65536),
      word_of_nat (unat w div 256), word_of_nat (unat w)]"

section \<open>Result values\<close>

text \<open>A Rust \<open>Result<T, E>\<close> is \<open>E + T\<close>: \<open>Inl\<close> is \<open>Err\<close>, \<open>Inr\<close> is \<open>Ok\<close>.\<close>

definition bindR :: "'e + 'a \<Rightarrow> ('a \<Rightarrow> 'e + 'b) \<Rightarrow> 'e + 'b" where
  "bindR r f = (case r of Inl e \<Rightarrow> Inl e | Inr a \<Rightarrow> f a)"

definition mapR :: "('a \<Rightarrow> 'b) \<Rightarrow> 'e + 'a \<Rightarrow> 'e + 'b" where
  "mapR f r = (case r of Inl e \<Rightarrow> Inl e | Inr a \<Rightarrow> Inr (f a))"

definition ok_or :: "'e \<Rightarrow> 'a option \<Rightarrow> 'e + 'a" where
  "ok_or e v = (case v of None \<Rightarrow> Inl e | Some a \<Rightarrow> Inr a)"

definition is_ok :: "'e + 'a \<Rightarrow> bool" where
  "is_ok r = (case r of Inl _ \<Rightarrow> False | Inr _ \<Rightarrow> True)"

text \<open>A \<open>for\<close> loop whose body may return early with an error.\<close>

fun fold_res :: "('a \<Rightarrow> 's \<Rightarrow> 'e + 's) \<Rightarrow> 'a list \<Rightarrow> 's \<Rightarrow> 'e + 's" where
  "fold_res f [] s = Inr s"
| "fold_res f (x # xs) s = bindR (f x s) (fold_res f xs)"

section \<open>Checked indexing and slicing\<close>

text \<open>
  \<open>xs[i]\<close> and \<open>xs[a..b]\<close> panic out of range; the model returns \<open>None\<close> there, and a
  function that indexes returns an option whose \<open>None\<close> is the panic.
\<close>

definition idx :: "'a list \<Rightarrow> nat \<Rightarrow> 'a option" where
  "idx xs i = (if i < length xs then Some (xs ! i) else None)"

definition slice :: "'a list \<Rightarrow> nat \<Rightarrow> nat \<Rightarrow> 'a list option" where
  "slice xs a b = (if a \<le> b \<and> b \<le> length xs then Some (take (b - a) (drop a xs)) else None)"

text \<open>
  \<open>buf[a..b].copy_from_slice(ys)\<close>: the lengths must agree, otherwise it panics.
\<close>

definition overwrite :: "'a list \<Rightarrow> nat \<Rightarrow> 'a list \<Rightarrow> 'a list" where
  "overwrite xs a ys = take a xs @ ys @ drop (a + length ys) xs"

definition copy_from_slice :: "'a list \<Rightarrow> nat \<Rightarrow> nat \<Rightarrow> 'a list \<Rightarrow> 'a list option" where
  "copy_from_slice xs a b ys =
     (if a \<le> b \<and> b \<le> length xs \<and> length ys = b - a then Some (overwrite xs a ys) else None)"

section \<open>HashMap\<close>

text \<open>
  A \<open>HashMap\<close> is an association list with distinct keys; the list order stands for the
  iteration order, which Rust leaves unspecified, so facts about iteration are stated for
  every list.
\<close>

type_synonym ('k, 'v) hmap = "('k \<times> 'v) list"

definition hm_get :: "('k, 'v) hmap \<Rightarrow> 'k \<Rightarrow> 'v option" where
  "hm_get m k = map_of m k"

definition hm_insert :: "'k \<Rightarrow> 'v \<Rightarrow> ('k, 'v) hmap \<Rightarrow> ('k, 'v) hmap" where
  "hm_insert k v m = AList.update k v m"

definition hm_remove :: "'k \<Rightarrow> ('k, 'v) hmap \<Rightarrow> ('k, 'v) hmap" where
  "hm_remove k m = AList.delete k m"

definition hm_values :: "('k, 'v) hmap \<Rightarrow> 'v list" where
  "hm_values m = map snd m"

definition hm_wf :: "('k, 'v) hmap \<Rightarrow> bool" where
  "hm_wf m = distinct (map fst m)"

subsection \<open>Byte lemmas\<close>

lemma unat_u8_less [simp]: "unat (b :: u8) < 256"
  using unsigned_less [of b] by simp

lemma unat_u16_less [simp]: "unat (w :: u16) < 65536"
  using unsigned_less [of w] by simp

lemma unat_u32_less [simp]: "unat (w :: u32) < 4294967296"
  using unsigned_less [of w] by simp

lemma unat_of_nat_u8 [wire_simps]: "unat (word_of_nat n :: u8) = n mod 256"
  by (simp add: unat_of_nat)

lemma unat_of_nat_u16 [wire_simps]: "unat (word_of_nat n :: u16) = n mod 65536"
  by (simp add: unat_of_nat)

lemma unat_of_nat_u32 [wire_simps]: "unat (word_of_nat n :: u32) = n mod 4294967296"
  by (simp add: unat_of_nat)

lemma length_u16_to_be_bytes [simp]: "length (u16_to_be_bytes w) = 2"
  by (simp add: u16_to_be_bytes_def)

lemma unat_u8_le [simp]: "unat (b :: u8) \<le> 255"
  using unat_u8_less [of b] by linarith

lemma be_step_bound: "x < n \<Longrightarrow> x * 256 + unat (b :: u8) < n * 256"
  using unat_u8_less [of b] by linarith

lemma be_step_div: "(x * 256 + unat (b :: u8)) div 256 = x"
  using unat_u8_less [of b] by simp

lemma unat_u16_from_be_bytes: "unat (u16_from_be_bytes a b) = unat a * 256 + unat b"
proof -
  have "unat a * 256 + unat b < 65536"
    using unat_u8_le [of a] unat_u8_le [of b] by linarith
  then show ?thesis
    by (simp only: u16_from_be_bytes_def unat_of_nat_u16 mod_less)
qed

lemma u16_from_to_be_bytes [simp]:
  "u16_from_be_bytes (word_of_nat (unat w div 256)) (word_of_nat (unat w)) = w"
proof -
  have "unat w div 256 < 256"
    using unat_u16_less [of w] by linarith
  then have "unat w div 256 mod 256 * 256 + unat w mod 256 = unat w"
    by (simp only: mod_less div_mult_mod_eq)
  then have "unat (u16_from_be_bytes (word_of_nat (unat w div 256)) (word_of_nat (unat w))) = unat w"
    by (simp only: unat_u16_from_be_bytes unat_of_nat_u8)
  then show ?thesis
    by (rule word_unat_eq_iff [THEN iffD2])
qed

lemma u8_of_unat_add [simp]: "(word_of_nat (n * 256 + unat b) :: u8) = b"
  by (rule word_unat_eq_iff [THEN iffD2]) (simp only: unat_of_nat_u8, simp)

lemma u8_of_unat: "(word_of_nat (unat b) :: u8) = b"
  by simp

lemma u16_to_from_be_bytes [simp]: "u16_to_be_bytes (u16_from_be_bytes a b) = [a, b]"
proof -
  have "(unat a * 256 + unat b) div 256 = unat a" by simp
  then show ?thesis
    by (simp only: u16_to_be_bytes_def unat_u16_from_be_bytes u8_of_unat_add u8_of_unat)
qed

lemma unat_u32_from_be_bytes:
  "unat (u32_from_be_bytes a b c d) =
     ((unat a * 256 + unat b) * 256 + unat c) * 256 + unat d"
proof -
  have "((unat a * 256 + unat b) * 256 + unat c) * 256 + unat d < 4294967296"
    using be_step_bound [OF be_step_bound [OF be_step_bound [OF unat_u8_less [of a]]], of b c d]
    by simp
  then show ?thesis
    by (simp only: u32_from_be_bytes_def unat_of_nat_u32 mod_less)
qed

lemma u32_to_from_be_bytes [simp]:
  "u32_to_be_bytes (u32_from_be_bytes a b c d) = [a, b, c, d]"
proof -
  let ?n = "((unat a * 256 + unat b) * 256 + unat c) * 256 + unat d"
  have 1: "?n div 256 = (unat a * 256 + unat b) * 256 + unat c"
    by (rule be_step_div)
  have 2: "?n div 65536 = unat a * 256 + unat b"
    using div_mult2_eq [of ?n 256 256] by (simp only: 1 be_step_div) simp
  have 3: "?n div 16777216 = unat a"
    using div_mult2_eq [of ?n 65536 256] by (simp only: 2 be_step_div) simp
  show ?thesis
    by (simp only: u32_to_be_bytes_def unat_u32_from_be_bytes 1 2 3 u8_of_unat_add u8_of_unat)
qed

lemma u32_from_to_be_bytes [simp]:
  "u32_from_be_bytes (word_of_nat (unat w div 16777216)) (word_of_nat (unat w div 65536))
     (word_of_nat (unat w div 256)) (word_of_nat (unat w)) = w"
proof -
  let ?n = "unat w"
  have "?n div 16777216 < 256"
    using unat_u32_less [of w] by linarith
  then have a: "?n div 16777216 mod 256 = ?n div 16777216" by simp
  have b: "?n div 16777216 * 256 + ?n div 65536 mod 256 = ?n div 65536"
    using div_mult2_eq [of ?n 65536 256] div_mult_mod_eq [of "?n div 65536" 256] by simp
  have c: "?n div 65536 * 256 + ?n div 256 mod 256 = ?n div 256"
    using div_mult2_eq [of ?n 256 256] div_mult_mod_eq [of "?n div 256" 256] by simp
  have d: "?n div 256 * 256 + ?n mod 256 = ?n" by (rule div_mult_mod_eq)
  have "unat (u32_from_be_bytes (word_of_nat (?n div 16777216)) (word_of_nat (?n div 65536))
     (word_of_nat (?n div 256)) (word_of_nat ?n)) = ?n"
    by (simp only: unat_u32_from_be_bytes unat_of_nat_u8 a b c d)
  then show ?thesis
    by (rule word_unat_eq_iff [THEN iffD2])
qed

lemma length_u32_to_be_bytes [simp]: "length (u32_to_be_bytes w) = 4"
  by (simp add: u32_to_be_bytes_def)

subsection \<open>Result lemmas\<close>

lemma bindR_simps [simp, result_simps]: "bindR (Inl e) f = Inl e" "bindR (Inr a) f = f a"
  by (simp_all add: bindR_def)

lemma mapR_simps [simp, result_simps]: "mapR f (Inl e) = Inl e" "mapR f (Inr a) = Inr (f a)"
  by (simp_all add: mapR_def)

lemma ok_or_simps [simp, result_simps]: "ok_or e None = Inl e" "ok_or e (Some a) = Inr a"
  by (simp_all add: ok_or_def)

lemma is_ok_simps [simp, result_simps]: "\<not> is_ok (Inl e)" "is_ok (Inr a)"
  by (simp_all add: is_ok_def)

lemma bindR_eq_Inr [result_simps]: "bindR r f = Inr b \<longleftrightarrow> (\<exists>a. r = Inr a \<and> f a = Inr b)"
  by (cases r) simp_all

lemma bindR_eq_Inl: "bindR r f = Inl e \<longleftrightarrow> r = Inl e \<or> (\<exists>a. r = Inr a \<and> f a = Inl e)"
  by (cases r) simp_all

lemma ok_or_eq_Inr [result_simps]: "ok_or e v = Inr a \<longleftrightarrow> v = Some a"
  by (cases v) simp_all

lemma ok_or_eq_Inl: "ok_or e v = Inl e' \<longleftrightarrow> v = None \<and> e' = e"
  by (cases v) auto

lemma fold_res_append [result_simps]:
  "fold_res f (xs @ ys) s = bindR (fold_res f xs s) (fold_res f ys)"
proof (induction xs arbitrary: s)
  case (Cons x xs)
  then show ?case by (cases "f x s") simp_all
qed simp

text \<open>An invariant every iteration keeps holds after the loop.\<close>

lemma fold_res_map [result_simps]: "fold_res f (map g xs) = fold_res (\<lambda>x. f (g x)) xs"
proof (induction xs)
  case (Cons x xs)
  show ?case by (rule ext) (simp add: Cons)
qed (simp add: fun_eq_iff)

lemma fold_res_concat [result_simps]: "fold_res f (concat xss) = fold_res (fold_res f) xss"
proof (induction xss)
  case (Cons xs xss)
  show ?case by (rule ext) (simp add: Cons fold_res_append)
qed (simp add: fun_eq_iff)

lemma fold_res_invariant:
  assumes "fold_res f xs s = Inr s'" and "P s"
    and "\<And>x s s'. x \<in> set xs \<Longrightarrow> P s \<Longrightarrow> f x s = Inr s' \<Longrightarrow> P s'"
  shows "P s'"
  using assms
proof (induction xs arbitrary: s)
  case (Cons x xs)
  from Cons.prems(1) obtain t where "f x s = Inr t" "fold_res f xs t = Inr s'"
    by (auto simp: bindR_eq_Inr)
  with Cons.prems Cons.IH show ?case by (metis list.set_intros)
qed simp

lemma is_ok_iff: "is_ok r \<longleftrightarrow> (\<exists>a. r = Inr a)"
  by (cases r) simp_all

subsection \<open>Indexing and slicing lemmas\<close>

lemma idx_in [simp, wire_simps]: "i < length xs \<Longrightarrow> idx xs i = Some (xs ! i)"
  by (simp add: idx_def)

lemma idx_None_iff [simp]: "idx xs i = None \<longleftrightarrow> length xs \<le> i"
  by (simp add: idx_def)

lemma slice_in [simp, wire_simps]:
  "a \<le> b \<Longrightarrow> b \<le> length xs \<Longrightarrow> slice xs a b = Some (take (b - a) (drop a xs))"
  by (simp add: slice_def)

lemma slice_None_iff [simp]: "slice xs a b = None \<longleftrightarrow> \<not> (a \<le> b \<and> b \<le> length xs)"
  by (simp add: slice_def)

lemma length_overwrite [simp]: "a + length ys \<le> length xs \<Longrightarrow> length (overwrite xs a ys) = length xs"
  by (simp add: overwrite_def)

lemma copy_from_slice_in [simp]:
  "a \<le> b \<Longrightarrow> b \<le> length xs \<Longrightarrow> length ys = b - a \<Longrightarrow>
   copy_from_slice xs a b ys = Some (overwrite xs a ys)"
  by (simp add: copy_from_slice_def)

lemma nth_overwrite:
  assumes "a + length ys \<le> length xs" and "i < length xs"
  shows "overwrite xs a ys ! i = (if i < a then xs ! i else if i < a + length ys then ys ! (i - a) else xs ! i)"
proof -
  have "length (take a xs) = a" using assms by simp
  then show ?thesis
    using assms by (auto simp: overwrite_def nth_append)
qed

subsection \<open>The map contract\<close>

text \<open>
  What the components rely on: a lookup after an insert or a removal, and that both keep
  the keys distinct. The lemmas on building a map from a list of entries are proved once
  from this contract.
\<close>

locale hash_map =
  fixes get :: "'m \<Rightarrow> 'k \<Rightarrow> 'v option"
    and ins :: "'k \<Rightarrow> 'v \<Rightarrow> 'm \<Rightarrow> 'm"
    and del :: "'k \<Rightarrow> 'm \<Rightarrow> 'm"
    and wf :: "'m \<Rightarrow> bool"
  assumes get_ins: "get (ins k v m) k' = (if k' = k then Some v else get m k')"
    and get_del: "get (del k m) k' = (if k' = k then None else get m k')"
    and wf_ins: "wf m \<Longrightarrow> wf (ins k v m)"
    and wf_del: "wf m \<Longrightarrow> wf (del k m)"
begin

lemma wf_fold_ins: "wf m \<Longrightarrow> wf (fold (\<lambda>(k, v). ins k v) kvs m)"
  by (induction kvs arbitrary: m) (auto intro: wf_ins)

text \<open>Inserting a list of entries in order: the last entry of a key wins.\<close>

lemma get_fold_ins:
  "get (fold (\<lambda>(k, v). ins k v) kvs m) k =
     (case map_of (rev kvs) k of Some v \<Rightarrow> Some v | None \<Rightarrow> get m k)"
proof (induction kvs arbitrary: m)
  case Nil
  then show ?case by simp
next
  case (Cons kv kvs)
  then show ?case
    by (cases kv) (auto simp: get_ins map_add_def split: option.splits)
qed

lemma get_ins_same [simp]: "get (ins k v m) k = Some v"
  by (simp add: get_ins)

lemma get_ins_other: "k' \<noteq> k \<Longrightarrow> get (ins k v m) k' = get m k'"
  by (simp add: get_ins)

end

interpretation hm: hash_map hm_get hm_insert hm_remove hm_wf
  by unfold_locales
    (auto simp: hm_get_def hm_insert_def hm_remove_def hm_wf_def update_conv' delete_conv'
      intro: distinct_update distinct_delete)

lemmas [hmap_simps] = hm.get_ins hm.get_del

lemma hm_wf_Nil [simp]: "hm_wf []"
  by (simp add: hm_wf_def)

lemma hm_get_Nil [simp]: "hm_get [] k = None"
  by (simp add: hm_get_def)

lemma hm_get_in: "hm_wf m \<Longrightarrow> (k, v) \<in> set m \<longleftrightarrow> hm_get m k = Some v"
  by (simp add: hm_wf_def hm_get_def)

lemma hm_get_SomeD: "hm_get m k = Some v \<Longrightarrow> (k, v) \<in> set m"
  by (simp add: hm_get_def map_of_SomeD)

lemma hm_values_set: "set (hm_values m) = snd ` set m"
  by (simp add: hm_values_def)

section \<open>Self-delimiting encodings\<close>

text \<open>
  The contract of a self-delimiting encoding: decoding an encoded value followed by anything
  gives the value back and leaves the rest. Concatenated encodings then decode one by one.
\<close>

locale frame_codec =
  fixes enc :: "'a \<Rightarrow> bytes"
    and dec :: "bytes \<Rightarrow> ('a \<times> bytes) option"
    and fits :: "'a \<Rightarrow> bool"
  assumes dec_enc: "fits a \<Longrightarrow> dec (enc a @ rest) = Some (a, rest)"
    and enc_nonempty: "enc a \<noteq> []"
begin

fun dec_many :: "nat \<Rightarrow> bytes \<Rightarrow> 'a list" where
  "dec_many 0 bs = []"
| "dec_many (Suc k) bs = (case dec bs of None \<Rightarrow> [] | Some (a, rest) \<Rightarrow> a # dec_many k rest)"

lemma dec_many_concat: "list_all fits as \<Longrightarrow> dec_many (length as) (concat (map enc as) @ rest) = as"
  by (induction as) (simp_all add: dec_enc)

lemma concat_enc_inj:
  "list_all fits as \<Longrightarrow> list_all fits bs \<Longrightarrow> concat (map enc as) = concat (map enc bs) \<Longrightarrow> as = bs"
proof (induction as arbitrary: bs)
  case Nil
  then show ?case by (cases bs) (auto simp: enc_nonempty)
next
  case (Cons a as)
  show ?case
  proof (cases bs)
    case Nil
    with Cons.prems(3) show ?thesis by (simp add: enc_nonempty)
  next
    case (Cons b bs')
    with Cons.prems have eq: "enc a @ concat (map enc as) = enc b @ concat (map enc bs')"
      and fit: "fits a" "fits b" "list_all fits as" "list_all fits bs'" by simp_all
    have "Some (a, concat (map enc as)) = Some (b, concat (map enc bs'))"
      by (simp only: dec_enc [OF fit(1), symmetric] dec_enc [OF fit(2), symmetric] eq)
    with Cons.IH fit(3,4) Cons show ?thesis by simp
  qed
qed

end

lemma set_map_filter: "set (List.map_filter f xs) = {y. \<exists>x \<in> set xs. f x = Some y}"
  by (induction xs) (auto simp: List.map_filter_simps split: option.splits)

lemma unat_len_u16: "n < 65536 \<Longrightarrow> unat (word_of_nat n :: u16) = n"
  by (simp add: unat_of_nat_u16)

lemma u16_be_Cons: "u16_to_be_bytes w = [a, b] \<Longrightarrow> u16_from_be_bytes a b = w"
  by (auto simp only: u16_to_be_bytes_def list.inject u16_from_to_be_bytes)

lemma u16_be_cases:
  obtains a b where "u16_to_be_bytes w = [a, b]" and "u16_from_be_bytes a b = w"
  using u16_be_Cons by (metis u16_to_be_bytes_def)

end
