(* ===== verification/Rust_Str.thy ===== *)
theory Rust_Str
  imports Prelude
begin

text \<open>
  The string operations of the Rust standard library the sources call. A \<open>str\<close> is its
  UTF-8 byte sequence, a \<open>char list\<close> (HOL characters are bytes), so \<open>len\<close> is
  \<open>length\<close>. Patterns that are ASCII characters match bytes. \<open>trim\<close> and
  \<open>split_whitespace\<close> recognise the Unicode \<open>White_Space\<close> characters by their UTF-8
  encodings. \<open>from_utf8\<close> and \<open>from_utf8_lossy\<close> follow the well-formedness table
  of the standard library.
\<close>

named_theorems str_simps "rewrite rules of the string operations"

section \<open>Bytes and characters\<close>

definition str_bytes :: "string \<Rightarrow> bytes" where
  "str_bytes s = map (\<lambda>c. word_of_nat (of_char c)) s"

definition bytes_str :: "bytes \<Rightarrow> string" where
  "bytes_str bs = map (\<lambda>b. char_of (unat b)) bs"

definition ascii_digit :: "char \<Rightarrow> bool" where
  "ascii_digit c = (48 \<le> (of_char c :: nat) \<and> (of_char c :: nat) \<le> 57)"

definition ascii_upper :: "char \<Rightarrow> bool" where
  "ascii_upper c = (65 \<le> (of_char c :: nat) \<and> (of_char c :: nat) \<le> 90)"

definition ascii_lower :: "char \<Rightarrow> bool" where
  "ascii_lower c = (97 \<le> (of_char c :: nat) \<and> (of_char c :: nat) \<le> 122)"

definition ascii_alphanumeric :: "char \<Rightarrow> bool" where
  "ascii_alphanumeric c = (ascii_digit c \<or> ascii_upper c \<or> ascii_lower c)"

definition char_lower :: "char \<Rightarrow> char" where
  "char_lower c = (if ascii_upper c then char_of (of_char c + 32 :: nat) else c)"

definition char_upper :: "char \<Rightarrow> char" where
  "char_upper c = (if ascii_lower c then char_of (of_char c - 32 :: nat) else c)"

definition to_ascii_lowercase :: "string \<Rightarrow> string" where
  "to_ascii_lowercase s = map char_lower s"

definition to_ascii_uppercase :: "string \<Rightarrow> string" where
  "to_ascii_uppercase s = map char_upper s"

definition eq_ignore_ascii_case :: "string \<Rightarrow> string \<Rightarrow> bool" where
  "eq_ignore_ascii_case a b = (to_ascii_lowercase a = to_ascii_lowercase b)"

section \<open>Searching and splitting\<close>

text \<open>\<open>split_once\<close>, \<open>rsplit_once\<close> and \<open>split\<close> on one ASCII character.\<close>

fun split_once :: "char \<Rightarrow> string \<Rightarrow> (string \<times> string) option" where
  "split_once c [] = None"
| "split_once c (x # xs) =
     (if x = c then Some ([], xs)
      else case split_once c xs of None \<Rightarrow> None | Some (a, b) \<Rightarrow> Some (x # a, b))"

definition rsplit_once :: "char \<Rightarrow> string \<Rightarrow> (string \<times> string) option" where
  "rsplit_once c s =
     (case split_once c (rev s) of None \<Rightarrow> None | Some (a, b) \<Rightarrow> Some (rev b, rev a))"

fun split_char :: "char \<Rightarrow> string \<Rightarrow> string list" where
  "split_char c [] = [[]]"
| "split_char c (x # xs) =
     (if x = c then [] # split_char c xs
      else case split_char c xs of [] \<Rightarrow> [[x]] | y # ys \<Rightarrow> (x # y) # ys)"

definition starts_with :: "'a list \<Rightarrow> 'a list \<Rightarrow> bool" where
  "starts_with p s = (take (length p) s = p)"

definition ends_with :: "string \<Rightarrow> string \<Rightarrow> bool" where
  "ends_with p s = (length p \<le> length s \<and> drop (length s - length p) s = p)"

definition strip_prefix :: "string \<Rightarrow> string \<Rightarrow> string option" where
  "strip_prefix p s = (if starts_with p s then Some (drop (length p) s) else None)"

text \<open>\<open>find\<close> of a substring: the offset of its first occurrence.\<close>

fun find_sub :: "'a list \<Rightarrow> 'a list \<Rightarrow> nat option" where
  "find_sub p [] = (if p = [] then Some 0 else None)"
| "find_sub p (x # xs) =
     (if starts_with p (x # xs) then Some 0 else map_option Suc (find_sub p xs))"

definition contains_str :: "string \<Rightarrow> string \<Rightarrow> bool" where
  "contains_str p s = (find_sub p s \<noteq> None)"

text \<open>\<open>split\<close> and \<open>split_once\<close> on a non-empty substring.\<close>

definition split_once_str :: "string \<Rightarrow> string \<Rightarrow> (string \<times> string) option" where
  "split_once_str p s =
     (case find_sub p s of None \<Rightarrow> None | Some i \<Rightarrow> Some (take i s, drop (i + length p) s))"

function split_str :: "string \<Rightarrow> string \<Rightarrow> string list" where
  "split_str p s =
     (if p = [] then [s]
      else case find_sub p s of
        None \<Rightarrow> [s]
      | Some i \<Rightarrow> take i s # split_str p (drop (i + length p) s))"
  by pat_completeness auto
termination
proof (relation "measure (\<lambda>(p, s). length s)")
  fix p s :: string and i
  assume p: "p \<noteq> []" and f: "find_sub p s = Some i"
  from p f have "s \<noteq> []" by (cases s) auto
  with p show "((p, drop (i + length p) s), (p, s)) \<in> measure (\<lambda>(p, s). length s)"
    by (cases p) auto
qed simp

text \<open>\<open>replace\<close> of every occurrence of a non-empty substring.\<close>

definition replace_str :: "string \<Rightarrow> string \<Rightarrow> string \<Rightarrow> string" where
  "replace_str p r s = concat (case split_str p s of [] \<Rightarrow> [] | x # xs \<Rightarrow> x # map (\<lambda>y. r @ y) xs)"

fun join_str :: "string \<Rightarrow> string list \<Rightarrow> string" where
  "join_str sep [] = []"
| "join_str sep [x] = x"
| "join_str sep (x # y # ys) = x @ sep @ join_str sep (y # ys)"

section \<open>Trimming\<close>

text \<open>\<open>trim_start_matches\<close>, \<open>trim_end_matches\<close> and \<open>trim_matches\<close> on a set of characters.\<close>

definition trim_start_set :: "char list \<Rightarrow> string \<Rightarrow> string" where
  "trim_start_set cs s = dropWhile (\<lambda>c. c \<in> set cs) s"

definition trim_end_set :: "char list \<Rightarrow> string \<Rightarrow> string" where
  "trim_end_set cs s = rev (dropWhile (\<lambda>c. c \<in> set cs) (rev s))"

definition trim_matches :: "char list \<Rightarrow> string \<Rightarrow> string" where
  "trim_matches cs s = trim_end_set cs (trim_start_set cs s)"

text \<open>
  The byte length of a white-space character at the front of a string, 0 when there is
  none: tab to carriage return, space, U+0085, U+00A0, U+1680, U+2000 to U+200A, U+2028,
  U+2029, U+202F, U+205F and U+3000.
\<close>

definition ascii_ws :: "char \<Rightarrow> bool" where
  "ascii_ws c = ((9 \<le> (of_char c :: nat) \<and> (of_char c :: nat) \<le> 13) \<or> (of_char c :: nat) = 32)"

definition ws2 :: "nat \<Rightarrow> nat \<Rightarrow> bool" where
  "ws2 a b = (a = 0xC2 \<and> (b = 0x85 \<or> b = 0xA0))"

definition ws3 :: "nat \<Rightarrow> nat \<Rightarrow> nat \<Rightarrow> bool" where
  "ws3 a b c =
     (a = 0xE1 \<and> b = 0x9A \<and> c = 0x80 \<or>
      a = 0xE2 \<and> b = 0x80 \<and> (0x80 \<le> c \<and> c \<le> 0x8A \<or> c = 0xA8 \<or> c = 0xA9 \<or> c = 0xAF) \<or>
      a = 0xE2 \<and> b = 0x81 \<and> c = 0x9F \<or>
      a = 0xE3 \<and> b = 0x80 \<and> c = 0x80)"

definition ws_len :: "string \<Rightarrow> nat" where
  "ws_len s =
     (case s of
        [] \<Rightarrow> 0
      | a # as \<Rightarrow>
          if ascii_ws a then 1
          else case as of
            [] \<Rightarrow> 0
          | b # bs \<Rightarrow>
              if ws2 (of_char a) (of_char b) then 2
              else case bs of
                [] \<Rightarrow> 0
              | c # _ \<Rightarrow> if ws3 (of_char a) (of_char b) (of_char c) then 3 else 0)"

text \<open>The same at the end of a string, given reversed.\<close>

definition ws_len_rev :: "string \<Rightarrow> nat" where
  "ws_len_rev s =
     (case s of
        [] \<Rightarrow> 0
      | c # bs \<Rightarrow>
          if ascii_ws c then 1
          else case bs of
            [] \<Rightarrow> 0
          | b # as \<Rightarrow>
              if ws2 (of_char b) (of_char c) then 2
              else case as of
                [] \<Rightarrow> 0
              | a # _ \<Rightarrow> if ws3 (of_char a) (of_char b) (of_char c) then 3 else 0)"

function drop_ws :: "(string \<Rightarrow> nat) \<Rightarrow> string \<Rightarrow> string" where
  "drop_ws f s = (if f s = 0 \<or> s = [] then s else drop_ws f (drop (f s) s))"
  by pat_completeness auto
termination
  by (relation "measure (\<lambda>(f, s). length s)") auto

definition trim_start :: "string \<Rightarrow> string" where
  "trim_start s = drop_ws ws_len s"

definition trim_end :: "string \<Rightarrow> string" where
  "trim_end s = rev (drop_ws ws_len_rev (rev s))"

definition trim :: "string \<Rightarrow> string" where
  "trim s = trim_end (trim_start s)"

text \<open>\<open>split_whitespace\<close>: the non-empty pieces between white space.\<close>

function split_ws_acc :: "string \<Rightarrow> string \<Rightarrow> string list" where
  "split_ws_acc acc s =
     (if s = [] then (if acc = [] then [] else [rev acc])
      else if ws_len s = 0 then split_ws_acc (hd s # acc) (tl s)
      else (if acc = [] then [] else [rev acc]) @ split_ws_acc [] (drop (ws_len s) s))"
  by pat_completeness auto
termination
  by (relation "measure (\<lambda>(acc, s). length s)") auto

definition split_whitespace :: "string \<Rightarrow> string list" where
  "split_whitespace s = split_ws_acc [] s"

section \<open>Numbers\<close>

definition digit_val :: "char \<Rightarrow> nat" where
  "digit_val c = of_char c - 48"

definition dec_value :: "string \<Rightarrow> nat" where
  "dec_value s = foldl (\<lambda>n c. n * 10 + digit_val c) 0 s"

text \<open>
  \<open>u16::from_str\<close> and \<open>u32::from_str\<close>: an optional plus sign, at least one digit,
  and a value in range.
\<close>

definition parse_unsigned :: "nat \<Rightarrow> string \<Rightarrow> nat option" where
  "parse_unsigned bound s =
     (let ds = (case s of [] \<Rightarrow> [] | c # cs \<Rightarrow> if c = CHR ''+'' then cs else s)
      in if ds \<noteq> [] \<and> list_all ascii_digit ds \<and> dec_value ds < bound
         then Some (dec_value ds) else None)"

definition parse_u16 :: "string \<Rightarrow> u16 option" where
  "parse_u16 s = map_option word_of_nat (parse_unsigned 65536 s)"

definition parse_u32 :: "string \<Rightarrow> u32 option" where
  "parse_u32 s = map_option word_of_nat (parse_unsigned 4294967296 s)"

text \<open>\<open>Display\<close> of unsigned integers, decimal and lower-case hexadecimal.\<close>

fun nat_digits :: "nat \<Rightarrow> nat list" where
  "nat_digits n = (if n < 10 then [n] else nat_digits (n div 10) @ [n mod 10])"

definition digit_char :: "nat \<Rightarrow> char" where
  "digit_char d = char_of (48 + d)"

definition nat_str :: "nat \<Rightarrow> string" where
  "nat_str n = map digit_char (nat_digits n)"

definition int_str :: "int \<Rightarrow> string" where
  "int_str i = (if i < 0 then CHR ''-'' # nat_str (nat (- i)) else nat_str (nat i))"

definition hex_char :: "nat \<Rightarrow> char" where
  "hex_char d = (if d < 10 then char_of (48 + d) else char_of (87 + d))"

definition hex_char_upper :: "nat \<Rightarrow> char" where
  "hex_char_upper d = (if d < 10 then char_of (48 + d) else char_of (55 + d))"

fun hex_digits :: "nat \<Rightarrow> nat list" where
  "hex_digits n = (if n < 16 then [n] else hex_digits (n div 16) @ [n mod 16])"

definition hex_str :: "nat \<Rightarrow> string" where
  "hex_str n = map hex_char (hex_digits n)"

text \<open>The format \<open>{:02x}\<close> and \<open>{:02X}\<close> of a byte.\<close>

definition hex2 :: "u8 \<Rightarrow> string" where
  "hex2 b = [hex_char (unat b div 16), hex_char (unat b mod 16)]"

definition hex2_upper :: "u8 \<Rightarrow> string" where
  "hex2_upper b = [hex_char_upper (unat b div 16), hex_char_upper (unat b mod 16)]"

text \<open>The format \<open>{:0w}\<close> of a natural number.\<close>

definition nat_str_pad :: "nat \<Rightarrow> nat \<Rightarrow> string" where
  "nat_str_pad w n = replicate (w - length (nat_str n)) CHR ''0'' @ nat_str n"

section \<open>UTF-8\<close>

definition utf8_cont :: "nat \<Rightarrow> bool" where
  "utf8_cont b = (0x80 \<le> b \<and> b \<le> 0xBF)"

definition utf8_second3 :: "nat \<Rightarrow> nat \<Rightarrow> bool" where
  "utf8_second3 a b =
     (if a = 0xE0 then 0xA0 \<le> b \<and> b \<le> 0xBF
      else if a = 0xED then 0x80 \<le> b \<and> b \<le> 0x9F
      else utf8_cont b)"

definition utf8_second4 :: "nat \<Rightarrow> nat \<Rightarrow> bool" where
  "utf8_second4 a b =
     (if a = 0xF0 then 0x90 \<le> b \<and> b \<le> 0xBF
      else if a = 0xF4 then 0x80 \<le> b \<and> b \<le> 0x8F
      else utf8_cont b)"

text \<open>
  One step of the decoder on a non-empty sequence: whether a well-formed character starts
  here, and how many bytes it, or the maximal ill-formed prefix, takes.
\<close>

definition utf8_step :: "nat \<Rightarrow> nat list \<Rightarrow> bool \<times> nat" where
  "utf8_step a rest =
     (if a < 0x80 then (True, 1)
      else if 0xC2 \<le> a \<and> a \<le> 0xDF then
        (case rest of
           b # _ \<Rightarrow> if utf8_cont b then (True, 2) else (False, 1)
         | [] \<Rightarrow> (False, 1))
      else if 0xE0 \<le> a \<and> a \<le> 0xEF then
        (case rest of
           b # more \<Rightarrow>
             if utf8_second3 a b then
               (case more of c # _ \<Rightarrow> if utf8_cont c then (True, 3) else (False, 2)
                | [] \<Rightarrow> (False, 2))
             else (False, 1)
         | [] \<Rightarrow> (False, 1))
      else if 0xF0 \<le> a \<and> a \<le> 0xF4 then
        (case rest of
           b # more \<Rightarrow>
             if utf8_second4 a b then
               (case more of
                  c # more2 \<Rightarrow>
                    if utf8_cont c then
                      (case more2 of d # _ \<Rightarrow> if utf8_cont d then (True, 4) else (False, 3)
                       | [] \<Rightarrow> (False, 3))
                    else (False, 2)
                | [] \<Rightarrow> (False, 2))
             else (False, 1)
         | [] \<Rightarrow> (False, 1))
      else (False, 1))"

lemma utf8_step_pos: "0 < snd (utf8_step a rest)"
  by (auto simp: utf8_step_def split: list.splits)

function utf8_valid_nat :: "nat list \<Rightarrow> bool" where
  "utf8_valid_nat [] = True"
| "utf8_valid_nat (a # rest) =
     (case utf8_step a rest of (ok, n) \<Rightarrow> ok \<and> utf8_valid_nat (drop (n - 1) rest))"
  by pat_completeness auto
termination
  by (relation "measure length") auto

function utf8_lossy_nat :: "nat list \<Rightarrow> nat list" where
  "utf8_lossy_nat [] = []"
| "utf8_lossy_nat (a # rest) =
     (case utf8_step a rest of (ok, n) \<Rightarrow>
        (if ok then take n (a # rest) else [0xEF, 0xBF, 0xBD]) @
        utf8_lossy_nat (drop (n - 1) rest))"
  by pat_completeness auto
termination
  by (relation "measure length") auto

text \<open>\<open>str::from_utf8\<close> (without its error value) and \<open>String::from_utf8_lossy\<close>.\<close>

definition from_utf8 :: "bytes \<Rightarrow> string option" where
  "from_utf8 bs = (if utf8_valid_nat (map unat bs) then Some (bytes_str bs) else None)"

definition from_utf8_lossy :: "bytes \<Rightarrow> string" where
  "from_utf8_lossy bs = map char_of (utf8_lossy_nat (map unat bs))"

section \<open>Lemmas\<close>

text \<open>Equations whose right side recurs under a test are unfolded by name.\<close>

declare split_str.simps [simp del] drop_ws.simps [simp del] split_ws_acc.simps [simp del]
declare nat_digits.simps [simp del] hex_digits.simps [simp del]

lemma length_str_bytes [simp]: "length (str_bytes s) = length s"
  by (simp add: str_bytes_def)

lemma length_bytes_str [simp]: "length (bytes_str b) = length b"
  by (simp add: bytes_str_def)

lemma bytes_str_str_bytes [simp]: "bytes_str (str_bytes s) = s"
proof -
  have "char_of (unat (word_of_nat (of_char c) :: u8)) = c" for c
  proof -
    have "(of_char c :: nat) mod 256 = of_char c" by (simp add: of_char_mod_256)
    then have "unat (word_of_nat (of_char c) :: u8) = of_char c"
      by (simp only: unat_of_nat_u8)
    then show ?thesis by simp
  qed
  then show ?thesis
    by (induction s) (simp_all add: bytes_str_def str_bytes_def del: of_nat_of_char)
qed

lemma str_bytes_append [simp]: "str_bytes (a @ b) = str_bytes a @ str_bytes b"
  by (simp add: str_bytes_def)

lemma str_bytes_inj: "str_bytes a = str_bytes b \<Longrightarrow> a = b"
  by (metis bytes_str_str_bytes)

lemma split_once_None_iff: "split_once c s = None \<longleftrightarrow> c \<notin> set s"
  by (induction s) (auto split: option.splits)

lemma split_once_Some: "split_once c s = Some (a, b) \<longleftrightarrow> s = a @ c # b \<and> c \<notin> set a"
proof (induction s arbitrary: a)
  case Nil
  then show ?case by simp
next
  case (Cons x xs)
  have "split_once c (x # xs) = Some (a, b) \<longleftrightarrow>
    (if x = c then a = [] \<and> b = xs else \<exists>a'. split_once c xs = Some (a', b) \<and> a = x # a')"
    by (auto split: option.splits)
  then show ?case
    by (cases a) (simp_all add: Cons.IH, auto)
qed

lemma split_once_append [simp]: "c \<notin> set a \<Longrightarrow> split_once c (a @ c # b) = Some (a, b)"
  by (simp add: split_once_Some)

lemma rsplit_once_None_iff: "rsplit_once c s = None \<longleftrightarrow> c \<notin> set s"
  using split_once_None_iff [of c "rev s"] by (auto simp: rsplit_once_def split: option.splits)

lemma rsplit_once_Some: "rsplit_once c s = Some (a, b) \<longleftrightarrow> s = a @ c # b \<and> c \<notin> set b"
proof -
  have "rsplit_once c s = Some (a, b) \<longleftrightarrow> split_once c (rev s) = Some (rev b, rev a)"
    by (auto simp: rsplit_once_def split: option.splits)
  also have "\<dots> \<longleftrightarrow> rev s = rev b @ c # rev a \<and> c \<notin> set b"
    by (simp add: split_once_Some)
  also have "rev s = rev b @ c # rev a \<longleftrightarrow> s = a @ c # b"
    by (metis append.assoc append_Cons append_Nil rev_append rev_rev_ident rev.simps)
  finally show ?thesis .
qed

lemma rsplit_once_append [simp]: "c \<notin> set b \<Longrightarrow> rsplit_once c (a @ c # b) = Some (a, b)"
  by (simp add: rsplit_once_Some)

lemma starts_with_iff: "starts_with p s \<longleftrightarrow> (\<exists>r. s = p @ r)"
  by (auto simp: starts_with_def) (metis append_take_drop_id)

lemma ends_with_iff: "ends_with p s \<longleftrightarrow> (\<exists>r. s = r @ p)"
proof
  assume "ends_with p s"
  then show "\<exists>r. s = r @ p"
    unfolding ends_with_def by (metis append_take_drop_id)
qed (auto simp: ends_with_def)

lemma find_sub_Some:
  "find_sub p s = Some i \<Longrightarrow> \<exists>b. s = take i s @ p @ b \<and> i + length p \<le> length s"
proof (induction s arbitrary: i)
  case Nil
  then show ?case by (simp split: if_splits)
next
  case (Cons x xs)
  show ?case
  proof (cases "starts_with p (x # xs)")
    case True
    with Cons.prems obtain r where "i = 0" "x # xs = p @ r"
      by (auto simp: starts_with_iff)
    then show ?thesis
      by (metis append_Nil length_append le_add1 take0 add_0)
  next
    case False
    with Cons.prems obtain j where "find_sub p xs = Some j" "i = Suc j" by auto
    with Cons.IH show ?thesis by fastforce
  qed
qed

lemma contains_str_iff: "contains_str p s \<longleftrightarrow> (\<exists>a b. s = a @ p @ b)"
proof
  assume "contains_str p s"
  then show "\<exists>a b. s = a @ p @ b"
    unfolding contains_str_def using find_sub_Some by blast
next
  assume "\<exists>a b. s = a @ p @ b"
  then obtain a b where "s = a @ p @ b" by blast
  moreover have "find_sub p (a @ p @ b) \<noteq> None"
  proof (induction a)
    case Nil
    have "starts_with p (p @ b)" by (auto simp: starts_with_iff)
    then show ?case
      by (cases "p @ b") auto
  qed auto
  ultimately show "contains_str p s" by (simp add: contains_str_def)
qed

lemma to_ascii_lowercase_append [simp]:
  "to_ascii_lowercase (a @ b) = to_ascii_lowercase a @ to_ascii_lowercase b"
  by (simp add: to_ascii_lowercase_def)

lemma length_to_ascii_lowercase [simp]: "length (to_ascii_lowercase s) = length s"
  by (simp add: to_ascii_lowercase_def)

lemma char_lower_idem [simp]: "char_lower (char_lower c) = char_lower c"
proof (cases "ascii_upper c")
  case True
  then have "of_char (char_of (of_char c + 32 :: nat)) = (of_char c + 32 :: nat)"
    by (simp add: ascii_upper_def of_char_of)
  with True show ?thesis
    by (simp add: char_lower_def ascii_upper_def)
qed (simp add: char_lower_def)

lemma to_ascii_lowercase_idem [simp]:
  "to_ascii_lowercase (to_ascii_lowercase s) = to_ascii_lowercase s"
  by (simp add: to_ascii_lowercase_def)

lemma eq_ignore_ascii_case_refl [simp]: "eq_ignore_ascii_case a a"
  by (simp add: eq_ignore_ascii_case_def)

text \<open>Printable ASCII text has nothing to trim.\<close>

definition printable :: "char \<Rightarrow> bool" where
  "printable c = (32 < (of_char c :: nat) \<and> (of_char c :: nat) < 127)"

lemma ws_len_printable [simp]:
  "printable c \<Longrightarrow> ws_len (c # s) = 0" "printable c \<Longrightarrow> ws_len_rev (c # s) = 0"
  by (auto simp: printable_def ws_len_def ws_len_rev_def ascii_ws_def ws2_def ws3_def
      split: list.splits)

lemma drop_ws_none: "f s = 0 \<or> s = [] \<Longrightarrow> drop_ws f s = s"
  by (subst drop_ws.simps) simp

lemma trim_printable:
  assumes "\<And>c. c \<in> set s \<Longrightarrow> printable c"
  shows "trim s = s"
proof -
  have "trim_start s = s"
    unfolding trim_start_def by (rule drop_ws_none) (cases s; simp add: assms)
  moreover have "drop_ws ws_len_rev (rev s) = rev s"
  proof (rule drop_ws_none)
    show "ws_len_rev (rev s) = 0 \<or> rev s = []"
      using assms by (cases s rule: rev_cases) auto
  qed
  ultimately show ?thesis by (simp add: trim_def trim_end_def)
qed

lemma trim_matches_none:
  assumes "\<And>c. c \<in> set s \<Longrightarrow> c \<notin> set cs"
  shows "trim_matches cs s = s"
proof -
  have 1: "dropWhile (\<lambda>c. c \<in> set cs) s = s"
    using assms by (cases s) auto
  have 2: "dropWhile (\<lambda>c. c \<in> set cs) (rev s) = rev s"
    using assms by (cases s rule: rev_cases) auto
  show ?thesis by (simp only: trim_matches_def trim_start_set_def trim_end_set_def 1 2 rev_rev_ident)
qed

lemma trim_matches_idem: "trim_matches cs (trim_matches cs s) = trim_matches cs s"
proof -
  let ?P = "\<lambda>c. c \<in> set cs"
  define t where "t = dropWhile ?P s"
  have m: "trim_matches cs s = rev (dropWhile ?P (rev t))"
    by (simp add: trim_matches_def trim_start_set_def trim_end_set_def t_def)
  have "dropWhile ?P (rev (dropWhile ?P (rev t))) = rev (dropWhile ?P (rev t))"
  proof (cases "dropWhile ?P (rev t)" rule: rev_cases)
    case (snoc ys y)
    have "rev t = takeWhile ?P (rev t) @ ys @ [y]" by (metis snoc takeWhile_dropWhile_id)
    then have "t = y # rev ys @ rev (takeWhile ?P (rev t))"
      by (metis append_Cons append_assoc append_eq_append_conv2 rev.simps(2) rev_append rev_rev_ident
          rev_singleton_conv self_append_conv2 singleton_rev_conv append_Nil)
    then have "t \<noteq> []" "hd t = y" by (metis list.distinct(1)) (metis \<open>t = y # _\<close> list.sel(1))
    then have "\<not> ?P y" using hd_dropWhile [of ?P s] t_def by metis
    with snoc show ?thesis by simp
  next
    case Nil
    show ?thesis by (simp only: Nil rev.simps dropWhile.simps)
  qed
  then show ?thesis by (simp add: trim_matches_def trim_start_set_def trim_end_set_def flip: t_def)
qed

lemma sep_inject:
  assumes "(c :: char) \<notin> set a" and "c \<notin> set a'"
  shows "a @ c # b = a' @ c # b' \<longleftrightarrow> a = a' \<and> b = b'"
proof
  assume "a @ c # b = a' @ c # b'"
  then have "Some (a, b) = Some (a', b')"
    using split_once_append [OF assms(1), of b] split_once_append [OF assms(2), of b'] by metis
  then show "a = a' \<and> b = b'" by blast
qed simp

end
