(* ===== verification/Rust_Net.thy ===== *)
theory Rust_Net
  imports Rust_Str
begin

text \<open>
  \<open>std::net\<close> as the sources use it: \<open>Ipv4Addr\<close> is its 32-bit value, \<open>Ipv6Addr\<close>
  its eight 16-bit groups, and \<open>FromStr\<close>/\<open>Display\<close> follow the standard library's
  address parser and formatter. The round trip of \<open>Ipv4Addr\<close> is what makes routing by
  the printed destination of a packet correct.
\<close>

type_synonym Ipv4Addr = "32 word"
type_synonym Ipv6Addr = "16 word list"

datatype IpAddr = V4 Ipv4Addr | V6 Ipv6Addr

type_synonym SocketAddr = "IpAddr \<times> u16"

definition ipv4_new :: "u8 \<Rightarrow> u8 \<Rightarrow> u8 \<Rightarrow> u8 \<Rightarrow> Ipv4Addr" where
  "ipv4_new a b c d = u32_from_be_bytes a b c d"

definition octets :: "Ipv4Addr \<Rightarrow> bytes" where
  "octets ip = u32_to_be_bytes ip"

section \<open>The address parser\<close>

text \<open>
  \<open>read_number\<close>: the longest run of digits of the radix, refused when it is empty, has
  more than the allowed digits, has a leading zero where none is allowed, or overflows.
\<close>

definition radix_digit :: "nat \<Rightarrow> char \<Rightarrow> nat option" where
  "radix_digit radix c =
     (let n = (of_char c :: nat) in
      if 48 \<le> n \<and> n \<le> 57 \<and> n - 48 < radix then Some (n - 48)
      else if 65 \<le> n \<and> n \<le> 90 \<and> n - 55 < radix then Some (n - 55)
      else if 97 \<le> n \<and> n \<le> 122 \<and> n - 87 < radix then Some (n - 87)
      else None)"

fun take_digits :: "nat \<Rightarrow> string \<Rightarrow> nat list \<times> string" where
  "take_digits radix [] = ([], [])"
| "take_digits radix (c # cs) =
     (case radix_digit radix c of
        None \<Rightarrow> ([], c # cs)
      | Some d \<Rightarrow> (case take_digits radix cs of (ds, rest) \<Rightarrow> (d # ds, rest)))"

definition digits_value :: "nat \<Rightarrow> nat list \<Rightarrow> nat" where
  "digits_value radix ds = foldl (\<lambda>n d. n * radix + d) 0 ds"

definition read_number ::
  "nat \<Rightarrow> nat option \<Rightarrow> bool \<Rightarrow> nat \<Rightarrow> string \<Rightarrow> (nat \<times> string) option" where
  "read_number radix max_digits allow_zero_prefix bound s =
     (case take_digits radix s of (ds, rest) \<Rightarrow>
        if ds = [] \<or> (case max_digits of None \<Rightarrow> False | Some m \<Rightarrow> m < length ds) \<or>
           (\<not> allow_zero_prefix \<and> hd ds = 0 \<and> 1 < length ds) \<or>
           bound \<le> digits_value radix ds
        then None else Some (digits_value radix ds, rest))"

definition read_given_char :: "char \<Rightarrow> string \<Rightarrow> (unit \<times> string) option" where
  "read_given_char c s = (case s of x # xs \<Rightarrow> if x = c then Some ((), xs) else None | [] \<Rightarrow> None)"

definition read_octet :: "string \<Rightarrow> (nat \<times> string) option" where
  "read_octet s = read_number 10 (Some 3) False 256 s"

definition read_ipv4_addr :: "string \<Rightarrow> (Ipv4Addr \<times> string) option" where
  "read_ipv4_addr s0 = do {
     (a, s1) \<leftarrow> read_octet s0; (_, s2) \<leftarrow> read_given_char CHR ''.'' s1;
     (b, s3) \<leftarrow> read_octet s2; (_, s4) \<leftarrow> read_given_char CHR ''.'' s3;
     (c, s5) \<leftarrow> read_octet s4; (_, s6) \<leftarrow> read_given_char CHR ''.'' s5;
     (d, s7) \<leftarrow> read_octet s6;
     Some (ipv4_new (word_of_nat a) (word_of_nat b) (word_of_nat c) (word_of_nat d), s7)
   }"

definition read_separator :: "nat \<Rightarrow> (string \<Rightarrow> ('a \<times> string) option) \<Rightarrow> string \<Rightarrow> ('a \<times> string) option" where
  "read_separator index inner s =
     (if index = 0 then inner s
      else case read_given_char CHR '':'' s of None \<Rightarrow> None | Some (_, s') \<Rightarrow> inner s')"

definition ipv4_groups :: "Ipv4Addr \<Rightarrow> u16 list" where
  "ipv4_groups ip = [word_of_nat (unat ip div 65536), word_of_nat (unat ip mod 65536)]"

text \<open>
  \<open>read_groups\<close> with \<open>k\<close> groups left to read, starting at group \<open>i\<close>: the groups,
  whether the last two come from an embedded IPv4 address, and the rest.
\<close>

fun read_groups :: "nat \<Rightarrow> nat \<Rightarrow> string \<Rightarrow> u16 list \<times> bool \<times> string" where
  "read_groups i 0 s = ([], False, s)"
| "read_groups i (Suc k) s =
     (case (if 0 < k then read_separator i read_ipv4_addr s else None) of
        Some (ip, s') \<Rightarrow> (ipv4_groups ip, True, s')
      | None \<Rightarrow>
          (case read_separator i (read_number 16 (Some 4) True 65536) s of
             None \<Rightarrow> ([], False, s)
           | Some (g, s') \<Rightarrow>
               (case read_groups (Suc i) k s' of (gs, b, s'') \<Rightarrow> (word_of_nat g # gs, b, s''))))"

definition read_ipv6_addr :: "string \<Rightarrow> (Ipv6Addr \<times> string) option" where
  "read_ipv6_addr s =
     (case read_groups 0 8 s of (head, head_ipv4, s1) \<Rightarrow>
        if length head = 8 then Some (head, s1)
        else if head_ipv4 then None
        else do {
          (_, s2) \<leftarrow> read_given_char CHR '':'' s1;
          (_, s3) \<leftarrow> read_given_char CHR '':'' s2;
          let (tail, _, s4) = read_groups 0 (7 - length head) s3;
          Some (head @ replicate (8 - length head - length tail) 0 @ tail, s4)
        })"

definition parse_all :: "(string \<Rightarrow> ('a \<times> string) option) \<Rightarrow> string \<Rightarrow> 'a option" where
  "parse_all p s = (case p s of Some (a, []) \<Rightarrow> Some a | _ \<Rightarrow> None)"

definition parse_ipv4 :: "string \<Rightarrow> Ipv4Addr option" where
  "parse_ipv4 s = (if 15 < length s then None else parse_all read_ipv4_addr s)"

definition parse_ipv6 :: "string \<Rightarrow> Ipv6Addr option" where
  "parse_ipv6 s = parse_all read_ipv6_addr s"

definition read_ip_addr :: "string \<Rightarrow> (IpAddr \<times> string) option" where
  "read_ip_addr s =
     (case read_ipv4_addr s of
        Some (ip, r) \<Rightarrow> Some (V4 ip, r)
      | None \<Rightarrow> (case read_ipv6_addr s of Some (ip, r) \<Rightarrow> Some (V6 ip, r) | None \<Rightarrow> None))"

definition parse_ip :: "string \<Rightarrow> IpAddr option" where
  "parse_ip s = parse_all read_ip_addr s"

definition read_port :: "string \<Rightarrow> (nat \<times> string) option" where
  "read_port s =
     (case read_given_char CHR '':'' s of
        None \<Rightarrow> None | Some (_, r) \<Rightarrow> read_number 10 None True 65536 r)"

definition read_scope_id :: "string \<Rightarrow> string" where
  "read_scope_id s =
     (case read_given_char CHR ''%'' s of
        None \<Rightarrow> s
      | Some (_, r) \<Rightarrow>
          (case read_number 10 None True 4294967296 r of None \<Rightarrow> s | Some (_, r') \<Rightarrow> r'))"

definition read_socket_addr :: "string \<Rightarrow> (SocketAddr \<times> string) option" where
  "read_socket_addr s =
     (case do { (ip, r) \<leftarrow> read_ipv4_addr s; (p, r') \<leftarrow> read_port r; Some ((V4 ip, word_of_nat p), r') } of
        Some v \<Rightarrow> Some v
      | None \<Rightarrow> do {
          (_, s1) \<leftarrow> read_given_char CHR ''['' s;
          (ip, s2) \<leftarrow> read_ipv6_addr s1;
          (_, s3) \<leftarrow> read_given_char CHR '']'' (read_scope_id s2);
          (p, s4) \<leftarrow> read_port s3;
          Some ((V6 ip, word_of_nat p), s4)
        })"

definition parse_socket_addr :: "string \<Rightarrow> SocketAddr option" where
  "parse_socket_addr s = parse_all read_socket_addr s"

section \<open>Display\<close>

definition show_ipv4 :: "Ipv4Addr \<Rightarrow> string" where
  "show_ipv4 ip = join_str ''.'' (map (\<lambda>b. nat_str (unat b)) (octets ip))"

text \<open>The longest run of zero groups: its start and length, the first one on ties.\<close>

fun longest_zeros :: "nat \<Rightarrow> u16 list \<Rightarrow> nat \<times> nat \<Rightarrow> nat \<times> nat \<Rightarrow> nat \<times> nat" where
  "longest_zeros i [] cur best = best"
| "longest_zeros i (g # gs) cur best =
     (if g = 0 then
        (let cur' = (if snd cur = 0 then i else fst cur, Suc (snd cur))
         in longest_zeros (Suc i) gs cur' (if snd best < snd cur' then cur' else best))
      else longest_zeros (Suc i) gs (0, 0) best)"

definition show_groups :: "u16 list \<Rightarrow> string" where
  "show_groups gs = join_str '':'' (map (\<lambda>g. hex_str (unat g)) gs)"

definition show_ipv6 :: "Ipv6Addr \<Rightarrow> string" where
  "show_ipv6 ip =
     (if take 6 ip = [0, 0, 0, 0, 0, 0xFFFF] then
        ''::ffff:'' @ show_ipv4 (word_of_nat (unat (ip ! 6) * 65536 + unat (ip ! 7)))
      else case longest_zeros 0 ip (0, 0) (0, 0) of (start, len) \<Rightarrow>
        if 1 < len then show_groups (take start ip) @ ''::'' @ show_groups (drop (start + len) ip)
        else show_groups ip)"

definition show_ip :: "IpAddr \<Rightarrow> string" where
  "show_ip ip = (case ip of V4 a \<Rightarrow> show_ipv4 a | V6 a \<Rightarrow> show_ipv6 a)"

section \<open>Lemmas\<close>

lemma octets_ipv4_new [simp]: "octets (ipv4_new a b c d) = [a, b, c, d]"
  by (simp add: octets_def ipv4_new_def)

lemma length_octets [simp]: "length (octets ip) = 4"
  by (simp add: octets_def)

lemma octets_cases: "\<exists>a b c d. octets ip = [a, b, c, d] \<and> ip = ipv4_new a b c d"
proof -
  have "ip = ipv4_new (word_of_nat (unat ip div 16777216)) (word_of_nat (unat ip div 65536))
     (word_of_nat (unat ip div 256)) (word_of_nat (unat ip))"
    unfolding ipv4_new_def by (rule u32_from_to_be_bytes [symmetric])
  then show ?thesis
    unfolding octets_def u32_to_be_bytes_def by blast
qed

lemma octets_inj: "octets a = octets b \<longleftrightarrow> a = b"
proof
  assume "octets a = octets b"
  moreover obtain p q r s where "octets a = [p, q, r, s]" and a: "a = ipv4_new p q r s"
    using octets_cases by blast
  moreover obtain p' q' r' s' where "octets b = [p', q', r', s']" and b: "b = ipv4_new p' q' r' s'"
    using octets_cases by blast
  ultimately show "a = b" by simp
qed simp

subsection \<open>Decimal numbers\<close>

lemma nat_digits_less_10: "d \<in> set (nat_digits n) \<Longrightarrow> d < 10"
proof (induction n rule: nat_digits.induct)
  case (1 n)
  then show ?case
    by (subst (asm) (2) nat_digits.simps) (auto split: if_splits)
qed

lemma nat_digits_nonempty [simp]: "nat_digits n \<noteq> []"
  by (subst nat_digits.simps) simp

lemma digits_value_append: "digits_value r (xs @ [d]) = digits_value r xs * r + d"
  by (simp add: digits_value_def)

lemma digits_value_nat_digits: "digits_value 10 (nat_digits n) = n"
proof (induction n rule: nat_digits.induct)
  case (1 n)
  show ?case
  proof (cases "n < 10")
    case True
    then show ?thesis by (simp add: nat_digits.simps [of n] digits_value_def)
  next
    case False
    with 1 have "digits_value 10 (nat_digits (n div 10)) = n div 10" by simp
    with False show ?thesis
      by (simp add: nat_digits.simps [of n] digits_value_append)
  qed
qed

lemma nat_digits_hd_zero: "hd (nat_digits n) = 0 \<longleftrightarrow> n = 0"
proof (induction n rule: nat_digits.induct)
  case (1 n)
  then show ?case
    by (simp add: nat_digits.simps [of n] div_eq_0_iff)
qed

lemma length_nat_digits_0 [simp]: "nat_digits 0 = [0]"
  by (simp add: nat_digits.simps)

lemma length_nat_digits_le3: "n < 1000 \<Longrightarrow> length (nat_digits n) \<le> 3"
proof -
  assume "n < 1000"
  then have "n div 10 div 10 < 10" by simp
  then show ?thesis
    using nat_digits.simps [of n] nat_digits.simps [of "n div 10"] nat_digits.simps [of "n div 10 div 10"]
    by simp
qed

lemma length_nat_digits_u8: "length (nat_digits (unat (b :: u8))) \<le> 3"
proof -
  have "unat b < 1000" using unat_u8_less [of b] by linarith
  then show ?thesis by (rule length_nat_digits_le3)
qed

lemma radix_digit_digit_char: "d < 10 \<Longrightarrow> radix_digit 10 (digit_char d) = Some d"
  by (simp add: radix_digit_def digit_char_def)

lemma take_digits_map:
  assumes "\<And>d. d \<in> set ds \<Longrightarrow> d < 10"
    and "case rest of [] \<Rightarrow> True | c # _ \<Rightarrow> radix_digit 10 c = None"
  shows "take_digits 10 (map digit_char ds @ rest) = (ds, rest)"
  using assms(1)
proof (induction ds)
  case Nil
  with assms(2) show ?case by (cases rest) auto
next
  case (Cons d ds)
  then show ?case by (simp add: radix_digit_digit_char)
qed

lemma read_number_nat_str:
  assumes rest: "case rest of [] \<Rightarrow> True | c # _ \<Rightarrow> radix_digit 10 c = None"
    and "n < bound"
    and "case m of None \<Rightarrow> True | Some k \<Rightarrow> length (nat_digits n) \<le> k"
  shows "read_number 10 m z bound (nat_str n @ rest) = Some (n, rest)"
proof -
  have "take_digits 10 (nat_str n @ rest) = (nat_digits n, rest)"
    unfolding nat_str_def by (rule take_digits_map [OF nat_digits_less_10 rest])
  moreover have "\<not> (hd (nat_digits n) = 0 \<and> 1 < length (nat_digits n))"
    using nat_digits_hd_zero [of n] by (cases "n = 0") simp_all
  ultimately show ?thesis
    using assms(2,3)
    by (auto simp: read_number_def digits_value_nat_digits split: option.splits)
qed

lemma radix_digit_punct [simp]:
  "radix_digit 10 CHR ''.'' = None" "radix_digit 10 CHR '':'' = None" "radix_digit 10 CHR ''-'' = None"
  by (simp_all add: radix_digit_def)

lemma read_octet_show:
  assumes "case rest of [] \<Rightarrow> True | c # _ \<Rightarrow> radix_digit 10 c = None"
  shows "read_octet (nat_str (unat (b :: u8)) @ rest) = Some (unat b, rest)"
  unfolding read_octet_def
  by (intro read_number_nat_str assms) (simp_all add: length_nat_digits_u8)

lemma show_ipv4_new:
  "show_ipv4 (ipv4_new a b c d) =
     nat_str (unat a) @ ''.'' @ nat_str (unat b) @ ''.'' @ nat_str (unat c) @ ''.'' @ nat_str (unat d)"
  by (simp add: show_ipv4_def)

lemma read_ipv4_addr_show:
  assumes "case rest of [] \<Rightarrow> True | c # _ \<Rightarrow> radix_digit 10 c = None"
  shows "read_ipv4_addr (show_ipv4 ip @ rest) = Some (ip, rest)"
proof -
  obtain a b c d where ip: "ip = ipv4_new a b c d"
    using octets_cases by blast
  show ?thesis
    unfolding ip show_ipv4_new read_ipv4_addr_def append_assoc
    by (simp add: read_octet_show read_given_char_def assms)
qed

lemma length_nat_str_u8: "length (nat_str (unat (b :: u8))) \<le> 3"
  by (simp add: nat_str_def length_nat_digits_u8)

lemma length_show_ipv4: "length (show_ipv4 ip) \<le> 15"
proof -
  obtain a b c d where "ip = ipv4_new a b c d"
    using octets_cases by blast
  then show ?thesis
    using length_nat_str_u8 [of a] length_nat_str_u8 [of b] length_nat_str_u8 [of c]
      length_nat_str_u8 [of d]
    by (simp add: show_ipv4_new)
qed

text \<open>Printing an IPv4 address and parsing it gives the address back.\<close>

lemma parse_show_ipv4 [simp]: "parse_ipv4 (show_ipv4 ip) = Some ip"
  using read_ipv4_addr_show [of "[]" ip] length_show_ipv4 [of ip]
  by (simp add: parse_ipv4_def parse_all_def)

lemma show_ipv4_inj: "show_ipv4 a = show_ipv4 b \<longleftrightarrow> a = b"
  by (metis parse_show_ipv4 option.inject)

lemma nat_str_chars: "c \<in> set (nat_str n) \<Longrightarrow> ascii_digit c"
  using nat_digits_less_10 by (fastforce simp: nat_str_def digit_char_def ascii_digit_def)

lemma show_ipv4_chars: "c \<in> set (show_ipv4 ip) \<Longrightarrow> ascii_digit c \<or> c = CHR ''.''"
proof -
  assume "c \<in> set (show_ipv4 ip)"
  moreover obtain w x y z where "ip = ipv4_new w x y z"
    using octets_cases by blast
  ultimately show ?thesis
    by (auto simp: show_ipv4_new dest: nat_str_chars)
qed

lemma show_ipv4_printable: "c \<in> set (show_ipv4 ip) \<Longrightarrow> printable c"
  using show_ipv4_chars [of c ip] by (auto simp: printable_def ascii_digit_def)

lemma trim_show_ipv4 [simp]: "trim (show_ipv4 ip) = show_ipv4 ip"
  by (rule trim_printable) (rule show_ipv4_printable)

lemma trim_brackets_show_ipv4 [simp]: "trim_matches ''[]'' (show_ipv4 ip) = show_ipv4 ip"
proof (rule trim_matches_none)
  fix c assume "c \<in> set (show_ipv4 ip)"
  then show "c \<notin> set ''[]''" using show_ipv4_chars [of c ip] by (auto simp: ascii_digit_def)
qed

text \<open>A dotted quad is never an IPv6 literal.\<close>

lemma parse_ipv6_show_ipv4 [simp]: "parse_ipv6 (show_ipv4 ip) = None"
proof -
  have r: "read_ipv4_addr (show_ipv4 ip) = Some (ip, [])"
    using read_ipv4_addr_show [of "[]" ip] by simp
  have "read_groups 0 8 (show_ipv4 ip) = (ipv4_groups ip, True, [])"
    by (simp add: eval_nat_numeral read_separator_def r)
  then show ?thesis by (simp add: parse_ipv6_def parse_all_def read_ipv6_addr_def ipv4_groups_def)
qed

lemma digit_char_inj: "m < 10 \<Longrightarrow> n < 10 \<Longrightarrow> digit_char m = digit_char n \<Longrightarrow> m = n"
  by (metis option.inject radix_digit_digit_char)

lemma nat_str_inj: "nat_str m = nat_str n \<longleftrightarrow> m = n"
proof
  assume "nat_str m = nat_str n"
  moreover have "inj_on digit_char (set (nat_digits m) \<union> set (nat_digits n))"
  proof (rule inj_onI)
    fix x y
    assume "x \<in> set (nat_digits m) \<union> set (nat_digits n)" "y \<in> set (nat_digits m) \<union> set (nat_digits n)"
      and e: "digit_char x = digit_char y"
    then have "x < 10" "y < 10" using nat_digits_less_10 by blast+
    with e show "x = y" by (intro digit_char_inj)
  qed
  ultimately have "nat_digits m = nat_digits n"
    by (simp add: nat_str_def inj_on_map_eq_map)
  then show "m = n" by (metis digits_value_nat_digits)
qed simp

lemma nat_str_punct: "CHR '':'' \<notin> set (nat_str n)" "CHR ''-'' \<notin> set (nat_str n)"
  using nat_str_chars [of "CHR '':''" n] nat_str_chars [of "CHR ''-''" n] by (auto simp: ascii_digit_def)

lemma show_ipv4_punct: "CHR '':'' \<notin> set (show_ipv4 ip)" "CHR ''-'' \<notin> set (show_ipv4 ip)"
  using show_ipv4_chars [of "CHR '':''" ip] show_ipv4_chars [of "CHR ''-''" ip]
  by (auto simp: ascii_digit_def)

end
