(* ===== verification/Types.thy ===== *)
theory Types
  imports Rust_Net
begin

text \<open>
  The public data types (types.rs) and errors (error.rs) of libreatrust-core. Errors carry
  their message; the C error codes and the display text are the ones the FFI layer exposes.
\<close>

section \<open>Errors (error.rs)\<close>

datatype AtrError =
    InvalidArgument string
  | ParseFailed string
  | NetworkFailed string
  | Unauthorized string
  | ChallengeRequired string
  | InvalidState string
  | CryptoFailed string
  | NotFound string
  | Unsupported string
  | Internal string

datatype ErrorCode =
    CodeOk
  | CodeInvalidArgument
  | CodeParseFailed
  | CodeNetworkFailed
  | CodeUnauthorized
  | CodeChallengeRequired
  | CodeInvalidState
  | CodeCryptoFailed
  | CodeNotFound
  | CodeUnsupported
  | CodeInternal

text \<open>The \<open>repr(i32)\<close> discriminants.\<close>

fun error_code_i32 :: "ErrorCode \<Rightarrow> int" where
  "error_code_i32 CodeOk = 0"
| "error_code_i32 CodeInvalidArgument = 1"
| "error_code_i32 CodeParseFailed = 2"
| "error_code_i32 CodeNetworkFailed = 3"
| "error_code_i32 CodeUnauthorized = 4"
| "error_code_i32 CodeChallengeRequired = 5"
| "error_code_i32 CodeInvalidState = 6"
| "error_code_i32 CodeCryptoFailed = 7"
| "error_code_i32 CodeNotFound = 8"
| "error_code_i32 CodeUnsupported = 9"
| "error_code_i32 CodeInternal = 255"

fun code :: "AtrError \<Rightarrow> ErrorCode" where
  "code (InvalidArgument _) = CodeInvalidArgument"
| "code (ParseFailed _) = CodeParseFailed"
| "code (NetworkFailed _) = CodeNetworkFailed"
| "code (Unauthorized _) = CodeUnauthorized"
| "code (ChallengeRequired _) = CodeChallengeRequired"
| "code (InvalidState _) = CodeInvalidState"
| "code (CryptoFailed _) = CodeCryptoFailed"
| "code (NotFound _) = CodeNotFound"
| "code (Unsupported _) = CodeUnsupported"
| "code (Internal _) = CodeInternal"

text \<open>The \<open>Display\<close> text (\<open>to_string\<close>).\<close>

fun error_display :: "AtrError \<Rightarrow> string" where
  "error_display (InvalidArgument m) = ''invalid argument: '' @ m"
| "error_display (ParseFailed m) = ''parse failed: '' @ m"
| "error_display (NetworkFailed m) = ''network failed: '' @ m"
| "error_display (Unauthorized m) = ''unauthorized: '' @ m"
| "error_display (ChallengeRequired m) = ''challenge required: '' @ m"
| "error_display (InvalidState m) = ''invalid state: '' @ m"
| "error_display (CryptoFailed m) = ''crypto failed: '' @ m"
| "error_display (NotFound m) = ''not found: '' @ m"
| "error_display (Unsupported m) = ''unsupported: '' @ m"
| "error_display (Internal m) = ''internal error: '' @ m"

text \<open>
  An \<open>io::Error\<close> is its kind and text; \<open>AtrError::from\<close> keeps the text. The other
  conversions take the text of the foreign error.
\<close>

datatype ErrorKind = WouldBlock | TimedOut | Interrupted | OtherKind

type_synonym io_error = "ErrorKind \<times> string"

definition from_io_error :: "io_error \<Rightarrow> AtrError" where
  "from_io_error err = NetworkFailed (snd err)"

definition from_reqwest_error :: "string \<Rightarrow> AtrError" where
  "from_reqwest_error text = NetworkFailed text"

definition from_serde_error :: "string \<Rightarrow> AtrError" where
  "from_serde_error text = ParseFailed text"

definition from_url_error :: "string \<Rightarrow> AtrError" where
  "from_url_error text = ParseFailed text"

definition from_rsa_error :: "string \<Rightarrow> AtrError" where
  "from_rsa_error text = CryptoFailed text"

section \<open>Configuration and session data (types.rs)\<close>

record ClientConfig =
  server_host :: string
  server_port :: u16
  user_agent :: string
  connect_timeout_ms :: u64
  io_timeout_ms :: u64
  node_probe_timeout_ms :: u64
  allow_insecure_tls :: bool
  bind_interface :: "string option"
  auto_detect_interface :: bool

definition default_client_config :: ClientConfig where
  "default_client_config =
     \<lparr>server_host = [], server_port = 443, user_agent = ''Mozilla/5.0'',
      connect_timeout_ms = 20000, io_timeout_ms = 20000, node_probe_timeout_ms = 3000,
      allow_insecure_tls = False, bind_interface = None, auto_detect_interface = True\<rparr>"

record CookieRecord =
  ck_host :: string
  ck_scheme :: string
  ck_name :: string
  ck_value :: string

record SessionMaterial =
  sm_username :: string
  sm_sid :: string
  sm_device_id :: string
  sm_connection_id :: string
  sm_sign_key_hex :: string
  sm_cookies :: "CookieRecord list"

record AuthConfig =
  ac_server_host :: string
  ac_server_port :: u16
  ac_user_agent :: string
  ac_client_type :: string
  ac_platform :: string
  ac_login_domain :: string
  ac_preferred_auth_type :: "string option"
  ac_io_timeout_ms :: u64
  ac_allow_insecure_tls :: bool

record AuthMethodInfo =
  am_login_domain :: string
  am_auth_type :: string
  am_auth_name :: string
  am_login_url :: string

record PasswordLoginInput =
  pl_username :: string
  pl_password :: string
  pl_login_domain :: string

record SmsLoginInput =
  sl_phone :: string
  sl_login_domain :: string

record CallbackTarget =
  callback_url :: string

datatype AuthChallengeKind = KindCaptcha | KindSmsCode | KindCallbackUrl

datatype AuthChallenge =
    NeedCaptcha bytes
  | NeedSmsCode string
  | NeedCallbackUrl string AuthChallengeKind
  | ChallengeDone SessionMaterial

datatype ProtocolKind = Tcp | Udp | Icmp

record RouteHit =
  app_id :: string
  node_group_id :: string

datatype RouteDecision = Direct | Managed RouteHit

text \<open>
  The platform name, from \<open>std::env::consts::OS\<close>; types.rs and transport.rs hold the
  same table.
\<close>

definition default_platform_name :: "string \<Rightarrow> string" where
  "default_platform_name os =
     (if os = ''macos'' then ''macOS''
      else if os = ''windows'' then ''Windows''
      else if os = ''linux'' then ''Linux''
      else os)"

definition default_auth_config :: "string \<Rightarrow> AuthConfig" where
  "default_auth_config os =
     \<lparr>ac_server_host = [], ac_server_port = 443, ac_user_agent = ''Mozilla/5.0'',
      ac_client_type = ''SDPClient'', ac_platform = default_platform_name os,
      ac_login_domain = [], ac_preferred_auth_type = None, ac_io_timeout_ms = 20000,
      ac_allow_insecure_tls = False\<rparr>"

text \<open>
  The C error code of an error is never the success code, and two errors have the same
  code exactly when they are the same variant, so the C caller can tell all ten kinds
  apart by the returned integer.
\<close>

theorem error_codes_faithful:
  "error_code_i32 (code e) \<noteq> error_code_i32 CodeOk \<and>
   (error_code_i32 (code e) = error_code_i32 (code e') \<longleftrightarrow> code e = code e')"
  by (cases e; cases e') simp_all

end
