(* ===== verification/Resource.thy ===== *)
theory Resource
  imports Types
begin

text \<open>
  Client resources (resource.rs): the decoded \<open>clientResource\<close> response, the snapshot built
  from it, and the routing decision for a host, port and protocol. The JSON decoder
  (serde\_json) and the CIDR parser (ipnet) are parameters: \<open>from_slice\<close> decodes the
  response or gives the decoder's error text, \<open>parse_net\<close> gives the network and broadcast
  address of a CIDR block.
\<close>

section \<open>The snapshot\<close>

record IpResource =
  ir_ip_min :: Ipv4Addr
  ir_ip_max :: Ipv4Addr
  ir_port_min :: u16
  ir_port_max :: u16
  ir_protocol :: string
  ir_app_id :: string
  ir_node_group_id :: string

record DomainResource =
  dr_port_min :: u16
  dr_port_max :: u16
  dr_protocol :: string
  dr_app_id :: string
  dr_node_group_id :: string

record ResourceSnapshot =
  ip_resources :: "IpResource list"
  domain_resources :: "(string, DomainResource) hmap"
  dns_resource :: "(string, Ipv4Addr) hmap"
  dns_server :: "string option"
  major_node_group :: string
  node_groups :: "(string, string list) hmap"
  best_nodes :: "(string, string) hmap"
  excluded_ips :: "Ipv4Addr list"

definition default_snapshot :: ResourceSnapshot where
  "default_snapshot =
     \<lparr>ip_resources = [], domain_resources = [], dns_resource = [], dns_server = None,
      major_node_group = [], node_groups = [], best_nodes = [], excluded_ips = []\<rparr>"

section \<open>The decoded response\<close>

record AddressEntry =
  ae_protocol :: string
  ae_port :: string
  ae_host :: string
  ae_ip :: "string list"

record AppEntry =
  ap_id :: string
  ap_node_group_id :: string
  ap_address_list :: "AddressEntry list"

record AppInfo =
  apps :: "AppEntry list"

record NodeAddress =
  na_address :: string
  na_kind :: string

record NodeGroupEntry =
  ng_id :: string
  ng_address_info :: "NodeAddress list"

record MajorNodeGroup =
  mg_id :: string

record NodeGroupConf =
  nc_major_node_group :: MajorNodeGroup
  nc_node_group_list :: "NodeGroupEntry list"

record AppConfig =
  node_group_conf :: NodeGroupConf

record AppListData =
  app_info :: "AppInfo list"
  app_config :: AppConfig

record AppListResponse =
  al_data :: AppListData

record DnsOption =
  first_dns :: string

record ClientOption =
  dns_option :: DnsOption
  dns_option_v2 :: DnsOption

record SdpPolicyData =
  client_option :: ClientOption

record SdpPolicyResponse =
  sp_data :: SdpPolicyData

record ClientResourceData =
  app_list :: AppListResponse
  sdp_policy :: "SdpPolicyResponse option"

record ClientResourceResponse =
  cr_data :: ClientResourceData

section \<open>Classifying an address entry\<close>

datatype HostEntry = HostIp IpResource | HostDomain string DomainResource

definition is_ipv6_literal :: "string \<Rightarrow> bool" where
  "is_ipv6_literal host = (parse_ipv6 (trim_matches ''[]'' (trim host)) \<noteq> None)"

definition is_ipv6_spec :: "string \<Rightarrow> bool" where
  "is_ipv6_spec host0 =
     (let host = trim host0 in
      if is_ipv6_literal host then True
      else case split_once CHR ''/'' host of
        Some (addr, _) \<Rightarrow> (case parse_ip (trim addr) of Some (V6 _) \<Rightarrow> True | _ \<Rightarrow> False)
      | None \<Rightarrow>
          (case split_once CHR ''-'' host of
             Some (start, end_) \<Rightarrow> is_ipv6_literal start \<or> is_ipv6_literal end_
           | None \<Rightarrow> False))"

definition is_domain_like :: "string \<Rightarrow> bool" where
  "is_domain_like host =
     (list_ex (\<lambda>c. \<not> (ascii_digit c \<or> c = CHR ''.'' \<or> c = CHR '':'' \<or> c = CHR ''-'')) host \<or>
      CHR ''*'' \<in> set host)"

definition parse_port_range :: "string \<Rightarrow> AtrError + (u16 \<times> u16)" where
  "parse_port_range port =
     (case split_once CHR ''-'' port of
        Some (start, end_) \<Rightarrow>
          bindR (ok_or (ParseFailed (''invalid port range: '' @ port)) (parse_u16 start)) (\<lambda>s.
          bindR (ok_or (ParseFailed (''invalid port range: '' @ port)) (parse_u16 end_)) (\<lambda>e.
          Inr (s, e)))
      | None \<Rightarrow>
          bindR (ok_or (ParseFailed (''invalid port: '' @ port)) (parse_u16 port)) (\<lambda>v.
          Inr (v, v)))"

definition parse_ip_range :: "string \<Rightarrow> AtrError + (Ipv4Addr \<times> Ipv4Addr) option" where
  "parse_ip_range host =
     (case split_once CHR ''-'' host of
        Some (start, end_) \<Rightarrow>
          (case (parse_ipv4 (trim start), parse_ipv4 (trim end_)) of
             (Some s, Some e) \<Rightarrow> Inr (Some (s, e))
           | _ \<Rightarrow> Inr None)
      | None \<Rightarrow> Inr None)"

definition ip_entry :: "Ipv4Addr \<Rightarrow> Ipv4Addr \<Rightarrow> string \<Rightarrow> u16 \<Rightarrow> u16 \<Rightarrow> string \<Rightarrow> string \<Rightarrow> HostEntry" where
  "ip_entry lo hi protocol port_min port_max aid gid =
     HostIp \<lparr>ir_ip_min = lo, ir_ip_max = hi, ir_port_min = port_min, ir_port_max = port_max,
       ir_protocol = protocol, ir_app_id = aid, ir_node_group_id = gid\<rparr>"

definition parse_host_entry ::
  "(string \<Rightarrow> (Ipv4Addr \<times> Ipv4Addr) option) \<Rightarrow> string \<Rightarrow> string \<Rightarrow> u16 \<Rightarrow> u16 \<Rightarrow> string \<Rightarrow> string \<Rightarrow>
   AtrError + HostEntry option" where
  "parse_host_entry parse_net host protocol port_min port_max aid gid =
     (if is_ipv6_spec host then Inr None
      else case parse_ipv4 host of
        Some ip \<Rightarrow> Inr (Some (ip_entry ip ip protocol port_min port_max aid gid))
      | None \<Rightarrow>
        (case parse_net host of
          Some (net_lo, net_hi) \<Rightarrow> Inr (Some (ip_entry net_lo net_hi protocol port_min port_max aid gid))
        | None \<Rightarrow>
          bindR (parse_ip_range host) (\<lambda>range.
          case range of
            Some (start, end_) \<Rightarrow>
              Inr (Some (ip_entry start end_ protocol port_min port_max aid gid))
          | None \<Rightarrow>
              if is_domain_like host then
                Inr (Some (HostDomain (filter (\<lambda>c. c \<noteq> CHR ''*'') host)
                  \<lparr>dr_port_min = port_min, dr_port_max = port_max, dr_protocol = protocol,
                   dr_app_id = aid, dr_node_group_id = gid\<rparr>))
              else Inr None)))"

section \<open>Building the snapshot (parse\_resource\_bytes)\<close>

definition add_host_entry :: "HostEntry \<Rightarrow> ResourceSnapshot \<Rightarrow> ResourceSnapshot" where
  "add_host_entry entry snap =
     (case entry of
        HostIp r \<Rightarrow> snap\<lparr>ip_resources := ip_resources snap @ [r]\<rparr>
      | HostDomain d r \<Rightarrow> snap\<lparr>domain_resources := hm_insert d r (domain_resources snap)\<rparr>)"

text \<open>The first address of the list that parses becomes the static DNS answer.\<close>

fun first_ipv4 :: "string list \<Rightarrow> Ipv4Addr option" where
  "first_ipv4 [] = None"
| "first_ipv4 (s # ss) = (case parse_ipv4 s of Some ip \<Rightarrow> Some ip | None \<Rightarrow> first_ipv4 ss)"

definition add_dns_entry :: "AddressEntry \<Rightarrow> ResourceSnapshot \<Rightarrow> ResourceSnapshot" where
  "add_dns_entry addr snap =
     (if ae_ip addr \<noteq> [] \<and> is_domain_like (ae_host addr) then
        (case first_ipv4 (ae_ip addr) of
           Some ip \<Rightarrow> snap\<lparr>dns_resource := hm_insert (ae_host addr) ip (dns_resource snap)\<rparr>
         | None \<Rightarrow> snap)
      else snap)"

definition add_address ::
  "(string \<Rightarrow> (Ipv4Addr \<times> Ipv4Addr) option) \<Rightarrow> AppEntry \<Rightarrow> AddressEntry \<Rightarrow> ResourceSnapshot \<Rightarrow>
   AtrError + ResourceSnapshot" where
  "add_address parse_net item addr snap =
     bindR (parse_port_range (ae_port addr)) (\<lambda>(port_min, port_max).
     bindR (parse_host_entry parse_net (ae_host addr) (ae_protocol addr) port_min port_max
              (ap_id item) (ap_node_group_id item)) (\<lambda>entry.
     Inr (add_dns_entry addr
            (case entry of Some e \<Rightarrow> add_host_entry e snap | None \<Rightarrow> snap))))"

definition add_app ::
  "(string \<Rightarrow> (Ipv4Addr \<times> Ipv4Addr) option) \<Rightarrow> AppEntry \<Rightarrow> ResourceSnapshot \<Rightarrow>
   AtrError + ResourceSnapshot" where
  "add_app parse_net item snap = fold_res (add_address parse_net item) (ap_address_list item) snap"

definition add_apps ::
  "(string \<Rightarrow> (Ipv4Addr \<times> Ipv4Addr) option) \<Rightarrow> AppInfo list \<Rightarrow> ResourceSnapshot \<Rightarrow>
   AtrError + ResourceSnapshot" where
  "add_apps parse_net infos snap =
     fold_res (\<lambda>app. fold_res (add_app parse_net) (apps app)) infos snap"

definition choose_dns_server :: "SdpPolicyResponse option \<Rightarrow> string option" where
  "choose_dns_server policy =
     (let opt = (case policy of
            Some p \<Rightarrow> client_option (sp_data p)
          | None \<Rightarrow> \<lparr>dns_option = \<lparr>first_dns = []\<rparr>, dns_option_v2 = \<lparr>first_dns = []\<rparr>\<rparr>)
      in if first_dns (dns_option opt) \<noteq> [] then Some (first_dns (dns_option opt))
         else if first_dns (dns_option_v2 opt) \<noteq> [] then Some (first_dns (dns_option_v2 opt))
         else None)"

definition normalize_node_address :: "string \<Rightarrow> string \<Rightarrow> string" where
  "normalize_node_address service_host address =
     (let normalized = (if address = ''{{sdpcHost}}'' then service_host else address)
      in if CHR '':'' \<in> set normalized then normalized else normalized @ '':441'')"

definition wan_addresses :: "string \<Rightarrow> NodeGroupEntry \<Rightarrow> string list" where
  "wan_addresses service_host grp =
     map (\<lambda>a. normalize_node_address service_host (na_address a))
       (filter (\<lambda>a. na_kind a = ''wan'') (ng_address_info grp))"

definition excluded_of :: "string list \<Rightarrow> Ipv4Addr list" where
  "excluded_of addresses =
     List.map_filter (\<lambda>a. parse_ipv4 (hd (split_char CHR '':'' a))) addresses"

definition add_group :: "string \<Rightarrow> NodeGroupEntry \<Rightarrow> ResourceSnapshot \<Rightarrow> ResourceSnapshot" where
  "add_group service_host grp snap =
     (let addresses = wan_addresses service_host grp
      in snap\<lparr>node_groups := hm_insert (ng_id grp) addresses (node_groups snap),
              excluded_ips := excluded_ips snap @ excluded_of addresses\<rparr>)"

text \<open>\<open>iter().filter_map(..).collect()\<close> over the node groups.\<close>

definition first_nodes :: "(string, string list) hmap \<Rightarrow> (string, string) hmap" where
  "first_nodes groups = map (\<lambda>(k, v). (k, hd v)) (filter (\<lambda>(k, v). v \<noteq> []) groups)"

definition build_snapshot ::
  "(string \<Rightarrow> (Ipv4Addr \<times> Ipv4Addr) option) \<Rightarrow> ClientResourceResponse \<Rightarrow> string \<Rightarrow>
   AtrError + ResourceSnapshot" where
  "build_snapshot parse_net parsed service_host =
     (let data = al_data (app_list (cr_data parsed));
          conf = node_group_conf (app_config data) in
      bindR (add_apps parse_net (app_info data) default_snapshot) (\<lambda>snap.
      let snap1 = snap\<lparr>dns_server := choose_dns_server (sdp_policy (cr_data parsed)),
                       major_node_group := mg_id (nc_major_node_group conf)\<rparr>;
          snap2 = fold (add_group service_host) (nc_node_group_list conf) snap1
      in Inr (snap2\<lparr>best_nodes := first_nodes (node_groups snap2)\<rparr>)))"

definition parse_resource_bytes ::
  "(bytes \<Rightarrow> string + ClientResourceResponse) \<Rightarrow> (string \<Rightarrow> (Ipv4Addr \<times> Ipv4Addr) option) \<Rightarrow>
   bytes \<Rightarrow> string \<Rightarrow> AtrError + ResourceSnapshot" where
  "parse_resource_bytes from_slice parse_net resource service_host =
     (case from_slice resource of
        Inl text \<Rightarrow> Inl (from_serde_error text)
      | Inr parsed \<Rightarrow> build_snapshot parse_net parsed service_host)"

section \<open>Matching\<close>

definition ip_order :: "Ipv4Addr \<Rightarrow> u32" where
  "ip_order ip =
     u32_from_be_bytes (octets ip ! 0) (octets ip ! 1) (octets ip ! 2) (octets ip ! 3)"

definition ip_between :: "Ipv4Addr \<Rightarrow> Ipv4Addr \<Rightarrow> Ipv4Addr \<Rightarrow> bool" where
  "ip_between value lo hi = (\<not> ip_order value < ip_order lo \<and> \<not> ip_order hi < ip_order value)"

definition ports_match :: "u16 \<Rightarrow> u16 \<Rightarrow> u16 \<Rightarrow> ProtocolKind \<Rightarrow> bool" where
  "ports_match port_min port_max port protocol =
     (case protocol of
        Icmp \<Rightarrow> True
      | Tcp \<Rightarrow> port_min \<le> port \<and> port \<le> port_max
      | Udp \<Rightarrow> port_min \<le> port \<and> port \<le> port_max)"

definition protocol_matches :: "string \<Rightarrow> ProtocolKind \<Rightarrow> bool" where
  "protocol_matches rule protocol =
     (rule = ''all'' \<or> (rule = ''tcp'' \<and> protocol = Tcp) \<or> (rule = ''udp'' \<and> protocol = Udp) \<or>
      (rule = ''icmp'' \<and> protocol = Icmp))"

definition ip_hit :: "IpResource \<Rightarrow> RouteHit" where
  "ip_hit r = \<lparr>app_id = ir_app_id r, node_group_id = ir_node_group_id r\<rparr>"

definition domain_hit :: "DomainResource \<Rightarrow> RouteHit" where
  "domain_hit r = \<lparr>app_id = dr_app_id r, node_group_id = dr_node_group_id r\<rparr>"

definition ip_resource_matches :: "Ipv4Addr \<Rightarrow> u16 \<Rightarrow> ProtocolKind \<Rightarrow> IpResource \<Rightarrow> bool" where
  "ip_resource_matches ip port protocol r =
     (ip_between ip (ir_ip_min r) (ir_ip_max r) \<and> protocol_matches (ir_protocol r) protocol \<and>
      ports_match (ir_port_min r) (ir_port_max r) port protocol)"

fun match_ip_list :: "IpResource list \<Rightarrow> Ipv4Addr \<Rightarrow> u16 \<Rightarrow> ProtocolKind \<Rightarrow> RouteHit option" where
  "match_ip_list [] ip port protocol = None"
| "match_ip_list (r # rs) ip port protocol =
     (if ip_resource_matches ip port protocol r then Some (ip_hit r)
      else match_ip_list rs ip port protocol)"

definition match_ip :: "ResourceSnapshot \<Rightarrow> Ipv4Addr \<Rightarrow> u16 \<Rightarrow> ProtocolKind \<Rightarrow> RouteHit option" where
  "match_ip snapshot ip port protocol = match_ip_list (ip_resources snapshot) ip port protocol"

definition ip_in_resources :: "ResourceSnapshot \<Rightarrow> Ipv4Addr \<Rightarrow> u16 \<Rightarrow> ProtocolKind \<Rightarrow> RouteHit option" where
  "ip_in_resources snapshot ip port protocol = match_ip snapshot ip port protocol"

text \<open>A domain rule as \<open>match_domain_ports\<close> normalises it, and its test on a normalised host.\<close>

definition rule_domain :: "string \<Rightarrow> string" where
  "rule_domain domain =
     to_ascii_lowercase (trim_end_set ''.'' (filter (\<lambda>c. c \<noteq> CHR ''*'') domain))"

definition domain_rule_matches :: "string \<Rightarrow> string \<Rightarrow> bool" where
  "domain_rule_matches domain0 host =
     (let domain = rule_domain domain0;
          bare_domain = trim_start_set ''.'' domain
      in if starts_with ''.'' domain then ends_with domain host \<or> host = bare_domain
         else host = domain \<or> ends_with (CHR ''.'' # domain) host)"

definition normal_host :: "string \<Rightarrow> string" where
  "normal_host host = to_ascii_lowercase (trim_end_set ''.'' host)"

definition domain_filter :: "u16 option \<Rightarrow> ProtocolKind \<Rightarrow> DomainResource \<Rightarrow> bool" where
  "domain_filter port protocol r =
     (protocol_matches (dr_protocol r) protocol \<and>
      (case port of None \<Rightarrow> True | Some p \<Rightarrow> ports_match (dr_port_min r) (dr_port_max r) p protocol))"

fun match_domain_list ::
  "(string, DomainResource) hmap \<Rightarrow> string \<Rightarrow> u16 option \<Rightarrow> ProtocolKind \<Rightarrow> RouteHit option" where
  "match_domain_list [] host port protocol = None"
| "match_domain_list ((domain, r) # rest) host port protocol =
     (if \<not> domain_filter port protocol r then match_domain_list rest host port protocol
      else if domain_rule_matches domain host then Some (domain_hit r)
      else match_domain_list rest host port protocol)"

definition match_domain_ports ::
  "ResourceSnapshot \<Rightarrow> string \<Rightarrow> u16 option \<Rightarrow> ProtocolKind \<Rightarrow> RouteHit option" where
  "match_domain_ports snapshot host port protocol =
     match_domain_list (domain_resources snapshot) (normal_host host) port protocol"

definition match_domain :: "ResourceSnapshot \<Rightarrow> string \<Rightarrow> u16 \<Rightarrow> ProtocolKind \<Rightarrow> RouteHit option" where
  "match_domain snapshot host port protocol = match_domain_ports snapshot host (Some port) protocol"

definition domain_managed :: "ResourceSnapshot \<Rightarrow> string \<Rightarrow> ProtocolKind \<Rightarrow> bool" where
  "domain_managed snapshot host protocol = (match_domain_ports snapshot host None protocol \<noteq> None)"

definition ip_managed_for_tcp :: "ResourceSnapshot \<Rightarrow> Ipv4Addr \<Rightarrow> bool" where
  "ip_managed_for_tcp snapshot ip =
     list_ex (\<lambda>r. ip_between ip (ir_ip_min r) (ir_ip_max r) \<and> protocol_matches (ir_protocol r) Tcp)
       (ip_resources snapshot)"

definition split_host_port :: "string \<Rightarrow> (string \<times> u16) option" where
  "split_host_port endpoint =
     (case rsplit_once CHR '':'' (trim endpoint) of
        None \<Rightarrow> None
      | Some (host0, port) \<Rightarrow>
          (let host = trim_matches ''[]'' (trim host0) in
           if host = [] then None
           else case parse_u16 (trim port) of None \<Rightarrow> None | Some p \<Rightarrow> Some (host, p)))"

definition is_node_endpoint :: "ResourceSnapshot \<Rightarrow> string \<Rightarrow> u16 \<Rightarrow> bool" where
  "is_node_endpoint snapshot host0 port =
     (let host = trim_matches ''[]'' (trim host0) in
      list_ex (\<lambda>endpoint.
        case split_host_port endpoint of
          None \<Rightarrow> False
        | Some (node_host, node_port) \<Rightarrow> node_port = port \<and> eq_ignore_ascii_case node_host host)
      (concat (hm_values (node_groups snapshot))))"

definition route :: "ResourceSnapshot \<Rightarrow> string \<Rightarrow> u16 \<Rightarrow> ProtocolKind \<Rightarrow> RouteDecision" where
  "route snapshot host port protocol =
     (if is_node_endpoint snapshot host port then Direct
      else if is_ipv6_literal host then Direct
      else case parse_ipv4 host of
        Some ip \<Rightarrow>
          (case match_ip snapshot ip port protocol of Some hit \<Rightarrow> Managed hit | None \<Rightarrow> Direct)
      | None \<Rightarrow>
          (case match_domain snapshot host port protocol of Some hit \<Rightarrow> Managed hit | None \<Rightarrow> Direct))"

section \<open>Lemmas\<close>

subsection \<open>Matching addresses\<close>

lemma ip_order_id [simp]: "ip_order ip = ip"
proof -
  obtain a b c d where "octets ip = [a, b, c, d]" "ip = ipv4_new a b c d"
    using octets_cases by blast
  then show ?thesis by (simp add: ip_order_def ipv4_new_def)
qed

lemma ip_between_iff: "ip_between ip lo hi \<longleftrightarrow> lo \<le> ip \<and> ip \<le> hi"
  by (auto simp: ip_between_def)

lemma match_ip_list_None:
  "match_ip_list rs ip port protocol = None \<longleftrightarrow> (\<forall>r\<in>set rs. \<not> ip_resource_matches ip port protocol r)"
  by (induction rs) auto

lemma match_ip_list_find:
  "match_ip_list rs ip port protocol =
     map_option ip_hit (List.find (ip_resource_matches ip port protocol) rs)"
  by (induction rs) auto

subsection \<open>Matching domain names\<close>

text \<open>
  The intended meaning of a rule: a host is covered by the bare domain of the rule when
  it equals the domain or is a subdomain of it, cut at a label boundary.
\<close>

definition subdomain_of :: "string \<Rightarrow> string \<Rightarrow> bool" where
  "subdomain_of domain host = (host = domain \<or> (\<exists>labels. host = labels @ CHR ''.'' # domain))"

definition bare_rule :: "string \<Rightarrow> string" where
  "bare_rule domain = trim_start_set ''.'' (rule_domain domain)"

text \<open>A rule in normal form has at most one dot in front (\<open>*.example.com\<close>, \<open>example.com\<close>).\<close>

definition plain_rule :: "string \<Rightarrow> bool" where
  "plain_rule domain = (length (rule_domain domain) \<le> Suc (length (bare_rule domain)))"

lemma trim_start_dots: "\<exists>k. s = replicate k CHR ''.'' @ trim_start_set ''.'' s"
proof (induction s)
  case (Cons c s)
  show ?case
  proof (cases "c = CHR ''.''")
    case True
    from Cons obtain k where "s = replicate k CHR ''.'' @ trim_start_set ''.'' s" by blast
    then have "c # s = replicate (Suc k) CHR ''.'' @ trim_start_set ''.'' (c # s)"
      using True by (simp add: trim_start_set_def)
    then show ?thesis by blast
  next
    case False
    then show ?thesis by (intro exI [of _ 0]) (simp add: trim_start_set_def)
  qed
qed (simp add: trim_start_set_def)

lemma trim_start_fixed: "trim_start_set ''.'' s = s \<Longrightarrow> \<not> starts_with ''.'' s"
proof (cases s)
  case (Cons c cs)
  assume "trim_start_set ''.'' s = s"
  moreover have "length (trim_start_set ''.'' cs) \<le> length cs"
    by (simp add: trim_start_set_def length_dropWhile_le)
  ultimately show ?thesis
    using Cons by (auto simp: starts_with_def trim_start_set_def)
qed (simp add: starts_with_def)

lemma domain_rule_sound:
  assumes "domain_rule_matches domain host"
  shows "subdomain_of (bare_rule domain) host"
proof -
  obtain k where k: "rule_domain domain = replicate k CHR ''.'' @ bare_rule domain"
    using trim_start_dots unfolding bare_rule_def by blast
  show ?thesis
  proof (cases k)
    case 0
    with k have b: "bare_rule domain = rule_domain domain" by simp
    then have "\<not> starts_with ''.'' (rule_domain domain)"
      by (simp add: bare_rule_def trim_start_fixed)
    with assms b show ?thesis
      by (auto simp: domain_rule_matches_def subdomain_of_def Let_def ends_with_iff)
  next
    case (Suc n)
    with k have d: "rule_domain domain = replicate n CHR ''.'' @ CHR ''.'' # bare_rule domain"
      by (simp add: replicate_app_Cons_same)
    from Suc k have "starts_with ''.'' (rule_domain domain)" by (simp add: starts_with_def)
    with assms have "ends_with (rule_domain domain) host \<or> host = bare_rule domain"
      by (simp add: domain_rule_matches_def Let_def bare_rule_def)
    with d show ?thesis by (auto simp: subdomain_of_def ends_with_iff)
  qed
qed

lemma domain_rule_complete:
  assumes "plain_rule domain" and "subdomain_of (bare_rule domain) host"
  shows "domain_rule_matches domain host"
proof -
  obtain k where k: "rule_domain domain = replicate k CHR ''.'' @ bare_rule domain"
    using trim_start_dots unfolding bare_rule_def by blast
  with assms(1) have "k \<le> 1" by (auto simp: plain_rule_def dest: arg_cong [of _ _ length])
  then consider "k = 0" | "k = 1" by linarith
  then show ?thesis
  proof cases
    case 1
    with k have "bare_rule domain = rule_domain domain" by simp
    moreover from this have "\<not> starts_with ''.'' (rule_domain domain)"
      by (simp add: bare_rule_def trim_start_fixed)
    ultimately show ?thesis
      using assms(2) by (auto simp: domain_rule_matches_def Let_def subdomain_of_def ends_with_iff)
  next
    case 2
    with k have d: "rule_domain domain = CHR ''.'' # bare_rule domain" by simp
    then have "starts_with ''.'' (rule_domain domain)" by (simp add: starts_with_def)
    then have "domain_rule_matches domain host \<longleftrightarrow>
        ends_with (rule_domain domain) host \<or> host = bare_rule domain"
      by (simp add: domain_rule_matches_def Let_def bare_rule_def)
    with d assms(2) show ?thesis by (auto simp: subdomain_of_def ends_with_iff)
  qed
qed

lemma match_domain_list_Some:
  "match_domain_list ds host port protocol = Some hit \<Longrightarrow>
     \<exists>domain r. (domain, r) \<in> set ds \<and> domain_filter port protocol r \<and>
       domain_rule_matches domain host \<and> hit = domain_hit r"
  by (induction ds) (fastforce split: if_splits)+

lemma match_domain_list_None:
  "match_domain_list ds host port protocol = None \<longleftrightarrow>
     (\<forall>(domain, r)\<in>set ds. \<not> (domain_filter port protocol r \<and> domain_rule_matches domain host))"
proof (induction ds)
  case (Cons d ds)
  then show ?case by (cases d) (simp add: ball_Un)
qed simp

subsection \<open>The snapshot of a response\<close>

text \<open>
  The reference view of the three nested loops: the addresses of a response in order, and
  what each contributes on its own.
\<close>

definition all_addresses :: "AppInfo list \<Rightarrow> (AppEntry \<times> AddressEntry) list" where
  "all_addresses infos =
     concat (map (\<lambda>info. concat (map (\<lambda>item. map (Pair item) (ap_address_list item)) (apps info))) infos)"

definition entry_of ::
  "(string \<Rightarrow> (Ipv4Addr \<times> Ipv4Addr) option) \<Rightarrow> AppEntry \<times> AddressEntry \<Rightarrow> HostEntry option" where
  "entry_of parse_net x =
     (case parse_port_range (ae_port (snd x)) of
        Inl _ \<Rightarrow> None
      | Inr (port_min, port_max) \<Rightarrow>
          (case parse_host_entry parse_net (ae_host (snd x)) (ae_protocol (snd x)) port_min port_max
                  (ap_id (fst x)) (ap_node_group_id (fst x)) of
             Inl _ \<Rightarrow> None
           | Inr e \<Rightarrow> e))"

fun ip_part :: "HostEntry option \<Rightarrow> IpResource option" where
  "ip_part (Some (HostIp r)) = Some r"
| "ip_part _ = None"

fun domain_part :: "HostEntry option \<Rightarrow> (string \<times> DomainResource) option" where
  "domain_part (Some (HostDomain d r)) = Some (d, r)"
| "domain_part _ = None"

definition dns_part :: "AppEntry \<times> AddressEntry \<Rightarrow> (string \<times> Ipv4Addr) option" where
  "dns_part x =
     (if ae_ip (snd x) \<noteq> [] \<and> is_domain_like (ae_host (snd x))
      then map_option (Pair (ae_host (snd x))) (first_ipv4 (ae_ip (snd x))) else None)"

abbreviation ins_all :: "('k \<times> 'v) list \<Rightarrow> ('k, 'v) hmap \<Rightarrow> ('k, 'v) hmap" where
  "ins_all kvs m \<equiv> fold (\<lambda>(k, v). hm_insert k v) kvs m"

lemma parse_ip_range_ok: "\<exists>r. parse_ip_range host = Inr r"
  by (auto simp: parse_ip_range_def split: option.splits)

lemma parse_host_entry_ok: "\<exists>e. parse_host_entry parse_net host protocol lo hi aid gid = Inr e"
  using parse_ip_range_ok [of host]
  by (auto simp: parse_host_entry_def split: option.splits)

lemma add_address_step:
  assumes "add_address parse_net item addr snap = Inr snap'"
  shows "ip_resources snap' =
           ip_resources snap @ List.map_filter (\<lambda>x. ip_part (entry_of parse_net x)) [(item, addr)]"
    and "domain_resources snap' =
           ins_all (List.map_filter (\<lambda>x. domain_part (entry_of parse_net x)) [(item, addr)])
             (domain_resources snap)"
    and "dns_resource snap' = ins_all (List.map_filter dns_part [(item, addr)]) (dns_resource snap)"
    and "node_groups snap' = node_groups snap" and "excluded_ips snap' = excluded_ips snap"
proof -
  from assms obtain lo hi e where
    *: "parse_port_range (ae_port addr) = Inr (lo, hi)"
       "parse_host_entry parse_net (ae_host addr) (ae_protocol addr) lo hi (ap_id item)
          (ap_node_group_id item) = Inr e"
       "snap' = add_dns_entry addr (case e of Some e \<Rightarrow> add_host_entry e snap | None \<Rightarrow> snap)"
    by (auto simp: add_address_def bindR_eq_Inr)
  then have e: "entry_of parse_net (item, addr) = e" by (simp add: entry_of_def)
  show "ip_resources snap' =
      ip_resources snap @ List.map_filter (\<lambda>x. ip_part (entry_of parse_net x)) [(item, addr)]"
    by (auto simp: * e add_dns_entry_def add_host_entry_def List.map_filter_def
        split: option.splits HostEntry.splits)
  show "domain_resources snap' =
      ins_all (List.map_filter (\<lambda>x. domain_part (entry_of parse_net x)) [(item, addr)])
        (domain_resources snap)"
    by (auto simp: * e add_dns_entry_def add_host_entry_def List.map_filter_def
        split: option.splits HostEntry.splits)
  show "dns_resource snap' = ins_all (List.map_filter dns_part [(item, addr)]) (dns_resource snap)"
    by (auto simp: * dns_part_def add_dns_entry_def add_host_entry_def List.map_filter_def
        split: option.splits HostEntry.splits)
  show "node_groups snap' = node_groups snap" "excluded_ips snap' = excluded_ips snap"
    by (auto simp: * add_dns_entry_def add_host_entry_def split: option.splits HostEntry.splits)
qed

lemma add_address_ok:
  "is_ok (add_address parse_net item addr snap) \<longleftrightarrow> is_ok (parse_port_range (ae_port addr))"
proof (cases "parse_port_range (ae_port addr)")
  case (Inr r)
  obtain e where "parse_host_entry parse_net (ae_host addr) (ae_protocol addr) (fst r) (snd r)
      (ap_id item) (ap_node_group_id item) = Inr e"
    using parse_host_entry_ok by blast
  with Inr show ?thesis by (cases r) (simp add: add_address_def)
qed (simp add: add_address_def)

lemma add_apps_flat:
  "add_apps parse_net infos snap =
     fold_res (\<lambda>x. add_address parse_net (fst x) (snd x)) (all_addresses infos) snap"
  by (simp add: add_apps_def add_app_def [abs_def] all_addresses_def fold_res_concat fold_res_map)

lemma fold_address_result:
  assumes "fold_res (\<lambda>x. add_address parse_net (fst x) (snd x)) xs snap = Inr snap'"
  shows "ip_resources snap' =
           ip_resources snap @ List.map_filter (\<lambda>x. ip_part (entry_of parse_net x)) xs \<and>
         domain_resources snap' =
           ins_all (List.map_filter (\<lambda>x. domain_part (entry_of parse_net x)) xs)
             (domain_resources snap) \<and>
         dns_resource snap' = ins_all (List.map_filter dns_part xs) (dns_resource snap) \<and>
         node_groups snap' = node_groups snap \<and> excluded_ips snap' = excluded_ips snap"
  using assms
proof (induction xs arbitrary: snap)
  case Nil
  then show ?case by (simp add: List.map_filter_def)
next
  case (Cons x xs)
  then obtain t where t: "add_address parse_net (fst x) (snd x) snap = Inr t"
    and r: "fold_res (\<lambda>x. add_address parse_net (fst x) (snd x)) xs t = Inr snap'"
    by (auto simp: bindR_eq_Inr)
  from add_address_step [OF t] Cons.IH [OF r] show ?case
    by (simp add: List.map_filter_def)
qed

lemma fold_groups_result:
  "node_groups (fold (add_group service_host) groups snap) =
     ins_all (map (\<lambda>g. (ng_id g, wan_addresses service_host g)) groups) (node_groups snap)"
  "excluded_ips (fold (add_group service_host) groups snap) =
     excluded_ips snap @ concat (map (\<lambda>g. excluded_of (wan_addresses service_host g)) groups)"
  "ip_resources (fold (add_group service_host) groups snap) = ip_resources snap"
  "domain_resources (fold (add_group service_host) groups snap) = domain_resources snap"
  "dns_resource (fold (add_group service_host) groups snap) = dns_resource snap"
  "dns_server (fold (add_group service_host) groups snap) = dns_server snap"
  "major_node_group (fold (add_group service_host) groups snap) = major_node_group snap"
  by (induction groups arbitrary: snap) (simp_all add: add_group_def Let_def)

abbreviation infos_of :: "ClientResourceResponse \<Rightarrow> AppInfo list" where
  "infos_of parsed \<equiv> app_info (al_data (app_list (cr_data parsed)))"

abbreviation groups_of :: "ClientResourceResponse \<Rightarrow> NodeGroupEntry list" where
  "groups_of parsed \<equiv>
     nc_node_group_list (node_group_conf (app_config (al_data (app_list (cr_data parsed)))))"

lemma build_snapshot_parts:
  assumes "build_snapshot parse_net parsed service_host = Inr snap"
  shows "ip_resources snap =
           List.map_filter (\<lambda>x. ip_part (entry_of parse_net x)) (all_addresses (infos_of parsed))"
    and "domain_resources snap =
           ins_all (List.map_filter (\<lambda>x. domain_part (entry_of parse_net x))
             (all_addresses (infos_of parsed))) []"
    and "dns_resource snap = ins_all (List.map_filter dns_part (all_addresses (infos_of parsed))) []"
    and "node_groups snap =
           ins_all (map (\<lambda>g. (ng_id g, wan_addresses service_host g)) (groups_of parsed)) []"
    and "best_nodes snap = first_nodes (node_groups snap)"
    and "excluded_ips snap =
           concat (map (\<lambda>g. excluded_of (wan_addresses service_host g)) (groups_of parsed))"
    and "dns_server snap = choose_dns_server (sdp_policy (cr_data parsed))"
    and "major_node_group snap = mg_id (nc_major_node_group (node_group_conf (app_config (al_data (app_list (cr_data parsed))))))"
proof -
  from assms obtain t where
    t: "add_apps parse_net (infos_of parsed) default_snapshot = Inr t" and
    s: "snap = (let s1 = t\<lparr>dns_server := choose_dns_server (sdp_policy (cr_data parsed)),
          major_node_group := mg_id (nc_major_node_group
            (node_group_conf (app_config (al_data (app_list (cr_data parsed))))))\<rparr>;
          s2 = fold (add_group service_host) (groups_of parsed) s1
        in s2\<lparr>best_nodes := first_nodes (node_groups s2)\<rparr>)"
    by (auto simp: build_snapshot_def Let_def bindR_eq_Inr)
  from fold_address_result [OF t [unfolded add_apps_flat]]
  show "ip_resources snap =
           List.map_filter (\<lambda>x. ip_part (entry_of parse_net x)) (all_addresses (infos_of parsed))"
    "domain_resources snap =
           ins_all (List.map_filter (\<lambda>x. domain_part (entry_of parse_net x))
             (all_addresses (infos_of parsed))) []"
    "dns_resource snap = ins_all (List.map_filter dns_part (all_addresses (infos_of parsed))) []"
    "node_groups snap =
           ins_all (map (\<lambda>g. (ng_id g, wan_addresses service_host g)) (groups_of parsed)) []"
    "best_nodes snap = first_nodes (node_groups snap)"
    "excluded_ips snap =
           concat (map (\<lambda>g. excluded_of (wan_addresses service_host g)) (groups_of parsed))"
    "dns_server snap = choose_dns_server (sdp_policy (cr_data parsed))"
    "major_node_group snap = mg_id (nc_major_node_group (node_group_conf (app_config (al_data (app_list (cr_data parsed))))))"
    by (simp_all add: s Let_def fold_groups_result default_snapshot_def)
qed

lemma hm_get_first_nodes:
  "hm_wf groups \<Longrightarrow> hm_get (first_nodes groups) g =
     (case hm_get groups g of Some (a # _) \<Rightarrow> Some a | _ \<Rightarrow> None)"
proof (induction groups)
  case (Cons kv groups)
  obtain k v where kv: "kv = (k, v)" by (cases kv)
  from Cons.prems kv have "k \<notin> fst ` set groups" "hm_wf groups" by (auto simp: hm_wf_def)
  moreover from this have "hm_get groups k = None"
    by (simp add: hm_get_def map_of_eq_None_iff)
  ultimately show ?case
    using Cons.IH kv by (cases v) (auto simp: first_nodes_def hm_get_def)
qed (simp add: first_nodes_def)

lemma entry_of_ids:
  "ip_part (entry_of parse_net x) = Some r \<Longrightarrow>
     \<exists>lo hi. parse_port_range (ae_port (snd x)) = Inr (lo, hi) \<and> ir_port_min r = lo \<and>
       ir_port_max r = hi \<and> ir_protocol r = ae_protocol (snd x) \<and>
       ip_hit r = \<lparr>app_id = ap_id (fst x), node_group_id = ap_node_group_id (fst x)\<rparr>"
  "domain_part (entry_of parse_net x) = Some (d, dr) \<Longrightarrow>
     \<exists>lo hi. parse_port_range (ae_port (snd x)) = Inr (lo, hi) \<and> dr_port_min dr = lo \<and>
       dr_port_max dr = hi \<and> dr_protocol dr = ae_protocol (snd x) \<and>
       d = filter (\<lambda>c. c \<noteq> CHR ''*'') (ae_host (snd x)) \<and>
       domain_hit dr = \<lparr>app_id = ap_id (fst x), node_group_id = ap_node_group_id (fst x)\<rparr>"
  using parse_ip_range_ok [of "ae_host (snd x)"]
  by (auto simp: entry_of_def parse_host_entry_def ip_entry_def ip_hit_def domain_hit_def
      split: sum.splits option.splits if_splits)

lemma set_ins_all: "set (ins_all kvs m) \<subseteq> set kvs \<union> set m"
proof (induction kvs arbitrary: m)
  case (Cons kv kvs)
  obtain k v where kv: "kv = (k, v)" by (cases kv)
  have "set (hm_insert k v m) \<subseteq> insert (k, v) (set m)"
    by (induction m) (auto simp: hm_insert_def)
  with Cons [of "hm_insert k v m"] kv show ?case by auto
qed simp

section \<open>Properties\<close>

text \<open>A response with an IP range, a wildcard domain and two node groups, for the witnesses.\<close>

definition demo_net :: "string \<Rightarrow> (Ipv4Addr \<times> Ipv4Addr) option" where
  "demo_net s = (if s = ''10.1.0.0/16'' then Some (ipv4_new 10 1 0 0, ipv4_new 10 1 255 255) else None)"

definition demo_apps :: "AppInfo list" where
  "demo_apps = [\<lparr>apps = [
     \<lparr>ap_id = ''a1'', ap_node_group_id = ''g1'', ap_address_list =
       [\<lparr>ae_protocol = ''tcp'', ae_port = ''80-90'', ae_host = ''10.1.0.0/16'', ae_ip = []\<rparr>,
        \<lparr>ae_protocol = ''all'', ae_port = ''443'', ae_host = ''*.example.com'', ae_ip = [''10.1.0.9'']\<rparr>]\<rparr>]\<rparr>]"

definition demo_groups :: "NodeGroupEntry list" where
  "demo_groups =
     [\<lparr>ng_id = ''g1'', ng_address_info =
        [\<lparr>na_address = ''192.0.2.1'', na_kind = ''wan''\<rparr>, \<lparr>na_address = ''10.9.9.9'', na_kind = ''lan''\<rparr>]\<rparr>,
      \<lparr>ng_id = ''g2'', ng_address_info = [\<lparr>na_address = ''{{sdpcHost}}'', na_kind = ''wan''\<rparr>]\<rparr>]"

definition demo_response :: "AppInfo list \<Rightarrow> ClientResourceResponse" where
  "demo_response infos =
     \<lparr>cr_data = \<lparr>app_list = \<lparr>al_data = \<lparr>app_info = infos, app_config = \<lparr>node_group_conf =
        \<lparr>nc_major_node_group = \<lparr>mg_id = ''g1''\<rparr>, nc_node_group_list = demo_groups\<rparr>\<rparr>\<rparr>\<rparr>,
        sdp_policy = None\<rparr>\<rparr>"

definition demo_snapshot :: ResourceSnapshot where
  "demo_snapshot =
     \<lparr>ip_resources = [\<lparr>ir_ip_min = ipv4_new 10 1 0 0, ir_ip_max = ipv4_new 10 1 255 255,
        ir_port_min = 80, ir_port_max = 90, ir_protocol = ''tcp'', ir_app_id = ''a1'',
        ir_node_group_id = ''g1''\<rparr>],
      domain_resources = [(''.example.com'', \<lparr>dr_port_min = 443, dr_port_max = 443,
        dr_protocol = ''all'', dr_app_id = ''a1'', dr_node_group_id = ''g1''\<rparr>)],
      dns_resource = [(''*.example.com'', ipv4_new 10 1 0 9)], dns_server = None,
      major_node_group = ''g1'',
      node_groups = [(''g1'', [''192.0.2.1:441'']), (''g2'', [''vpn.example.org:441''])],
      best_nodes = [(''g1'', ''192.0.2.1:441''), (''g2'', ''vpn.example.org:441'')],
      excluded_ips = [ipv4_new 192 0 2 1]\<rparr>"

lemma demo_build: "build_snapshot demo_net (demo_response demo_apps) ''vpn.example.org'' = Inr demo_snapshot"
  by code_simp

lemma map_filter_set: "set (List.map_filter f xs) = {y. \<exists>x\<in>set xs. f x = Some y}"
  by (force simp: List.map_filter_def)

lemma match_ip_Some_entry:
  "match_ip snap ip port protocol = Some hit \<Longrightarrow>
     \<exists>r\<in>set (ip_resources snap). ip_resource_matches ip port protocol r \<and> hit = ip_hit r"
  by (auto simp: match_ip_def match_ip_list_find find_Some_iff)

lemma route_Managed_cases:
  assumes "route snap host port protocol = Managed hit"
  obtains (by_ip) ip r where "parse_ipv4 host = Some ip" "r \<in> set (ip_resources snap)"
      "ip_resource_matches ip port protocol r" "hit = ip_hit r"
    | (by_domain) domain r where "parse_ipv4 host = None" "(domain, r) \<in> set (domain_resources snap)"
      "domain_filter (Some port) protocol r" "domain_rule_matches domain (normal_host host)"
      "hit = domain_hit r"
proof (cases "parse_ipv4 host")
  case None
  with assms have "match_domain_list (domain_resources snap) (normal_host host) (Some port) protocol = Some hit"
    by (auto simp: route_def match_domain_def match_domain_ports_def split: if_splits option.splits)
  from match_domain_list_Some [OF this] obtain domain r where
    "(domain, r) \<in> set (domain_resources snap)" "domain_filter (Some port) protocol r"
    "domain_rule_matches domain (normal_host host)" "hit = domain_hit r" by blast
  with None show ?thesis by (rule by_domain)
next
  case (Some ip)
  with assms have "match_ip snap ip port protocol = Some hit"
    by (auto simp: route_def split: if_splits option.splits)
  from match_ip_Some_entry [OF this] obtain r where
    "r \<in> set (ip_resources snap)" "ip_resource_matches ip port protocol r" "hit = ip_hit r" by blast
  with Some show ?thesis by (rule by_ip)
qed

definition grants :: "AddressEntry \<Rightarrow> u16 \<Rightarrow> ProtocolKind \<Rightarrow> bool" where
  "grants addr port protocol =
     (\<exists>lo hi. parse_port_range (ae_port addr) = Inr (lo, hi) \<and>
        protocol_matches (ae_protocol addr) protocol \<and> ports_match lo hi port protocol)"

text \<open>
  C1. Provenance of a tunnelled connection. When the snapshot of a response routes a host
  through the tunnel, some address entry of that response grants the port and protocol,
  the hit names the application and node group of that entry, the endpoint is not one of
  the VPN nodes and the host is not an IPv6 literal.
\<close>

theorem route_managed_provenance:
  assumes "build_snapshot parse_net parsed service_host = Inr snap"
    and "route snap host port protocol = Managed hit"
  shows "(\<exists>item addr. (item, addr) \<in> set (all_addresses (infos_of parsed)) \<and>
            hit = \<lparr>app_id = ap_id item, node_group_id = ap_node_group_id item\<rparr> \<and>
            grants addr port protocol) \<and>
         \<not> is_node_endpoint snap host port \<and> \<not> is_ipv6_literal host"
proof (intro conjI)
  show "\<not> is_node_endpoint snap host port" "\<not> is_ipv6_literal host"
    using assms(2) by (auto simp: route_def split: if_splits)
  from assms(2) show "\<exists>item addr. (item, addr) \<in> set (all_addresses (infos_of parsed)) \<and>
      hit = \<lparr>app_id = ap_id item, node_group_id = ap_node_group_id item\<rparr> \<and>
      grants addr port protocol"
  proof (cases rule: route_Managed_cases)
    case (by_ip ip r)
    then obtain x where "x \<in> set (all_addresses (infos_of parsed))"
        "ip_part (entry_of parse_net x) = Some r"
      by (auto simp: build_snapshot_parts(1) [OF assms(1)] map_filter_set)
    with entry_of_ids(1) [of parse_net x r] by_ip show ?thesis
      by (cases x) (auto simp: grants_def ip_resource_matches_def)
  next
    case (by_domain domain r)
    then have "(domain, r) \<in> set (List.map_filter (\<lambda>x. domain_part (entry_of parse_net x))
        (all_addresses (infos_of parsed)))"
      using set_ins_all build_snapshot_parts(2) [OF assms(1)] by fastforce
    then obtain x where "x \<in> set (all_addresses (infos_of parsed))"
        "domain_part (entry_of parse_net x) = Some (domain, r)"
      by (auto simp: map_filter_set)
    with entry_of_ids(2) [of parse_net x domain r] by_domain show ?thesis
      by (cases x) (auto simp: grants_def domain_filter_def)
  qed
qed

theorem route_managed_provenance_witness:
  "route demo_snapshot ''git.example.com'' 443 Tcp = Managed \<lparr>app_id = ''a1'', node_group_id = ''g1''\<rparr> \<and>
   (\<exists>item addr. (item, addr) \<in> set (all_addresses (infos_of (demo_response demo_apps))) \<and>
      \<lparr>app_id = ''a1'', node_group_id = ''g1''\<rparr> =
        \<lparr>app_id = ap_id item, node_group_id = ap_node_group_id item\<rparr> \<and> grants addr 443 Tcp)"
proof -
  have "route demo_snapshot ''git.example.com'' 443 Tcp = Managed \<lparr>app_id = ''a1'', node_group_id = ''g1''\<rparr>"
    by code_simp
  then show ?thesis using route_managed_provenance [OF demo_build] by blast
qed

lemma is_node_endpoint_intro:
  assumes "hm_get (node_groups snap) g = Some addrs" and "a \<in> set addrs"
    and "split_host_port a = Some (node_host, port)"
    and "eq_ignore_ascii_case node_host (trim_matches ''[]'' (trim host))"
  shows "is_node_endpoint snap host port"
proof -
  from hm_get_SomeD [OF assms(1)] assms(2) have "a \<in> set (concat (hm_values (node_groups snap)))"
    by (force simp: hm_values_def)
  with assms(3,4) show ?thesis
    by (force simp: is_node_endpoint_def Let_def list_ex_iff)
qed

lemma build_node_groups:
  assumes "build_snapshot parse_net parsed service_host = Inr snap"
    and "distinct (map ng_id (groups_of parsed))" and "grp \<in> set (groups_of parsed)"
  shows "hm_get (node_groups snap) (ng_id grp) = Some (wan_addresses service_host grp)"
proof -
  let ?kvs = "map (\<lambda>g. (ng_id g, wan_addresses service_host g)) (groups_of parsed)"
  have "map_of (rev ?kvs) (ng_id grp) = Some (wan_addresses service_host grp)"
    using assms(2,3) by (intro map_of_is_SomeI) (auto simp: rev_map [symmetric] comp_def)
  then show ?thesis
    by (simp add: build_snapshot_parts(4) [OF assms(1)] hm.get_fold_ins)
qed

text \<open>
  C18. The tunnel never carries its own transport. Every address of type \<open>wan\<close> of every node
  group of a response (group ids being distinct) is routed directly, for every protocol,
  in any letter case and with or without brackets, whatever the resources say.
\<close>

theorem node_endpoints_direct:
  assumes "build_snapshot parse_net parsed service_host = Inr snap"
    and "distinct (map ng_id (groups_of parsed))"
    and "grp \<in> set (groups_of parsed)" and "addr \<in> set (ng_address_info grp)" and "na_kind addr = ''wan''"
    and "split_host_port (normalize_node_address service_host (na_address addr)) = Some (node_host, port)"
    and "eq_ignore_ascii_case node_host (trim_matches ''[]'' (trim host))"
  shows "route snap host port protocol = Direct"
proof -
  have "normalize_node_address service_host (na_address addr) \<in> set (wan_addresses service_host grp)"
    using assms(4,5) by (auto simp: wan_addresses_def)
  from is_node_endpoint_intro [OF build_node_groups [OF assms(1-3)] this assms(6,7)]
  have "is_node_endpoint snap host port" .
  then show ?thesis by (simp add: route_def)
qed

theorem node_endpoints_direct_witness:
  "route demo_snapshot ''VPN.example.org'' 441 Tcp = Direct"
  by (rule node_endpoints_direct [OF demo_build, where grp = "demo_groups ! 1"
        and addr = "ng_address_info (demo_groups ! 1) ! 0" and node_host = "''vpn.example.org''"])
    code_simp+

text \<open>
  C29. Domain rules cut at label boundaries. When every stored rule has at most one leading
  dot, a host is matched exactly when some rule that admits the port and protocol names the
  host itself or a parent domain of it; upper and lower case and trailing dots of the host
  make no difference. The hit comes from such a rule.
\<close>

theorem match_domain_iff_subdomain:
  assumes "\<forall>(domain, r) \<in> set (domain_resources snap). plain_rule domain"
  shows "(match_domain_ports snap host port protocol \<noteq> None \<longleftrightarrow>
           (\<exists>(domain, r) \<in> set (domain_resources snap). domain_filter port protocol r \<and>
              subdomain_of (bare_rule domain) (normal_host host))) \<and>
         (\<forall>hit. match_domain_ports snap host port protocol = Some hit \<longrightarrow>
           (\<exists>(domain, r) \<in> set (domain_resources snap). hit = domain_hit r \<and>
              domain_filter port protocol r \<and> subdomain_of (bare_rule domain) (normal_host host)))"
proof -
  have iff: "domain_rule_matches domain (normal_host host) \<longleftrightarrow> subdomain_of (bare_rule domain) (normal_host host)"
    if "(domain, r) \<in> set (domain_resources snap)" for domain r
    using assms that domain_rule_sound domain_rule_complete by blast
  have "match_domain_ports snap host port protocol \<noteq> None \<longleftrightarrow>
      (\<exists>(domain, r) \<in> set (domain_resources snap). domain_filter port protocol r \<and>
         domain_rule_matches domain (normal_host host))"
    by (simp add: match_domain_ports_def match_domain_list_None del: not_None_eq) blast
  moreover have "\<forall>hit. match_domain_ports snap host port protocol = Some hit \<longrightarrow>
      (\<exists>(domain, r) \<in> set (domain_resources snap). hit = domain_hit r \<and>
         domain_filter port protocol r \<and> domain_rule_matches domain (normal_host host))"
    by (auto simp: match_domain_ports_def dest!: match_domain_list_Some)
  ultimately show ?thesis using iff by (smt (verit) case_prodE case_prodI2 prod.sel)
qed

theorem match_domain_iff_subdomain_witness:
  "(match_domain_ports demo_snapshot ''Git.Example.COM.'' (Some 443) Tcp \<noteq> None \<longleftrightarrow>
     (\<exists>(domain, r) \<in> set (domain_resources demo_snapshot). domain_filter (Some 443) Tcp r \<and>
        subdomain_of (bare_rule domain) (normal_host ''Git.Example.COM.''))) \<and>
   match_domain_ports demo_snapshot ''Git.Example.COM.'' (Some 443) Tcp \<noteq> None \<and>
   match_domain_ports demo_snapshot ''badexample.com'' (Some 443) Tcp = None"
proof -
  have "\<forall>(domain, r) \<in> set (domain_resources demo_snapshot). plain_rule domain"
    by code_simp
  from match_domain_iff_subdomain [OF this, of "''Git.Example.COM.''" "Some 443" Tcp]
  have "match_domain_ports demo_snapshot ''Git.Example.COM.'' (Some 443) Tcp \<noteq> None \<longleftrightarrow>
     (\<exists>(domain, r) \<in> set (domain_resources demo_snapshot). domain_filter (Some 443) Tcp r \<and>
        subdomain_of (bare_rule domain) (normal_host ''Git.Example.COM.''))" by blast
  moreover have "match_domain_ports demo_snapshot ''Git.Example.COM.'' (Some 443) Tcp \<noteq> None"
    "match_domain_ports demo_snapshot ''badexample.com'' (Some 443) Tcp = None"
    by code_simp+
  ultimately show ?thesis by blast
qed

text \<open>
  C30. Routing of an IPv4 destination is the first matching range. For the printed form of an
  address that is not a VPN node the decision is the hit of the first resource, in the
  order of the response, whose inclusive unsigned address range, protocol and port range
  contain the request, and \<open>Direct\<close> when there is none. ICMP ignores the port.
\<close>

theorem route_ipv4_first_match:
  "route snap (show_ipv4 ip) port protocol =
     (if is_node_endpoint snap (show_ipv4 ip) port then Direct
      else case List.find (\<lambda>r. ir_ip_min r \<le> ip \<and> ip \<le> ir_ip_max r \<and>
                  protocol_matches (ir_protocol r) protocol \<and>
                  (protocol = Icmp \<or> ir_port_min r \<le> port \<and> port \<le> ir_port_max r)) (ip_resources snap) of
        Some r \<Rightarrow> Managed \<lparr>app_id = ir_app_id r, node_group_id = ir_node_group_id r\<rparr>
      | None \<Rightarrow> Direct)"
proof -
  have "ip_resource_matches ip port protocol = (\<lambda>r. ir_ip_min r \<le> ip \<and> ip \<le> ir_ip_max r \<and>
          protocol_matches (ir_protocol r) protocol \<and>
          (protocol = Icmp \<or> ir_port_min r \<le> port \<and> port \<le> ir_port_max r))"
    by (cases protocol) (auto simp: ip_resource_matches_def ip_between_iff ports_match_def fun_eq_iff)
  then show ?thesis
    by (simp add: route_def is_ipv6_literal_def match_ip_def match_ip_list_find ip_hit_def
        split: option.splits)
qed

lemma fold_address_ok:
  "is_ok (fold_res (\<lambda>x. add_address parse_net (fst x) (snd x)) xs snap) \<longleftrightarrow>
     list_all (\<lambda>x. is_ok (parse_port_range (ae_port (snd x)))) xs"
proof (induction xs arbitrary: snap)
  case (Cons x xs)
  then show ?case
    using add_address_ok [of parse_net "fst x" "snd x" snap]
    by (cases "add_address parse_net (fst x) (snd x) snap") simp_all
qed simp

lemma build_snapshot_ok:
  "is_ok (build_snapshot parse_net parsed service_host) \<longleftrightarrow>
     list_all (\<lambda>x. is_ok (parse_port_range (ae_port (snd x)))) (all_addresses (infos_of parsed))"
  using fold_address_ok [of parse_net "all_addresses (infos_of parsed)" default_snapshot]
  by (cases "add_apps parse_net (infos_of parsed) default_snapshot")
    (simp_all add: build_snapshot_def Let_def add_apps_flat)

text \<open>
  What an address of the response stands for: the bounds of its ports (one port, or two with a dash), the bounds of its IPv4
  range (one address, a network, or two addresses with a dash), and, when it is neither IPv6 nor such a range but has a
  character other than digits, dots, colons and dashes, a domain whose asterisks are dropped.
\<close>

definition port_bounds :: "string \<Rightarrow> (u16 \<times> u16) option" where
  "port_bounds s =
     (case split_once CHR ''-'' s of
        None \<Rightarrow> map_option (\<lambda>p. (p, p)) (parse_u16 s)
      | Some (a, b) \<Rightarrow> (case (parse_u16 a, parse_u16 b) of (Some lo, Some hi) \<Rightarrow> Some (lo, hi) | _ \<Rightarrow> None))"

definition dashed_range :: "string \<Rightarrow> (Ipv4Addr \<times> Ipv4Addr) option" where
  "dashed_range s =
     (case split_once CHR ''-'' s of
        None \<Rightarrow> None
      | Some (a, b) \<Rightarrow> (case (parse_ipv4 (trim a), parse_ipv4 (trim b)) of (Some lo, Some hi) \<Rightarrow> Some (lo, hi) | _ \<Rightarrow> None))"

definition address_range :: "(string \<Rightarrow> (Ipv4Addr \<times> Ipv4Addr) option) \<Rightarrow> string \<Rightarrow> (Ipv4Addr \<times> Ipv4Addr) option" where
  "address_range parse_net host =
     (if is_ipv6_spec host then None
      else if parse_ipv4 host \<noteq> None then Some (the (parse_ipv4 host), the (parse_ipv4 host))
      else if parse_net host \<noteq> None then parse_net host
      else dashed_range host)"

definition names_domain :: "string \<Rightarrow> bool" where
  "names_domain host \<longleftrightarrow> (\<exists>c \<in> set host. \<not> ascii_digit c \<and> c \<notin> {CHR ''.'', CHR '':'', CHR ''-''})"

definition range_granted :: "(string \<Rightarrow> (Ipv4Addr \<times> Ipv4Addr) option) \<Rightarrow> AppEntry \<times> AddressEntry \<Rightarrow> IpResource option" where
  "range_granted parse_net = (\<lambda>(app, addr).
     case (port_bounds (ae_port addr), address_range parse_net (ae_host addr)) of
       (Some (pmin, pmax), Some (lo, hi)) \<Rightarrow>
         Some \<lparr>ir_ip_min = lo, ir_ip_max = hi, ir_port_min = pmin, ir_port_max = pmax, ir_protocol = ae_protocol addr,
           ir_app_id = ap_id app, ir_node_group_id = ap_node_group_id app\<rparr>
     | _ \<Rightarrow> None)"

definition domain_granted :: "(string \<Rightarrow> (Ipv4Addr \<times> Ipv4Addr) option) \<Rightarrow> AppEntry \<times> AddressEntry \<Rightarrow> (string \<times> DomainResource) option" where
  "domain_granted parse_net = (\<lambda>(app, addr).
     if is_ipv6_spec (ae_host addr) \<or> address_range parse_net (ae_host addr) \<noteq> None \<or> \<not> names_domain (ae_host addr) then None
     else map_option (\<lambda>(pmin, pmax). (filter (\<lambda>c. c \<noteq> CHR ''*'') (ae_host addr),
         \<lparr>dr_port_min = pmin, dr_port_max = pmax, dr_protocol = ae_protocol addr, dr_app_id = ap_id app,
          dr_node_group_id = ap_node_group_id app\<rparr>)) (port_bounds (ae_port addr)))"

definition answer_given :: "AppEntry \<times> AddressEntry \<Rightarrow> (string \<times> Ipv4Addr) option" where
  "answer_given = (\<lambda>(app, addr). if names_domain (ae_host addr)
     then (case List.map_filter parse_ipv4 (ae_ip addr) of [] \<Rightarrow> None | ip # _ \<Rightarrow> Some (ae_host addr, ip)) else None)"

text \<open>The addresses of a node group: those of kind \<open>wan\<close>, with the service's own host filled in and the default port added.\<close>

definition node_addresses :: "string \<Rightarrow> NodeGroupEntry \<Rightarrow> string list" where
  "node_addresses service_host grp =
     map ((\<lambda>a. if CHR '':'' \<in> set a then a else a @ '':441'') \<circ> (\<lambda>a. if a = ''{{sdpcHost}}'' then service_host else a) \<circ> na_address)
       (filter (\<lambda>a. na_kind a = ''wan'') (ng_address_info grp))"

lemma names_domain_iff: "is_domain_like host \<longleftrightarrow> names_domain host"
proof -
  have "\<not> ascii_digit CHR ''*''" by (simp add: ascii_digit_def)
  then have "names_domain host" if "CHR ''*'' \<in> set host" using that unfolding names_domain_def by (intro bexI [of _ "CHR ''*''"]) simp_all
  then show ?thesis by (auto simp: is_domain_like_def names_domain_def list_ex_iff)
qed

lemma parse_port_range_bounds:
  "parse_port_range s = (case port_bounds s of Some b \<Rightarrow> Inr b | None \<Rightarrow> parse_port_range s)"
  "is_ok (parse_port_range s) \<longleftrightarrow> port_bounds s \<noteq> None"
  by (auto simp: parse_port_range_def port_bounds_def ok_or_def is_ok_def split: option.splits)

lemma entry_of_granted:
  "ip_part (entry_of parse_net x) = range_granted parse_net x"
  "domain_part (entry_of parse_net x) = domain_granted parse_net x"
proof -
  obtain app addr where x: "x = (app, addr)" by fastforce
  have range: "parse_ip_range host = Inr (dashed_range host)" for host
    by (simp add: parse_ip_range_def dashed_range_def split: option.split)
  have "ip_part (entry_of parse_net x) = range_granted parse_net x \<and> domain_part (entry_of parse_net x) = domain_granted parse_net x"
  proof (cases "port_bounds (ae_port addr)")
    case None
    then have "\<not> is_ok (parse_port_range (ae_port addr))" by (simp add: parse_port_range_bounds(2))
    then have "entry_of parse_net x = None" by (auto simp: entry_of_def x is_ok_def split: sum.splits)
    with None show ?thesis by (simp add: range_granted_def domain_granted_def x)
  next
    case (Some b)
    then have "parse_port_range (ae_port addr) = Inr b" using parse_port_range_bounds(1) [of "ae_port addr"] by simp
    with Some show ?thesis
      by (cases b) (auto simp: entry_of_def x parse_host_entry_def range names_domain_iff ip_entry_def range_granted_def
          domain_granted_def address_range_def split: option.splits)
  qed
  then show "ip_part (entry_of parse_net x) = range_granted parse_net x"
    "domain_part (entry_of parse_net x) = domain_granted parse_net x" by blast+
qed

lemma dns_part_given: "dns_part x = answer_given x"
proof -
  have "first_ipv4 ss = (case List.map_filter parse_ipv4 ss of [] \<Rightarrow> None | ip # _ \<Rightarrow> Some ip)" for ss
    by (induction ss) (simp_all add: List.map_filter_simps split: option.split)
  then show ?thesis
    by (cases x) (auto simp: dns_part_def answer_given_def names_domain_iff List.map_filter_simps split: list.split)
qed

lemma wan_addresses_nodes: "wan_addresses service_host grp = node_addresses service_host grp"
  by (simp add: wan_addresses_def node_addresses_def normalize_node_address_def Let_def)

lemma excluded_before_colon: "excluded_of as = List.map_filter (\<lambda>a. parse_ipv4 (takeWhile (\<lambda>c. c \<noteq> CHR '':'') a)) as"
proof -
  have ne: "split_char CHR '':'' a \<noteq> []" for a by (cases a) (simp_all split: list.split)
  have "hd (split_char CHR '':'' a) = takeWhile (\<lambda>c. c \<noteq> CHR '':'') a" for a
  proof (induction a)
    case (Cons c a)
    obtain y ys where "split_char CHR '':'' a = y # ys" using ne [of a] by (meson neq_Nil_conv)
    with Cons show ?case by simp
  qed simp
  then show ?thesis by (simp add: excluded_of_def)
qed

text \<open>
  C31. What the snapshot of a response contains. Building it fails exactly when some port
  field is neither a port nor two ports with a dash. Otherwise the IP resources are the ranges of the addresses, in order;
  a domain, a static DNS name and a node group hold the value of the last address (group)
  that names them; the best node of a group is its first \<open>wan\<close> address; the DNS server is the first non-empty one of the two options of the
  policy; the main node group is the configured one; and the excluded addresses are those of all nodes, in order.
\<close>

theorem build_snapshot_contents:
  "case build_snapshot parse_net parsed service_host of
     Inl e \<Rightarrow> list_ex (\<lambda>(app, addr). port_bounds (ae_port addr) = None) (all_addresses (infos_of parsed))
   | Inr snap \<Rightarrow>
       list_all (\<lambda>(app, addr). port_bounds (ae_port addr) \<noteq> None) (all_addresses (infos_of parsed)) \<and>
       ip_resources snap = List.map_filter (range_granted parse_net) (all_addresses (infos_of parsed)) \<and>
       hm_get (domain_resources snap) d =
         map_of (rev (List.map_filter (domain_granted parse_net) (all_addresses (infos_of parsed)))) d \<and>
       hm_get (dns_resource snap) d = map_of (rev (List.map_filter answer_given (all_addresses (infos_of parsed)))) d \<and>
       hm_get (node_groups snap) g = map_of (rev (map (\<lambda>grp. (ng_id grp, node_addresses service_host grp)) (groups_of parsed))) g \<and>
       hm_get (best_nodes snap) g = (case hm_get (node_groups snap) g of Some (a # _) \<Rightarrow> Some a | _ \<Rightarrow> None) \<and>
       dns_server snap = (case sdp_policy (cr_data parsed) of
           None \<Rightarrow> None
         | Some policy \<Rightarrow> List.find (\<lambda>server. server \<noteq> [])
             [first_dns (dns_option (client_option (sp_data policy))), first_dns (dns_option_v2 (client_option (sp_data policy)))]) \<and>
       major_node_group snap = mg_id (nc_major_node_group (node_group_conf (app_config (al_data (app_list (cr_data parsed)))))) \<and>
       excluded_ips snap = List.map_filter (\<lambda>a. parse_ipv4 (takeWhile (\<lambda>c. c \<noteq> CHR '':'') a))
         (concat (map (node_addresses service_host) (groups_of parsed)))"
proof (cases "build_snapshot parse_net parsed service_host")
  case (Inl e)
  with build_snapshot_ok [of parse_net parsed service_host] show ?thesis
    by (simp add: parse_port_range_bounds(2) case_prod_beta list_all_iff list_ex_iff del: not_None_eq)
next
  case (Inr snap)
  have ports: "list_all (\<lambda>(app, addr). port_bounds (ae_port addr) \<noteq> None) (all_addresses (infos_of parsed))"
    using Inr build_snapshot_ok [of parse_net parsed service_host] by (simp add: parse_port_range_bounds(2) case_prod_beta' del: not_None_eq)
  have "concat (map (\<lambda>g. excluded_of (node_addresses service_host g)) gs) = excluded_of (concat (map (node_addresses service_host) gs))" for gs
    by (induction gs) (simp_all add: excluded_of_def List.map_filter_def)
  then have excluded: "excluded_ips snap = List.map_filter (\<lambda>a. parse_ipv4 (takeWhile (\<lambda>c. c \<noteq> CHR '':'') a))
         (concat (map (node_addresses service_host) (groups_of parsed)))"
    unfolding build_snapshot_parts(6) [OF Inr] wan_addresses_nodes excluded_before_colon [symmetric] by simp
  have "hm_wf (node_groups snap)"
    by (simp add: build_snapshot_parts(4) [OF Inr] hm.wf_fold_ins)
  then have best: "hm_get (best_nodes snap) g = (case hm_get (node_groups snap) g of Some (a # _) \<Rightarrow> Some a | _ \<Rightarrow> None)"
    by (simp add: build_snapshot_parts(5) [OF Inr] hm_get_first_nodes)
  have groups: "hm_get (node_groups snap) g = map_of (rev (map (\<lambda>grp. (ng_id grp, node_addresses service_host grp)) (groups_of parsed))) g"
    by (simp add: build_snapshot_parts(4) [OF Inr] hm.get_fold_ins wan_addresses_nodes option.case_eq_if)
  have dns: "dns_server snap = (case sdp_policy (cr_data parsed) of
           None \<Rightarrow> None
         | Some policy \<Rightarrow> List.find (\<lambda>server. server \<noteq> [])
             [first_dns (dns_option (client_option (sp_data policy))), first_dns (dns_option_v2 (client_option (sp_data policy)))])"
    unfolding build_snapshot_parts(7) [OF Inr] by (simp add: choose_dns_server_def Let_def split: option.split)
  have parts: "(\<lambda>x. ip_part (entry_of parse_net x)) = range_granted parse_net" "(\<lambda>x. domain_part (entry_of parse_net x)) = domain_granted parse_net"
    "dns_part = answer_given"
    by (simp_all add: fun_eq_iff entry_of_granted dns_part_given)
  have maps: "hm_get (domain_resources snap) d =
      map_of (rev (List.map_filter (domain_granted parse_net) (all_addresses (infos_of parsed)))) d"
    "hm_get (dns_resource snap) d = map_of (rev (List.map_filter answer_given (all_addresses (infos_of parsed)))) d"
    unfolding build_snapshot_parts(2,3) [OF Inr] parts by (simp_all add: hm.get_fold_ins option.case_eq_if)
  show ?thesis
    unfolding Inr sum.case
    using ports groups best excluded dns maps build_snapshot_parts(1) [OF Inr, unfolded parts] build_snapshot_parts(8) [OF Inr]
    by (intro conjI)
qed

lemma protocol_port_exists:
  assumes "lo \<le> hi"
  shows "\<exists>port. ports_match lo hi port protocol"
  using assms by (cases protocol) (auto simp: ports_match_def)

text \<open>
  The port-blind questions are exact. When the port ranges are not inverted,
  \<open>domain_managed\<close> (asked by a DNS server before the port is known) holds exactly when
  some port of the host would match, and \<open>ip_managed_for_tcp\<close> exactly when some TCP
  port of the address would.
\<close>

theorem managed_iff_some_port:
  assumes "\<forall>(d, r) \<in> set (domain_resources snap). dr_port_min r \<le> dr_port_max r"
    and "\<forall>r \<in> set (ip_resources snap). ir_port_min r \<le> ir_port_max r"
  shows "(domain_managed snap host protocol \<longleftrightarrow> (\<exists>port. match_domain snap host port protocol \<noteq> None)) \<and>
         (ip_managed_for_tcp snap ip \<longleftrightarrow> (\<exists>port. match_ip snap ip port Tcp \<noteq> None))"
proof
  have "(\<exists>(d, r) \<in> set (domain_resources snap). domain_filter None protocol r \<and>
          domain_rule_matches d (normal_host host)) \<longleftrightarrow>
        (\<exists>port. \<exists>(d, r) \<in> set (domain_resources snap). domain_filter (Some port) protocol r \<and>
          domain_rule_matches d (normal_host host))"
    using assms(1) protocol_port_exists by (fastforce simp: domain_filter_def)
  then show "domain_managed snap host protocol \<longleftrightarrow> (\<exists>port. match_domain snap host port protocol \<noteq> None)"
    by (simp add: domain_managed_def match_domain_def match_domain_ports_def match_domain_list_None
        split_beta del: not_None_eq)
  show "ip_managed_for_tcp snap ip \<longleftrightarrow> (\<exists>port. match_ip snap ip port Tcp \<noteq> None)"
    using assms(2) protocol_port_exists [of _ _ Tcp]
    by (auto simp: ip_managed_for_tcp_def match_ip_def match_ip_list_None list_ex_iff
        ip_resource_matches_def simp del: not_None_eq) blast
qed

theorem managed_iff_some_port_witness:
  "(domain_managed demo_snapshot ''git.example.com'' Udp \<longleftrightarrow>
      (\<exists>port. match_domain demo_snapshot ''git.example.com'' port Udp \<noteq> None)) \<and>
   domain_managed demo_snapshot ''git.example.com'' Udp"
proof -
  have "\<forall>(d, r) \<in> set (domain_resources demo_snapshot). dr_port_min r \<le> dr_port_max r"
    "\<forall>r \<in> set (ip_resources demo_snapshot). ir_port_min r \<le> ir_port_max r"
    "domain_managed demo_snapshot ''git.example.com'' Udp"
    by code_simp+
  with managed_iff_some_port [of demo_snapshot "''git.example.com''" Udp] show ?thesis by blast
qed

text \<open>
  Two rules for one host: the snapshot keeps one resource per domain, so the second
  replaces the first even when it covers other ports.
\<close>

definition two_port_apps :: "AppInfo list" where
  "two_port_apps = [\<lparr>apps = [
     \<lparr>ap_id = ''ssh'', ap_node_group_id = ''g1'', ap_address_list =
       [\<lparr>ae_protocol = ''tcp'', ae_port = ''22'', ae_host = ''git.example.com'', ae_ip = []\<rparr>]\<rparr>,
     \<lparr>ap_id = ''web'', ap_node_group_id = ''g1'', ap_address_list =
       [\<lparr>ae_protocol = ''tcp'', ae_port = ''443'', ae_host = ''git.example.com'', ae_ip = []\<rparr>]\<rparr>]\<rparr>]"

text \<open>
  A later rule for the same domain silently drops an earlier one: the response grants
  \<open>git.example.com\<close> on TCP ports 22 and 443 to two applications, and the snapshot tunnels
  port 443 only; port 22 goes out directly.
\<close>

theorem same_domain_overwrites:
  "\<exists>snap. build_snapshot demo_net (demo_response two_port_apps) ''vpn.example.org'' = Inr snap \<and>
     route snap ''git.example.com'' 443 Tcp = Managed \<lparr>app_id = ''web'', node_group_id = ''g1''\<rparr> \<and>
     route snap ''git.example.com'' 22 Tcp = Direct \<and>
     (\<exists>x \<in> set (all_addresses two_port_apps). ae_host (snd x) = ''git.example.com'' \<and>
        grants (snd x) 22 Tcp)"
proof -
  let ?b = "build_snapshot demo_net (demo_response two_port_apps) ''vpn.example.org''"
  have ok: "?b = Inr (projr ?b)" by code_simp
  have r: "route (projr ?b) ''git.example.com'' 443 Tcp = Managed \<lparr>app_id = ''web'', node_group_id = ''g1''\<rparr>"
    "route (projr ?b) ''git.example.com'' 22 Tcp = Direct"
    by code_simp+
  have "parse_port_range ''22'' = Inr (22, 22)" by code_simp
  then have "grants (snd (all_addresses two_port_apps ! 0)) 22 Tcp"
    by (simp add: grants_def all_addresses_def two_port_apps_def protocol_matches_def ports_match_def)
  moreover have "all_addresses two_port_apps ! 0 \<in> set (all_addresses two_port_apps)"
    "ae_host (snd (all_addresses two_port_apps ! 0)) = ''git.example.com''"
    by code_simp+
  ultimately show ?thesis using ok r by blast
qed

end
