(* ===== verification/Pac.thy ===== *)
theory Pac
  imports Resource "HOL-Library.List_Lexorder" "HOL-Library.Char_ord" "HOL-Library.Product_Lexorder"
begin

text \<open>
  Proxy auto-configuration (pac.rs): the tables \<open>generate_pac\<close> builds from a snapshot, the
  script text around them, and what the script computes. \<open>js_string\<close> (serde_json) is a
  parameter. The script is modelled as a function of its tables: JavaScript strings of host
  names are ASCII, numbers up to \<open>2^32\<close> are exact, and \<open>dnsResolve\<close> of the browser is a
  parameter; \<open>isPlainHostName\<close> holds for a name without dots.
\<close>

section \<open>The tables\<close>

definition carries_tcp :: "string \<Rightarrow> bool" where
  "carries_tcp protocol = (protocol = ''all'' \<or> protocol = ''tcp'')"

definition pac_char :: "char \<Rightarrow> bool" where
  "pac_char c = (ascii_alphanumeric c \<or> c \<in> {CHR ''.'', CHR ''-'', CHR ''_''})"

definition normalize_domain :: "string \<Rightarrow> string option" where
  "normalize_domain domain =
     (let normalized = to_ascii_lowercase (trim (trim_matches ''.'' (filter (\<lambda>c. c \<noteq> CHR ''*'') domain)))
      in if normalized \<noteq> [] \<and> list_all pac_char normalized then Some normalized else None)"

definition pac_domains :: "ResourceSnapshot \<Rightarrow> string list" where
  "pac_domains snapshot =
     remdups_adj (sort (List.map_filter (\<lambda>(domain, resource). normalize_domain domain)
       (filter (\<lambda>(domain, resource). carries_tcp (dr_protocol resource)) (domain_resources snapshot))))"

definition pac_ranges :: "ResourceSnapshot \<Rightarrow> (u32 \<times> u32) list" where
  "pac_ranges snapshot =
     remdups_adj (sort (filter (\<lambda>(lo, hi). lo \<le> hi)
       (map (\<lambda>resource. (ir_ip_min resource, ir_ip_max resource))
         (filter (\<lambda>resource. carries_tcp (ir_protocol resource)) (ip_resources snapshot)))))"

definition proxy_line :: "SocketAddr \<Rightarrow> string" where
  "proxy_line proxy =
     (case proxy of (ip, port) \<Rightarrow>
        let host = (case ip of V4 _ \<Rightarrow> show_ip ip | V6 _ \<Rightarrow> ''['' @ show_ip ip @ '']'');
            addr = host @ '':'' @ nat_str (unat port)
        in ''PROXY '' @ addr @ ''; SOCKS5 '' @ addr @ ''; DIRECT'')"

definition domain_table :: "(string \<Rightarrow> string) \<Rightarrow> string list \<Rightarrow> string" where
  "domain_table js_string domains = join_str '','' (map (\<lambda>domain. js_string domain @ '':1'') domains)"

definition range_table :: "(u32 \<times> u32) list \<Rightarrow> string" where
  "range_table ranges =
     join_str '','' (map (\<lambda>(lo, hi). ''['' @ nat_str (unat lo) @ '','' @ nat_str (unat hi) @ '']'') ranges)"

section \<open>The script text\<close>

definition quoted :: "string \<Rightarrow> string" where
  "quoted s = CHR 0x22 # s @ [CHR 0x22]"

definition script_lines :: "string \<Rightarrow> string \<Rightarrow> string \<Rightarrow> string list" where
  "script_lines proxy domains ranges = [
     ''function FindProxyForURL(url, host) {'',
     ''  var PROXY = '' @ proxy @ '';'',
     ''  var DOMAINS = {'' @ domains @ ''};'',
     ''  var RANGES = ['' @ ranges @ ''];'',
     ''  function ipToNumber(value) {'',
     ''    var parts = value.split('' @ quoted ''.'' @ '');'',
     ''    if (parts.length != 4) return -1;'',
     ''    var number = 0;'',
     ''    for (var i = 0; i < 4; i++) {'',
     ''      if (!/^[0-9]{1,3}$/.test(parts[i])) return -1;'',
     ''      var octet = parseInt(parts[i], 10);'',
     ''      if (octet > 255) return -1;'',
     ''      number = number * 256 + octet;'',
     ''    }'',
     ''    return number;'',
     ''  }'',
     ''  function inRanges(number) {'',
     ''    for (var i = 0; i < RANGES.length; i++) {'',
     ''      if (number >= RANGES[i][0] && number <= RANGES[i][1]) return true;'',
     ''    }'',
     ''    return false;'',
     ''  }'',
     ''  host = host.toLowerCase();'',
     ''  if (host.charAt(host.length - 1) == '' @ quoted ''.'' @ '') host = host.substring(0, host.length - 1);'',
     ''  var suffix = host;'',
     ''  while (true) {'',
     ''    if (DOMAINS.hasOwnProperty(suffix)) return PROXY;'',
     ''    var dot = suffix.indexOf('' @ quoted ''.'' @ '');'',
     ''    if (dot < 0) break;'',
     ''    suffix = suffix.substring(dot + 1);'',
     ''  }'',
     ''  if (RANGES.length == 0) return '' @ quoted ''DIRECT'' @ '';'',
     ''  var number = ipToNumber(host);'',
     ''  if (number < 0) {'',
     ''    if (isPlainHostName(host)) return '' @ quoted ''DIRECT'' @ '';'',
     ''    var resolved = dnsResolve(host);'',
     ''    if (!resolved) return '' @ quoted ''DIRECT'' @ '';'',
     ''    number = ipToNumber(resolved);'',
     ''  }'',
     ''  if (number >= 0 && inRanges(number)) return PROXY;'',
     ''  return '' @ quoted ''DIRECT'' @ '';'',
     ''}'']"

definition generate_pac :: "(string \<Rightarrow> string) \<Rightarrow> ResourceSnapshot \<Rightarrow> SocketAddr \<Rightarrow> string" where
  "generate_pac js_string snapshot proxy =
     concat (map (\<lambda>l. l @ [CHR 0x0A])
       (script_lines (js_string (proxy_line proxy)) (domain_table js_string (pac_domains snapshot))
          (range_table (pac_ranges snapshot))))"

section \<open>What the script computes\<close>

text \<open>\<open>ipToNumber\<close>; \<open>None\<close> is the result -1.\<close>

definition js_octet :: "string \<Rightarrow> nat option" where
  "js_octet part =
     (if 1 \<le> length part \<and> length part \<le> 3 \<and> list_all ascii_digit part \<and> dec_value part \<le> 255
      then Some (dec_value part) else None)"

definition ip_to_number :: "string \<Rightarrow> nat option" where
  "ip_to_number v =
     (case map js_octet (split_char CHR ''.'' v) of
        [Some a, Some b, Some c, Some d] \<Rightarrow> Some (((a * 256 + b) * 256 + c) * 256 + d)
      | _ \<Rightarrow> None)"

definition in_ranges :: "(u32 \<times> u32) list \<Rightarrow> nat \<Rightarrow> bool" where
  "in_ranges ranges number = list_ex (\<lambda>(lo, hi). unat lo \<le> number \<and> number \<le> unat hi) ranges"

text \<open>
  \<open>hasOwnProperty\<close> on the object literal: every key is an own property, except that
  \<open>__proto__\<close> in a literal sets the prototype.
\<close>

definition has_own_property :: "string list \<Rightarrow> string \<Rightarrow> bool" where
  "has_own_property keys s = (s \<in> set keys \<and> s \<noteq> ''__proto__'')"

function suffix_listed :: "string list \<Rightarrow> string \<Rightarrow> bool" where
  "suffix_listed domains suffix =
     (if has_own_property domains suffix then True
      else case split_once CHR ''.'' suffix of
        None \<Rightarrow> False
      | Some (_, rest) \<Rightarrow> suffix_listed domains rest)"
  by pat_completeness auto
termination
  by (relation "measure (\<lambda>(domains, suffix). length suffix)") (auto simp: split_once_Some)

lemmas [simp del] = suffix_listed.simps

definition pac_host :: "string \<Rightarrow> string" where
  "pac_host host =
     (let h = to_ascii_lowercase host in if h \<noteq> [] \<and> last h = CHR ''.'' then butlast h else h)"

definition pac_address :: "(string \<Rightarrow> string option) \<Rightarrow> string \<Rightarrow> nat option" where
  "pac_address dns_resolve host =
     (case ip_to_number host of
        Some n \<Rightarrow> Some n
      | None \<Rightarrow>
          if CHR ''.'' \<notin> set host then None
          else case dns_resolve host of
            None \<Rightarrow> None
          | Some resolved \<Rightarrow> ip_to_number resolved)"

definition find_proxy_for_url ::
  "string \<Rightarrow> string list \<Rightarrow> (u32 \<times> u32) list \<Rightarrow> (string \<Rightarrow> string option) \<Rightarrow> string \<Rightarrow> string" where
  "find_proxy_for_url proxy domains ranges dns_resolve host0 =
     (let host = pac_host host0 in
      if suffix_listed domains host then proxy
      else if ranges = [] then ''DIRECT''
      else case pac_address dns_resolve host of
        None \<Rightarrow> ''DIRECT''
      | Some number \<Rightarrow> if in_ranges ranges number then proxy else ''DIRECT'')"

section \<open>Lemmas\<close>

lemma set_pac_domains:
  "set (pac_domains snap) =
     {d. \<exists>(domain, r) \<in> set (domain_resources snap). carries_tcp (dr_protocol r) \<and> normalize_domain domain = Some d}"
  by (simp add: pac_domains_def set_map_filter) blast

lemma set_pac_ranges:
  "set (pac_ranges snap) =
     {(ir_ip_min r, ir_ip_max r) | r. r \<in> set (ip_resources snap) \<and> carries_tcp (ir_protocol r) \<and> ir_ip_min r \<le> ir_ip_max r}"
  by (auto simp: pac_ranges_def)

lemma carries_tcp_matches: "carries_tcp p \<longleftrightarrow> protocol_matches p Tcp"
  by (auto simp: carries_tcp_def protocol_matches_def)

lemma in_ranges_managed:
  "in_ranges (pac_ranges snap) (unat ip) \<longleftrightarrow> ip_managed_for_tcp snap ip"
  by (force simp: in_ranges_def list_ex_iff set_pac_ranges ip_managed_for_tcp_def carries_tcp_matches
      ip_between_iff word_le_nat_alt)

lemma first_split:
  "labels @ c # d = a @ c # rest \<Longrightarrow> c \<notin> set a \<Longrightarrow>
     d = rest \<or> (\<exists>labels'. rest = labels' @ c # d)"
  by (induction a arbitrary: labels) (auto simp: Cons_eq_append_conv append_eq_Cons_conv)

lemma suffix_listed_iff:
  "suffix_listed domains s \<longleftrightarrow> (\<exists>d \<in> set domains. d \<noteq> ''__proto__'' \<and> subdomain_of d s)"
proof (induction s rule: length_induct)
  case (1 s)
  show ?case
  proof (cases "split_once CHR ''.'' s")
    case None
    then have "subdomain_of d s \<longleftrightarrow> d = s" for d
      by (auto simp: split_once_None_iff subdomain_of_def)
    with None show ?thesis by (subst suffix_listed.simps) (auto simp: has_own_property_def)
  next
    case (Some p)
    then obtain a rest where p: "p = (a, rest)" "s = a @ CHR ''.'' # rest" "CHR ''.'' \<notin> set a"
      by (cases p) (auto simp: split_once_Some)
    have "subdomain_of d s \<longleftrightarrow> d = s \<or> subdomain_of d rest" for d
      unfolding subdomain_of_def using p(2) first_split [OF _ p(3), of _ d rest] by (metis append_Cons append_assoc)
    moreover have "suffix_listed domains rest \<longleftrightarrow> (\<exists>d \<in> set domains. d \<noteq> ''__proto__'' \<and> subdomain_of d rest)"
      using 1 p(2) by simp
    ultimately show ?thesis using Some p(1) by (subst suffix_listed.simps) (auto simp: has_own_property_def)
  qed
qed

text \<open>Rules whose normal form is the same in the script and in the router.\<close>

definition pac_rule :: "string \<Rightarrow> bool" where
  "pac_rule domain \<longleftrightarrow> plain_rule domain \<and> list_all printable domain \<and> bare_rule domain \<noteq> [] \<and>
     list_all pac_char (bare_rule domain) \<and> bare_rule domain \<noteq> ''__proto__''"

lemma char_lower_dot [simp]: "char_lower c = CHR ''.'' \<longleftrightarrow> c = CHR ''.''"
proof (cases "ascii_upper c")
  case True
  then have "of_char (char_lower c) = (of_char c + 32 :: nat)" "c \<noteq> CHR ''.''"
    by (auto simp: char_lower_def ascii_upper_def of_char_of)
  with True show ?thesis by (auto simp: ascii_upper_def)
qed (simp add: char_lower_def)

lemma trim_start_lowercase: "trim_start_set ''.'' (to_ascii_lowercase s) = to_ascii_lowercase (trim_start_set ''.'' s)"
  by (simp add: trim_start_set_def to_ascii_lowercase_def dropWhile_map comp_def)

lemma dropWhile_rev_swap:
  "dropWhile P (rev (dropWhile P (rev s))) = rev (dropWhile P (rev (dropWhile P s)))"
proof (cases "\<forall>c \<in> set s. P c")
  case True
  then show ?thesis by (simp add: dropWhile_eq_Nil_conv [THEN iffD2])
next
  case False
  then obtain a c b where s: "s = a @ c # b" "\<forall>x \<in> set a. P x" "\<not> P c"
    using split_list_first_prop [of s "\<lambda>x. \<not> P x"] by auto
  have 1: "dropWhile P (rev (c # b)) = dropWhile P (rev b) @ [c] \<or> dropWhile P (rev (c # b)) = [c]" for b
    using s(3) by (induction b rule: rev_induct) auto
  have 2: "dropWhile P (rev b @ c # rev a) = dropWhile P (rev b @ [c]) @ rev a"
    using s(3) by (induction b rule: rev_induct) auto
  have "\<exists>zs. dropWhile P (rev b @ [c]) = zs @ [c]"
    using s(3) by (induction b rule: rev_induct) auto
  then obtain zs where zs: "dropWhile P (rev b @ [c]) = zs @ [c]" by blast
  have "dropWhile P s = c # b" using s by simp
  then show ?thesis using s zs 2 by (simp add: dropWhile_append2)
qed

lemma normalize_domain_bare:
  assumes "pac_rule domain"
  shows "normalize_domain domain = Some (bare_rule domain)"
proof -
  let ?f = "filter (\<lambda>c. c \<noteq> CHR ''*'') domain"
  have swap: "trim_matches ''.'' ?f = trim_start_set ''.'' (trim_end_set ''.'' ?f)"
    by (simp add: trim_matches_def trim_start_set_def trim_end_set_def dropWhile_rev_swap)
  have "set (trim_matches ''.'' ?f) \<subseteq> set domain"
    by (auto simp: trim_matches_def trim_start_set_def trim_end_set_def dest!: set_dropWhileD)
  then have "trim (trim_matches ''.'' ?f) = trim_matches ''.'' ?f"
    using assms by (intro trim_printable) (auto simp: pac_rule_def list_all_iff)
  with swap have "to_ascii_lowercase (trim (trim_matches ''.'' ?f)) = bare_rule domain"
    by (simp add: bare_rule_def rule_domain_def trim_start_lowercase)
  with assms show ?thesis by (simp add: normalize_domain_def pac_rule_def)
qed

lemma pac_host_normal:
  assumes "\<not> ends_with ''..'' host"
  shows "pac_host host = normal_host host"
proof (cases host rule: rev_cases)
  case (snoc h c)
  show ?thesis
  proof (cases h rule: rev_cases)
    case (snoc h' c')
    with assms \<open>host = h @ [c]\<close> have "\<not> (c' = CHR ''.'' \<and> c = CHR ''.'')"
      by (auto simp: ends_with_iff)
    with snoc \<open>host = h @ [c]\<close> show ?thesis
      by (auto simp: pac_host_def normal_host_def trim_end_set_def to_ascii_lowercase_def Let_def butlast_append)
  qed (use snoc in \<open>auto simp: pac_host_def normal_host_def trim_end_set_def to_ascii_lowercase_def Let_def\<close>)
qed (simp add: pac_host_def normal_host_def trim_end_set_def to_ascii_lowercase_def)

lemma suffix_listed_managed:
  assumes "\<forall>(domain, r) \<in> set (domain_resources snap). pac_rule domain" "\<not> ends_with ''..'' host"
  shows "suffix_listed (pac_domains snap) (pac_host host) \<longleftrightarrow> domain_managed snap host Tcp"
proof -
  have iff: "domain_rule_matches domain h \<longleftrightarrow> subdomain_of (bare_rule domain) h"
    and nd: "normalize_domain domain = Some (bare_rule domain)" "bare_rule domain \<noteq> ''__proto__''"
    if "(domain, r) \<in> set (domain_resources snap)" for domain r h
    using assms(1) that domain_rule_sound domain_rule_complete normalize_domain_bare
    by (auto simp: pac_rule_def)
  have "domain_managed snap host Tcp \<longleftrightarrow>
      (\<exists>(domain, r) \<in> set (domain_resources snap). carries_tcp (dr_protocol r) \<and>
         subdomain_of (bare_rule domain) (pac_host host))"
    using iff by (simp add: domain_managed_def match_domain_ports_def match_domain_list_None
        pac_host_normal [OF assms(2)] domain_filter_def carries_tcp_matches del: not_None_eq) blast
  also have "\<dots> \<longleftrightarrow> suffix_listed (pac_domains snap) (pac_host host)"
    using nd by (fastforce simp: suffix_listed_iff set_pac_domains)
  finally show ?thesis by simp
qed

subsection \<open>Dotted quads\<close>

lemma dec_value_nat_str: "dec_value (nat_str n) = n"
proof -
  have "dec_value (map digit_char ds) = digits_value 10 ds" if "\<And>d. d \<in> set ds \<Longrightarrow> d < 10" for ds
    using that
  proof (induction ds rule: rev_induct)
    case (snoc d ds)
    then have "d < 10" by simp
    then have "digit_val (digit_char d) = d" by (simp add: digit_val_def digit_char_def)
    with snoc show ?case by (simp add: dec_value_def digits_value_append)
  qed (simp add: dec_value_def digits_value_def)
  then show ?thesis using nat_digits_less_10 by (simp add: nat_str_def digits_value_nat_digits)
qed

lemma js_octet_nat_str: "js_octet (nat_str (unat (b :: u8))) = Some (unat b)"
proof -
  have "1 \<le> length (nat_str (unat b))" by (simp add: nat_str_def Suc_le_eq)
  moreover have "unat b \<le> 255" using unat_u8_less [of b] by simp
  ultimately show ?thesis
    by (simp add: js_octet_def length_nat_str_u8 dec_value_nat_str list_all_iff nat_str_chars)
qed

lemma split_char_append: "c \<notin> set a \<Longrightarrow> split_char c (a @ c # b) = a # split_char c b"
  by (induction a) auto

lemma split_char_none: "c \<notin> set a \<Longrightarrow> split_char c a = [a]"
  by (induction a) auto

lemma dot_notin_nat_str: "CHR ''.'' \<notin> set (nat_str n)"
  using nat_str_chars by (fastforce simp: ascii_digit_def)

lemma unat_ipv4_new:
  "unat (ipv4_new a b c d) = ((unat a * 256 + unat b) * 256 + unat c) * 256 + unat d"
  by (simp add: ipv4_new_def unat_u32_from_be_bytes)

lemma ip_to_number_show: "ip_to_number (show_ipv4 ip) = Some (unat ip)"
proof -
  obtain a b c d where ip: "ip = ipv4_new a b c d" using octets_cases by blast
  have "split_char CHR ''.'' (show_ipv4 ip) =
      [nat_str (unat a), nat_str (unat b), nat_str (unat c), nat_str (unat d)]"
    by (simp add: ip show_ipv4_new split_char_append split_char_none dot_notin_nat_str)
  then show ?thesis by (simp add: ip_to_number_def js_octet_nat_str ip unat_ipv4_new)
qed

lemma last_show_ipv4: "show_ipv4 ip \<noteq> [] \<and> last (show_ipv4 ip) \<noteq> CHR ''.''"
proof -
  obtain a b c d where ip: "ip = ipv4_new a b c d" using octets_cases by blast
  have "nat_str (unat d) \<noteq> []" by (simp add: nat_str_def)
  then have "last (show_ipv4 ip) \<in> set (nat_str (unat d))" by (simp add: ip show_ipv4_new)
  with dot_notin_nat_str show ?thesis by (auto simp: ip show_ipv4_new)
qed

lemma pac_host_show_ipv4: "pac_host (show_ipv4 ip) = show_ipv4 ip"
proof -
  have "char_lower c = c" if "c \<in> set (show_ipv4 ip)" for c
    using show_ipv4_chars [OF that] by (auto simp: char_lower_def ascii_upper_def ascii_digit_def)
  then have "to_ascii_lowercase (show_ipv4 ip) = show_ipv4 ip"
    by (simp add: to_ascii_lowercase_def map_idI)
  then show ?thesis using last_show_ipv4 by (simp add: pac_host_def)
qed

section \<open>Properties\<close>

lemma proxy_line_not_direct [simp]: "proxy_line proxy \<noteq> ''DIRECT''" "''DIRECT'' \<noteq> proxy_line proxy"
  by (simp_all add: proxy_line_def Let_def split: prod.splits)

lemma in_ranges_word:
  "in_ranges (pac_ranges snap) n \<longleftrightarrow> (\<exists>ip. n = unat ip \<and> ip_managed_for_tcp snap ip)"
proof
  assume r: "in_ranges (pac_ranges snap) n"
  then obtain hi :: u32 where "n \<le> unat hi" by (auto simp: in_ranges_def list_ex_iff)
  from le_less_trans [OF this unat_u32_less [of hi]] have "unat (word_of_nat n :: u32) = n" by (simp add: unat_of_nat)
  with r in_ranges_managed [of snap "word_of_nat n"] show "\<exists>ip. n = unat ip \<and> ip_managed_for_tcp snap ip" by metis
qed (auto simp: in_ranges_managed)

lemma find_proxy_iff:
  "find_proxy_for_url (proxy_line proxy) (pac_domains snap) (pac_ranges snap) dns host = proxy_line proxy \<longleftrightarrow>
     suffix_listed (pac_domains snap) (pac_host host) \<or>
     (\<exists>ip. pac_address dns (pac_host host) = Some (unat ip) \<and> ip_managed_for_tcp snap ip)"
proof -
  have none: "\<not> in_ranges (pac_ranges snap) n" if "pac_ranges snap = []" for n
    using that by (simp add: in_ranges_def)
  then have "find_proxy_for_url (proxy_line proxy) (pac_domains snap) (pac_ranges snap) dns host = proxy_line proxy \<longleftrightarrow>
      suffix_listed (pac_domains snap) (pac_host host) \<or>
      (\<exists>n. pac_address dns (pac_host host) = Some n \<and> in_ranges (pac_ranges snap) n)"
    by (cases "pac_ranges snap = []") (auto simp: find_proxy_for_url_def Let_def split: option.splits)
  then show ?thesis by (auto simp: in_ranges_word)
qed

subsection \<open>Names and addresses\<close>

















text \<open>
  Where the script and the router differ. A rule with two wildcards in front matches the bare domain only in the
  router but every subdomain in the script, which still answers with the proxy; a host with two trailing dots is tunnelled by the router but
  goes around the proxy; a number with leading zeros is an address for the script and a name for the router.
\<close>

definition demo_wildcards :: ResourceSnapshot where
  "demo_wildcards = default_snapshot\<lparr>
     domain_resources := [(''..example.com'', \<lparr>dr_port_min = 1, dr_port_max = 65535, dr_protocol = ''tcp'', dr_app_id = ''a'', dr_node_group_id = ''g''\<rparr>)],
     ip_resources := [\<lparr>ir_ip_min = ipv4_new 10 0 0 0, ir_ip_max = ipv4_new 10 0 0 255, ir_port_min = 1, ir_port_max = 65535,
       ir_protocol = ''tcp'', ir_app_id = ''a'', ir_node_group_id = ''g''\<rparr>]\<rparr>"

lemma pac_router_differences:
  "let script = find_proxy_for_url ''PROXY'' (pac_domains demo_wildcards) (pac_ranges demo_wildcards) (\<lambda>_. None) in
   script ''git.example.com'' = ''PROXY'' \<and> route demo_wildcards ''git.example.com'' 443 Tcp = Direct \<and>
   script ''example.com..'' = ''DIRECT'' \<and> route demo_wildcards ''example.com..'' 443 Tcp = Managed \<lparr>app_id = ''a'', node_group_id = ''g''\<rparr> \<and>
   script ''010.0.0.1'' = ''PROXY'' \<and> route demo_wildcards ''010.0.0.1'' 443 Tcp = Direct"
  by code_simp

lemma double_wildcard_key: "filter (\<lambda>c. c \<noteq> CHR ''*'') ''*.*.example.com'' = ''..example.com''"
  by simp

text \<open>
  No managed connection goes around the proxy: a TCP connection the router would tunnel,
  to a name or to a dotted quad, is one for which the script answers with the proxy.
\<close>

theorem pac_covers_router:
  assumes "\<forall>(domain, r) \<in> set (domain_resources snap). pac_rule domain" "\<not> ends_with ''..'' host"
    and "parse_ipv4 host = None \<or> (\<exists>ip. host = show_ipv4 ip)"
    and "route snap host port Tcp = Managed hit"
  shows "find_proxy_for_url (proxy_line proxy) (pac_domains snap) (pac_ranges snap) dns host = proxy_line proxy"
  using assms(4)
proof (cases rule: route_Managed_cases)
  case (by_ip ip r)
  with assms(3) have "host = show_ipv4 ip" by auto
  moreover have "ip_managed_for_tcp snap ip"
    using by_ip by (auto simp: ip_managed_for_tcp_def list_ex_iff ip_resource_matches_def)
  ultimately show ?thesis
    by (auto simp: find_proxy_iff pac_host_show_ipv4 pac_address_def ip_to_number_show)
next
  case (by_domain d r)
  then have "domain_managed snap host Tcp"
    by (auto simp: domain_managed_def match_domain_ports_def match_domain_list_None domain_filter_def simp del: not_None_eq)
  then show ?thesis by (simp add: find_proxy_iff suffix_listed_managed [OF assms(1,2)])
qed

theorem pac_covers_router_witness:
  "find_proxy_for_url (proxy_line (V4 (ipv4_new 127 0 0 1), 1920)) (pac_domains demo_snapshot) (pac_ranges demo_snapshot)
     (\<lambda>_. None) ''git.example.com'' = proxy_line (V4 (ipv4_new 127 0 0 1), 1920)"
proof -
  have "\<forall>(domain, r) \<in> set (domain_resources demo_snapshot). pac_rule domain" "\<not> ends_with ''..'' ''git.example.com''"
    "parse_ipv4 ''git.example.com'' = None"
    by code_simp+
  moreover obtain hit where "route demo_snapshot ''git.example.com'' 443 Tcp = Managed hit"
  proof -
    have "(case route demo_snapshot ''git.example.com'' 443 Tcp of Managed _ \<Rightarrow> True | Direct \<Rightarrow> False)" by code_simp
    then show ?thesis using that by (auto split: RouteDecision.splits)
  qed
  ultimately show ?thesis using pac_covers_router by blast
qed

end
