(* ===== verification/Ttl_Cache.thy ===== *)
theory Ttl_Cache
  imports Prelude
begin

text \<open>
  The contract of a cache whose entries expire, shared by the DNS cache of the proxy and the
  interface cache of the transport. A call reads the clock when it looks into the cache
  (\<open>t0\<close>) and again when it stores what it computed (\<open>t1\<close>); \<open>source t0 t1 k\<close> is what computing
  the answer for \<open>k\<close> in that call gives, and \<open>storable\<close> tells which answers are kept.
\<close>

locale ttl_cache =
  fixes ask :: "nat \<Rightarrow> nat \<Rightarrow> 'k \<Rightarrow> 's \<Rightarrow> 'v \<times> 's"
    and stored :: "'s \<Rightarrow> 'k \<Rightarrow> ('v \<times> nat) option"
    and source :: "nat \<Rightarrow> nat \<Rightarrow> 'k \<Rightarrow> 'v"
    and ttl :: nat
    and inv :: "'s \<Rightarrow> bool"
  assumes hit: "stored s k = Some (v, t) \<Longrightarrow> t0 - t < ttl \<Longrightarrow> ask t0 t1 k s = (v, s)"
    and miss: "\<not> (\<exists>v t. stored s k = Some (v, t) \<and> t0 - t < ttl) \<Longrightarrow> fst (ask t0 t1 k s) = source t0 t1 k"
    and keeps_inv: "inv s \<Longrightarrow> inv (snd (ask t0 t1 k s))"
    and keeps: "inv s \<Longrightarrow> stored (snd (ask t0 t1 k s)) k' = Some (v, t) \<Longrightarrow>
      stored s k' = Some (v, t) \<or> k' = k \<and> v = source t0 t1 k \<and> t = t1"
begin

text \<open>The state after a sequence of calls.\<close>

fun run :: "(nat \<times> nat \<times> 'k) list \<Rightarrow> 's \<Rightarrow> 's" where
  "run [] s = s"
| "run ((t0, t1, k) # calls) s = run calls (snd (ask t0 t1 k s))"

lemma run_inv: "inv s \<Longrightarrow> inv (run calls s)"
  by (induction calls s rule: run.induct) (simp_all add: keeps_inv)

lemma run_stored:
  "inv s \<Longrightarrow> stored (run calls s) k = Some (v, t) \<Longrightarrow>
     stored s k = Some (v, t) \<or> (\<exists>t0. (t0, t, k) \<in> set calls \<and> v = source t0 t k)"
proof (induction calls arbitrary: s)
  case (Cons call calls)
  obtain t0 t1 k' where "call = (t0, t1, k')" by (cases call)
  with Cons show ?case using keeps [of s t0 t1 k' k v t] keeps_inv [of s t0 t1 k'] by auto
qed simp

lemma answer_fresh:
  assumes "inv s" "\<And>k. stored s k = None"
  shows "fst (ask t0 t1 k (run calls s)) = source t0 t1 k \<or>
     (\<exists>u0 u1. (u0, u1, k) \<in> set calls \<and> fst (ask t0 t1 k (run calls s)) = source u0 u1 k \<and> t0 - u1 < ttl)"
proof (cases "\<exists>v t. stored (run calls s) k = Some (v, t) \<and> t0 - t < ttl")
  case True
  then obtain v t where vt: "stored (run calls s) k = Some (v, t)" "t0 - t < ttl" by blast
  with run_stored [OF assms(1) vt(1)] assms(2) obtain u0 where "(u0, t, k) \<in> set calls" "v = source u0 t k" by auto
  with hit [OF vt] vt(2) show ?thesis by fastforce
qed (simp add: miss)

end

end
