(* ===== verification/Interfaces.thy ===== *)
theory Interfaces
  imports Types Ttl_Cache
begin

text \<open>
  Choosing how to connect (transport.rs): trying the addresses of a host under one deadline,
  binding to a network interface with a retry after the default route changed, the cache of
  the default interface, and the choice of a physical interface. The socket calls, the
  \<open>/sbin/route\<close> subprocess and the interface list of the system are parameters. Times are in
  milliseconds.
\<close>

section \<open>Trying addresses\<close>

definition CONNECT_ATTEMPT_TIMEOUT :: nat where
  "CONNECT_ATTEMPT_TIMEOUT = 2500"

definition attempt_timeout :: "nat \<Rightarrow> bool \<Rightarrow> nat" where
  "attempt_timeout remaining is_last = (if is_last then remaining else min remaining CONNECT_ATTEMPT_TIMEOUT)"

text \<open>
  \<open>now i\<close> is the clock before the \<open>i\<close>-th attempt and \<open>connect i addr timeout\<close> the outcome of
  that attempt.
\<close>

fun connect_any_loop ::
  "(nat \<Rightarrow> nat) \<Rightarrow> (nat \<Rightarrow> SocketAddr \<Rightarrow> nat \<Rightarrow> AtrError + 'c) \<Rightarrow> nat \<Rightarrow> nat \<Rightarrow> SocketAddr list \<Rightarrow> AtrError option \<Rightarrow> AtrError + 'c" where
  "connect_any_loop now connect deadline i [] last_error =
     Inl (case last_error of Some e \<Rightarrow> e | None \<Rightarrow> NetworkFailed ''no address to connect to'')"
| "connect_any_loop now connect deadline i (addr # rest) last_error =
     (let remaining = deadline - now i in
      if remaining = 0
      then Inl (case last_error of Some e \<Rightarrow> e | None \<Rightarrow> NetworkFailed ''no address to connect to'')
      else case connect i addr (attempt_timeout remaining (rest = [])) of
        Inr c \<Rightarrow> Inr c
      | Inl e \<Rightarrow> connect_any_loop now connect deadline (Suc i) rest (Some e))"

definition connect_tcp_any ::
  "nat \<Rightarrow> (nat \<Rightarrow> nat) \<Rightarrow> (nat \<Rightarrow> SocketAddr \<Rightarrow> nat \<Rightarrow> AtrError + 'c) \<Rightarrow> SocketAddr list \<Rightarrow> nat \<Rightarrow> AtrError + 'c" where
  "connect_tcp_any start now connect addrs timeout = connect_any_loop now connect (start + timeout) 0 addrs None"

section \<open>The interface cache\<close>

definition DEFAULT_INTERFACE_CACHE_TTL :: nat where
  "DEFAULT_INTERFACE_CACHE_TTL = 30000"

record DefaultInterfaceCache =
  dic_v4 :: "(u32 \<times> nat) option"
  dic_v6 :: "(u32 \<times> nat) option"

definition is_v4 :: "SocketAddr \<Rightarrow> bool" where
  "is_v4 addr = (case fst addr of V4 _ \<Rightarrow> True | V6 _ \<Rightarrow> False)"

definition cache_slot :: "bool \<Rightarrow> DefaultInterfaceCache \<Rightarrow> (u32 \<times> nat) option" where
  "cache_slot v4 cache = (if v4 then dic_v4 cache else dic_v6 cache)"

definition store_default_interface_index :: "bool \<Rightarrow> u32 \<Rightarrow> nat \<Rightarrow> DefaultInterfaceCache \<Rightarrow> DefaultInterfaceCache" where
  "store_default_interface_index v4 index now cache =
     (if v4 then cache\<lparr>dic_v4 := Some (index, now)\<rparr> else cache\<lparr>dic_v6 := Some (index, now)\<rparr>)"

text \<open>The family of the address selects the slot; \<open>compute\<close> is \<open>compute_default_interface_index\<close> for it.\<close>

definition refresh_default_interface_index ::
  "u32 option \<Rightarrow> nat \<Rightarrow> bool \<Rightarrow> DefaultInterfaceCache \<Rightarrow> u32 option \<times> DefaultInterfaceCache" where
  "refresh_default_interface_index computed now v4 cache =
     (case computed of
        None \<Rightarrow> (None, cache)
      | Some index \<Rightarrow> (Some index, store_default_interface_index v4 index now cache))"

definition cached_default_interface_index ::
  "(nat \<Rightarrow> nat \<Rightarrow> bool \<Rightarrow> u32 option) \<Rightarrow> nat \<Rightarrow> nat \<Rightarrow> bool \<Rightarrow> DefaultInterfaceCache \<Rightarrow> u32 option \<times> DefaultInterfaceCache" where
  "cached_default_interface_index compute t0 t1 v4 cache =
     (case cache_slot v4 cache of
        Some (index, refreshed) \<Rightarrow>
          if t0 - refreshed < DEFAULT_INTERFACE_CACHE_TTL then (Some index, cache)
          else refresh_default_interface_index (compute t0 t1 v4) t1 v4 cache
      | None \<Rightarrow> refresh_default_interface_index (compute t0 t1 v4) t1 v4 cache)"

section \<open>Connecting through an interface\<close>

text \<open>
  \<open>connect_tcp_bound\<close>: \<open>by_name\<close> is \<open>interface_index_by_name\<close>, \<open>once\<close> the bound connect and
  \<open>configure\<close> the socket options; \<open>cached\<close> and \<open>refreshed\<close> are what the two cache accesses
  of the call return. The result also tells the interfaces that were tried.
\<close>

definition connect_tcp_bound ::
  "(string \<Rightarrow> AtrError + u32 option) \<Rightarrow> (u32 option \<Rightarrow> AtrError + 'c) \<Rightarrow> ('c \<Rightarrow> AtrError + 'c) \<Rightarrow> u32 option \<Rightarrow> u32 option \<Rightarrow>
   ClientConfig \<Rightarrow> (AtrError + 'c) \<times> u32 option list" where
  "connect_tcp_bound by_name once configure cached refreshed config =
     (case (case bind_interface config of None \<Rightarrow> Inr None | Some name \<Rightarrow> by_name name) of
        Inl e \<Rightarrow> (Inl e, [])
      | Inr manual_index \<Rightarrow>
          (let auto_detect = (manual_index = None \<and> auto_detect_interface config);
               selected = (case manual_index of Some i \<Rightarrow> Some i | None \<Rightarrow> if auto_detect then cached else None);
               result = once selected
           in if is_ok result \<or> \<not> auto_detect then (bindR result configure, [selected])
              else if refreshed = selected then (result, [selected])
              else (bindR (once refreshed) configure, [selected, refreshed])))"

section \<open>Physical interfaces\<close>

definition is_physical_interface_name :: "string \<Rightarrow> bool" where
  "is_physical_interface_name name =
     (\<not> list_ex (\<lambda>p. starts_with p name)
        [''utun'', ''lo'', ''awdl'', ''llw'', ''bridge'', ''gif'', ''stf'', ''vmnet'', ''vmenet''])"

definition physical_interface_score :: "string \<Rightarrow> int" where
  "physical_interface_score name =
     (if starts_with ''en'' name then 100 else if starts_with ''pdp_ip'' name then 80 else 10)"

text \<open>\<open>str::lines\<close>: split at line feeds, a carriage return before one dropped, no last empty line.\<close>

definition str_lines :: "string \<Rightarrow> string list" where
  "str_lines text =
     (let pieces = split_char CHR 0x0A text;
          kept = (if pieces \<noteq> [] \<and> last pieces = [] then butlast pieces else pieces);
          strip = (\<lambda>l. if l \<noteq> [] \<and> last l = CHR 0x0D then butlast l else l)
      in if pieces \<noteq> [] \<and> last pieces = [] then map strip kept
         else map strip (butlast kept) @ [last kept])"

fun route_field_lines :: "string list \<Rightarrow> string \<Rightarrow> string option" where
  "route_field_lines [] name = None"
| "route_field_lines (l # ls) name =
     (case split_once CHR '':'' l of
        Some (key, v) \<Rightarrow> if trim key = name then Some (trim v) else route_field_lines ls name
      | None \<Rightarrow> route_field_lines ls name)"

definition route_field :: "string \<Rightarrow> string \<Rightarrow> string option" where
  "route_field text name = route_field_lines (str_lines text) name"

text \<open>
  \<open>route_default_physical_interface\<close>: \<open>output\<close> is the standard output of a successful
  \<open>route\<close> call, \<open>if_nametoindex\<close> gives 0 for an unknown name, and a name with a NUL byte has
  no C string.
\<close>

definition route_default_physical_interface :: "(string \<Rightarrow> u32) \<Rightarrow> bytes option \<Rightarrow> u32 option" where
  "route_default_physical_interface if_nametoindex route_output =
     (case route_output of
        None \<Rightarrow> None
      | Some out \<Rightarrow>
          (case route_field (from_utf8_lossy out) ''interface'' of
             None \<Rightarrow> None
           | Some interface \<Rightarrow>
               if \<not> is_physical_interface_name interface \<or> CHR 0x00 \<in> set interface then None
               else if if_nametoindex interface = 0 then None else Some (if_nametoindex interface)))"

text \<open>An entry of the interface list: its name, whether its family fits, and its flags.\<close>

record ifaddr =
  ifa_name :: string
  ifa_family_ok :: bool
  ifa_up :: bool
  ifa_running :: bool
  ifa_loopback :: bool
  ifa_pointopoint :: bool

definition interface_flags_are_usable :: "ifaddr \<Rightarrow> bool" where
  "interface_flags_are_usable i = (ifa_up i \<and> ifa_running i \<and> \<not> ifa_loopback i \<and> \<not> ifa_pointopoint i)"

definition usable_interface :: "(string \<Rightarrow> u32) \<Rightarrow> ifaddr \<Rightarrow> bool" where
  "usable_interface if_nametoindex i =
     (ifa_family_ok i \<and> interface_flags_are_usable i \<and> is_physical_interface_name (ifa_name i) \<and>
      if_nametoindex (ifa_name i) \<noteq> 0)"

fun best_interface :: "(string \<Rightarrow> u32) \<Rightarrow> ifaddr list \<Rightarrow> (int \<times> u32) option \<Rightarrow> (int \<times> u32) option" where
  "best_interface if_nametoindex [] best = best"
| "best_interface if_nametoindex (i # rest) best =
     best_interface if_nametoindex rest
       (if usable_interface if_nametoindex i \<and>
           (case best of None \<Rightarrow> True | Some (best_score, _) \<Rightarrow> best_score < physical_interface_score (ifa_name i))
        then Some (physical_interface_score (ifa_name i), if_nametoindex (ifa_name i)) else best)"

definition active_physical_interface :: "(string \<Rightarrow> u32) \<Rightarrow> ifaddr list option \<Rightarrow> u32 option" where
  "active_physical_interface if_nametoindex ifaddrs =
     (case ifaddrs of None \<Rightarrow> None | Some l \<Rightarrow> map_option snd (best_interface if_nametoindex l None))"

definition compute_default_interface_index ::
  "(string \<Rightarrow> u32) \<Rightarrow> bytes option \<Rightarrow> ifaddr list option \<Rightarrow> u32 option" where
  "compute_default_interface_index if_nametoindex route_output ifaddrs =
     (case route_default_physical_interface if_nametoindex route_output of
        Some i \<Rightarrow> Some i
      | None \<Rightarrow> active_physical_interface if_nametoindex ifaddrs)"

section \<open>Properties\<close>

definition cache_stored :: "DefaultInterfaceCache \<Rightarrow> bool \<Rightarrow> (u32 option \<times> nat) option" where
  "cache_stored cache v4 = map_option (\<lambda>(index, t). (Some index, t)) (cache_slot v4 cache)"

interpretation if_cache: ttl_cache "cached_default_interface_index compute" cache_stored compute DEFAULT_INTERFACE_CACHE_TTL "\<lambda>_. True"
  for compute
  by unfold_locales
    (auto simp: cached_default_interface_index_def cache_stored_def cache_slot_def refresh_default_interface_index_def
      store_default_interface_index_def split: option.splits if_splits prod.splits)

text \<open>
  The interface used is never more than 30 seconds old. Whatever calls came before, the
  index \<open>cached_default_interface_index\<close> returns was computed in this call, or in an earlier
  call for the same address family less than 30 seconds before.
\<close>

theorem default_interface_fresh:
  "fst (cached_default_interface_index compute t0 t1 v4
      (if_cache.run compute calls \<lparr>dic_v4 = None, dic_v6 = None\<rparr>)) = compute t0 t1 v4 \<or>
   (\<exists>u0 u1. (u0, u1, v4) \<in> set calls \<and>
      fst (cached_default_interface_index compute t0 t1 v4
        (if_cache.run compute calls \<lparr>dic_v4 = None, dic_v6 = None\<rparr>)) = compute u0 u1 v4 \<and>
      t0 - u1 < DEFAULT_INTERFACE_CACHE_TTL)"
  by (rule if_cache.answer_fresh) (simp_all add: cache_stored_def cache_slot_def)

lemma connect_any_loop_Inr:
  assumes "connect_any_loop now connect deadline i addrs last_error = Inr c"
  shows "\<exists>j < length addrs. connect (i + j) (addrs ! j) (attempt_timeout (deadline - now (i + j)) (Suc j = length addrs)) = Inr c \<and>
     now (i + j) < deadline \<and>
     (\<forall>k < j. \<not> is_ok (connect (i + k) (addrs ! k) (attempt_timeout (deadline - now (i + k)) False)))"
  using assms
proof (induction addrs arbitrary: i last_error)
  case (Cons addr rest)
  show ?case
  proof (cases "connect i addr (attempt_timeout (deadline - now i) (rest = []))")
    case (Inr c')
    with Cons.prems show ?thesis by (intro exI [of _ 0]) (auto simp: Let_def split: if_splits)
  next
    case (Inl e)
    with Cons.prems have rest: "connect_any_loop now connect deadline (Suc i) rest (Some e) = Inr c"
      by (auto simp: Let_def split: if_splits)
    from Cons.IH [OF this] obtain j where j: "j < length rest"
      "connect (Suc i + j) (rest ! j) (attempt_timeout (deadline - now (Suc i + j)) (Suc j = length rest)) = Inr c"
      "now (Suc i + j) < deadline"
      "\<forall>k < j. \<not> is_ok (connect (Suc i + k) (rest ! k) (attempt_timeout (deadline - now (Suc i + k)) False))" by blast
    have "rest \<noteq> []" using j(1) by auto
    with Inl j show ?thesis
      by (intro exI [of _ "Suc j"]) (auto simp: is_ok_def less_Suc_eq_0_disj)
  qed
qed simp

text \<open>
  Connecting takes the first reachable address, in the resolver's order, and respects the
  deadline: a stream returned is that of an attempt begun before the deadline, all earlier
  attempts failed, and no attempt gets more time than is left, nor more than 2.5 seconds while
  other candidates remain.
\<close>

theorem connect_tcp_any_first:
  assumes "connect_tcp_any start now connect addrs timeout = Inr c"
  shows "\<exists>j < length addrs. connect j (addrs ! j) (attempt_timeout (start + timeout - now j) (Suc j = length addrs)) = Inr c \<and>
     now j < start + timeout \<and>
     now j + attempt_timeout (start + timeout - now j) (Suc j = length addrs) \<le> start + timeout \<and>
     (\<forall>k < j. \<not> is_ok (connect k (addrs ! k) (attempt_timeout (start + timeout - now k) False))) \<and>
     (\<forall>k. attempt_timeout k False \<le> 2500)"
proof -
  from connect_any_loop_Inr [OF assms [unfolded connect_tcp_any_def]] obtain j where j: "j < length addrs"
    "connect j (addrs ! j) (attempt_timeout (start + timeout - now j) (Suc j = length addrs)) = Inr c"
    "now j < start + timeout"
    "\<forall>k < j. \<not> is_ok (connect k (addrs ! k) (attempt_timeout (start + timeout - now k) False))" by auto
  then show ?thesis
    by (intro exI [of _ j]) (auto simp: attempt_timeout_def CONNECT_ATTEMPT_TIMEOUT_def)
qed

definition demo_addrs :: "SocketAddr list" where
  "demo_addrs = [(V6 [0, 0, 0, 0, 0, 0, 0, 1], 80), (V4 1, 80)]"

definition demo_connect :: "nat \<Rightarrow> SocketAddr \<Rightarrow> nat \<Rightarrow> AtrError + nat" where
  "demo_connect i addr t = (if i = 0 then Inl (NetworkFailed ''refused'') else Inr t)"

theorem connect_tcp_any_first_witness:
  "\<exists>j < length demo_addrs.
     demo_connect j (demo_addrs ! j) (attempt_timeout (0 + 10000 - j * 2500) (Suc j = length demo_addrs)) = Inr 7500"
proof -
  have "connect_tcp_any 0 (\<lambda>i. i * 2500) demo_connect demo_addrs 10000 = Inr 7500" by code_simp
  from connect_tcp_any_first [OF this] show ?thesis by blast
qed

lemma best_interface_max:
  assumes "best_interface if_nametoindex l best = Some (score, index)"
  shows "(best = Some (score, index) \<or>
       (\<exists>i \<in> set l. usable_interface if_nametoindex i \<and> score = physical_interface_score (ifa_name i) \<and>
          index = if_nametoindex (ifa_name i))) \<and>
     (\<forall>i \<in> set l. usable_interface if_nametoindex i \<longrightarrow> physical_interface_score (ifa_name i) \<le> score) \<and>
     (\<forall>s x. best = Some (s, x) \<longrightarrow> s \<le> score)"
  using assms
proof (induction l arbitrary: best)
  case (Cons i l)
  from Cons.IH [OF Cons.prems [unfolded best_interface.simps]] show ?case
    by (auto split: if_splits option.splits)
qed simp

text \<open>
  Outbound connections are bound to a physical interface only: the index chosen is that
  of a non-virtual interface, and when the default route names none, it is an interface that is
  up, running, neither loopback nor point-to-point, with the best score among those.
\<close>

theorem default_interface_physical:
  assumes "compute_default_interface_index if_nametoindex route_output ifaddrs = Some index"
  shows "index \<noteq> 0 \<and>
     ((\<exists>name. is_physical_interface_name name \<and> index = if_nametoindex name \<and>
         (\<exists>out. route_output = Some out \<and> route_field (from_utf8_lossy out) ''interface'' = Some name)) \<or>
      (\<exists>l i. ifaddrs = Some l \<and> i \<in> set l \<and> usable_interface if_nametoindex i \<and> index = if_nametoindex (ifa_name i) \<and>
         (\<forall>i' \<in> set l. usable_interface if_nametoindex i' \<longrightarrow>
            physical_interface_score (ifa_name i') \<le> physical_interface_score (ifa_name i))))"
proof (cases "route_default_physical_interface if_nametoindex route_output")
  case (Some i)
  with assms have "i = index" by (simp add: compute_default_interface_index_def)
  with Some show ?thesis
    by (auto simp: route_default_physical_interface_def split: option.splits if_splits)
next
  case None
  with assms obtain l score where l: "ifaddrs = Some l" "best_interface if_nametoindex l None = Some (score, index)"
    by (auto simp: compute_default_interface_index_def active_physical_interface_def split: option.splits)
  from best_interface_max [OF l(2)] l(1) show ?thesis by (auto simp: usable_interface_def)
qed

definition demo_ifaddr :: "string \<Rightarrow> bool \<Rightarrow> ifaddr" where
  "demo_ifaddr name ptp = \<lparr>ifa_name = name, ifa_family_ok = True, ifa_up = True, ifa_running = True,
     ifa_loopback = False, ifa_pointopoint = ptp\<rparr>"

theorem default_interface_physical_witness:
  "\<exists>i \<in> {demo_ifaddr ''utun3'' True, demo_ifaddr ''en0'' False}. usable_interface (\<lambda>n. if n = ''en0'' then 5 else 9) i"
proof -
  have r: "compute_default_interface_index (\<lambda>n. if n = ''en0'' then 5 else 9) None
      (Some [demo_ifaddr ''utun3'' True, demo_ifaddr ''en0'' False]) = Some 5" by code_simp
  from default_interface_physical [OF r] show ?thesis by auto
qed

end
