(* ===== verification/Net_IO.thy ===== *)
theory Net_IO
  imports Types
begin

text \<open>
  Byte streams (\<open>std::io::Read\<close> and \<open>Write\<close>) as the transport code uses them. What future
  \<open>read\<close> calls return is a script of events: some bytes (none at all is end of file) or an
  I/O error. A read with an empty script is still waiting: the model returns \<open>None\<close>. Writes
  append to the bytes sent, unless the write script says that one fails half-way.
\<close>

section \<open>Connections\<close>

datatype rx_event = Chunk bytes | RxFail io_error

datatype tx_event = TxOk | TxFail nat io_error

record conn =
  rx :: "rx_event list"
  tx :: bytes
  tx_script :: "tx_event list"
  shut_down :: bool

definition conn_of :: "rx_event list \<Rightarrow> conn" where
  "conn_of evs = \<lparr>rx = evs, tx = [], tx_script = [], shut_down = False\<rparr>"

text \<open>One \<open>read\<close> call into a buffer of \<open>n\<close> bytes.\<close>

definition read_call :: "nat \<Rightarrow> rx_event list \<Rightarrow> ((io_error + bytes) \<times> rx_event list) option" where
  "read_call n evs =
     (case evs of
        [] \<Rightarrow> None
      | RxFail e # r \<Rightarrow> Some (Inl e, r)
      | Chunk b # r \<Rightarrow>
          if length b \<le> n then Some (Inr b, r) else Some (Inr (take n b), Chunk (drop n b) # r))"

definition transient :: "io_error \<Rightarrow> bool" where
  "transient e = (fst e = WouldBlock \<or> fst e = TimedOut)"

text \<open>An upper bound of the read calls a script can answer.\<close>

fun rx_size :: "rx_event list \<Rightarrow> nat" where
  "rx_size [] = 0"
| "rx_size (Chunk b # r) = Suc (length b) + rx_size r"
| "rx_size (RxFail e # r) = Suc (rx_size r)"

lemma read_call_size:
  "0 < n \<Longrightarrow> read_call n evs = Some (res, evs') \<Longrightarrow> rx_size evs' < rx_size evs"
  by (auto simp: read_call_def split: list.splits rx_event.splits if_splits)

section \<open>Effects\<close>

type_synonym 'a io = "conn \<Rightarrow> ((AtrError + 'a) \<times> conn) option"

definition io_return :: "'a \<Rightarrow> 'a io" where
  "io_return a c = Some (Inr a, c)"

definition io_err :: "AtrError \<Rightarrow> 'a io" where
  "io_err e c = Some (Inl e, c)"

definition io_bind :: "'a io \<Rightarrow> ('a \<Rightarrow> 'b io) \<Rightarrow> 'b io" where
  "io_bind m f c =
     (case m c of
        None \<Rightarrow> None
      | Some (Inl e, c') \<Rightarrow> Some (Inl e, c')
      | Some (Inr a, c') \<Rightarrow> f a c')"

definition io_of_result :: "AtrError + 'a \<Rightarrow> 'a io" where
  "io_of_result r c = Some (r, c)"

text \<open>\<open>write_all\<close>, \<open>flush\<close> and \<open>shutdown\<close>.\<close>

definition write_all :: "bytes \<Rightarrow> unit io" where
  "write_all bs c =
     (case tx_script c of
        [] \<Rightarrow> Some (Inr (), c\<lparr>tx := tx c @ bs\<rparr>)
      | TxOk # r \<Rightarrow> Some (Inr (), c\<lparr>tx := tx c @ bs, tx_script := r\<rparr>)
      | TxFail k e # r \<Rightarrow> Some (Inl (from_io_error e), c\<lparr>tx := tx c @ take k bs, tx_script := r\<rparr>))"

definition flush :: "unit io" where
  "flush c =
     (case tx_script c of
        [] \<Rightarrow> Some (Inr (), c)
      | TxOk # r \<Rightarrow> Some (Inr (), c\<lparr>tx_script := r\<rparr>)
      | TxFail k e # r \<Rightarrow> Some (Inl (from_io_error e), c\<lparr>tx_script := r\<rparr>))"

definition shutdown :: "conn \<Rightarrow> conn" where
  "shutdown c = c\<lparr>shut_down := True\<rparr>"

text \<open>\<open>let _ = action;\<close>: the action's effect without its result.\<close>

definition run_ignoring :: "unit io \<Rightarrow> conn \<Rightarrow> conn" where
  "run_ignoring m c = (case m c of Some (_, c') \<Rightarrow> c' | None \<Rightarrow> c)"

section \<open>Exact reads (transport.rs)\<close>

text \<open>
  \<open>read_tunnel_exact\<close>: fills a buffer of \<open>n\<close> bytes; a timeout before the first byte gives
  \<open>Ok(false)\<close> (here \<open>None\<close>), a timeout later is retried. \<open>got\<close> is the part of the buffer
  filled so far.
\<close>

function read_exact_loop ::
  "nat \<Rightarrow> bytes \<Rightarrow> rx_event list \<Rightarrow> ((AtrError + bytes option) \<times> rx_event list) option" where
  "read_exact_loop n got evs =
     (if n \<le> length got then Some (Inr (Some got), evs)
      else case read_call (n - length got) evs of
        None \<Rightarrow> None
      | Some (Inr b, evs') \<Rightarrow>
          if b = [] then
            Some (Inl (NetworkFailed
              (if got = [] then ''connection closed by server''
               else ''unexpected eof in tcp tunnel frame'')), evs')
          else read_exact_loop n (got @ b) evs'
      | Some (Inl e, evs') \<Rightarrow>
          if transient e then
            (if got = [] then Some (Inr None, evs') else read_exact_loop n got evs')
          else Some (Inl (from_io_error e), evs'))"
  by pat_completeness auto
termination
  by (relation "measure (\<lambda>(n, got, evs). rx_size evs)") (auto dest: read_call_size [rotated])

definition read_tunnel_exact :: "nat \<Rightarrow> bytes option io" where
  "read_tunnel_exact n c =
     (case read_exact_loop n [] (rx c) of
        None \<Rightarrow> None
      | Some (res, evs) \<Rightarrow> Some (res, c\<lparr>rx := evs\<rparr>))"

lemmas [simp del] = read_exact_loop.simps

lemma read_exact_loop_size:
  "read_exact_loop n got evs = Some (Inr None, evs') \<Longrightarrow> rx_size evs' < rx_size evs"
proof (induction n got evs rule: read_exact_loop.induct)
  case (1 n got evs)
  note step = "1.prems" [unfolded read_exact_loop.simps [of n got evs]]
  from step have n: "\<not> n \<le> length got" by (simp split: if_splits)
  from step obtain res r where r: "read_call (n - length got) evs = Some (res, r)"
    by (auto simp: n split: option.splits)
  with n have less: "rx_size r < rx_size evs" by (intro read_call_size) auto
  show ?case
  proof (cases res)
    case (Inl e)
    with step n r less "1.IH" [OF n r] show ?thesis
      by (cases e) (fastforce split: if_splits)
  next
    case (Inr b)
    with step n r less "1.IH" [OF n r] show ?thesis by (auto split: if_splits)
  qed
qed

text \<open>\<open>read_tunnel_exact_blocking\<close>: \<open>while !read_tunnel_exact(..)? {}\<close>.\<close>

function read_tunnel_exact_blocking :: "nat \<Rightarrow> bytes io" where
  "read_tunnel_exact_blocking n c =
     (case read_tunnel_exact n c of
        None \<Rightarrow> None
      | Some (Inl e, c') \<Rightarrow> Some (Inl e, c')
      | Some (Inr (Some b), c') \<Rightarrow> Some (Inr b, c')
      | Some (Inr None, c') \<Rightarrow> read_tunnel_exact_blocking n c')"
  by pat_completeness auto
termination
  by (relation "measure (\<lambda>(n, c). rx_size (rx c))")
    (auto simp: read_tunnel_exact_def split: option.splits dest: read_exact_loop_size)

lemmas [simp del] = read_tunnel_exact_blocking.simps

section \<open>Reading is independent of segmentation\<close>

text \<open>
  A script is benign when every read gives at least one byte or times out: the connection
  neither ends nor fails. \<open>rx_bytes\<close> is the byte stream it delivers.
\<close>

fun benign :: "rx_event list \<Rightarrow> bool" where
  "benign [] = True"
| "benign (Chunk b # r) = (b \<noteq> [] \<and> benign r)"
| "benign (RxFail e # r) = (transient e \<and> benign r)"

fun rx_bytes :: "rx_event list \<Rightarrow> bytes" where
  "rx_bytes [] = []"
| "rx_bytes (Chunk b # r) = b @ rx_bytes r"
| "rx_bytes (RxFail e # r) = rx_bytes r"

lemma benign_nonempty: "benign evs \<Longrightarrow> rx_bytes evs \<noteq> [] \<Longrightarrow> evs \<noteq> []"
  by auto

lemma read_call_benign:
  assumes "benign evs" and "0 < n" and "read_call n evs = Some (res, evs')"
  shows "benign evs'"
    and "res = Inr b \<Longrightarrow> b \<noteq> [] \<and> length b \<le> n \<and> rx_bytes evs = b @ rx_bytes evs'"
    and "res = Inl e \<Longrightarrow> transient e \<and> rx_bytes evs' = rx_bytes evs"
  using assms
  by (auto simp: read_call_def split: list.splits rx_event.splits if_splits)

lemma read_exact_loop_benign:
  assumes "benign evs" and "length got \<le> n"
  shows "case read_exact_loop n got evs of
      None \<Rightarrow> length got + length (rx_bytes evs) < n
    | Some (Inl _, _) \<Rightarrow> False
    | Some (Inr None, evs') \<Rightarrow> got = [] \<and> benign evs' \<and> rx_bytes evs' = rx_bytes evs
    | Some (Inr (Some b), evs') \<Rightarrow> benign evs' \<and> length b = n \<and> got @ rx_bytes evs = b @ rx_bytes evs'"
  using assms
proof (induction n got evs rule: read_exact_loop.induct)
  case (1 n got evs)
  show ?case
  proof (cases "n \<le> length got")
    case True
    with "1.prems" show ?thesis by (subst read_exact_loop.simps) simp
  next
    case n: False
    show ?thesis
    proof (cases "read_call (n - length got) evs")
      case None
      then have "evs = []" by (auto simp: read_call_def split: list.splits rx_event.splits if_splits)
      with n show ?thesis by (subst read_exact_loop.simps) (simp add: read_call_def)
    next
      case (Some p)
      obtain res r where r: "read_call (n - length got) evs = Some (res, r)"
        using Some by (cases p) simp
      note b = read_call_benign [OF "1.prems"(1) _ r]
      show ?thesis
      proof (cases res)
        case (Inl e)
        with b(1) b(3) [of e] n have "benign r" "transient e" "rx_bytes r = rx_bytes evs" by auto
        with "1.IH" [OF n r] Inl n r "1.prems"(2) show ?thesis
          by (cases "got = []"; subst read_exact_loop.simps)
            (auto split: option.splits sum.splits)
      next
        case (Inr d)
        with b(1) b(2) [of d] n have "benign r" "d \<noteq> []" "length d \<le> n - length got"
          "rx_bytes evs = d @ rx_bytes r" by auto
        moreover from this "1.prems"(2) have "length (got @ d) \<le> n" by simp
        ultimately show ?thesis using "1.IH" [OF n r] Inr n r
          by (subst read_exact_loop.simps) (auto split: option.splits sum.splits)
      qed
    qed
  qed
qed

lemma read_tunnel_exact_blocking_benign:
  assumes "benign (rx c)"
  shows "case read_tunnel_exact_blocking n c of
      None \<Rightarrow> length (rx_bytes (rx c)) < n
    | Some (Inl _, _) \<Rightarrow> False
    | Some (Inr b, c') \<Rightarrow> \<exists>evs. c' = c\<lparr>rx := evs\<rparr> \<and> benign evs \<and> length b = n \<and>
        rx_bytes (rx c) = b @ rx_bytes evs"
  using assms
proof (induction n c rule: read_tunnel_exact_blocking.induct)
  case (1 n c)
  have s: "case read_exact_loop n [] (rx c) of
      None \<Rightarrow> length (rx_bytes (rx c)) < n
    | Some (Inl _, _) \<Rightarrow> False
    | Some (Inr None, evs') \<Rightarrow> benign evs' \<and> rx_bytes evs' = rx_bytes (rx c)
    | Some (Inr (Some b), evs') \<Rightarrow> benign evs' \<and> length b = n \<and> rx_bytes (rx c) = b @ rx_bytes evs'"
    using read_exact_loop_benign [OF "1.prems", of "[]" n] by (auto split: option.splits sum.splits)
  show ?case
  proof (cases "read_exact_loop n [] (rx c)")
    case None
    with s show ?thesis
      by (subst read_tunnel_exact_blocking.simps) (simp add: read_tunnel_exact_def)
  next
    case (Some p)
    then obtain res evs where p: "read_exact_loop n [] (rx c) = Some (res, evs)" by (cases p) simp
    with s obtain o1 where res: "res = Inr o1" by (cases res) auto
    show ?thesis
    proof (cases o1)
      case None
      with p res have t: "read_tunnel_exact n c = Some (Inr None, c\<lparr>rx := evs\<rparr>)"
        by (simp add: read_tunnel_exact_def)
      from s p res None have "benign evs" "rx_bytes evs = rx_bytes (rx c)" by auto
      with "1.IH" [OF t refl refl refl] t show ?thesis
        by (subst read_tunnel_exact_blocking.simps) (auto split: option.splits sum.splits)
    next
      case (Some b)
      with p res s show ?thesis
        by (subst read_tunnel_exact_blocking.simps) (auto simp: read_tunnel_exact_def)
    qed
  qed
qed

section \<open>Wire programs\<close>

text \<open>
  A wire program is the abstract view of an action on a connection: a function of the bytes
  that arrive, giving the result, the bytes left over and the bytes sent, or \<open>None\<close> when the
  input is incomplete. \<open>refines m p\<close> says that the action \<open>m\<close>, on a connection whose script
  is benign and whose writes succeed, does what \<open>p\<close> says, however the bytes are cut into
  reads and wherever timeouts fall. The combinators below carry the refinement proofs.
\<close>

type_synonym 'a wire = "bytes \<Rightarrow> ((AtrError + 'a) \<times> bytes \<times> bytes) option"

definition w_return :: "'a \<Rightarrow> 'a wire" where
  "w_return a inp = Some (Inr a, inp, [])"

definition w_err :: "AtrError \<Rightarrow> 'a wire" where
  "w_err e inp = Some (Inl e, inp, [])"

definition w_take :: "nat \<Rightarrow> bytes wire" where
  "w_take n inp = (if length inp < n then None else Some (Inr (take n inp), drop n inp, []))"

definition w_put :: "bytes \<Rightarrow> unit wire" where
  "w_put bs inp = Some (Inr (), inp, bs)"

definition w_bind :: "'a wire \<Rightarrow> ('a \<Rightarrow> 'b wire) \<Rightarrow> 'b wire" where
  "w_bind m f inp =
     (case m inp of
        None \<Rightarrow> None
      | Some (Inl e, rest, out) \<Rightarrow> Some (Inl e, rest, out)
      | Some (Inr a, rest, out) \<Rightarrow>
          (case f a rest of
             None \<Rightarrow> None
           | Some (res, rest', out') \<Rightarrow> Some (res, rest', out @ out')))"

definition refines :: "'a io \<Rightarrow> 'a wire \<Rightarrow> bool" where
  "refines m p \<longleftrightarrow>
     (\<forall>c. benign (rx c) \<and> tx_script c = [] \<longrightarrow>
        (case p (rx_bytes (rx c)) of
           None \<Rightarrow> m c = None
         | Some (res, rest, out) \<Rightarrow>
             \<exists>evs. m c = Some (res, c\<lparr>rx := evs, tx := tx c @ out\<rparr>) \<and> benign evs \<and> rx_bytes evs = rest))"

named_theorems refines_intros "refinement rules of the connection actions"

lemma refinesI:
  assumes "\<And>c. benign (rx c) \<Longrightarrow> tx_script c = [] \<Longrightarrow> p (rx_bytes (rx c)) = None \<Longrightarrow> m c = None"
    and "\<And>c res rest out. benign (rx c) \<Longrightarrow> tx_script c = [] \<Longrightarrow>
      p (rx_bytes (rx c)) = Some (res, rest, out) \<Longrightarrow>
      \<exists>evs. m c = Some (res, c\<lparr>rx := evs, tx := tx c @ out\<rparr>) \<and> benign evs \<and> rx_bytes evs = rest"
  shows "refines m p"
  unfolding refines_def using assms by (auto split: option.splits)

lemma refines_None:
  "refines m p \<Longrightarrow> benign (rx c) \<Longrightarrow> tx_script c = [] \<Longrightarrow> p (rx_bytes (rx c)) = None \<Longrightarrow> m c = None"
  by (auto simp: refines_def dest!: spec [of _ c])

lemma refines_Some:
  "refines m p \<Longrightarrow> benign (rx c) \<Longrightarrow> tx_script c = [] \<Longrightarrow> p (rx_bytes (rx c)) = Some (res, rest, out) \<Longrightarrow>
     \<exists>evs. m c = Some (res, c\<lparr>rx := evs, tx := tx c @ out\<rparr>) \<and> benign evs \<and> rx_bytes evs = rest"
  by (auto simp: refines_def dest!: spec [of _ c])

lemma conn_rx_tx_id [simp]: "c\<lparr>rx := rx c, tx := tx c\<rparr> = (c :: conn)"
  by simp

text \<open>Actions that do not read.\<close>

lemma refines_pure:
  assumes "\<And>c. tx_script c = [] \<Longrightarrow> m c = Some (res, c\<lparr>tx := tx c @ out\<rparr>)"
  shows "refines m (\<lambda>inp. Some (res, inp, out))"
proof (rule refinesI)
  fix c :: conn and res' rest out'
  assume "benign (rx c)" "tx_script c = []" "Some (res, rx_bytes (rx c), out) = Some (res', rest, out')"
  with assms [of c] show "\<exists>evs. m c = Some (res', c\<lparr>rx := evs, tx := tx c @ out'\<rparr>) \<and>
      benign evs \<and> rx_bytes evs = rest"
    by (intro exI [of _ "rx c"]) simp
qed simp

lemma refines_return [refines_intros]: "refines (io_return a) (w_return a)"
  unfolding w_return_def [abs_def] by (rule refines_pure) (simp add: io_return_def)

lemma refines_err [refines_intros]: "refines (io_err e) (w_err e)"
  unfolding w_err_def [abs_def] by (rule refines_pure) (simp add: io_err_def)

lemma refines_write [refines_intros]: "refines (write_all bs) (w_put bs)"
  unfolding w_put_def [abs_def] by (rule refines_pure) (simp add: write_all_def)

lemma refines_flush [refines_intros]: "refines flush (w_return ())"
  unfolding w_return_def [abs_def] by (rule refines_pure) (simp add: flush_def)

lemma refines_read [refines_intros]: "refines (read_tunnel_exact_blocking n) (w_take n)"
proof (rule refinesI)
  fix c :: conn
  assume b: "benign (rx c)"
  note r = read_tunnel_exact_blocking_benign [OF b, of n]
  show "read_tunnel_exact_blocking n c = None" if "w_take n (rx_bytes (rx c)) = None"
  proof (rule ccontr)
    assume "read_tunnel_exact_blocking n c \<noteq> None"
    then obtain res c' where p: "read_tunnel_exact_blocking n c = Some (res, c')" by auto
    with r show False using that by (cases res) (auto simp: w_take_def split: if_splits)
  qed
  show "\<exists>evs. read_tunnel_exact_blocking n c = Some (res, c\<lparr>rx := evs, tx := tx c @ out\<rparr>) \<and>
      benign evs \<and> rx_bytes evs = rest" if "w_take n (rx_bytes (rx c)) = Some (res, rest, out)" for res rest out
  proof (cases "read_tunnel_exact_blocking n c")
    case None
    with r that show ?thesis by (simp add: w_take_def)
  next
    case (Some p)
    then obtain v c' where p: "read_tunnel_exact_blocking n c = Some (v, c')" by (cases p) simp
    with r obtain b where v: "v = Inr b" by (cases v) auto
    with r p obtain evs where "c' = c\<lparr>rx := evs\<rparr>" "benign evs" "length b = n"
      "rx_bytes (rx c) = b @ rx_bytes evs" by auto
    with that p v show ?thesis by (intro exI [of _ evs]) (auto simp: w_take_def)
  qed
qed

lemma refines_bind [refines_intros]:
  assumes "refines m p" and "\<And>a. refines (f a) (g a)"
  shows "refines (io_bind m f) (w_bind p g)"
proof (rule refinesI)
  fix c :: conn
  assume b: "benign (rx c)" "tx_script c = []"
  show "io_bind m f c = None" if n: "w_bind p g (rx_bytes (rx c)) = None"
  proof (cases "p (rx_bytes (rx c))")
    case None
    with refines_None [OF assms(1) b] show ?thesis by (simp add: io_bind_def)
  next
    case (Some x)
    with n obtain a rest out where x: "p (rx_bytes (rx c)) = Some (Inr a, rest, out)" "g a rest = None"
      by (auto simp: w_bind_def split: sum.splits option.splits prod.splits)
    from refines_Some [OF assms(1) b x(1)] obtain evs where
      e: "m c = Some (Inr a, c\<lparr>rx := evs, tx := tx c @ out\<rparr>)" "benign evs" "rx_bytes evs = rest" by blast
    with refines_None [OF assms(2), of "c\<lparr>rx := evs, tx := tx c @ out\<rparr>" a] b x(2) show ?thesis
      by (simp add: io_bind_def)
  qed
  show "\<exists>evs. io_bind m f c = Some (res, c\<lparr>rx := evs, tx := tx c @ out\<rparr>) \<and> benign evs \<and> rx_bytes evs = rest"
    if s: "w_bind p g (rx_bytes (rx c)) = Some (res, rest, out)" for res rest out
  proof -
    from s obtain r1 rest1 out1 where x: "p (rx_bytes (rx c)) = Some (r1, rest1, out1)"
      by (auto simp: w_bind_def split: option.splits)
    from refines_Some [OF assms(1) b x] obtain evs where
      e: "m c = Some (r1, c\<lparr>rx := evs, tx := tx c @ out1\<rparr>)" "benign evs" "rx_bytes evs = rest1" by blast
    show ?thesis
    proof (cases r1)
      case (Inl err)
      with s x e show ?thesis by (auto simp: w_bind_def io_bind_def)
    next
      case (Inr a)
      with s x obtain out2 where y: "g a rest1 = Some (res, rest, out2)" "out = out1 @ out2"
        by (auto simp: w_bind_def split: option.splits)
      with refines_Some [OF assms(2), of "c\<lparr>rx := evs, tx := tx c @ out1\<rparr>" a res rest out2] b e Inr
      show ?thesis by (auto simp: io_bind_def)
    qed
  qed
qed

lemma refines_if [refines_intros]:
  "refines m p \<Longrightarrow> refines n q \<Longrightarrow> refines (if b then m else n) (if b then p else q)"
  by simp

section \<open>Actions consume their script\<close>

text \<open>No action makes the script longer; this is the termination argument of the read loops.\<close>

definition shrinks :: "'a io \<Rightarrow> bool" where
  "shrinks m \<longleftrightarrow> (\<forall>c res c'. m c = Some (res, c') \<longrightarrow> rx_size (rx c') \<le> rx_size (rx c))"

named_theorems shrinks_intros "rules showing that an action consumes its script"

lemma shrinksD: "shrinks m \<Longrightarrow> m c = Some (res, c') \<Longrightarrow> rx_size (rx c') \<le> rx_size (rx c)"
  by (simp add: shrinks_def)

lemma shrinks_pure [shrinks_intros]:
  "shrinks (io_return a)" "shrinks (io_err e)" "shrinks (write_all bs)" "shrinks flush"
  by (auto simp: shrinks_def io_return_def io_err_def write_all_def flush_def
      split: list.splits tx_event.splits)

lemma shrinks_bind [shrinks_intros]:
  assumes "shrinks m" and "\<And>a. shrinks (f a)"
  shows "shrinks (io_bind m f)"
  unfolding shrinks_def
proof (intro allI impI)
  fix c res c'
  assume "io_bind m f c = Some (res, c')"
  then show "rx_size (rx c') \<le> rx_size (rx c)"
    by (auto simp: io_bind_def split: option.splits sum.splits
        dest!: shrinksD [OF assms(1)] shrinksD [OF assms(2)])
qed

lemma read_exact_loop_le: "read_exact_loop n got evs = Some (res, evs') \<Longrightarrow> rx_size evs' \<le> rx_size evs"
proof (induction n got evs rule: read_exact_loop.induct)
  case (1 n got evs)
  note step = "1.prems" [unfolded read_exact_loop.simps [of n got evs]]
  show ?case
  proof (cases "n \<le> length got")
    case n: False
    with step obtain v r where r: "read_call (n - length got) evs = Some (v, r)"
      by (auto split: option.splits)
    with n have less: "rx_size r < rx_size evs" by (intro read_call_size) auto
    show ?thesis
    proof (cases v)
      case (Inl e)
      with step n r less "1.IH" [OF n r] show ?thesis by (cases e) (fastforce split: if_splits)
    next
      case (Inr b)
      with step n r less "1.IH" [OF n r] show ?thesis by (fastforce split: if_splits)
    qed
  qed (use step in simp)
qed

lemma read_exact_loop_less:
  assumes "read_exact_loop n got evs = Some (Inr (Some b), evs')" and "length got < n"
  shows "rx_size evs' < rx_size evs"
proof -
  note step = assms(1) [unfolded read_exact_loop.simps [of n got evs]]
  from step assms(2) obtain v r where r: "read_call (n - length got) evs = Some (v, r)"
    by (auto split: option.splits)
  with assms(2) have less: "rx_size r < rx_size evs" by (intro read_call_size) auto
  have "rx_size evs' \<le> rx_size r"
    using step r assms(2) by (auto split: sum.splits if_splits dest: read_exact_loop_le)
  with less show ?thesis by simp
qed

lemma read_tunnel_exact_less:
  "read_tunnel_exact n c = Some (Inr (Some b), c') \<Longrightarrow> 0 < n \<Longrightarrow> rx_size (rx c') < rx_size (rx c)"
  by (auto simp: read_tunnel_exact_def split: option.splits dest: read_exact_loop_less)

lemma read_tunnel_exact_le:
  "read_tunnel_exact n c = Some (res, c') \<Longrightarrow> rx_size (rx c') \<le> rx_size (rx c)"
  by (auto simp: read_tunnel_exact_def split: option.splits dest: read_exact_loop_le)

lemma read_blocking_le:
  "read_tunnel_exact_blocking n c = Some (res, c') \<Longrightarrow> rx_size (rx c') \<le> rx_size (rx c)"
proof (induction n c rule: read_tunnel_exact_blocking.induct)
  case (1 n c)
  note step = "1.prems" [unfolded read_tunnel_exact_blocking.simps [of n c]]
  from step obtain v d where t: "read_tunnel_exact n c = Some (v, d)" by (auto split: option.splits)
  note le = read_tunnel_exact_le [OF t]
  from step t le "1.IH" [OF t] show ?case
    by (cases v; cases "projr v") (fastforce split: option.splits)+
qed

lemma shrinks_read [shrinks_intros]: "shrinks (read_tunnel_exact_blocking n)"
  unfolding shrinks_def using read_blocking_le by blast

lemma read_blocking_less:
  "read_tunnel_exact_blocking n c = Some (Inr b, c') \<Longrightarrow> 0 < n \<Longrightarrow> rx_size (rx c') < rx_size (rx c)"
proof -
  assume s: "read_tunnel_exact_blocking n c = Some (Inr b, c')" and n: "0 < n"
  note step = s [unfolded read_tunnel_exact_blocking.simps [of n c]]
  from step obtain v d where t: "read_tunnel_exact n c = Some (v, d)" by (auto split: option.splits)
  show ?thesis
  proof (cases v)
    case (Inr o1)
    then show ?thesis
    proof (cases o1)
      case None
      with Inr t have "rx_size (rx d) < rx_size (rx c)"
        by (auto simp: read_tunnel_exact_def split: option.splits dest: read_exact_loop_size)
      moreover from step t Inr None have "read_tunnel_exact_blocking n d = Some (Inr b, c')" by simp
      ultimately show ?thesis using read_blocking_le by fastforce
    next
      case (Some b')
      with step t Inr n read_tunnel_exact_less show ?thesis by fastforce
    qed
  qed (use step t in simp)
qed

lemma shrinks_if [shrinks_intros]: "shrinks m \<Longrightarrow> shrinks n \<Longrightarrow> shrinks (if b then m else n)"
  by simp

lemma bind_read_less:
  assumes "io_bind (read_tunnel_exact_blocking n) f c = Some (Inr b, c')" and "0 < n"
    and "\<And>a. shrinks (f a)"
  shows "rx_size (rx c') < rx_size (rx c)"
proof -
  from assms(1) obtain a d where a: "read_tunnel_exact_blocking n c = Some (Inr a, d)"
    and f: "f a d = Some (Inr b, c')"
    by (auto simp: io_bind_def split: option.splits sum.splits)
  from read_blocking_less [OF a assms(2)] shrinksD [OF assms(3) f] show ?thesis by simp
qed

section \<open>Scripts that end in a timeout\<close>

text \<open>
  A reader that polls with a timeout sees one when the data runs out: its script ends in a
  transient failure. Reads that complete leave that last event in place.
\<close>

definition ends_idle :: "rx_event list \<Rightarrow> bool" where
  "ends_idle evs \<longleftrightarrow> (\<exists>pre e. evs = pre @ [RxFail e] \<and> transient e)"

lemma ends_idle_not_Nil [simp]: "\<not> ends_idle []"
  by (simp add: ends_idle_def)

lemma ends_idle_Chunk [simp]: "ends_idle (Chunk b # r) = ends_idle r"
  by (auto simp: ends_idle_def Cons_eq_append_conv)

lemma ends_idle_Fail: "ends_idle (RxFail e # r) \<Longrightarrow> r = [] \<or> ends_idle r"
  by (auto simp: ends_idle_def Cons_eq_append_conv)

lemma read_exact_loop_Nil: "length got < n \<Longrightarrow> read_exact_loop n got [] = None"
  by (subst read_exact_loop.simps) (simp add: read_call_def)

lemma read_exact_loop_idle:
  assumes "read_exact_loop n got evs = Some (Inr (Some b), evs')" and "ends_idle evs"
  shows "ends_idle evs'"
  using assms
proof (induction n got evs rule: read_exact_loop.induct)
  case (1 n got evs)
  note step = "1.prems"(1) [unfolded read_exact_loop.simps [of n got evs]]
  show ?case
  proof (cases "n \<le> length got")
    case n: False
    with step obtain v r where r: "read_call (n - length got) evs = Some (v, r)"
      by (auto split: option.splits)
    then have idle: "(\<exists>d. v = Inr d) \<longrightarrow> ends_idle r" "(\<exists>e. v = Inl e) \<longrightarrow> r = [] \<or> ends_idle r"
      using "1.prems"(2) by (auto simp: read_call_def split: list.splits rx_event.splits if_splits
          dest: ends_idle_Fail)
    show ?thesis
    proof (cases v)
      case (Inl e)
      with step n r have "read_exact_loop n got r = Some (Inr (Some b), evs')" "transient e" "got \<noteq> []"
        by (auto split: if_splits)
      moreover from this n have "r \<noteq> []" by (auto simp: read_exact_loop_Nil)
      ultimately show ?thesis using "1.IH" [OF n r] Inl idle by auto
    next
      case (Inr d)
      with step n r "1.IH" [OF n r] idle show ?thesis by (auto split: if_splits)
    qed
  qed (use step "1.prems"(2) in simp)
qed

lemma read_exact_loop_started:
  "got \<noteq> [] \<Longrightarrow> read_exact_loop n got evs \<noteq> Some (Inr None, evs')"
proof (induction n got evs rule: read_exact_loop.induct)
  case (1 n got evs)
  show ?case
  proof (cases "n \<le> length got")
    case n: False
    show ?thesis
    proof (cases "read_call (n - length got) evs")
      case (Some p)
      obtain v r where r: "read_call (n - length got) evs = Some (v, r)" using Some by (cases p) simp
      show ?thesis
      proof (cases v)
        case (Inl e)
        with n r "1.prems" "1.IH" [OF n r] show ?thesis by (subst read_exact_loop.simps) auto
      next
        case (Inr d)
        with n r "1.prems" "1.IH" [OF n r] show ?thesis by (subst read_exact_loop.simps) auto
      qed
    qed (use n in \<open>subst read_exact_loop.simps, simp\<close>)
  qed (subst read_exact_loop.simps, simp)
qed

lemma read_exact_loop_NoneE:
  assumes "read_exact_loop n [] evs = Some (Inr None, evs')"
  obtains e where "evs = RxFail e # evs'" and "transient e" and "0 < n"
proof -
  note step = assms [unfolded read_exact_loop.simps [of n "[]" evs]]
  from step have n: "0 < n" by (auto split: if_splits)
  from step n obtain v r where r: "read_call n evs = Some (v, r)" by (auto split: option.splits)
  show ?thesis
  proof (cases v)
    case (Inl e)
    with step r n have "transient e" "evs' = r" by (auto split: if_splits)
    with r Inl n that show ?thesis
      by (auto simp: read_call_def split: list.splits rx_event.splits if_splits)
  next
    case (Inr d)
    with step r n read_exact_loop_started show ?thesis by (auto split: if_splits)
  qed
qed

lemma read_blocking_Nil: "0 < n \<Longrightarrow> rx c = [] \<Longrightarrow> read_tunnel_exact_blocking n c = None"
  by (subst read_tunnel_exact_blocking.simps) (simp add: read_tunnel_exact_def read_exact_loop_Nil)

lemma read_blocking_idle:
  assumes "read_tunnel_exact_blocking n c = Some (Inr b, c')" and "ends_idle (rx c)"
  shows "ends_idle (rx c')"
  using assms
proof (induction n c rule: read_tunnel_exact_blocking.induct)
  case (1 n c)
  note step = "1.prems"(1) [unfolded read_tunnel_exact_blocking.simps [of n c]]
  from step obtain o1 d where t: "read_tunnel_exact n c = Some (Inr o1, d)"
    by (auto split: option.splits sum.splits)
  then obtain evs where e: "read_exact_loop n [] (rx c) = Some (Inr o1, evs)" "d = c\<lparr>rx := evs\<rparr>"
    by (auto simp: read_tunnel_exact_def split: option.splits)
  show ?case
  proof (cases o1)
    case None
    with e(1) obtain err where r: "rx c = RxFail err # evs" "0 < n"
      using read_exact_loop_NoneE by metis
    from step t None have b: "read_tunnel_exact_blocking n d = Some (Inr b, c')" by simp
    with r e(2) have "evs \<noteq> []" using read_blocking_Nil [of n d] by auto
    with r ends_idle_Fail "1.prems"(2) e(2) have "ends_idle (rx d)" by simp metis
    with "1.IH" [OF t refl refl] None b show ?thesis by simp
  next
    case (Some b')
    with step t e read_exact_loop_idle [of n "[]" "rx c" b' evs] "1.prems"(2) show ?thesis by auto
  qed
qed

end
