(* ===== verification/Client.thy ===== *)
theory Client
  imports Resource
begin

text \<open>
  The client object (client.rs) and request signing (sign.rs): configuration, session and
  resource snapshot of one user, the routing questions asked of it, and the node a managed
  connection is sent to. Hexadecimal coding and HMAC-SHA256 (crates hex, hmac and sha2) are
  parameters. What the client needs of the router is the locale \<open>router\<close>.
\<close>

section \<open>State and operations\<close>

record AtrClient =
  cl_config :: ClientConfig
  cl_session :: "SessionMaterial option"
  cl_resource :: "ResourceSnapshot option"
  cl_resource_bytes :: "bytes option"

definition client_new :: "ClientConfig \<Rightarrow> AtrError + AtrClient" where
  "client_new config =
     (if server_host config = [] then Inl (InvalidArgument ''server_host is empty'')
      else if server_port config = 0 then Inl (InvalidArgument ''server_port is zero'')
      else Inr \<lparr>cl_config = config, cl_session = None, cl_resource = None, cl_resource_bytes = None\<rparr>)"

definition set_session :: "SessionMaterial \<Rightarrow> AtrClient \<Rightarrow> AtrClient" where
  "set_session session c = c\<lparr>cl_session := Some session\<rparr>"

definition clear_session :: "AtrClient \<Rightarrow> AtrClient" where
  "clear_session c = c\<lparr>cl_session := None\<rparr>"

definition set_resource :: "ResourceSnapshot \<Rightarrow> AtrClient \<Rightarrow> AtrClient" where
  "set_resource resource c = c\<lparr>cl_resource := Some resource\<rparr>"

definition set_resource_bytes :: "bytes \<Rightarrow> AtrClient \<Rightarrow> AtrClient" where
  "set_resource_bytes bs c = c\<lparr>cl_resource_bytes := Some bs\<rparr>"

definition client_route :: "AtrClient \<Rightarrow> string \<Rightarrow> u16 \<Rightarrow> ProtocolKind \<Rightarrow> RouteDecision" where
  "client_route c host port protocol =
     (case cl_resource c of Some resource \<Rightarrow> route resource host port protocol | None \<Rightarrow> Direct)"

definition route_tcp :: "AtrClient \<Rightarrow> string \<Rightarrow> u16 \<Rightarrow> RouteDecision" where
  "route_tcp c host port = client_route c host port Tcp"

definition route_udp :: "AtrClient \<Rightarrow> string \<Rightarrow> u16 \<Rightarrow> RouteDecision" where
  "route_udp c host port = client_route c host port Udp"

definition route_icmp :: "AtrClient \<Rightarrow> string \<Rightarrow> RouteDecision" where
  "route_icmp c host = client_route c host 0 Icmp"

definition is_managed_domain :: "AtrClient \<Rightarrow> string \<Rightarrow> ProtocolKind \<Rightarrow> bool" where
  "is_managed_domain c host protocol =
     (case cl_resource c of Some resource \<Rightarrow> domain_managed resource host protocol | None \<Rightarrow> False)"

definition is_managed_ip_for_tcp :: "AtrClient \<Rightarrow> Ipv4Addr \<Rightarrow> bool" where
  "is_managed_ip_for_tcp c ip =
     (case cl_resource c of Some resource \<Rightarrow> ip_managed_for_tcp resource ip | None \<Rightarrow> False)"

definition static_dns_ip :: "AtrClient \<Rightarrow> string \<Rightarrow> Ipv4Addr option" where
  "static_dns_ip c host0 =
     (let host = to_ascii_lowercase (trim_end_set ''.'' host0) in
      case cl_resource c of
        None \<Rightarrow> None
      | Some resource \<Rightarrow>
          map_option snd
            (List.find (\<lambda>(name, _). eq_ignore_ascii_case (trim_end_set ''.'' name) host)
              (dns_resource resource)))"

definition or_else :: "'a option \<Rightarrow> 'a option \<Rightarrow> 'a option" where
  "or_else a b = (case a of Some v \<Rightarrow> Some v | None \<Rightarrow> b)"

definition best_node_for :: "AtrClient \<Rightarrow> string \<Rightarrow> string option" where
  "best_node_for c gid =
     (case cl_resource c of
        None \<Rightarrow> None
      | Some res \<Rightarrow>
          or_else (hm_get (best_nodes res) gid) (hm_get (best_nodes res) (major_node_group res)))"

definition best_node :: "AtrClient \<Rightarrow> string option" where
  "best_node c =
     (case cl_resource c of
        None \<Rightarrow> None
      | Some res \<Rightarrow>
          or_else (hm_get (best_nodes res) (major_node_group res))
            (case hm_values (best_nodes res) of [] \<Rightarrow> None | v # _ \<Rightarrow> Some v))"

definition calc_request_sig ::
  "(bytes \<Rightarrow> bytes \<Rightarrow> bytes) \<Rightarrow> (bytes \<Rightarrow> string) \<Rightarrow> bytes \<Rightarrow> bytes \<Rightarrow> string" where
  "calc_request_sig hmac_sha256 encode_upper key data = encode_upper (hmac_sha256 key data)"

definition build_request_sig ::
  "(string \<Rightarrow> string + bytes) \<Rightarrow> (bytes \<Rightarrow> bytes \<Rightarrow> bytes) \<Rightarrow> (bytes \<Rightarrow> string) \<Rightarrow> AtrClient \<Rightarrow> bytes \<Rightarrow>
   AtrError + string" where
  "build_request_sig hex_decode hmac_sha256 encode_upper c data =
     bindR (ok_or (InvalidState ''session not set'') (cl_session c)) (\<lambda>session.
     case hex_decode (sm_sign_key_hex session) of
       Inl e \<Rightarrow> Inl (InvalidArgument (''invalid sign key: '' @ e))
     | Inr key \<Rightarrow> Inr (calc_request_sig hmac_sha256 encode_upper key data))"

definition client_cookies :: "AtrClient \<Rightarrow> CookieRecord list" where
  "client_cookies c = (case cl_session c of Some s \<Rightarrow> sm_cookies s | None \<Rightarrow> [])"

definition session_material_from_parts ::
  "string \<Rightarrow> string \<Rightarrow> string \<Rightarrow> string \<Rightarrow> string \<Rightarrow> SessionMaterial" where
  "session_material_from_parts username sid device_id connection_id sign_key_hex =
     \<lparr>sm_username = username, sm_sid = sid, sm_device_id = device_id,
      sm_connection_id = connection_id, sm_sign_key_hex = sign_key_hex, sm_cookies = []\<rparr>"

definition choose_node_groups :: "AtrClient \<Rightarrow> (string, string) hmap" where
  "choose_node_groups c = (case cl_resource c of Some res \<Rightarrow> best_nodes res | None \<Rightarrow> [])"

section \<open>The router contract\<close>

text \<open>
  What a client of the router relies on: a managed decision names a hit of the resources,
  and an endpoint the transport itself uses is never managed. A client without resources
  decides \<open>Direct\<close>.
\<close>

locale router =
  fixes decide :: "'s \<Rightarrow> string \<Rightarrow> u16 \<Rightarrow> ProtocolKind \<Rightarrow> RouteDecision"
    and hits :: "'s \<Rightarrow> RouteHit set"
    and own :: "'s \<Rightarrow> string \<Rightarrow> u16 \<Rightarrow> bool"
  assumes decide_hit: "decide s host port protocol = Managed hit \<Longrightarrow> hit \<in> hits s"
    and decide_own: "own s host port \<Longrightarrow> decide s host port protocol = Direct"
begin

definition decide_opt :: "'s option \<Rightarrow> string \<Rightarrow> u16 \<Rightarrow> ProtocolKind \<Rightarrow> RouteDecision" where
  "decide_opt s host port protocol = (case s of Some r \<Rightarrow> decide r host port protocol | None \<Rightarrow> Direct)"

lemma decide_opt_managed:
  "decide_opt s host port protocol = Managed hit \<Longrightarrow> \<exists>r. s = Some r \<and> hit \<in> hits r \<and> \<not> own r host port"
  using decide_own by (fastforce simp: decide_opt_def split: option.splits dest: decide_hit)

lemma decide_opt_own: "own r host port \<Longrightarrow> decide_opt (Some r) host port protocol = Direct"
  by (simp add: decide_opt_def decide_own)

end

definition snapshot_hits :: "ResourceSnapshot \<Rightarrow> RouteHit set" where
  "snapshot_hits snap =
     ip_hit ` set (ip_resources snap) \<union> domain_hit ` snd ` set (domain_resources snap)"

interpretation rt: router route snapshot_hits is_node_endpoint
proof unfold_locales
  fix s host port protocol hit
  assume "route s host port protocol = Managed hit"
  then show "hit \<in> snapshot_hits s"
    by (cases rule: route_Managed_cases) (force simp: snapshot_hits_def)+
next
  fix s host port protocol
  assume "is_node_endpoint s host port"
  then show "route s host port protocol = Direct" by (simp add: route_def)
qed

lemma client_route_decide: "client_route c = rt.decide_opt (cl_resource c)"
  by (simp add: fun_eq_iff client_route_def rt.decide_opt_def)

section \<open>Properties\<close>

lemma split_host_port_trimmed:
  assumes "split_host_port endpoint = Some (host, port)" and "\<And>c. c \<in> set host \<Longrightarrow> printable c"
  shows "trim_matches ''[]'' (trim host) = host"
proof -
  from assms(1) obtain h0 where "host = trim_matches ''[]'' (trim h0)"
    by (auto simp: split_host_port_def Let_def split: option.splits if_splits)
  then have "trim_matches ''[]'' host = host" using trim_matches_idem by blast
  moreover have "trim host = host" using assms(2) by (rule trim_printable)
  ultimately show ?thesis by simp
qed

lemma best_nodes_group:
  assumes "build_snapshot parse_net parsed service_host = Inr snap"
  shows "hm_get (best_nodes snap) g = Some node \<longleftrightarrow> (\<exists>more. hm_get (node_groups snap) g = Some (node # more))"
proof -
  have "hm_wf (node_groups snap)"
    by (simp add: build_snapshot_parts(4) [OF assms] hm.wf_fold_ins)
  then show ?thesis
    by (auto simp: build_snapshot_parts(5) [OF assms] hm_get_first_nodes split: option.splits list.splits)
qed

lemma best_node_for_group:
  assumes "build_snapshot parse_net parsed service_host = Inr snap" and "cl_resource c = Some snap"
    and "best_node_for c gid = Some node"
  shows "\<exists>g more. hm_get (node_groups snap) g = Some (node # more)"
  using assms(2,3) best_nodes_group [OF assms(1)]
  by (auto simp: best_node_for_def or_else_def split: option.splits)

text \<open>
  A managed connection has a node to go to, and going there does not loop. With the
  snapshot of a response whose major node group has a \<open>wan\<close> address, every node group id has
  a best node (its own first address or the major group's), and the host and port of that
  node are themselves routed directly for every protocol.
\<close>

theorem best_node_exists_and_is_direct:
  assumes "build_snapshot parse_net parsed service_host = Inr snap" and "cl_resource c = Some snap"
    and "distinct (map ng_id (groups_of parsed))" and "grp \<in> set (groups_of parsed)"
    and "ng_id grp = major_node_group snap" and "wan_addresses service_host grp \<noteq> []"
  shows "\<exists>node. best_node_for c gid = Some node \<and>
           (\<forall>host port protocol. split_host_port node = Some (host, port) \<and> (\<forall>x \<in> set host. printable x) \<longrightarrow>
              client_route c host port protocol = Direct)"
proof -
  from build_node_groups [OF assms(1,3,4)] assms(5,6) best_nodes_group [OF assms(1)]
  have "hm_get (best_nodes snap) (major_node_group snap) \<noteq> None"
    by (cases "wan_addresses service_host grp") auto
  with assms(2) obtain node where node: "best_node_for c gid = Some node"
    by (cases "hm_get (best_nodes snap) gid") (auto simp: best_node_for_def or_else_def)
  have "client_route c host port protocol = Direct"
    if h: "split_host_port node = Some (host, port)" "\<forall>x \<in> set host. printable x" for host port protocol
  proof -
    obtain g more where "hm_get (node_groups snap) g = Some (node # more)"
      using best_node_for_group [OF assms(1,2) node] by blast
    from is_node_endpoint_intro [OF this _ h(1), of host] have "is_node_endpoint snap host port"
      using h split_host_port_trimmed [OF h(1)] by simp
    then show ?thesis by (simp add: client_route_decide assms(2) rt.decide_opt_own)
  qed
  with node show ?thesis by blast
qed

theorem best_node_exists_and_is_direct_witness:
  "\<exists>node. best_node_for \<lparr>cl_config = default_client_config, cl_session = None,
       cl_resource = Some demo_snapshot, cl_resource_bytes = None\<rparr> ''unknown'' = Some node \<and>
     (\<forall>host port protocol. split_host_port node = Some (host, port) \<and> (\<forall>x \<in> set host. printable x) \<longrightarrow>
        client_route \<lparr>cl_config = default_client_config, cl_session = None,
          cl_resource = Some demo_snapshot, cl_resource_bytes = None\<rparr> host port protocol = Direct)"
  by (rule best_node_exists_and_is_direct [OF demo_build, where grp = "demo_groups ! 0"]) code_simp+

end
