(* ===== verification/Tcp_Tunnel.thy ===== *)
theory Tcp_Tunnel
  imports Net_IO Client
begin

text \<open>
  The TCP tunnel (transport.rs): the handshake with a node, the framing of the byte stream,
  the worker that moves frames and commands, and the tunnel handle its user reads from and
  writes to. Opening the TLS connection, SHA-256, HMAC and hexadecimal decoding are
  parameters; logging is left out.
\<close>

section \<open>Handshake\<close>

definition proc_path :: "bool \<Rightarrow> u16 \<Rightarrow> string" where
  "proc_path is_windows port =
     (if is_windows then (if port = 22 then ''ssh.exe'' else ''libreatrust.exe'')
      else if port = 22 then ''/usr/bin/ssh''
      else ''/usr/bin/libreatrust'')"

definition proc_name :: "u16 \<Rightarrow> string" where
  "proc_name port = (if port = 22 then ''ssh'' else ''libreatrust'')"

definition tcp_init_message ::
  "(bytes \<Rightarrow> bytes) \<Rightarrow> bool \<Rightarrow> string \<Rightarrow> SessionMaterial \<Rightarrow> string \<Rightarrow> string \<Rightarrow> u16 \<Rightarrow> string" where
  \<open>tcp_init_message sha256 is_windows os session aid dest_addr port =
     (let path = proc_path is_windows port;
          proc_hash = concat (map hex2_upper (sha256 (str_bytes path)));
          port_text = nat_str (unat port)
      in ''{"sid":"'' @ sm_sid session @ ''","appId":"'' @ aid @ ''","url":"tcp://'' @ dest_addr @
         '':'' @ port_text @ ''","deviceId":"'' @ sm_device_id session @
         ''","connectionId":"'' @ sm_connection_id session @ ''","procHash":"'' @ proc_hash @
         ''","userName":"'' @ sm_username session @
         ''","rcAppliedInfo":0,"lang":"en-US","destAddr":"'' @ dest_addr @ '':'' @ port_text @
         ''","env":{"application":{"runtime":{"process":{"name":"'' @ proc_name port @
         ''","digital_signature":"TrustAppClosed","platform":"'' @ default_platform_name os @
         ''","fingerprint":"'' @ proc_hash @ ''","description":"TrustAppClosed","path":"'' @ path @
         ''","version":"TrustAppClosed","security_env":"normal"},"process_trusted":"TRUSTED"}}},"xRequestSig":""}'')\<close>

definition sign_message :: "string \<Rightarrow> string \<Rightarrow> string" where
  \<open>sign_message sig msg =
     replace_str ''"xRequestSig":""'' (''"xRequestSig":"'' @ sig @ ''"'') msg\<close>

definition tcp_init_frame :: "string \<Rightarrow> bytes" where
  "tcp_init_frame msg =
     [0x05, 0x01, 0x81, 0x53, 0x03] @ u16_to_be_bytes (word_of_nat (length msg)) @ str_bytes msg"

definition send_tcp_init ::
  "(bytes \<Rightarrow> bytes) \<Rightarrow> (string \<Rightarrow> string + bytes) \<Rightarrow> (bytes \<Rightarrow> bytes \<Rightarrow> bytes) \<Rightarrow> (bytes \<Rightarrow> string) \<Rightarrow>
   bool \<Rightarrow> string \<Rightarrow> SessionMaterial \<Rightarrow> string \<Rightarrow> string \<Rightarrow> u16 \<Rightarrow> unit io" where
  "send_tcp_init sha256 hex_decode hmac_sha256 encode_upper is_windows os session aid dest_addr port =
     (let msg = tcp_init_message sha256 is_windows os session aid dest_addr port in
      case hex_decode (sm_sign_key_hex session) of
        Inl e \<Rightarrow> io_err (CryptoFailed e)
      | Inr key \<Rightarrow>
          (let sig = calc_request_sig hmac_sha256 encode_upper key (str_bytes msg)
           in io_bind (write_all (tcp_init_frame (sign_message sig msg))) (\<lambda>_. flush)))"

definition tcp_dest_frame :: "string \<Rightarrow> u16 \<Rightarrow> AtrError + bytes" where
  "tcp_dest_frame host port =
     (case parse_ipv4 host of
        Some ip \<Rightarrow> Inr ([0x05, 0x01, 0x01, 0x01] @ octets ip @ u16_to_be_bytes port)
      | None \<Rightarrow>
          if 255 < length (str_bytes host) then Inl (InvalidArgument (''domain too long: '' @ host))
          else Inr ([0x05, 0x01, 0x01, 0x03, word_of_nat (length (str_bytes host))] @ str_bytes host @
                 u16_to_be_bytes port))"

definition send_tcp_dest :: "string \<Rightarrow> u16 \<Rightarrow> unit io" where
  "send_tcp_dest host port =
     (case tcp_dest_frame host port of
        Inl e \<Rightarrow> io_err e
      | Inr frame \<Rightarrow> io_bind (write_all frame) (\<lambda>_. flush))"

text \<open>A big-endian length and that many bytes.\<close>

definition read_len_payload :: "bytes io" where
  "read_len_payload =
     io_bind (read_tunnel_exact_blocking 2) (\<lambda>l.
     read_tunnel_exact_blocking (unat (u16_from_be_bytes (l ! 0) (l ! 1))))"

text \<open>One round of the loop that waits for the node's answer: \<open>True\<close> is \<open>break\<close>.\<close>

definition connect_status_body :: "bytes \<Rightarrow> bool io" where
  \<open>connect_status_body header =
     (if header = [0x53, 0x00] then
       io_bind read_len_payload (\<lambda>payload.
       let text = from_utf8_lossy payload in
       if contains_str ''OK'' text \<or> contains_str ''Succeeded'' text then io_return True
       else io_err (NetworkFailed text))
     else if header = [0x05, 0x81] then
       io_bind (read_tunnel_exact_blocking 2) (\<lambda>marker.
       if marker \<noteq> [0x53, 0x00] then io_return False
       else
         io_bind read_len_payload (\<lambda>payload.
         let text = from_utf8_lossy payload in
         if contains_str ''OK'' text \<or> contains_str ''Succeeded'' text \<or>
            contains_str ''"message":"OK"'' text \<or> contains_str ''"message":"Succeeded"'' text
         then io_return True
         else io_err (NetworkFailed text)))
     else
       io_err (NetworkFailed
         (''unexpected tcp tunnel response: '' @ hex2 (header ! 0) @ '' '' @ hex2 (header ! 1))))\<close>

definition connect_status_step :: "bool io" where
  "connect_status_step = io_bind (read_tunnel_exact_blocking 2) connect_status_body"

lemma shrinks_read_len_payload [shrinks_intros]: "shrinks read_len_payload"
  unfolding read_len_payload_def by (intro shrinks_intros)

lemma shrinks_connect_status_body [shrinks_intros]: "shrinks (connect_status_body header)"
  unfolding connect_status_body_def Let_def by (intro shrinks_intros)

lemma connect_status_step_less:
  "connect_status_step c = Some (Inr b, c') \<Longrightarrow> rx_size (rx c') < rx_size (rx c)"
  unfolding connect_status_step_def by (erule bind_read_less) (simp_all add: shrinks_intros)

function connect_status_loop :: "unit io" where
  "connect_status_loop c =
     (case connect_status_step c of
        None \<Rightarrow> None
      | Some (Inl e, c') \<Rightarrow> Some (Inl e, c')
      | Some (Inr done, c') \<Rightarrow> if done then Some (Inr (), c') else connect_status_loop c')"
  by pat_completeness auto
termination
  by (relation "measure (\<lambda>c. rx_size (rx c))") (auto dest: connect_status_step_less)

lemmas [simp del] = connect_status_loop.simps

definition connect_status_result :: "bytes \<Rightarrow> AtrError + unit" where
  "connect_status_result status =
     (let code = status ! 1 in
      if status ! 0 \<noteq> 0x05 then
        Inl (NetworkFailed (''unexpected tcp tunnel connect status: '' @ hex2 (status ! 0) @ '' '' @
          hex2 code))
      else if code = 0x00 then Inr ()
      else if code = 0x01 then Inl (NetworkFailed ''tcp tunnel server failure'')
      else if code = 0x02 then Inl (NetworkFailed ''tcp tunnel connection not allowed'')
      else if code = 0x03 then Inl (NetworkFailed ''network is unreachable'')
      else if code = 0x04 then Inl (NetworkFailed ''host is unreachable'')
      else if code = 0x05 then Inl (NetworkFailed ''connection refused'')
      else if code = 0x06 then Inl (NetworkFailed ''tcp tunnel TTL expired'')
      else if code = 0x07 then Inl (NetworkFailed ''tcp tunnel command not supported'')
      else if code = 0x08 then Inl (NetworkFailed ''tcp tunnel address type not supported'')
      else Inl (NetworkFailed (''tcp tunnel connect failed with status 0x'' @ hex2_upper code)))"

definition wait_for_tcp_connect_status :: "unit io" where
  "wait_for_tcp_connect_status =
     io_bind connect_status_loop (\<lambda>_.
     io_bind (write_all [0x01, 0x00, 0x00, 0x00]) (\<lambda>_.
     io_bind flush (\<lambda>_.
     io_bind (read_tunnel_exact_blocking 2) (\<lambda>status.
     io_of_result (connect_status_result status)))))"

section \<open>Frames\<close>

text \<open>\<open>slice::chunks\<close>.\<close>

function chunks :: "nat \<Rightarrow> 'a list \<Rightarrow> 'a list list" where
  "chunks n xs = (if xs = [] \<or> n = 0 then [] else take n xs # chunks n (drop n xs))"
  by pat_completeness auto
termination
  by (relation "measure (\<lambda>(n, xs). length xs)") auto

lemmas [simp del] = chunks.simps

definition tcp_data_frame :: "bytes \<Rightarrow> bytes" where
  "tcp_data_frame chunk = [0x01, 0x00] @ u16_to_be_bytes (word_of_nat (length chunk)) @ chunk"

fun write_frames :: "bytes list \<Rightarrow> unit io" where
  "write_frames [] = io_return ()"
| "write_frames (d # ds) = io_bind (write_all (tcp_data_frame d)) (\<lambda>_. write_frames ds)"

definition write_tcp_payload :: "bytes \<Rightarrow> nat io" where
  "write_tcp_payload data =
     (if data = [] then io_return 0
      else
        io_bind (write_frames (chunks 65535 data)) (\<lambda>_.
        io_bind flush (\<lambda>_. io_return (length data))))"

datatype TcpFrameRead = FrameData bytes | Control

text \<open>The match on a frame header.\<close>

definition tcp_frame_body :: "bytes \<Rightarrow> TcpFrameRead io" where
  \<open>tcp_frame_body header =
     (if header = [0x01, 0x00] then
        io_bind read_len_payload (\<lambda>data. io_return (FrameData data))
      else if header = [0x01, 0x01] then
        io_bind (read_tunnel_exact_blocking 2) (\<lambda>tail.
        if tail = [0x30, 0x30] then io_err (NetworkFailed ''connection closed by server'')
        else io_return Control)
      else if header = [0x53, 0x00] then
        io_bind read_len_payload (\<lambda>payload.
        if \<not> contains_str ''OK'' (from_utf8_lossy payload)
        then io_err (NetworkFailed (from_utf8_lossy payload))
        else io_return Control)
      else if header = [0x05, 0x81] then
        io_bind (read_tunnel_exact_blocking 2) (\<lambda>marker.
        if marker \<noteq> [0x53, 0x00] then io_return Control
        else
          io_bind read_len_payload (\<lambda>payload.
          let text = from_utf8_lossy payload in
          if \<not> contains_str ''"message":"OK"'' text \<and> \<not> contains_str ''"message":"Succeeded"'' text
          then io_err (NetworkFailed text)
          else io_return Control))
      else if header ! 0 = 0x05 then
        io_bind (read_tunnel_exact_blocking 8) (\<lambda>tail. io_return Control)
      else io_return Control)\<close>

definition read_tcp_frame :: "TcpFrameRead option io" where
  "read_tcp_frame =
     io_bind (read_tunnel_exact 2) (\<lambda>header.
     case header of
       None \<Rightarrow> io_return None
     | Some h \<Rightarrow> io_bind (tcp_frame_body h) (\<lambda>frame. io_return (Some frame)))"

lemma shrinks_tcp_frame_body [shrinks_intros]: "shrinks (tcp_frame_body header)"
  unfolding tcp_frame_body_def Let_def by (intro shrinks_intros)

lemma read_tcp_frame_less:
  assumes "read_tcp_frame c = Some (Inr (Some f), c')"
  shows "rx_size (rx c') < rx_size (rx c)"
proof -
  from assms obtain h d where h: "read_tunnel_exact 2 c = Some (Inr (Some h), d)"
    and b: "io_bind (tcp_frame_body h) (\<lambda>frame. io_return (Some frame)) d = Some (Inr (Some f), c')"
    by (auto simp: read_tcp_frame_def io_bind_def [of "read_tunnel_exact 2"] io_return_def
        split: option.splits sum.splits)
  have "shrinks (io_bind (tcp_frame_body h) (\<lambda>frame. io_return (Some frame)))" by (intro shrinks_intros)
  from shrinksD [OF this b] read_tunnel_exact_less [OF h] show ?thesis by simp
qed

section \<open>The worker\<close>

text \<open>
  \<open>drain_tcp_tunnel_frames\<close>: \<open>sent\<close> is what went into the channel to the reader, \<open>alive\<close>
  whether the receiving end still exists.
\<close>

function drain_frames_loop ::
  "bool \<Rightarrow> (AtrError + bytes) list \<Rightarrow> conn \<Rightarrow> (bool \<times> (AtrError + bytes) list \<times> conn) option" where
  "drain_frames_loop alive sent c =
     (case read_tcp_frame c of
        None \<Rightarrow> None
      | Some (Inr (Some (FrameData data)), c') \<Rightarrow>
          if alive then drain_frames_loop alive (sent @ [Inr data]) c' else Some (False, sent, c')
      | Some (Inr (Some Control), c') \<Rightarrow> drain_frames_loop alive sent c'
      | Some (Inr None, c') \<Rightarrow> Some (True, sent, c')
      | Some (Inl e, c') \<Rightarrow> Some (False, if alive then sent @ [Inl e] else sent, c'))"
  by pat_completeness auto
termination
  by (relation "measure (\<lambda>(alive, sent, c). rx_size (rx c))") (auto dest: read_tcp_frame_less)

lemmas [simp del] = drain_frames_loop.simps

definition drain_tcp_tunnel_frames ::
  "bool \<Rightarrow> (AtrError + bytes) list \<Rightarrow> conn \<Rightarrow> (bool \<times> (AtrError + bytes) list \<times> conn) option" where
  "drain_tcp_tunnel_frames alive sent c =
     (case drain_frames_loop alive sent c of
        None \<Rightarrow> None
      | Some (ok, sent', c') \<Rightarrow> Some (ok, sent', if ok then c' else shutdown c'))"

datatype TcpTunnelCommand = CmdWrite bytes | CmdClose

text \<open>
  \<open>drain_tcp_tunnel_commands\<close> on the queued commands: whether to go on, the acknowledgements
  sent (one per write performed), the commands left in the queue, and the connection.
\<close>

fun drain_tcp_tunnel_commands ::
  "TcpTunnelCommand list \<Rightarrow> conn \<Rightarrow> (bool \<times> (AtrError + nat) list \<times> TcpTunnelCommand list \<times> conn) option"
where
  "drain_tcp_tunnel_commands [] c = Some (True, [], [], c)"
| "drain_tcp_tunnel_commands (CmdWrite data # cmds) c =
     (case write_tcp_payload data c of
        None \<Rightarrow> None
      | Some (Inl e, c') \<Rightarrow> Some (False, [Inl e], cmds, shutdown c')
      | Some (Inr n, c') \<Rightarrow>
          (case drain_tcp_tunnel_commands cmds c' of
             None \<Rightarrow> None
           | Some (ok, acks, left, c'') \<Rightarrow> Some (ok, Inr n # acks, left, c'')))"
| "drain_tcp_tunnel_commands (CmdClose # cmds) c =
     Some (False, [], cmds, shutdown (run_ignoring flush (run_ignoring (write_all [0x01, 0x01, 0x00, 0x00]) c)))"

record tcp_worker =
  wk_conn :: conn
  wk_commands :: "TcpTunnelCommand list"
  wk_incoming :: "(AtrError + bytes) list"
  wk_receiver :: bool
  wk_acks :: "(AtrError + nat) list"
  wk_running :: bool

text \<open>
  What a wait returns: an error, or which sockets are readable, with the commands queued and
  the data that arrived in the meantime.
\<close>

datatype wait_event =
    WaitError AtrError
  | WaitReady bool bool "TcpTunnelCommand list" "rx_event list"

definition worker_commands :: "tcp_worker \<Rightarrow> tcp_worker option" where
  "worker_commands w =
     (case drain_tcp_tunnel_commands (wk_commands w) (wk_conn w) of
        None \<Rightarrow> None
      | Some (ok, acks, left, c) \<Rightarrow>
          Some (w\<lparr>wk_conn := c, wk_commands := left, wk_acks := wk_acks w @ acks, wk_running := ok\<rparr>))"

definition worker_frames :: "tcp_worker \<Rightarrow> tcp_worker option" where
  "worker_frames w =
     (case drain_tcp_tunnel_frames (wk_receiver w) (wk_incoming w) (wk_conn w) of
        None \<Rightarrow> None
      | Some (ok, sent, c) \<Rightarrow> Some (w\<lparr>wk_conn := c, wk_incoming := sent, wk_running := ok\<rparr>))"

definition worker_arrive :: "TcpTunnelCommand list \<Rightarrow> rx_event list \<Rightarrow> tcp_worker \<Rightarrow> tcp_worker" where
  "worker_arrive cmds evs w =
     w\<lparr>wk_commands := wk_commands w @ cmds, wk_conn := (wk_conn w)\<lparr>rx := rx (wk_conn w) @ evs\<rparr>\<rparr>"

definition worker_event :: "wait_event \<Rightarrow> tcp_worker \<Rightarrow> tcp_worker option" where
  "worker_event ev w =
     (case ev of
        WaitError e \<Rightarrow>
          Some (w\<lparr>wk_incoming := (if wk_receiver w then wk_incoming w @ [Inl e] else wk_incoming w),
                  wk_conn := shutdown (wk_conn w), wk_running := False\<rparr>)
      | WaitReady socket_readable wake_readable cmds evs \<Rightarrow>
          (case (if wake_readable then worker_commands (worker_arrive cmds evs w)
                 else Some (worker_arrive cmds evs w)) of
             None \<Rightarrow> None
           | Some w' \<Rightarrow>
               if wk_running w' \<and> socket_readable then worker_frames w' else Some w'))"

fun worker_loop :: "wait_event list \<Rightarrow> tcp_worker \<Rightarrow> tcp_worker option" where
  "worker_loop [] w = worker_commands w"
| "worker_loop (ev # evs) w =
     (case worker_commands w of
        None \<Rightarrow> None
      | Some w1 \<Rightarrow>
          if \<not> wk_running w1 then Some w1
          else case worker_event ev w1 of
            None \<Rightarrow> None
          | Some w2 \<Rightarrow> if wk_running w2 then worker_loop evs w2 else Some w2)"

text \<open>The whole worker: \<open>source\<close> is the outcome of building the event source, whose failure ends the worker as a failed wait does.\<close>

definition run_tcp_tunnel_worker :: "AtrError + unit \<Rightarrow> wait_event list \<Rightarrow> tcp_worker \<Rightarrow> tcp_worker option" where
  "run_tcp_tunnel_worker source events w =
     (case source of
        Inl e \<Rightarrow>
          Some (w\<lparr>wk_incoming := (if wk_receiver w then wk_incoming w @ [Inl e] else wk_incoming w),
                  wk_conn := shutdown (wk_conn w), wk_running := False\<rparr>)
      | Inr _ \<Rightarrow>
          (case worker_frames w of
             None \<Rightarrow> None
           | Some w' \<Rightarrow> if wk_running w' then worker_loop events w' else Some w'))"

section \<open>The tunnel handle\<close>

record TcpTunnel =
  tt_worker :: tcp_worker
  tt_read_buf :: bytes
  tt_closed :: bool

text \<open>
  \<open>read\<close> into a buffer of \<open>n\<close> bytes: the bytes copied. \<open>None\<close> is a call that still waits on
  the channel; a channel whose worker has stopped and that is empty gives \<open>Ok(0)\<close>.
\<close>

definition tunnel_read :: "nat \<Rightarrow> TcpTunnel \<Rightarrow> ((AtrError + bytes) \<times> TcpTunnel) option" where
  "tunnel_read n t =
     (let copied = take n (tt_read_buf t);
          t1 = t\<lparr>tt_read_buf := drop n (tt_read_buf t)\<rparr> in
      if 0 < length copied \<or> length copied = n then Some (Inr copied, t1)
      else case wk_incoming (tt_worker t1) of
        [] \<Rightarrow> if wk_running (tt_worker t1) then None else Some (Inr [], t1)
      | m # ms \<Rightarrow>
          (let t2 = t1\<lparr>tt_worker := (tt_worker t1)\<lparr>wk_incoming := ms\<rparr>\<rparr> in
           case m of
             Inl e \<Rightarrow> Some (Inl e, t2)
           | Inr data \<Rightarrow>
               Some (Inr (copied @ take (n - length copied) data),
                 t2\<lparr>tt_read_buf := tt_read_buf t2 @ drop (n - length copied) data\<rparr>)))"

text \<open>
  \<open>write\<close>: queue the command, wake the worker, and wait for the acknowledgement; a worker
  that stops before reaching the command drops the channel.
\<close>

definition worker_stopped :: AtrError where
  "worker_stopped = NetworkFailed ''tcp tunnel worker stopped''"

definition tunnel_write :: "bytes \<Rightarrow> TcpTunnel \<Rightarrow> ((AtrError + nat) \<times> TcpTunnel) option" where
  "tunnel_write data t =
     (if data = [] then Some (Inr 0, t)
      else if tt_closed t then Some (Inl (InvalidState ''tcp tunnel closed''), t)
      else if \<not> wk_running (tt_worker t) then Some (Inl worker_stopped, t)
      else
        (let ahead = length (wk_acks (tt_worker t)) +
               length (filter (\<lambda>cmd. cmd \<noteq> CmdClose) (wk_commands (tt_worker t))) in
         case worker_commands (worker_arrive [CmdWrite data] [] (tt_worker t)) of
           None \<Rightarrow> None
         | Some w \<Rightarrow>
             Some (if ahead < length (wk_acks w) then wk_acks w ! ahead else Inl worker_stopped,
                   t\<lparr>tt_worker := w\<rparr>)))"

definition tunnel_close :: "TcpTunnel \<Rightarrow> TcpTunnel option" where
  "tunnel_close t =
     (if tt_closed t \<or> \<not> wk_running (tt_worker t) then Some (t\<lparr>tt_closed := True\<rparr>)
      else case worker_commands (worker_arrive [CmdClose] [] (tt_worker t)) of
        None \<Rightarrow> None
      | Some w \<Rightarrow> Some (t\<lparr>tt_closed := True, tt_worker := w\<rparr>))"

text \<open>
  \<open>connect\<close>: \<open>connect_tls\<close> opens the stream to a node and sets its read timeout, \<open>start\<close> is the
  outcome of clearing that timeout and of creating the wake sockets and the worker thread.
\<close>

definition not_managed :: "string \<Rightarrow> u16 \<Rightarrow> AtrError" where
  "not_managed host port =
     NotFound (''resource not managed for '' @ host @ '':'' @ nat_str (unat port))"

definition tunnel_connect ::
  "(string \<Rightarrow> ClientConfig \<Rightarrow> AtrError + conn) \<Rightarrow> AtrError + unit \<Rightarrow> (bytes \<Rightarrow> bytes) \<Rightarrow>
   (string \<Rightarrow> string + bytes) \<Rightarrow> (bytes \<Rightarrow> bytes \<Rightarrow> bytes) \<Rightarrow> (bytes \<Rightarrow> string) \<Rightarrow> bool \<Rightarrow> string \<Rightarrow>
   AtrClient \<Rightarrow> string \<Rightarrow> u16 \<Rightarrow> (AtrError + TcpTunnel) option" where
  "tunnel_connect connect_tls start sha256 hex_decode hmac_sha256 encode_upper is_windows os client host port =
     (case route_tcp client host port of
        Direct \<Rightarrow> Some (Inl (not_managed host port))
      | Managed hit \<Rightarrow>
          (case best_node_for client (node_group_id hit) of
             None \<Rightarrow> Some (Inl (NotFound (''no node for group '' @ node_group_id hit)))
           | Some node \<Rightarrow>
               (case cl_session client of
                  None \<Rightarrow> Some (Inl (InvalidState ''session not set''))
                | Some session \<Rightarrow>
                    (case connect_tls node (cl_config client) of
                       Inl e \<Rightarrow> Some (Inl e)
                     | Inr c \<Rightarrow>
                         (case io_bind (send_tcp_init sha256 hex_decode hmac_sha256 encode_upper is_windows os
                                  session (app_id hit) host port) (\<lambda>_.
                                io_bind (send_tcp_dest host port) (\<lambda>_. wait_for_tcp_connect_status)) c of
                            None \<Rightarrow> None
                          | Some (Inl e, _) \<Rightarrow> Some (Inl e)
                          | Some (Inr _, c') \<Rightarrow>
                              Some (mapR (\<lambda>_.
                                \<lparr>tt_worker = \<lparr>wk_conn = c', wk_commands = [], wk_incoming = [],
                                   wk_receiver = True, wk_acks = [], wk_running = True\<rparr>,
                                 tt_read_buf = [], tt_closed = False\<rparr>) start))))))"

section \<open>Lemmas\<close>

subsection \<open>A frame on the wire\<close>

text \<open>The wire program of a length-prefixed payload, and of a data frame.\<close>

definition w_len_payload :: "bytes wire" where
  "w_len_payload =
     w_bind (w_take 2) (\<lambda>l. w_take (unat (u16_from_be_bytes (l ! 0) (l ! 1))))"

lemma refines_read_len_payload [refines_intros]: "refines read_len_payload w_len_payload"
  unfolding read_len_payload_def w_len_payload_def by (intro refines_intros)

definition decode_data_frame :: "bytes \<Rightarrow> (bytes \<times> bytes) option" where
  "decode_data_frame inp =
     (case w_take 2 inp of
        Some (Inr [a, b], rest, _) \<Rightarrow>
          if a = 0x01 \<and> b = 0x00 then
            (case w_len_payload rest of Some (Inr d, rest', _) \<Rightarrow> Some (d, rest') | _ \<Rightarrow> None)
          else None
      | _ \<Rightarrow> None)"

lemma w_len_payload_frame:
  assumes "length d < 65536"
  shows "w_len_payload (u16_to_be_bytes (word_of_nat (length d)) @ d @ rest) = Some (Inr d, rest, [])"
proof -
  obtain a b where ab: "u16_to_be_bytes (word_of_nat (length d)) = [a, b]"
    by (simp add: u16_to_be_bytes_def)
  from u16_be_Cons [OF ab] have "unat (u16_from_be_bytes a b) = length d"
    using assms by (simp add: unat_len_u16)
  then show ?thesis by (simp add: ab w_len_payload_def w_bind_def w_take_def)
qed

interpretation data_frame: frame_codec tcp_data_frame decode_data_frame "\<lambda>d. length d < 65536"
proof unfold_locales
  fix a rest :: bytes
  assume "length a < 65536"
  then show "decode_data_frame (tcp_data_frame a @ rest) = Some (a, rest)"
    by (simp add: decode_data_frame_def tcp_data_frame_def w_take_def w_len_payload_frame)
next
  fix a :: bytes
  show "tcp_data_frame a \<noteq> []" by (simp add: tcp_data_frame_def)
qed

subsection \<open>Reading and draining data frames\<close>

lemma read_len_payload_idle:
  "read_len_payload c = Some (Inr b, c') \<Longrightarrow> ends_idle (rx c) \<Longrightarrow> ends_idle (rx c')"
  by (auto simp: read_len_payload_def io_bind_def split: option.splits sum.splits
      dest!: read_blocking_idle)

lemma read_tcp_frame_data:
  assumes "benign (rx c)" and "tx_script c = []" and "length d < 65536"
    and "rx_bytes (rx c) = tcp_data_frame d @ rest"
  shows "(\<exists>e evs. rx c = RxFail e # evs \<and> read_tcp_frame c = Some (Inr None, c\<lparr>rx := evs\<rparr>)) \<or>
     (\<exists>evs. read_tcp_frame c = Some (Inr (Some (FrameData d)), c\<lparr>rx := evs\<rparr>) \<and> benign evs \<and>
        rx_bytes evs = rest \<and> (ends_idle (rx c) \<longrightarrow> ends_idle evs))"
proof -
  note r = read_exact_loop_benign [OF assms(1), of "[]" 2]
  have len: "2 \<le> length (rx_bytes (rx c))" by (simp add: assms(4) tcp_data_frame_def)
  with r obtain o1 evs where l: "read_exact_loop 2 [] (rx c) = Some (Inr o1, evs)"
    by (cases "read_exact_loop 2 [] (rx c)") (auto split: sum.splits, metis sum.exhaust)
  show ?thesis
  proof (cases o1)
    case None
    with l obtain e where "rx c = RxFail e # evs" using read_exact_loop_NoneE by metis
    with l None show ?thesis
      by (auto simp: read_tcp_frame_def io_bind_def read_tunnel_exact_def io_return_def)
  next
    case (Some h)
    with r l assms(4) have h: "benign evs" "length h = 2"
      "[0x01, 0x00] @ u16_to_be_bytes (word_of_nat (length d)) @ d @ rest = h @ rx_bytes evs"
      by (auto simp: tcp_data_frame_def)
    then have hh: "h = [0x01, 0x00]"
      and b: "rx_bytes evs = u16_to_be_bytes (word_of_nat (length d)) @ d @ rest"
      by (auto simp: length_Suc_conv numeral_2_eq_2)
    from refines_Some [OF refines_read_len_payload, of "c\<lparr>rx := evs\<rparr>" "Inr d" rest "[]"] h(1) assms(2)
    obtain evs2 where p: "read_len_payload (c\<lparr>rx := evs\<rparr>) = Some (Inr d, c\<lparr>rx := evs2\<rparr>)"
      "benign evs2" "rx_bytes evs2 = rest"
      by (auto simp: b w_len_payload_frame [OF assms(3)])
    have "ends_idle (rx c) \<longrightarrow> ends_idle evs2"
      using read_exact_loop_idle [of 2 "[]" "rx c" h evs] l Some read_len_payload_idle [OF p(1)] by simp
    with p l Some hh show ?thesis
      by (auto simp: read_tcp_frame_def io_bind_def read_tunnel_exact_def io_return_def tcp_frame_body_def)
  qed
qed

lemma read_tcp_frame_idle:
  assumes "benign (rx c)" and "rx_bytes (rx c) = []" and "ends_idle (rx c)"
  shows "\<exists>evs. read_tcp_frame c = Some (Inr None, c\<lparr>rx := evs\<rparr>) \<and> benign evs \<and> rx_bytes evs = [] \<and>
           rx_size evs < rx_size (rx c)"
proof -
  from assms obtain e evs where r: "rx c = RxFail e # evs" "transient e" "benign evs" "rx_bytes evs = []"
    by (cases "rx c" rule: benign.cases) auto
  then have "read_exact_loop 2 [] (rx c) = Some (Inr None, evs)"
    by (subst read_exact_loop.simps) (simp add: read_call_def)
  with r show ?thesis by (auto simp: read_tcp_frame_def io_bind_def read_tunnel_exact_def io_return_def)
qed

text \<open>
  Draining a stream of data frames loses nothing, duplicates nothing and keeps the order:
  what is delivered is a prefix of the frames, and the rest is still in the stream. Only a
  timeout at a frame boundary stops it.
\<close>

lemma drain_frames_prefix:
  assumes "benign (rx c)" and "tx_script c = []" and "ends_idle (rx c)"
    and "list_all (\<lambda>d. length d < 65536) frames" and "rx_bytes (rx c) = concat (map tcp_data_frame frames)"
  shows "\<exists>k c'. k \<le> length frames \<and>
           drain_frames_loop True sent c = Some (True, sent @ map Inr (take k frames), c') \<and>
           rx_bytes (rx c') = concat (map tcp_data_frame (drop k frames)) \<and> benign (rx c') \<and>
           tx_script c' = [] \<and> rx_size (rx c') < rx_size (rx c) \<and> (k < length frames \<longrightarrow> ends_idle (rx c'))"
  using assms
proof (induction frames arbitrary: c sent)
  case Nil
  then obtain evs where "read_tcp_frame c = Some (Inr None, c\<lparr>rx := evs\<rparr>)" "benign evs" "rx_bytes evs = []"
      "rx_size evs < rx_size (rx c)"
    using read_tcp_frame_idle [of c] by auto
  with Nil.prems(2) show ?case by (subst drain_frames_loop.simps) simp
next
  case (Cons d ds)
  from Cons.prems have d: "length d < 65536"
    "rx_bytes (rx c) = tcp_data_frame d @ concat (map tcp_data_frame ds)" by simp_all
  from read_tcp_frame_data [OF Cons.prems(1,2) d] show ?case
  proof (elim disjE exE conjE)
    fix e evs
    assume "rx c = RxFail e # evs" "read_tcp_frame c = Some (Inr None, c\<lparr>rx := evs\<rparr>)"
    moreover from this Cons.prems have "ends_idle evs"
      using ends_idle_Fail [of e evs] by (auto simp: tcp_data_frame_def)
    ultimately show ?case
      using Cons.prems by (intro exI [of _ 0]) (subst drain_frames_loop.simps, simp)
  next
    fix evs
    assume f: "read_tcp_frame c = Some (Inr (Some (FrameData d)), c\<lparr>rx := evs\<rparr>)" "benign evs"
      "rx_bytes evs = concat (map tcp_data_frame ds)" "ends_idle (rx c) \<longrightarrow> ends_idle evs"
    with Cons.prems Cons.IH [of "c\<lparr>rx := evs\<rparr>" "sent @ [Inr d]"] obtain k c' where
      "k \<le> length ds" "drain_frames_loop True (sent @ [Inr d]) (c\<lparr>rx := evs\<rparr>) =
         Some (True, (sent @ [Inr d]) @ map Inr (take k ds), c')"
      "rx_bytes (rx c') = concat (map tcp_data_frame (drop k ds))" "benign (rx c')" "tx_script c' = []"
      "rx_size (rx c') < rx_size evs" "k < length ds \<longrightarrow> ends_idle (rx c')"
      by auto
    moreover from read_tcp_frame_less [OF f(1)] have "rx_size evs < rx_size (rx c)" by simp
    ultimately show ?case using f(1) by (intro exI [of _ "Suc k"]) (subst drain_frames_loop.simps, simp)
  qed
qed

subsection \<open>Writing\<close>

lemma chunks_bound: "ys \<in> set (chunks n xs) \<Longrightarrow> ys \<noteq> [] \<and> length ys \<le> n"
proof (induction n xs rule: chunks.induct)
  case (1 n xs)
  then show ?case by (subst (asm) chunks.simps) (auto split: if_splits)
qed

lemma concat_chunks: "0 < n \<Longrightarrow> concat (chunks n xs) = xs"
proof (induction n xs rule: chunks.induct)
  case (1 n xs)
  then show ?case by (subst chunks.simps) auto
qed

lemma write_frames_ok:
  "tx_script c = [] \<Longrightarrow>
     write_frames ds c = Some (Inr (), c\<lparr>tx := tx c @ concat (map tcp_data_frame ds)\<rparr>)"
  by (induction ds arbitrary: c) (simp_all add: io_return_def io_bind_def write_all_def)

lemma write_tcp_payload_ok:
  "tx_script c = [] \<Longrightarrow>
     write_tcp_payload data c =
       Some (Inr (length data), c\<lparr>tx := tx c @ concat (map tcp_data_frame (chunks 65535 data))\<rparr>)"
  by (cases "data = []")
    (simp_all add: write_tcp_payload_def io_return_def io_bind_def write_frames_ok flush_def chunks.simps [of _ "[]"])

lemma chunks_fit: "list_all (\<lambda>d. length d < 65536) (chunks 65535 data)"
  using chunks_bound [of _ 65535 data] by (force simp: list_all_iff)

subsection \<open>The worker delivers a stream completely\<close>

abbreviation poll_socket :: wait_event where
  "poll_socket \<equiv> WaitReady True False [] []"

lemma worker_commands_idle [simp]: "wk_commands w = [] \<Longrightarrow> wk_running w \<Longrightarrow> worker_commands w = Some w"
  by (simp add: worker_commands_def)

lemma worker_arrive_nothing [simp]: "worker_arrive [] [] w = w"
  by (simp add: worker_arrive_def)

lemma worker_loop_delivers:
  assumes "wk_running w" and "wk_commands w = []" and "wk_receiver w"
    and "benign (rx (wk_conn w))" and "tx_script (wk_conn w) = []" and "ends_idle (rx (wk_conn w))"
    and "list_all (\<lambda>d. length d < 65536) frames"
    and "rx_bytes (rx (wk_conn w)) = concat (map tcp_data_frame frames)"
  shows "\<exists>m w'. worker_loop (replicate m poll_socket) w = Some w' \<and> wk_running w' \<and>
           wk_incoming w' = wk_incoming w @ map Inr frames"
  using assms
proof (induction "rx_size (rx (wk_conn w))" arbitrary: w frames rule: less_induct)
  case less
  from drain_frames_prefix [OF less.prems(4,5,6,7,8), of "wk_incoming w"] obtain k c' where
    k: "k \<le> length frames" and
    dr: "drain_frames_loop True (wk_incoming w) (wk_conn w) =
          Some (True, wk_incoming w @ map Inr (take k frames), c')" and
    c': "rx_bytes (rx c') = concat (map tcp_data_frame (drop k frames))" "benign (rx c')"
      "tx_script c' = []" "rx_size (rx c') < rx_size (rx (wk_conn w))" "k < length frames \<longrightarrow> ends_idle (rx c')"
    by blast
  define w1 where "w1 = w\<lparr>wk_conn := c', wk_incoming := wk_incoming w @ map Inr (take k frames), wk_running := True\<rparr>"
  have ev: "worker_event poll_socket w = Some w1"
    using dr less.prems(1,3)
    by (simp add: worker_event_def worker_frames_def drain_tcp_tunnel_frames_def w1_def)
  show ?case
  proof (cases "k < length frames")
    case True
    have "list_all (\<lambda>d. length d < 65536) (drop k frames)"
      using less.prems(7) by (auto simp: list_all_iff dest: in_set_dropD)
    with less.hyps [of w1 "drop k frames"] c' True less.prems(2,3) obtain m w' where
      "worker_loop (replicate m poll_socket) w1 = Some w'" "wk_running w'"
      "wk_incoming w' = wk_incoming w1 @ map Inr (drop k frames)"
      by (auto simp: w1_def)
    moreover have "wk_incoming w1 @ map Inr (drop k frames) = wk_incoming w @ map Inr frames"
      by (simp add: w1_def flip: map_append)
    ultimately show ?thesis
      using ev less.prems(1,2) by (intro exI [of _ "Suc m"]) (simp add: w1_def)
  next
    case False
    with k ev less.prems(1,2) show ?thesis
      by (intro exI [of _ 1]) (simp add: w1_def)
  qed
qed

section \<open>Properties\<close>

text \<open>
  C2. The tunnel transports the byte stream. Whatever a sender writes with
  \<open>write_tcp_payload\<close>, of any length, a worker that receives those bytes in any
  segmentation and with timeouts anywhere delivers to the reading side in finitely many
  polls, in order, complete and without duplication, and keeps running.
\<close>

theorem tcp_tunnel_delivers_all:
  assumes "tx_script s = []" and "tx s = []" and "write_tcp_payload data s = Some (res, s')"
    and "wk_running w" and "wk_commands w = []" and "wk_receiver w" and "tx_script (wk_conn w) = []"
    and "benign (rx (wk_conn w))" and "ends_idle (rx (wk_conn w))" and "rx_bytes (rx (wk_conn w)) = tx s'"
  shows "res = Inr (length data) \<and>
    (\<exists>m w' parts. worker_loop (replicate m poll_socket) w = Some w' \<and> wk_running w' \<and>
       wk_incoming w' = wk_incoming w @ map Inr parts \<and> concat parts = data)"
proof -
  from write_tcp_payload_ok [OF assms(1), of data] assms(2,3)
  have s': "tx s' = concat (map tcp_data_frame (chunks 65535 data))" and res: "res = Inr (length data)"
    by auto
  from worker_loop_delivers [OF assms(4-6,8,7,9) chunks_fit [of data]] assms(10) s'
  obtain m w' where "worker_loop (replicate m poll_socket) w = Some w'" "wk_running w'"
    "wk_incoming w' = wk_incoming w @ map Inr (chunks 65535 data)" by auto
  with res concat_chunks [of 65535 data] show ?thesis by auto
qed

definition demo_worker :: "rx_event list \<Rightarrow> tcp_worker" where
  "demo_worker evs = \<lparr>wk_conn = conn_of evs, wk_commands = [], wk_incoming = [], wk_receiver = True,
     wk_acks = [], wk_running = True\<rparr>"

theorem tcp_tunnel_delivers_all_witness:
  "\<exists>m w' parts. worker_loop (replicate m poll_socket)
       (demo_worker [Chunk [1], RxFail (TimedOut, []), Chunk [0, 0, 2, 7], Chunk [9], RxFail (WouldBlock, [])]) = Some w' \<and>
     wk_running w' \<and> wk_incoming w' = map Inr parts \<and> concat parts = [7, 9]"
proof -
  let ?w = "demo_worker [Chunk [1], RxFail (TimedOut, []), Chunk [0, 0, 2, 7], Chunk [9], RxFail (WouldBlock, [])]"
  have w: "write_tcp_payload [7, 9] (conn_of []) = Some (Inr 2, (conn_of [])\<lparr>tx := [1, 0, 0, 2, 7, 9]\<rparr>)"
    by code_simp
  have i: "ends_idle (rx (wk_conn ?w))"
    by (simp add: demo_worker_def conn_of_def ends_idle_def transient_def)
  have "\<exists>m w' parts. worker_loop (replicate m poll_socket) ?w = Some w' \<and> wk_running w' \<and>
      wk_incoming w' = wk_incoming ?w @ map Inr parts \<and> concat parts = [7, 9]"
    using tcp_tunnel_delivers_all [OF _ _ w _ _ _ _ _ i]
    by (simp add: demo_worker_def conn_of_def transient_def)
  then show ?thesis by (simp add: demo_worker_def)
qed

text \<open>The bytes a tunnel still owes its reader: the buffer, then the queued frames up to an error.\<close>

definition tunnel_pending :: "TcpTunnel \<Rightarrow> bytes" where
  "tunnel_pending t =
     tt_read_buf t @ concat (map projr (takeWhile (\<lambda>m. \<exists>d. m = Inr d) (wk_incoming (tt_worker t))))"

lemma tunnel_read_pending:
  assumes "tunnel_read n t = Some (Inr bs, t')"
  shows "length bs \<le> n \<and> tunnel_pending t = bs @ tunnel_pending t'"
proof (cases "take n (tt_read_buf t) = [] \<and> 0 < n")
  case True
  then have "tt_read_buf t = []" by auto
  with True assms show ?thesis
    by (auto simp: tunnel_read_def tunnel_pending_def Let_def split: list.splits if_splits sum.splits)
next
  case False
  then have "0 < length (take n (tt_read_buf t)) \<or> length (take n (tt_read_buf t)) = n" by auto
  with assms have "bs = take n (tt_read_buf t)" "t' = t\<lparr>tt_read_buf := drop n (tt_read_buf t)\<rparr>"
    by (simp_all only: tunnel_read_def Let_def if_True option.inject prod.inject sum.inject)
  then show ?thesis by (simp add: tunnel_pending_def flip: append_assoc)
qed

text \<open>
  Reading a tunnel in pieces of any size returns the stream in order: a successful read
  into a buffer of \<open>n\<close> bytes returns at most \<open>n\<close> bytes, and they are exactly the front of
  what the tunnel still owes; nothing is lost between the channel and the buffer.
\<close>

theorem tunnel_read_in_order:
  assumes "tunnel_read n t = Some (Inr bs, t')"
  shows "length bs \<le> n \<and> tunnel_pending t = bs @ tunnel_pending t'"
  by (rule tunnel_read_pending [OF assms])

theorem tunnel_read_in_order_witness:
  "tunnel_pending \<lparr>tt_worker = (demo_worker [])\<lparr>wk_incoming := [Inr [1, 2, 3], Inr [4]]\<rparr>, tt_read_buf = [],
     tt_closed = False\<rparr> =
   [1, 2] @ tunnel_pending \<lparr>tt_worker = (demo_worker [])\<lparr>wk_incoming := [Inr [4]]\<rparr>, tt_read_buf = [3],
     tt_closed = False\<rparr>"
  by (rule conjunct2 [OF tunnel_read_in_order [where n = 2]]) code_simp

text \<open>
  An empty data frame looks like the end of the stream. When a node sends the four bytes
  of an empty data frame, the next \<open>read\<close> of an open tunnel with a running worker returns
  \<open>Ok(0)\<close>, the value that stands for end of file, although more data follows.
\<close>

theorem empty_frame_reads_as_eof:
  "\<exists>w. worker_frames (demo_worker [Chunk [1, 0, 0, 0, 1, 0, 0, 1, 42], RxFail (TimedOut, [])]) = Some w \<and>
     wk_running w \<and>
     (\<exists>t. tunnel_read 16 \<lparr>tt_worker = w, tt_read_buf = [], tt_closed = False\<rparr> = Some (Inr [], t) \<and>
        (\<exists>t'. tunnel_read 16 t = Some (Inr [42], t')))"
proof -
  let ?f = "worker_frames (demo_worker [Chunk [1, 0, 0, 0, 1, 0, 0, 1, 42], RxFail (TimedOut, [])])"
  let ?t = "tunnel_read 16 \<lparr>tt_worker = the ?f, tt_read_buf = [], tt_closed = False\<rparr>"
  have "?f = Some (the ?f)" "wk_running (the ?f)" "?t = Some (Inr [], snd (the ?t))"
    "tunnel_read 16 (snd (the ?t)) = Some (Inr [42], snd (the (tunnel_read 16 (snd (the ?t)))))"
    by code_simp+
  then show ?thesis by blast
qed

lemma refines_of_result [refines_intros]: "refines (io_of_result r) (\<lambda>inp. Some (r, inp, []))"
  by (rule refines_pure) (simp add: io_of_result_def)

text \<open>One accepted status message, as a wire program.\<close>

definition w_status_message :: "bool wire" where
  "w_status_message =
     w_bind w_len_payload (\<lambda>payload.
     if contains_str ''OK'' (from_utf8_lossy payload) \<or> contains_str ''Succeeded'' (from_utf8_lossy payload)
     then w_return True else w_err (NetworkFailed (from_utf8_lossy payload)))"

lemma refines_status_message [refines_intros]:
  "refines (connect_status_body [0x53, 0x00]) w_status_message"
  unfolding connect_status_body_def w_status_message_def Let_def
  by (simp only: refl if_True) (intro refines_intros)

lemma connect_status_loop_accepts:
  assumes "benign (rx c)" and "tx_script c = []" and "length payload < 65536"
    and "contains_str ''OK'' (from_utf8_lossy payload) \<or> contains_str ''Succeeded'' (from_utf8_lossy payload)"
    and "rx_bytes (rx c) = [0x53, 0x00] @ u16_to_be_bytes (word_of_nat (length payload)) @ payload @ rest"
  shows "\<exists>evs. connect_status_loop c = Some (Inr (), c\<lparr>rx := evs\<rparr>) \<and> benign evs \<and> rx_bytes evs = rest"
proof -
  from refines_Some [OF refines_read [of 2] assms(1,2), of "Inr [0x53, 0x00]"] obtain evs where
    h: "read_tunnel_exact_blocking 2 c = Some (Inr [0x53, 0x00], c\<lparr>rx := evs\<rparr>)" "benign evs"
      "rx_bytes evs = u16_to_be_bytes (word_of_nat (length payload)) @ payload @ rest"
    by (auto simp: w_take_def assms(5))
  have "w_status_message (rx_bytes evs) = Some (Inr True, rest, [])"
    using assms(4) by (simp add: h(3) w_status_message_def w_bind_def w_len_payload_frame [OF assms(3)] w_return_def)
  with refines_Some [OF refines_status_message, of "c\<lparr>rx := evs\<rparr>"] h(2) assms(2) obtain evs2 where
    "connect_status_body [0x53, 0x00] (c\<lparr>rx := evs\<rparr>) = Some (Inr True, c\<lparr>rx := evs2\<rparr>)" "benign evs2"
    "rx_bytes evs2 = rest" by auto
  with h(1) show ?thesis
    by (subst connect_status_loop.simps) (auto simp: connect_status_step_def io_bind_def)
qed

text \<open>
  The connect handshake. When the node answers the request with an accepting status
  message and then a connect status, in any segmentation, the client asks for the
  destination with exactly the four bytes of an empty data frame, consumes exactly those
  two messages, and reports success exactly when the status code is zero.
\<close>

theorem tcp_connect_handshake:
  assumes "benign (rx c)" and "tx_script c = []" and "length payload < 65536"
    and "contains_str ''OK'' (from_utf8_lossy payload) \<or> contains_str ''Succeeded'' (from_utf8_lossy payload)"
    and "rx_bytes (rx c) = [0x53, 0x00] @ u16_to_be_bytes (word_of_nat (length payload)) @ payload @
           [0x05, st] @ rest"
  shows "\<exists>res evs. wait_for_tcp_connect_status c = Some (res, c\<lparr>rx := evs, tx := tx c @ [0x01, 0x00, 0x00, 0x00]\<rparr>) \<and>
           rx_bytes evs = rest \<and> (res = Inr () \<longleftrightarrow> st = 0)"
proof -
  from connect_status_loop_accepts [OF assms(1-4)] assms(5) obtain evs where
    l: "connect_status_loop c = Some (Inr (), c\<lparr>rx := evs\<rparr>)" "benign evs" "rx_bytes evs = [0x05, st] @ rest"
    by auto
  let ?c = "c\<lparr>rx := evs, tx := tx c @ [0x01, 0x00, 0x00, 0x00]\<rparr>"
  from refines_Some [OF refines_read [of 2], of ?c "Inr [0x05, st]" rest "[]"] l assms(2) have "\<exists>evs2. read_tunnel_exact_blocking 2 ?c = Some (Inr [0x05, st], c\<lparr>rx := evs2, tx := tx c @ [0x01, 0x00, 0x00, 0x00]\<rparr>) \<and>
      rx_bytes evs2 = rest"
    by (auto simp: w_take_def)
  then obtain evs2 where
    r: "read_tunnel_exact_blocking 2 ?c = Some (Inr [0x05, st], c\<lparr>rx := evs2, tx := tx c @ [0x01, 0x00, 0x00, 0x00]\<rparr>)" "rx_bytes evs2 = rest"
    by blast
  have "connect_status_result [0x05, st] = Inr () \<longleftrightarrow> st = 0"
    by (simp add: connect_status_result_def Let_def)
  with l r assms(2) show ?thesis
    by (auto simp: wait_for_tcp_connect_status_def io_bind_def write_all_def flush_def io_of_result_def)
qed

theorem tcp_connect_handshake_witness:
  "\<exists>res evs. wait_for_tcp_connect_status (conn_of [Chunk [0x53], Chunk [0, 0, 2, 0x4F, 0x4B, 5], Chunk [5]]) =
     Some (res, (conn_of [])\<lparr>rx := evs, tx := [0x01, 0x00, 0x00, 0x00]\<rparr>) \<and> rx_bytes evs = [] \<and>
     (res = Inr () \<longleftrightarrow> (5 :: u8) = 0)"
proof -
  have "u16_to_be_bytes (word_of_nat 2) = [0, 2]" "contains_str ''OK'' (from_utf8_lossy [0x4F, 0x4B])"
    by code_simp+
  then show ?thesis
    using tcp_connect_handshake [of "conn_of [Chunk [0x53], Chunk [0, 0, 2, 0x4F, 0x4B, 5], Chunk [5]]"
        "[0x4F, 0x4B]" 5 "[]"]
    by (simp add: conn_of_def)
qed

end
