(* ===== verification/Packets.thy ===== *)
theory Packets
  imports Types
begin

text \<open>
  The IP packets of the layer-3 tunnel (transport.rs): reading the addresses and ports of a
  packet, building UDP and ICMP packets with their checksums, and the payload that carries
  packets in a data frame. A function that indexes a byte slice returns an option: \<open>None\<close>
  is a panic of the Rust code.
\<close>

section \<open>Packet headers\<close>

record PacketMeta =
  pm_atype :: u8
  pm_protocol :: ProtocolKind
  pm_src_ip :: Ipv4Addr
  pm_dst_ip :: Ipv4Addr
  pm_src_port :: u16
  pm_dst_port :: u16

definition ip_at :: "bytes \<Rightarrow> nat \<Rightarrow> Ipv4Addr option" where
  "ip_at p i = do {
     a \<leftarrow> idx p i; b \<leftarrow> idx p (i + 1); c \<leftarrow> idx p (i + 2); d \<leftarrow> idx p (i + 3);
     Some (ipv4_new a b c d)
   }"

definition u16_at :: "bytes \<Rightarrow> nat \<Rightarrow> u16 option" where
  "u16_at p i = do { a \<leftarrow> idx p i; b \<leftarrow> idx p (i + 1); Some (u16_from_be_bytes a b) }"

definition version_of :: "u8 \<Rightarrow> nat" where
  "version_of b = unat (drop_bit 4 b)"

definition ihl_of :: "u8 \<Rightarrow> nat" where
  "ihl_of b = unat (b AND 0x0F) * 4"

definition protocol_of :: "u8 \<Rightarrow> ProtocolKind" where
  "protocol_of proto = (if proto = 6 then Tcp else if proto = 17 then Udp else Icmp)"

definition parse_packet_meta :: "bytes \<Rightarrow> (AtrError + PacketMeta) option" where
  "parse_packet_meta packet =
     (if length packet < 20 then Some (Inl (ParseFailed ''packet too short''))
      else do {
        b0 \<leftarrow> idx packet 0;
        if version_of b0 \<noteq> 4 then Some (Inl (Unsupported ''only ipv4 is supported''))
        else let ihl = ihl_of b0 in
        if length packet < ihl then Some (Inl (ParseFailed ''invalid ipv4 header''))
        else do {
          proto \<leftarrow> idx packet 9;
          src_ip \<leftarrow> ip_at packet 12;
          dst_ip \<leftarrow> ip_at packet 16;
          if proto = 6 \<or> proto = 17 then
            if length packet < ihl + 4 then Some (Inl (ParseFailed ''transport header too short''))
            else do {
              src_port \<leftarrow> u16_at packet ihl;
              dst_port \<leftarrow> u16_at packet (ihl + 2);
              Some (Inr \<lparr>pm_atype = 4, pm_protocol = protocol_of proto, pm_src_ip = src_ip,
                pm_dst_ip = dst_ip, pm_src_port = src_port, pm_dst_port = dst_port\<rparr>)
            }
          else if proto = 1 then
            Some (Inr \<lparr>pm_atype = 4, pm_protocol = protocol_of proto, pm_src_ip = src_ip,
              pm_dst_ip = dst_ip, pm_src_port = 0, pm_dst_port = 0\<rparr>)
          else Some (Inl (Unsupported (''protocol '' @ nat_str (unat proto) @ '' unsupported'')))
        }
      })"

definition parse_ipv4_udp_packet ::
  "bytes \<Rightarrow> (AtrError + Ipv4Addr \<times> Ipv4Addr \<times> u16 \<times> u16 \<times> bytes) option" where
  "parse_ipv4_udp_packet packet =
     (if length packet < 28 then Some (Inl (ParseFailed ''udp packet too short''))
      else do {
        b0 \<leftarrow> idx packet 0;
        if version_of b0 \<noteq> 4 then Some (Inl (Unsupported ''only ipv4 is supported''))
        else let ihl = ihl_of b0 in
        if length packet < ihl + 8 then Some (Inl (ParseFailed ''udp header too short''))
        else do {
          proto \<leftarrow> idx packet 9;
          if proto \<noteq> 17 then Some (Inl (Unsupported ''not a udp packet''))
          else do {
            src_ip \<leftarrow> ip_at packet 12;
            dst_ip \<leftarrow> ip_at packet 16;
            src_port \<leftarrow> u16_at packet ihl;
            dst_port \<leftarrow> u16_at packet (ihl + 2);
            udp_len \<leftarrow> map_option unat (u16_at packet (ihl + 4));
            if length packet < ihl + udp_len \<or> udp_len < 8
            then Some (Inl (ParseFailed ''invalid udp length''))
            else do {
              payload \<leftarrow> slice packet (ihl + 8) (ihl + udp_len);
              Some (Inr (src_ip, dst_ip, src_port, dst_port, payload))
            }
          }
        }
      })"

definition udp_payload_if_match ::
  "bytes \<Rightarrow> Ipv4Addr \<Rightarrow> u16 \<Rightarrow> Ipv4Addr \<Rightarrow> u16 \<Rightarrow> bytes option option" where
  "udp_payload_if_match packet local_ip local_port remote_ip remote_port = do {
     res \<leftarrow> parse_ipv4_udp_packet packet;
     (case res of
        Inl _ \<Rightarrow> Some None
      | Inr (src_ip, dst_ip, src_port, dst_port, payload) \<Rightarrow>
          Some (if src_ip = remote_ip \<and> src_port = remote_port \<and> dst_ip = local_ip \<and> dst_port = local_port
                then Some payload else None))
   }"

definition is_complete_ip_packet :: "bytes \<Rightarrow> bool option" where
  "is_complete_ip_packet packet =
     (case packet of
        [] \<Rightarrow> Some False
      | b0 # _ \<Rightarrow>
          if version_of b0 = 4 \<and> 20 \<le> length packet then do {
            total_len \<leftarrow> map_option unat (u16_at packet 2);
            Some (20 \<le> ihl_of b0 \<and> ihl_of b0 \<le> total_len \<and> total_len \<le> length packet)
          }
          else if version_of b0 = 6 \<and> 40 \<le> length packet then do {
            payload_len \<leftarrow> map_option unat (u16_at packet 4);
            Some (40 + payload_len \<le> length packet)
          }
          else Some False)"

section \<open>Checksums\<close>

definition u32_of_u16 :: "u16 \<Rightarrow> u32" where
  "u32_of_u16 w = word_of_nat (unat w)"

fun sum_words :: "u32 \<Rightarrow> bytes \<Rightarrow> u32" where
  "sum_words acc (hi # lo # rest) = sum_words (acc + u32_of_u16 (u16_from_be_bytes hi lo)) rest"
| "sum_words acc [b] = acc + push_bit 8 (word_of_nat (unat b))"
| "sum_words acc [] = acc"

lemma unat_and_FFFF: "unat (s AND 0xFFFF :: u32) = unat s mod 65536"
proof -
  have m: "(0xFFFF :: u32) = mask 16" by (simp add: mask_eq_exp_minus_1)
  have "s AND 0xFFFF = take_bit 16 s" unfolding m by (simp add: take_bit_eq_mask)
  then show ?thesis by (simp add: take_bit_eq_mod unat_mod)
qed

lemma unat_drop_16: "unat (drop_bit 16 (s :: u32)) = unat s div 65536"
  by (simp add: drop_bit_eq_div unat_div)

lemma unat_fold_step: "unat ((s AND 0xFFFF) + drop_bit 16 (s :: u32)) = unat s mod 65536 + unat s div 65536"
proof -
  have "unat s mod 65536 < 65536" by simp
  moreover have "unat s div 65536 < 65536" by (rule less_mult_imp_div_less) simp
  ultimately have "unat s mod 65536 + unat s div 65536 < 2 ^ 32" by simp
  then show ?thesis
    by (subst unat_add_lem [THEN iffD1]) (simp_all add: unat_and_FFFF unat_drop_16)
qed

function fold_carry :: "u32 \<Rightarrow> u32" where
  "fold_carry s = (if drop_bit 16 s \<noteq> 0 then fold_carry ((s AND 0xFFFF) + drop_bit 16 s) else s)"
  by pat_completeness auto
termination
proof (relation "measure unat")
  fix s :: u32
  assume "drop_bit 16 s \<noteq> 0"
  then have "unat s div 65536 \<noteq> 0" by (metis unat_drop_16 unat_eq_0)
  moreover have "unat s = unat s div 65536 * 65536 + unat s mod 65536" by simp
  ultimately show "((s AND 0xFFFF) + drop_bit 16 s, s) \<in> measure unat"
    by (simp only: in_measure unat_fold_step)
qed simp

lemmas [simp del] = fold_carry.simps

definition checksum_words :: "bytes \<Rightarrow> u16" where
  "checksum_words data = NOT (word_of_nat (unat (fold_carry (sum_words 0 data))))"

definition ipv4_checksum :: "bytes \<Rightarrow> u16" where
  "ipv4_checksum header = checksum_words header"

definition udp_checksum :: "Ipv4Addr \<Rightarrow> Ipv4Addr \<Rightarrow> bytes \<Rightarrow> u16" where
  "udp_checksum src_ip dst_ip udp =
     (let pseudo = octets src_ip @ octets dst_ip @ [0, 17] @ u16_to_be_bytes (word_of_nat (length udp)) @ udp;
          pseudo' = (if length pseudo mod 2 \<noteq> 0 then pseudo @ [0] else pseudo);
          sum = checksum_words pseudo'
      in if sum = 0 then 0xFFFF else sum)"

section \<open>Building packets\<close>

text \<open>\<open>buf[i] = v\<close>, which panics out of range.\<close>

definition set_at :: "nat \<Rightarrow> u8 \<Rightarrow> bytes \<Rightarrow> bytes option" where
  "set_at i v p = (if i < length p then Some (p[i := v]) else None)"

definition put :: "nat \<Rightarrow> nat \<Rightarrow> bytes \<Rightarrow> bytes \<Rightarrow> bytes option" where
  "put a b ys p = copy_from_slice p a b ys"

definition build_udp_ipv4_packet ::
  "Ipv4Addr \<Rightarrow> u16 \<Rightarrow> Ipv4Addr \<Rightarrow> u16 \<Rightarrow> bytes \<Rightarrow> (AtrError + bytes) option" where
  "build_udp_ipv4_packet src_ip src_port dst_ip dst_port payload =
     (let udp_len = 8 + length payload in
      if 65535 < udp_len then Some (Inl (InvalidArgument ''udp payload too large''))
      else let total_len = 20 + udp_len in
      if 65535 < total_len then Some (Inl (InvalidArgument ''ipv4 packet too large''))
      else do {
        p \<leftarrow> set_at 0 0x45 (replicate total_len 0);
        p \<leftarrow> set_at 1 0 p;
        p \<leftarrow> put 2 4 (u16_to_be_bytes (word_of_nat total_len)) p;
        p \<leftarrow> put 4 6 (u16_to_be_bytes 0) p;
        p \<leftarrow> put 6 8 (u16_to_be_bytes 0) p;
        p \<leftarrow> set_at 8 64 p;
        p \<leftarrow> set_at 9 17 p;
        p \<leftarrow> put 12 16 (octets src_ip) p;
        p \<leftarrow> put 16 20 (octets dst_ip) p;
        header \<leftarrow> slice p 0 20;
        p \<leftarrow> put 10 12 (u16_to_be_bytes (ipv4_checksum header)) p;
        udp \<leftarrow> slice p 20 (length p);
        udp \<leftarrow> put 0 2 (u16_to_be_bytes src_port) udp;
        udp \<leftarrow> put 2 4 (u16_to_be_bytes dst_port) udp;
        udp \<leftarrow> put 4 6 (u16_to_be_bytes (word_of_nat udp_len)) udp;
        udp \<leftarrow> put 6 8 (u16_to_be_bytes 0) udp;
        udp \<leftarrow> put 8 (length udp) payload udp;
        udp \<leftarrow> put 6 8 (u16_to_be_bytes (udp_checksum src_ip dst_ip udp)) udp;
        Some (Inr (take 20 p @ udp))
      })"

definition build_icmp_echo_packet :: "Ipv4Addr \<Rightarrow> Ipv4Addr \<Rightarrow> u16 \<Rightarrow> bytes option" where
  "build_icmp_echo_packet source destination sequence =
     (let payload = str_bytes ''reatrust keep-alive'';
          icmp_len = 8 + length payload;
          total_len = 20 + icmp_len in
      do {
        p \<leftarrow> set_at 0 0x45 (replicate total_len 0);
        p \<leftarrow> put 2 4 (u16_to_be_bytes (word_of_nat total_len)) p;
        p \<leftarrow> put 4 6 (u16_to_be_bytes sequence) p;
        p \<leftarrow> set_at 8 64 p;
        p \<leftarrow> set_at 9 1 p;
        p \<leftarrow> put 12 16 (octets source) p;
        p \<leftarrow> put 16 20 (octets destination) p;
        p \<leftarrow> set_at 20 8 p;
        p \<leftarrow> put 24 26 (u16_to_be_bytes 0x5241) p;
        p \<leftarrow> put 26 28 (u16_to_be_bytes sequence) p;
        p \<leftarrow> put 28 (length p) payload p;
        icmp \<leftarrow> slice p 20 (length p);
        p \<leftarrow> put 22 24 (u16_to_be_bytes (ipv4_checksum icmp)) p;
        header \<leftarrow> slice p 0 20;
        put 10 12 (u16_to_be_bytes (ipv4_checksum header)) p
      })"

section \<open>Data payloads\<close>

definition wrap_auth_req_data :: "bytes \<Rightarrow> u8 \<Rightarrow> bytes" where
  "wrap_auth_req_data payload addr_type =
     [0x05, 0x01, 0xD0] @ [0x53, 0x00] @ u16_to_be_bytes (word_of_nat (length payload)) @ payload @
     [0x05, 0x04, 0x00, addr_type, 0x00, 0x00, 0x00, 0x00, 0x00, 0x00]"

definition packet_entry :: "bytes \<Rightarrow> bytes" where
  "packet_entry pkt = u16_to_be_bytes (word_of_nat (length pkt)) @ pkt"

definition build_data_payload :: "string \<Rightarrow> bytes list \<Rightarrow> bytes" where
  "build_data_payload token packets =
     [0x05, 0x14] @ [word_of_nat (length (str_bytes token))] @ str_bytes token @ [0x00, 0x00] @
     [word_of_nat (length packets)] @ concat (map packet_entry packets)"

definition build_l3_auth_request_payload :: "bytes \<Rightarrow> AtrError + bytes" where
  "build_l3_auth_request_payload req =
     (if 65535 < length req then Inl (InvalidArgument ''l3 auth request too large'')
      else Inr ([0x05, 0x13] @ u16_to_be_bytes (word_of_nat (length req)) @ req))"

text \<open>The packet loop of \<open>parse_data_payload\<close>: packets still to read, offset, packets read.\<close>

fun parse_packets :: "nat \<Rightarrow> nat \<Rightarrow> bytes list \<Rightarrow> bytes \<Rightarrow> (AtrError + bytes list) option" where
  "parse_packets 0 i packets payload = Some (Inr packets)"
| "parse_packets (Suc k) i packets payload =
     (if length payload < i + 2 then Some (Inl (ParseFailed ''packet length overflow''))
      else do {
        plen \<leftarrow> map_option unat (u16_at payload i);
        if length payload < i + 2 + plen then Some (Inl (ParseFailed ''packet data overflow''))
        else do {
          pkt \<leftarrow> slice payload (i + 2) (i + 2 + plen);
          parse_packets k (i + 2 + plen) (packets @ [pkt]) payload
        }
      })"

definition parse_data_payload :: "bytes \<Rightarrow> (AtrError + bytes list) option" where
  "parse_data_payload payload =
     (if length payload < 4 then Some (Inl (ParseFailed ''payload too short''))
      else do {
        token_len \<leftarrow> map_option unat (idx payload 0);
        if length payload < 1 + token_len + 3 then Some (Inl (ParseFailed ''payload token overflow''))
        else do {
          count \<leftarrow> map_option unat (idx payload (1 + token_len + 2));
          parse_packets count (1 + token_len + 3) [] payload
        }
      })"

datatype DataMode = Token | Len

definition decode_l3_data_payload :: "bytes \<Rightarrow> DataMode \<Rightarrow> (AtrError + bytes list) option" where
  "decode_l3_data_payload payload mode = do {
     complete \<leftarrow> (if mode = Len then is_complete_ip_packet payload else Some False);
     if complete then Some (Inr [payload]) else parse_data_payload payload
   }"

section \<open>Addresses, names and keys\<close>

definition pick_local_ip :: "Ipv4Addr \<Rightarrow> Ipv4Addr option" where
  "pick_local_ip remote_ip = do {
     b \<leftarrow> idx (octets remote_ip) 1; c \<leftarrow> idx (octets remote_ip) 2; d \<leftarrow> idx (octets remote_ip) 3;
     Some (ipv4_new 10 b c d)
   }"

definition pick_local_port :: "string \<Rightarrow> u16 \<Rightarrow> u16" where
  "pick_local_port host port =
     (let hash = foldl (\<lambda>h b. (h * 16777619) XOR word_of_nat (unat b)) (0 :: u32) (str_bytes host);
          mixed = hash XOR word_of_nat (unat port)
      in 40000 + word_of_nat (unat (mixed mod 20000)))"

definition vip_payload_length :: "u8 \<Rightarrow> nat" where
  "vip_payload_length addr_type =
     (if addr_type = 1 then 6 else if addr_type = 4 then 18 else if addr_type = 5 then 22 else 0)"

definition parse_virtual_ip_bytes :: "bytes \<Rightarrow> Ipv4Addr list option option" where
  "parse_virtual_ip_bytes data =
     (if length data = 6 \<or> length data = 18 \<or> length data = 22
      then do { ip \<leftarrow> ip_at data 0; Some (Some [ip]) }
      else Some None)"

definition proto_name :: "ProtocolKind \<Rightarrow> string" where
  "proto_name proto = (case proto of Tcp \<Rightarrow> ''tcp'' | Udp \<Rightarrow> ''udp'' | Icmp \<Rightarrow> ''icmp'')"

definition protocol_number :: "ProtocolKind \<Rightarrow> int" where
  "protocol_number proto = (case proto of Tcp \<Rightarrow> 6 | Udp \<Rightarrow> 17 | Icmp \<Rightarrow> 1)"

definition auth_ip_type :: "u8 \<Rightarrow> int" where
  "auth_ip_type atype = (if atype = 6 then 0x86DD else 0x0800)"

definition conn_track_key :: "PacketMeta \<Rightarrow> string" where
  "conn_track_key meta =
     nat_str (unat (pm_atype meta)) @ '':'' @ show_ipv4 (pm_src_ip meta) @ '':'' @
     nat_str (unat (pm_src_port meta)) @ ''-'' @ show_ipv4 (pm_dst_ip meta) @ '':'' @
     nat_str (unat (pm_dst_port meta))"

definition meta_display :: "PacketMeta \<Rightarrow> string" where
  "meta_display meta =
     ''atype='' @ nat_str (unat (pm_atype meta)) @ '' proto='' @ proto_name (pm_protocol meta) @ '' '' @
     show_ipv4 (pm_src_ip meta) @ '':'' @ nat_str (unat (pm_src_port meta)) @ '' -> '' @
     show_ipv4 (pm_dst_ip meta) @ '':'' @ nat_str (unat (pm_dst_port meta))"

section \<open>Lemmas\<close>

subsection \<open>No panic\<close>

lemma ip_at_in: "i + 4 \<le> length p \<Longrightarrow> ip_at p i = Some (ipv4_new (p ! i) (p ! (i + 1)) (p ! (i + 2)) (p ! (i + 3)))"
  by (simp add: ip_at_def)

lemma u16_at_in: "i + 2 \<le> length p \<Longrightarrow> u16_at p i = Some (u16_from_be_bytes (p ! i) (p ! (i + 1)))"
  by (simp add: u16_at_def)

lemmas at_in = ip_at_in u16_at_in

lemma parse_packets_total: "parse_packets k i packets payload \<noteq> None"
  by (induction k i packets payload rule: parse_packets.induct) (auto simp: at_in)

lemma packet_parse_total: "parse_packet_meta bs \<noteq> None"
proof (cases "length bs < 20")
  case False
  then have "bs \<noteq> []" by auto
  with False show ?thesis by (simp add: parse_packet_meta_def Let_def at_in)
qed (simp add: parse_packet_meta_def)

lemma udp_parse_total: "parse_ipv4_udp_packet bs \<noteq> None"
proof (cases "length bs < 28")
  case False
  then have "bs \<noteq> []" by auto
  with False show ?thesis by (simp add: parse_ipv4_udp_packet_def Let_def at_in)
qed (simp add: parse_ipv4_udp_packet_def)

text \<open>
  C36. No packet from the network can crash the decoders: for every byte sequence the packet
  parsers, the payload decoder and the virtual address decoder return a value, never an
  out-of-range index.
\<close>

theorem packet_parsers_never_panic:
  "parse_packet_meta bs \<noteq> None \<and> parse_ipv4_udp_packet bs \<noteq> None \<and> is_complete_ip_packet bs \<noteq> None \<and>
   parse_data_payload bs \<noteq> None \<and> decode_l3_data_payload bs mode \<noteq> None \<and>
   parse_virtual_ip_bytes bs \<noteq> None"
proof -
  have meta: "parse_packet_meta bs \<noteq> None" by (rule packet_parse_total)
  have udp: "parse_ipv4_udp_packet bs \<noteq> None" by (rule udp_parse_total)
  have ip: "is_complete_ip_packet bs \<noteq> None"
    by (cases bs) (simp_all add: is_complete_ip_packet_def at_in del: not_None_eq)
  have data: "parse_data_payload bs \<noteq> None"
  proof (cases "length bs < 4")
    case False
    then have "bs \<noteq> []" by auto
    with False parse_packets_total show ?thesis by (simp add: parse_data_payload_def)
  qed (simp add: parse_data_payload_def)
  have "decode_l3_data_payload bs mode \<noteq> None"
    using ip data by (cases "is_complete_ip_packet bs") (auto simp: decode_l3_data_payload_def)
  moreover have "parse_virtual_ip_bytes bs \<noteq> None"
    by (simp add: parse_virtual_ip_bytes_def at_in)
  ultimately show ?thesis using meta udp ip data by blast
qed

subsection \<open>Data payloads\<close>

definition decode_packet_entry :: "bytes \<Rightarrow> (bytes \<times> bytes) option" where
  "decode_packet_entry bs = do {
     n \<leftarrow> map_option unat (u16_at bs 0);
     pkt \<leftarrow> slice bs 2 (2 + n);
     Some (pkt, drop (2 + n) bs)
   }"

interpretation packet_list: frame_codec packet_entry decode_packet_entry "\<lambda>pkt. length pkt < 65536"
proof unfold_locales
  fix a rest :: bytes
  assume a: "length a < 65536"
  obtain x y where "u16_to_be_bytes (word_of_nat (length a)) = [x, y]"
    "u16_from_be_bytes x y = word_of_nat (length a)" by (rule u16_be_cases)
  with a show "decode_packet_entry (packet_entry a @ rest) = Some (a, rest)"
    by (simp add: decode_packet_entry_def packet_entry_def u16_at_in unat_len_u16)
next
  fix a :: bytes
  show "packet_entry a \<noteq> []" by (simp add: packet_entry_def u16_to_be_bytes_def)
qed

lemma parse_packets_decode:
  "i \<le> length payload \<Longrightarrow>
   parse_packets (Suc k) i acc payload =
     (case decode_packet_entry (drop i payload) of
        Some (pkt, rest) \<Rightarrow> parse_packets k (i + 2 + length pkt) (acc @ [pkt]) payload
      | None \<Rightarrow> Some (Inl (ParseFailed
          (if length payload < i + 2 then ''packet length overflow'' else ''packet data overflow''))))"
  by (auto simp: decode_packet_entry_def u16_at_def idx_def slice_def add.commute)

lemma parse_packets_entries:
  assumes "list_all (\<lambda>pkt. length pkt < 65536) ps" and "length pre = i"
  shows "parse_packets (length ps) i acc (pre @ concat (map packet_entry ps) @ rest) = Some (Inr (acc @ ps))"
  using assms
proof (induction ps arbitrary: pre i acc)
  case (Cons p ps)
  have len: "length (packet_entry p) = 2 + length p" by (simp add: packet_entry_def)
  have "decode_packet_entry (packet_entry p @ concat (map packet_entry ps) @ rest) =
      Some (p, concat (map packet_entry ps) @ rest)"
    using Cons.prems by (intro packet_list.dec_enc) simp
  with Cons.IH [of "pre @ packet_entry p" "i + 2 + length p" "acc @ [p]"] Cons.prems len show ?case
    by (simp add: parse_packets_decode del: parse_packets.simps)
qed simp

definition data_body :: "string \<Rightarrow> bytes list \<Rightarrow> bytes" where
  "data_body token packets = drop 2 (build_data_payload token packets)"

lemma data_body_eq:
  "data_body token packets =
     ([word_of_nat (length token)] @ str_bytes token @ [0, 0, word_of_nat (length packets)]) @
     concat (map packet_entry packets) @ []"
  by (simp add: data_body_def build_data_payload_def)

lemma parse_data_body:
  assumes "length token \<le> 255" and "length packets \<le> 255" and "list_all (\<lambda>p. length p < 65536) packets"
  shows "parse_data_payload (data_body token packets) = Some (Inr packets)"
proof -
  let ?pre = "[word_of_nat (length token)] @ str_bytes token @ [0, 0, word_of_nat (length packets)]"
  have n: "unat (word_of_nat (length token) :: u8) = length token"
    "unat (word_of_nat (length packets) :: u8) = length packets"
    using assms(1,2) by (simp_all add: unat_of_nat_u8)
  have i: "idx (data_body token packets) 0 = Some (word_of_nat (length token))"
    "idx (data_body token packets) (1 + length token + 2) = Some (word_of_nat (length packets))"
    by (simp_all add: data_body_eq idx_def nth_append)
  have "parse_packets (length packets) (1 + length token + 3) [] (data_body token packets) = Some (Inr packets)"
    using parse_packets_entries [OF assms(3), of ?pre "1 + length token + 3" "[]" "[]"]
    by (simp add: data_body_eq)
  moreover have "4 \<le> length (data_body token packets)"
    "1 + length token + 3 \<le> length (data_body token packets)" by (simp_all add: data_body_eq)
  ultimately show ?thesis using i n by (simp add: parse_data_payload_def not_less [symmetric])
qed

text \<open>
  A token envelope is never mistaken for a raw IP packet: read as a header, its length
  fields are two characters of the token, which exceed the 4096 bytes a length-framed
  payload can have.
\<close>

lemma version_of_le: "version_of b = unat b div 16"
  by (simp add: version_of_def drop_bit_eq_div unat_div)

lemma of_char_u8: "unat (word_of_nat (of_char c) :: u8) = of_char c"
  by (simp add: unat_of_nat_u8)

lemma printable_pair_large:
  assumes "printable c" and "printable d"
  shows "8448 \<le> unat (u16_from_be_bytes (word_of_nat (of_char c)) (word_of_nat (of_char d)))"
proof -
  have "33 \<le> (of_char c :: nat)" using assms(1) by (simp add: printable_def)
  then have "33 * 256 \<le> (of_char c :: nat) * 256" by (rule mult_le_mono1)
  then show ?thesis by (simp add: unat_u16_from_be_bytes of_char_u8)
qed

lemma envelope_not_ip_packet:
  assumes "length token \<le> 255" and "\<And>c. c \<in> set token \<Longrightarrow> printable c"
    and "length (data_body token packets) \<le> 4096"
  shows "is_complete_ip_packet (data_body token packets) = Some False"
proof -
  let ?b = "data_body token packets"
  obtain more where b: "?b = word_of_nat (length token) # str_bytes token @ more"
    by (simp add: data_body_eq)
  have v: "version_of (word_of_nat (length token)) = length token div 16"
    using assms(1) by (simp add: version_of_le unat_of_nat_u8)
  have large: "4096 < unat (u16_from_be_bytes (?b ! i) (?b ! (i + 1)))"
    if i: "0 < i" "i < 5" and t: "64 \<le> length token" for i
  proof -
    have "i - 1 < length token" "i < length token" using i t by linarith+
    then have "?b ! i = word_of_nat (of_char (token ! (i - 1)))" "?b ! (i + 1) = word_of_nat (of_char (token ! i))"
      using i t by (simp_all add: b nth_append str_bytes_def nth_Cons')
    moreover have "printable (token ! (i - 1))" "printable (token ! i)"
      using i t by (auto intro!: assms(2) nth_mem)
    ultimately show ?thesis using printable_pair_large [of "token ! (i - 1)" "token ! i"] by simp
  qed
  show ?thesis
  proof (cases "length token div 16 = 4 \<and> 20 \<le> length ?b \<or> length token div 16 = 6 \<and> 40 \<le> length ?b")
    case True
    then have t: "64 \<le> length token" by auto
    from large [of 2, OF _ _ t] large [of 4, OF _ _ t] True assms(3) show ?thesis
      using b v by (auto simp: is_complete_ip_packet_def u16_at_in split: list.splits)
  next
    case False
    with b v show ?thesis by (auto simp: is_complete_ip_packet_def)
  qed
qed

text \<open>
  C17. Data payloads round-trip in both framing modes. A payload built for a token and
  packets that fit their length fields decodes to exactly those packets; in the
  length-framed mode this needs the bound the framing enforces (at most 4096 bytes) and a
  printable token, and then the raw-packet test never fires on the envelope.
\<close>

theorem data_payload_roundtrip:
  assumes "length token \<le> 255" and "length packets \<le> 255" and "list_all (\<lambda>p. length p < 65536) packets"
    and "mode = Len \<longrightarrow> length (drop 2 (build_data_payload token packets)) \<le> 4096 \<and> (\<forall>c \<in> set token. printable c)"
  shows "decode_l3_data_payload (drop 2 (build_data_payload token packets)) mode = Some (Inr packets)"
proof -
  have "parse_data_payload (data_body token packets) = Some (Inr packets)"
    by (rule parse_data_body [OF assms(1-3)])
  moreover have "mode = Len \<Longrightarrow> is_complete_ip_packet (data_body token packets) = Some False"
    using assms(1,4) by (intro envelope_not_ip_packet) (auto simp: data_body_def)
  ultimately show ?thesis by (cases mode) (simp_all add: decode_l3_data_payload_def flip: data_body_def)
qed

theorem data_payload_roundtrip_witness:
  "decode_l3_data_payload (drop 2 (build_data_payload ''tok'' [[0x45, 1, 2], []])) Len =
     Some (Inr [[0x45, 1, 2], []])"
  by (rule data_payload_roundtrip) code_simp+

subsection \<open>The layout of a UDP packet\<close>

definition ip_header :: "nat \<Rightarrow> u16 \<Rightarrow> u8 \<Rightarrow> u16 \<Rightarrow> Ipv4Addr \<Rightarrow> Ipv4Addr \<Rightarrow> bytes" where
  "ip_header tlen ident proto ck src_ip dst_ip =
     [0x45, 0] @ u16_to_be_bytes (word_of_nat tlen) @ u16_to_be_bytes ident @ [0, 0, 64, proto] @
     u16_to_be_bytes ck @ octets src_ip @ octets dst_ip"

definition udp_segment :: "u16 \<Rightarrow> u16 \<Rightarrow> nat \<Rightarrow> u16 \<Rightarrow> bytes \<Rightarrow> bytes" where
  "udp_segment src_port dst_port len ck payload =
     u16_to_be_bytes src_port @ u16_to_be_bytes dst_port @ u16_to_be_bytes (word_of_nat len) @
     u16_to_be_bytes ck @ payload"

lemma set_at_take: "i < length p \<Longrightarrow> set_at i v p = Some (take i p @ v # drop (Suc i) p)"
  by (simp add: set_at_def upd_conv_take_nth_drop)

lemma put_take: "a \<le> b \<Longrightarrow> b \<le> length p \<Longrightarrow> length ys = b - a \<Longrightarrow> put a b ys p = Some (take a p @ ys @ drop b p)"
  by (simp add: put_def copy_from_slice_def overwrite_def)

lemma u16_zero_bytes [simp]: "u16_to_be_bytes 0 = [0, 0]"
  by (simp add: u16_to_be_bytes_def)

lemma replicate_28: "replicate (20 + (8 + n)) (0 :: u8) =
    [0,0,0,0,0,0,0,0,0,0,0,0,0,0,0,0,0,0,0,0,0,0,0,0,0,0,0,0] @ replicate n 0"
  by (simp add: eval_nat_numeral)

lemma build_udp_layout:
  assumes "28 + length payload \<le> 65535"
  shows "build_udp_ipv4_packet src_ip src_port dst_ip dst_port payload =
    Some (Inr
      (ip_header (28 + length payload) 0 17
         (ipv4_checksum (ip_header (28 + length payload) 0 17 0 src_ip dst_ip)) src_ip dst_ip @
       udp_segment src_port dst_port (8 + length payload)
         (udp_checksum src_ip dst_ip (udp_segment src_port dst_port (8 + length payload) 0 payload)) payload))"
proof -
  obtain a b c d where s: "octets src_ip = [a, b, c, d]" using octets_cases by blast
  obtain a' b' c' d' where t: "octets dst_ip = [a', b', c', d']" using octets_cases by blast
  obtain x y where l: "u16_to_be_bytes (word_of_nat (28 + length payload)) = [x, y]" by (rule u16_be_cases)
  obtain x' y' where u: "u16_to_be_bytes (word_of_nat (8 + length payload)) = [x', y']" by (rule u16_be_cases)
  obtain p q where sp: "u16_to_be_bytes src_port = [p, q]" by (rule u16_be_cases)
  obtain p' q' where dp: "u16_to_be_bytes dst_port = [p', q']" by (rule u16_be_cases)
  note l' = l [simplified] and u' = u [simplified]
  define ick where "ick = ipv4_checksum (ip_header (28 + length payload) 0 17 0 src_ip dst_ip)"
  obtain k k' where ck: "u16_to_be_bytes ick = [k, k']" by (rule u16_be_cases)
  define uck where "uck = udp_checksum src_ip dst_ip (udp_segment src_port dst_port (8 + length payload) 0 payload)"
  obtain m m' where uk: "u16_to_be_bytes uck = [m, m']" by (rule u16_be_cases)
  have i: "ick = ipv4_checksum [0x45, 0, x, y, 0, 0, 0, 0, 64, 17, 0, 0, a, b, c, d, a', b', c', d']"
    by (simp add: ick_def ip_header_def s t l')
  have v: "uck = udp_checksum src_ip dst_ip ([p, q, p', q', x', y', 0, 0] @ payload)"
    by (simp add: uck_def udp_segment_def sp dp u')
  from assms show ?thesis
    unfolding build_udp_ipv4_packet_def Let_def ip_header_def udp_segment_def replicate_28
      ick_def [symmetric, unfolded ip_header_def] uck_def [symmetric, unfolded udp_segment_def]
    by (simp add: set_at_take put_take slice_def s t l' u' sp dp ck uk i [symmetric] v [symmetric, simplified])
qed

subsection \<open>Checksums\<close>

text \<open>The sum of the big-endian 16-bit words of a byte sequence, as a natural number.\<close>

fun wsum :: "bytes \<Rightarrow> nat" where
  "wsum (hi # lo # rest) = unat hi * 256 + unat lo + wsum rest"
| "wsum [b] = unat b * 256"
| "wsum [] = 0"

lemma wsum_bound: "wsum bs \<le> 65535 * length bs"
proof (induction bs rule: wsum.induct)
  case (1 hi lo rest)
  have "unat hi * 256 \<le> 255 * 256" by (rule mult_le_mono1) (rule unat_u8_le)
  moreover have "65535 * length (hi # lo # rest) = 65535 * length rest + 131070" by simp
  ultimately show ?case using 1 unat_u8_le [of lo] unfolding wsum.simps by linarith
next
  case (2 b)
  have "unat b * 256 \<le> 255 * 256" by (rule mult_le_mono1) (rule unat_u8_le)
  then have "unat b * 256 \<le> 65535" by linarith
  then show ?case by simp
qed simp

lemma wsum_append: "even (length xs) \<Longrightarrow> wsum (xs @ ys) = wsum xs + wsum ys"
  by (induction xs rule: wsum.induct) simp_all

lemma wsum_u16: "wsum (u16_to_be_bytes w @ ys) = unat w + wsum ys"
proof -
  obtain a b where "u16_to_be_bytes w = [a, b]" "u16_from_be_bytes a b = w" by (rule u16_be_cases)
  then show ?thesis using unat_u16_from_be_bytes [of a b] by simp
qed

lemma unat_u32_of_u16: "unat (u32_of_u16 (u16_from_be_bytes a b)) = unat a * 256 + unat b"
proof -
  have "unat a * 256 + unat b < 65536"
    using unat_u16_less [of "u16_from_be_bytes a b"] unat_u16_from_be_bytes [of a b] by simp
  then show ?thesis by (simp only: u32_of_u16_def unat_of_nat_u32 unat_u16_from_be_bytes) simp
qed

lemma unat_push_8: "unat (push_bit 8 (word_of_nat (unat b)) :: u32) = unat (b :: u8) * 256"
proof -
  have b: "unat b * 256 < 4294967296"
    using mult_le_mono1 [OF unat_u8_le [of b], of 256] by linarith
  have "push_bit 8 (word_of_nat (unat b)) = (word_of_nat (unat b * 256) :: u32)"
    by (simp add: push_bit_eq_mult)
  then show ?thesis using b by (simp only: unat_of_nat_u32) simp
qed

lemma unat_sum_words:
  "unat acc + wsum bs < 4294967296 \<Longrightarrow> unat (sum_words acc bs) = unat acc + wsum bs"
proof (induction acc bs rule: sum_words.induct)
  case (1 acc hi lo rest)
  have "unat (acc + u32_of_u16 (u16_from_be_bytes hi lo)) = unat acc + (unat hi * 256 + unat lo)"
    using "1.prems" by (subst unat_add_lem [THEN iffD1]) (simp_all add: unat_u32_of_u16)
  with 1 show ?case by simp
next
  case (2 acc b)
  then show ?case by (simp only: sum_words.simps wsum.simps)
      (subst unat_add_lem [THEN iffD1]; simp only: unat_push_8; simp)
qed simp

lemma unat_fold_carry:
  "unat (fold_carry s) < 65536 \<and> unat (fold_carry s) mod 65535 = unat s mod 65535 \<and>
   (unat (fold_carry s) = 0 \<longleftrightarrow> unat s = 0)"
proof (induction s rule: fold_carry.induct)
  case (1 s)
  let ?t = "(s AND 0xFFFF) + drop_bit 16 s"
  show ?case
  proof (cases "drop_bit 16 s = 0")
    case True
    then have "unat s div 65536 = 0" by (metis unat_drop_16 unat_0)
    then have "unat s < 65536" by simp
    with True show ?thesis by (subst (1 2 3) fold_carry.simps) simp
  next
    case False
    have "unat s = (unat s mod 65536 + unat s div 65536) + unat s div 65536 * 65535"
      using div_mult_mod_eq [of "unat s" 65536] by linarith
    then have m: "(unat s mod 65536 + unat s div 65536) mod 65535 = unat s mod 65535"
      by (metis mod_mult_self1)
    have z: "unat s mod 65536 + unat s div 65536 = 0 \<longleftrightarrow> unat s = 0"
      using div_mult_mod_eq [of "unat s" 65536] by auto
    from "1.IH" [OF False] False m z show ?thesis
      by (subst (1 2 3) fold_carry.simps) (simp add: unat_fold_step)
  qed
qed

lemma unat_not_u16: "unat (NOT w :: u16) = 65535 - unat w"
proof -
  have "NOT w = - 1 - w" by (simp add: not_eq_complement)
  also have "unat (- 1 - w) = unat (- 1 :: u16) - unat w"
    by (rule unat_sub) simp
  also have "unat (- 1 :: u16) = 65535" by code_simp
  finally show ?thesis .
qed

lemma unat_checksum_words:
  assumes "wsum bs < 4294967296"
  shows "\<exists>f. unat (checksum_words bs) = 65535 - f \<and> f \<le> 65535 \<and> f mod 65535 = wsum bs mod 65535 \<and>
           (f = 0 \<longleftrightarrow> wsum bs = 0)"
proof -
  let ?f = "unat (fold_carry (sum_words 0 bs))"
  have s: "unat (sum_words 0 bs) = wsum bs" using unat_sum_words [of 0 bs] assms by simp
  from unat_fold_carry [of "sum_words 0 bs"] have f: "?f < 65536" "?f mod 65535 = wsum bs mod 65535"
    "?f = 0 \<longleftrightarrow> wsum bs = 0" by (simp_all add: s)
  have "unat (checksum_words bs) = 65535 - ?f"
    using f(1) by (simp only: checksum_words_def unat_not_u16 unat_of_nat_u16) simp
  with f show ?thesis by (intro exI [of _ ?f]) auto
qed

lemma checksum_zero_iff:
  assumes "wsum bs < 4294967296"
  shows "checksum_words bs = 0 \<longleftrightarrow> wsum bs \<noteq> 0 \<and> wsum bs mod 65535 = 0"
proof -
  obtain f where f: "unat (checksum_words bs) = 65535 - f" "f \<le> 65535" "f mod 65535 = wsum bs mod 65535"
    "f = 0 \<longleftrightarrow> wsum bs = 0" using unat_checksum_words [OF assms] by (elim exE conjE that)
  have "checksum_words bs = 0 \<longleftrightarrow> unat (checksum_words bs) = 0" by (simp add: unat_eq_0)
  also have "\<dots> \<longleftrightarrow> f = 65535" using f(1,2) by simp
  also have "\<dots> \<longleftrightarrow> f \<noteq> 0 \<and> f mod 65535 = 0"
  proof
    assume "f \<noteq> 0 \<and> f mod 65535 = 0"
    then obtain k where "f = 65535 * k" "k \<noteq> 0" by (auto simp: mod_eq_0_iff_dvd dvd_def)
    moreover from this f(2) have "k = 1" by linarith
    ultimately show "f = 65535" by simp
  qed simp
  finally show ?thesis using f(3,4) by simp
qed

text \<open>
  Filling the checksum of a zeroed field into an even position makes the whole verify; a
  checksum of zero may be sent as \<open>0xFFFF\<close>.
\<close>

lemma checksum_verifies:
  assumes "even (length pre)" and "wsum (pre @ [0, 0] @ post) \<noteq> 0"
    and "65535 * (length pre + length post + 2) < 4294901760"
    and "ck = checksum_words (pre @ [0, 0] @ post) \<or>
         ck = 0xFFFF \<and> checksum_words (pre @ [0, 0] @ post) = 0"
  shows "checksum_words (pre @ u16_to_be_bytes ck @ post) = 0"
proof -
  let ?S = "wsum (pre @ [0, 0] @ post)"
  have bound: "?S \<le> 65535 * (length pre + length post + 2)"
    using wsum_bound [of "pre @ [0, 0] @ post"] by (simp add: algebra_simps)
  have sum: "wsum (pre @ u16_to_be_bytes ck @ post) = ?S + unat ck"
    using assms(1) by (simp add: wsum_append wsum_u16)
  have lt: "?S < 4294967296" "?S + unat ck < 4294967296"
    using bound assms(3) unat_u16_less [of ck] by linarith+
  obtain f where f: "unat (checksum_words (pre @ [0, 0] @ post)) = 65535 - f" "f \<le> 65535"
    "f mod 65535 = ?S mod 65535" using unat_checksum_words [OF lt(1)] by (elim exE conjE that)
  have "(?S + unat ck) mod 65535 = 0"
    using assms(4)
  proof
    assume "ck = checksum_words (pre @ [0, 0] @ post)"
    then have "(?S + unat ck) mod 65535 = (f + (65535 - f)) mod 65535"
      using f by (metis mod_add_left_eq)
    with f(2) show ?thesis by simp
  next
    assume c: "ck = 0xFFFF \<and> checksum_words (pre @ [0, 0] @ post) = 0"
    with checksum_zero_iff [OF lt(1)] have "?S mod 65535 = 0" by simp
    moreover have "unat (0xFFFF :: u16) = 65535" by simp
    ultimately show ?thesis using c by (metis mod_add_self2)
  qed
  moreover have "wsum (pre @ u16_to_be_bytes ck @ post) \<noteq> 0" using assms(2) sum by simp
  ultimately show ?thesis using checksum_zero_iff [of "pre @ u16_to_be_bytes ck @ post"] lt(2) sum by simp
qed

section \<open>Properties of built packets\<close>

lemma length_ip_header [simp]: "length (ip_header n i p ck a b) = 20"
  by (simp add: ip_header_def)

text \<open>What the UDP checksum covers: pseudo-header, segment, and a zero byte when odd.\<close>

definition udp_covered :: "Ipv4Addr \<Rightarrow> Ipv4Addr \<Rightarrow> bytes \<Rightarrow> bytes" where
  "udp_covered src_ip dst_ip udp =
     octets src_ip @ octets dst_ip @ [0, 17] @ u16_to_be_bytes (word_of_nat (length udp)) @ udp @
     (if even (length udp) then [] else [0])"

lemma udp_checksum_cases:
  "udp_checksum src_ip dst_ip udp = checksum_words (udp_covered src_ip dst_ip udp) \<or>
   udp_checksum src_ip dst_ip udp = 0xFFFF \<and> checksum_words (udp_covered src_ip dst_ip udp) = 0"
proof -
  have "(12 + length udp) mod 2 = length udp mod 2" by presburger
  then show ?thesis
    by (simp add: udp_checksum_def udp_covered_def Let_def even_iff_mod_2_eq_zero)
qed

lemma udp_segment_verifies:
  assumes "length payload \<le> 65507"
    and "ck = udp_checksum src_ip dst_ip (udp_segment src_port dst_port (8 + length payload) 0 payload)"
  shows "checksum_words (udp_covered src_ip dst_ip
           (udp_segment src_port dst_port (8 + length payload) ck payload)) = 0"
proof -
  let ?len = "u16_to_be_bytes (word_of_nat (8 + length payload))"
  let ?pre = "octets src_ip @ octets dst_ip @ [0, 17] @ ?len @ u16_to_be_bytes src_port @
    u16_to_be_bytes dst_port @ ?len"
  let ?post = "payload @ (if even (length payload) then [] else [0])"
  have c: "udp_covered src_ip dst_ip (udp_segment src_port dst_port (8 + length payload) k payload) =
      ?pre @ u16_to_be_bytes k @ ?post" for k
    by (simp add: udp_covered_def udp_segment_def)
  have "length ?post \<le> 65508" using assms(1) by auto
  then have small: "65535 * (length ?pre + length ?post + 2) < 4294901760" by simp
  have "wsum ([0, 17] @ ys) \<noteq> 0" for ys by simp
  then have nz: "wsum (?pre @ [0, 0] @ ?post) \<noteq> 0" by (simp add: wsum_append)
  show ?thesis
    unfolding c
  proof (rule checksum_verifies [OF _ nz small])
    show "ck = checksum_words (?pre @ [0, 0] @ ?post) \<or>
        ck = 0xFFFF \<and> checksum_words (?pre @ [0, 0] @ ?post) = 0"
      using udp_checksum_cases [of src_ip dst_ip "udp_segment src_port dst_port (8 + length payload) 0 payload",
          folded assms(2), unfolded c]
      by simp
  qed simp
qed

lemma build_udp_fails:
  "65535 < 28 + length payload \<Longrightarrow> \<exists>e. build_udp_ipv4_packet s sp d dp payload = Some (Inl e)"
  by (auto simp: build_udp_ipv4_packet_def Let_def)

lemma header_parts:
  assumes "octets src_ip = [a, b, c, d]" and "octets dst_ip = [a', b', c', d']"
    and "u16_to_be_bytes (word_of_nat n) = [x, y]" and "u16_to_be_bytes i = [j, j']"
    and "u16_to_be_bytes ck = [k, k']"
  shows "ip_header n i proto ck src_ip dst_ip =
           [0x45, 0, x, y, j, j', 0, 0, 64, proto, k, k', a, b, c, d, a', b', c', d']"
  using assms by (simp add: ip_header_def)

lemma octets_eq: "octets ip = [a, b, c, d] \<Longrightarrow> ipv4_new a b c d = ip"
  by (metis octets_inj octets_ipv4_new)

lemma ihl_45 [simp]: "ihl_of 0x45 = 20" "version_of 0x45 = 4"
  by (simp_all add: ihl_of_def version_of_def drop_bit_eq_div)

lemma udp_packet_ok:
  assumes "28 + length payload \<le> 65535"
  shows "\<exists>packet. build_udp_ipv4_packet src_ip src_port dst_ip dst_port payload = Some (Inr packet) \<and>
       parse_ipv4_udp_packet packet = Some (Inr (src_ip, dst_ip, src_port, dst_port, payload)) \<and>
       parse_packet_meta packet = Some (Inr \<lparr>pm_atype = 4, pm_protocol = Udp, pm_src_ip = src_ip,
         pm_dst_ip = dst_ip, pm_src_port = src_port, pm_dst_port = dst_port\<rparr>) \<and>
       ipv4_checksum (take 20 packet) = 0 \<and>
       checksum_words (udp_covered src_ip dst_ip (drop 20 packet)) = 0"
proof -
  obtain a b c d where s: "octets src_ip = [a, b, c, d]" using octets_cases by blast
  obtain a' b' c' d' where t: "octets dst_ip = [a', b', c', d']" using octets_cases by blast
  let ?n = "28 + length payload"
  define ick where "ick = ipv4_checksum (ip_header ?n 0 17 0 src_ip dst_ip)"
  define uck where "uck = udp_checksum src_ip dst_ip (udp_segment src_port dst_port (8 + length payload) 0 payload)"
  obtain x y where l: "u16_to_be_bytes (word_of_nat ?n) = [x, y]" by (rule u16_be_cases)
  obtain x' y' where u: "u16_to_be_bytes (word_of_nat (8 + length payload)) = [x', y']"
    "u16_from_be_bytes x' y' = word_of_nat (8 + length payload)" by (rule u16_be_cases)
  obtain p q where sp: "u16_to_be_bytes src_port = [p, q]" "u16_from_be_bytes p q = src_port" by (rule u16_be_cases)
  obtain p' q' where dp: "u16_to_be_bytes dst_port = [p', q']" "u16_from_be_bytes p' q' = dst_port" by (rule u16_be_cases)
  obtain k k' where ck: "u16_to_be_bytes ick = [k, k']" by (rule u16_be_cases)
  obtain m m' where uk: "u16_to_be_bytes uck = [m, m']" by (rule u16_be_cases)
  let ?p = "[0x45, 0, x, y, 0, 0, 0, 0, 64, 17, k, k', a, b, c, d, a', b', c', d',
     p, q, p', q', x', y', m, m'] @ payload"
  have built: "build_udp_ipv4_packet src_ip src_port dst_ip dst_port payload = Some (Inr ?p)"
    using build_udp_layout [OF assms, of src_ip src_port dst_ip dst_port, folded ick_def uck_def]
      header_parts [OF s t l u16_zero_bytes ck] sp(1) dp(1) u(1) uk
    by (simp add: udp_segment_def)
  have "unat (u16_from_be_bytes x' y') = 8 + length payload"
    using assms unfolding u(2) by (intro unat_len_u16) simp
  then have udp: "parse_ipv4_udp_packet ?p = Some (Inr (src_ip, dst_ip, src_port, dst_port, payload))"
    using s t sp dp by (simp add: parse_ipv4_udp_packet_def at_in slice_def octets_eq)
  have meta: "parse_packet_meta ?p = Some (Inr \<lparr>pm_atype = 4, pm_protocol = Udp, pm_src_ip = src_ip,
      pm_dst_ip = dst_ip, pm_src_port = src_port, pm_dst_port = dst_port\<rparr>)"
    using s t sp dp by (simp add: parse_packet_meta_def at_in octets_eq protocol_of_def)
  let ?pre = "[0x45, 0, x, y, 0, 0, 0, 0, 64, 17]" and ?post = "[a, b, c, d, a', b', c', d']"
  have "ick = checksum_words (?pre @ [0, 0] @ ?post)"
    using header_parts [OF s t l u16_zero_bytes u16_zero_bytes] by (simp add: ick_def ipv4_checksum_def)
  then have "checksum_words (?pre @ u16_to_be_bytes ick @ ?post) = 0"
    by (intro checksum_verifies) simp_all
  then have "ipv4_checksum (take 20 ?p) = 0" by (simp add: ck ipv4_checksum_def)
  moreover have "checksum_words (udp_covered src_ip dst_ip (drop 20 ?p)) = 0"
    using udp_segment_verifies [OF _ uck_def] assms sp(1) dp(1) u(1) uk by (simp add: udp_segment_def)
  ultimately show ?thesis using built udp meta by blast
qed

lemma build_udp_parses:
  assumes "build_udp_ipv4_packet src_ip src_port dst_ip dst_port payload = Some (Inr packet)"
  shows "parse_ipv4_udp_packet packet = Some (Inr (src_ip, dst_ip, src_port, dst_port, payload))"
proof (cases "28 + length payload \<le> 65535")
  case True
  with udp_packet_ok [OF this, of src_ip src_port dst_ip dst_port] assms show ?thesis by auto
next
  case False
  then have "65535 < 28 + length payload" by simp
  with build_udp_fails [of payload src_ip src_port dst_ip dst_port] assms show ?thesis by auto
qed

text \<open>
  C16. UDP datagrams survive the packet format: building the IPv4 packet of a datagram and
  parsing it gives back the addresses, ports and payload, the router sees the same
  addresses and ports, and both checksums verify (the ones' complement sum over the IP
  header, and over the pseudo-header and segment, is zero). Building fails exactly for
  payloads over 65507 bytes, and never panics.
\<close>

theorem udp_packet_roundtrip:
  "case build_udp_ipv4_packet src_ip src_port dst_ip dst_port payload of
     None \<Rightarrow> False
   | Some (Inl e) \<Rightarrow> 65507 < length payload
   | Some (Inr packet) \<Rightarrow> length payload \<le> 65507 \<and>
       parse_ipv4_udp_packet packet = Some (Inr (src_ip, dst_ip, src_port, dst_port, payload)) \<and>
       parse_packet_meta packet = Some (Inr \<lparr>pm_atype = 4, pm_protocol = Udp, pm_src_ip = src_ip,
         pm_dst_ip = dst_ip, pm_src_port = src_port, pm_dst_port = dst_port\<rparr>) \<and>
       ipv4_checksum (take 20 packet) = 0 \<and>
       checksum_words (udp_covered src_ip dst_ip (drop 20 packet)) = 0"
proof (cases "28 + length payload \<le> 65535")
  case False
  then have "65535 < 28 + length payload" by simp
  with build_udp_fails [of payload src_ip src_port dst_ip dst_port] show ?thesis by auto
next
  case True
  with udp_packet_ok [OF this, of src_ip src_port dst_ip dst_port] show ?thesis by auto
qed

lemma icmp_payload_bytes:
  "str_bytes ''reatrust keep-alive'' =
     [114, 101, 97, 116, 114, 117, 115, 116, 32, 107, 101, 101, 112, 45, 97, 108, 105, 118, 101]"
  by code_simp

definition icmp_segment :: "u16 \<Rightarrow> u16 \<Rightarrow> bytes" where
  "icmp_segment ck sequence =
     [8, 0] @ u16_to_be_bytes ck @ u16_to_be_bytes 0x5241 @ u16_to_be_bytes sequence @
     str_bytes ''reatrust keep-alive''"

lemma replicate_47: "replicate (20 + (8 + 19)) (0 :: u8) =
    [0,0,0,0,0,0,0,0,0,0,0,0,0,0,0,0,0,0,0,0,0,0,0,0,0,0,0,0,0,0,0,0,0,0,0,0,0,0,0,0,0,0,0,0,0,0,0]"
  by (simp add: eval_nat_numeral)

lemma build_icmp_layout:
  "build_icmp_echo_packet src_ip dst_ip sequence =
     Some (ip_header 47 sequence 1 (ipv4_checksum (ip_header 47 sequence 1 0 src_ip dst_ip)) src_ip dst_ip @
       icmp_segment (ipv4_checksum (icmp_segment 0 sequence)) sequence)"
proof -
  obtain a b c d where s: "octets src_ip = [a, b, c, d]" using octets_cases by blast
  obtain a' b' c' d' where t: "octets dst_ip = [a', b', c', d']" using octets_cases by blast
  obtain x y where l: "u16_to_be_bytes 47 = [x, y]" by (rule u16_be_cases)
  obtain p q where sq: "u16_to_be_bytes sequence = [p, q]" by (rule u16_be_cases)
  obtain v w where id: "u16_to_be_bytes 0x5241 = [v, w]" by (rule u16_be_cases)
  define ick where "ick = ipv4_checksum (ip_header 47 sequence 1 0 src_ip dst_ip)"
  obtain k k' where ck: "u16_to_be_bytes ick = [k, k']" by (rule u16_be_cases)
  define mck where "mck = ipv4_checksum (icmp_segment 0 sequence)"
  obtain m m' where mk: "u16_to_be_bytes mck = [m, m']" by (rule u16_be_cases)
  have i: "ick = ipv4_checksum [0x45, 0, x, y, p, q, 0, 0, 64, 1, 0, 0, a, b, c, d, a', b', c', d']"
    by (simp add: ick_def ip_header_def s t l sq)
  have j: "mck = ipv4_checksum ([8, 0, 0, 0, v, w, p, q] @ str_bytes ''reatrust keep-alive'')"
    by (simp add: mck_def icmp_segment_def sq id)
  have n: "length (str_bytes ''reatrust keep-alive'') = 19" by simp
  show ?thesis
    unfolding build_icmp_echo_packet_def Let_def n replicate_47 ick_def [symmetric] mck_def [symmetric]
    by (simp add: set_at_take put_take slice_def s t l sq id ck mk i [symmetric] j [symmetric, simplified icmp_payload_bytes, simplified]
        ip_header_def icmp_segment_def icmp_payload_bytes)
qed

text \<open>
  The keep-alive ping is a well-formed ICMP echo request: building it never panics,
  the router sees an ICMP packet with the given addresses, and the checksums of the IP
  header and of the ICMP message verify, for every sequence number.
\<close>

theorem icmp_packet_wellformed:
  "\<exists>packet. build_icmp_echo_packet src_ip dst_ip sequence = Some packet \<and> length packet = 47 \<and>
     parse_packet_meta packet = Some (Inr \<lparr>pm_atype = 4, pm_protocol = Icmp, pm_src_ip = src_ip,
       pm_dst_ip = dst_ip, pm_src_port = 0, pm_dst_port = 0\<rparr>) \<and>
     ipv4_checksum (take 20 packet) = 0 \<and> checksum_words (drop 20 packet) = 0"
proof -
  define ick where "ick = ipv4_checksum (ip_header 47 sequence 1 0 src_ip dst_ip)"
  define mck where "mck = ipv4_checksum (icmp_segment 0 sequence)"
  obtain a b c d where s: "octets src_ip = [a, b, c, d]" using octets_cases by blast
  obtain a' b' c' d' where t: "octets dst_ip = [a', b', c', d']" using octets_cases by blast
  obtain x y where l: "u16_to_be_bytes (word_of_nat 47) = [x, y]" by (rule u16_be_cases)
  obtain p q where sq: "u16_to_be_bytes sequence = [p, q]" by (rule u16_be_cases)
  obtain k k' where ck: "u16_to_be_bytes ick = [k, k']" by (rule u16_be_cases)
  let ?p = "ip_header 47 sequence 1 ick src_ip dst_ip @ icmp_segment mck sequence"
  note h = header_parts [OF s t l sq]
  let ?pre = "[0x45, 0, x, y, p, q, 0, 0, 64, 1]" and ?post = "[a, b, c, d, a', b', c', d']"
  have "ick = checksum_words (?pre @ [0, 0] @ ?post)"
    using h [OF u16_zero_bytes] by (simp add: ick_def ipv4_checksum_def)
  then have "checksum_words (?pre @ u16_to_be_bytes ick @ ?post) = 0"
    by (intro checksum_verifies) simp_all
  then have ip: "ipv4_checksum (take 20 ?p) = 0" using h [OF ck] by (simp add: ck ipv4_checksum_def)
  let ?tail = "u16_to_be_bytes 0x5241 @ u16_to_be_bytes sequence @ str_bytes ''reatrust keep-alive''"
  have "mck = checksum_words ([8, 0] @ [0, 0] @ ?tail)"
    by (simp add: mck_def icmp_segment_def ipv4_checksum_def)
  then have "checksum_words ([8, 0] @ u16_to_be_bytes mck @ ?tail) = 0"
    by (intro checksum_verifies) simp_all
  then have icmp: "checksum_words (drop 20 ?p) = 0" by (simp add: icmp_segment_def)
  have "parse_packet_meta ?p = Some (Inr \<lparr>pm_atype = 4, pm_protocol = Icmp, pm_src_ip = src_ip,
      pm_dst_ip = dst_ip, pm_src_port = 0, pm_dst_port = 0\<rparr>)"
    using h [OF ck] s t by (simp add: parse_packet_meta_def at_in octets_eq protocol_of_def)
  moreover have "length ?p = 47" by (simp add: icmp_segment_def)
  ultimately show ?thesis
    using build_icmp_layout [of src_ip dst_ip sequence, folded ick_def mck_def] ip icmp by blast
qed

text \<open>
  Connection tracking keys identify a flow up to its protocol: two packets have the same
  key exactly when version, addresses and ports agree. In particular a TCP and a UDP flow
  between the same endpoints share one key, and so one authorisation and token.
\<close>

theorem conn_track_key_eq:
  "conn_track_key m = conn_track_key m' \<longleftrightarrow> m\<lparr>pm_protocol := Tcp\<rparr> = m'\<lparr>pm_protocol := Tcp\<rparr>"
proof -
  have "conn_track_key m = conn_track_key m' \<longleftrightarrow>
     pm_atype m = pm_atype m' \<and> pm_src_ip m = pm_src_ip m' \<and> pm_src_port m = pm_src_port m' \<and>
     pm_dst_ip m = pm_dst_ip m' \<and> pm_dst_port m = pm_dst_port m'"
    by (simp add: conn_track_key_def sep_inject nat_str_punct show_ipv4_punct nat_str_inj show_ipv4_inj
        word_unat_eq_iff)
  also have "\<dots> \<longleftrightarrow> m\<lparr>pm_protocol := Tcp\<rparr> = m'\<lparr>pm_protocol := Tcp\<rparr>"
    by (cases m; cases m') auto
  finally show ?thesis .
qed

end
