(* ===== verification/L3_Remote.thy ===== *)
theory L3_Remote
  imports Tcp_Tunnel Packets
begin

text \<open>
  One connection of the layer-3 tunnel to a node (transport.rs): reading its frames,
  connection tracking and authorisation of flows, the command queue, liveness, and the I/O
  worker. The JSON coding of the requests and responses is a parameter. Time is in
  milliseconds; conntracks live in a store, because the two maps of the manager share them.
\<close>

section \<open>Frames\<close>

record Frame =
  fr_cmd :: u8
  fr_status :: u8
  fr_payload :: bytes
  fr_data_mode :: DataMode

text \<open>The packets of a token-framed payload: \<open>k\<close> still to read.\<close>

fun read_token_packets :: "nat \<Rightarrow> bytes \<Rightarrow> bytes io" where
  "read_token_packets 0 payload = io_return payload"
| "read_token_packets (Suc k) payload =
     io_bind (read_tunnel_exact_blocking 2) (\<lambda>l.
     let plen = unat (u16_from_be_bytes (l ! 0) (l ! 1)) in
     if 0 < plen then
       io_bind (read_tunnel_exact_blocking plen) (\<lambda>pkt. read_token_packets k (payload @ l @ pkt))
     else read_token_packets k (payload @ l))"

definition read_data_resp_payload :: "(bytes \<times> DataMode) io" where
  "read_data_resp_payload =
     io_bind (read_tunnel_exact_blocking 2) (\<lambda>peek.
     let payload_len = unat (u16_from_be_bytes (peek ! 0) (peek ! 1)) in
     if 0 < payload_len \<and> payload_len \<le> 4096 then
       io_bind (read_tunnel_exact_blocking payload_len) (\<lambda>payload. io_return (payload, Len))
     else
       io_bind (if 0 < unat (peek ! 0) then read_tunnel_exact_blocking (unat (peek ! 0)) else io_return []) (\<lambda>token.
       io_bind (read_tunnel_exact_blocking 2) (\<lambda>reserved.
       io_bind (read_tunnel_exact_blocking 1) (\<lambda>count.
       io_bind (read_token_packets (unat (count ! 0)) ([peek ! 0] @ token @ reserved @ count)) (\<lambda>payload.
       io_return (payload, Token))))))"

definition read_len_payload_opt :: "bytes io" where
  "read_len_payload_opt =
     io_bind (read_tunnel_exact_blocking 2) (\<lambda>l.
     let len = unat (u16_from_be_bytes (l ! 0) (l ! 1)) in
     if 0 < len then read_tunnel_exact_blocking len else io_return [])"

text \<open>The match on a frame header: \<open>None\<close> is \<open>continue\<close>.\<close>

definition l3_frame_body :: "bytes \<Rightarrow> Frame option io" where
  "l3_frame_body header =
     (if header ! 0 = 0x05 \<and> (header ! 1 = 0x93 \<or> header ! 1 = 0x96) then
        io_bind (read_tunnel_exact_blocking 3) (\<lambda>sl.
        let len = unat (u16_from_be_bytes (sl ! 1) (sl ! 2)) in
        io_bind (if 0 < len then read_tunnel_exact_blocking len else io_return []) (\<lambda>payload.
        io_return (Some \<lparr>fr_cmd = header ! 1, fr_status = sl ! 0, fr_payload = payload, fr_data_mode = Len\<rparr>)))
      else if header = [0x05, 0x94] then
        io_bind read_data_resp_payload (\<lambda>(payload, mode).
        io_return (Some \<lparr>fr_cmd = 0x94, fr_status = 0, fr_payload = payload, fr_data_mode = mode\<rparr>))
      else if header ! 0 = 0x05 then
        io_bind read_len_payload_opt (\<lambda>payload.
        io_return (Some \<lparr>fr_cmd = header ! 1, fr_status = 0, fr_payload = payload, fr_data_mode = Len\<rparr>))
      else if header = [0x53, 0x00] then
        io_bind read_len_payload_opt (\<lambda>_. io_return None)
      else
        io_err (ParseFailed (''unexpected frame header '' @ hex2 (header ! 0) @ '' '' @ hex2 (header ! 1))))"

lemma shrinks_read_token_packets [shrinks_intros]: "shrinks (read_token_packets k payload)"
  by (induction k arbitrary: payload) (auto simp: Let_def intro!: shrinks_intros)

lemma shrinks_l3_frame_body [shrinks_intros]: "shrinks (l3_frame_body header)"
  unfolding l3_frame_body_def read_data_resp_payload_def read_len_payload_opt_def Let_def
  by (intro shrinks_intros) (auto intro!: shrinks_intros)

function read_l3_frame_available :: "Frame option io" where
  "read_l3_frame_available c =
     (case read_tunnel_exact 2 c of
        None \<Rightarrow> None
      | Some (Inl e, c') \<Rightarrow> Some (Inl e, c')
      | Some (Inr None, c') \<Rightarrow> Some (Inr None, c')
      | Some (Inr (Some header), c') \<Rightarrow>
          (case l3_frame_body header c' of
             None \<Rightarrow> None
           | Some (Inl e, c'') \<Rightarrow> Some (Inl e, c'')
           | Some (Inr (Some frame), c'') \<Rightarrow> Some (Inr (Some frame), c'')
           | Some (Inr None, c'') \<Rightarrow> read_l3_frame_available c''))"
  by pat_completeness auto
termination
  by (relation "measure (\<lambda>c. rx_size (rx c))")
    (auto dest!: read_tunnel_exact_less shrinksD [OF shrinks_l3_frame_body])

lemmas [simp del] = read_l3_frame_available.simps

section \<open>Connection tracking\<close>

record Conntrack =
  auth_id :: u64
  connect_token :: "string option"
  ct_app_id :: string
  auth_started :: bool
  auth_result :: "(AtrError + unit) option"

record ConntrackMgr =
  next_auth_id :: u64
  objs :: "Conntrack list"
  by_key :: "(string, nat) hmap"
  by_id :: "(u64, nat) hmap"

definition mgr_new :: ConntrackMgr where
  "mgr_new = \<lparr>next_auth_id = 0, objs = [], by_key = [], by_id = []\<rparr>"

text \<open>
  \<open>get_or_create\<close> looks the key up, takes a new id, and enters the new conntrack first under its key and then under its id; the
  lock of a map is held for one of these steps only. \<open>get_or_create\<close> is the call that runs through them undisturbed, and the steps
  are definitions of their own so that calls of other threads can be put in between.
\<close>

definition new_conntrack :: "string \<Rightarrow> ConntrackMgr \<Rightarrow> nat \<times> ConntrackMgr" where
  "new_conntrack aid m =
     (let ident = next_auth_id m + 1;
          ct = \<lparr>auth_id = ident, connect_token = None, ct_app_id = aid, auth_started = False, auth_result = None\<rparr>
      in (length (objs m), m\<lparr>next_auth_id := ident, objs := objs m @ [ct]\<rparr>))"

definition register_key :: "string \<Rightarrow> nat \<Rightarrow> ConntrackMgr \<Rightarrow> ConntrackMgr" where
  "register_key key h m = m\<lparr>by_key := hm_insert key h (by_key m)\<rparr>"

definition register_id :: "nat \<Rightarrow> ConntrackMgr \<Rightarrow> ConntrackMgr" where
  "register_id h m = m\<lparr>by_id := hm_insert (auth_id (objs m ! h)) h (by_id m)\<rparr>"

definition get_or_create :: "string \<Rightarrow> string \<Rightarrow> ConntrackMgr \<Rightarrow> nat \<times> ConntrackMgr" where
  "get_or_create key aid m =
     (case hm_get (by_key m) key of
        Some h \<Rightarrow> (h, m)
      | None \<Rightarrow>
          (case new_conntrack aid m of (h, m1) \<Rightarrow>
             (h, register_id h (register_key key h m1))))"

definition lookup_id :: "u64 \<Rightarrow> ConntrackMgr \<Rightarrow> nat option" where
  "lookup_id ident m = hm_get (by_id m) ident"

definition fail_one :: "AtrError \<Rightarrow> nat \<Rightarrow> ConntrackMgr \<Rightarrow> ConntrackMgr" where
  "fail_one e h m =
     (if auth_result (objs m ! h) = None
      then m\<lparr>objs := (objs m)[h := (objs m ! h)\<lparr>auth_result := Some (Inl e)\<rparr>]\<rparr> else m)"

definition fail_pending :: "AtrError \<Rightarrow> ConntrackMgr \<Rightarrow> ConntrackMgr" where
  "fail_pending e m = fold (fail_one e) (hm_values (by_id m)) m"

record AuthResponseIp =
  resp_code :: int
  resp_message :: string
  resp_conntrack_hash :: u64
  resp_connect_token :: string
  resp_token :: string

definition response_token :: "AuthResponseIp \<Rightarrow> string" where
  "response_token resp =
     (if trim (resp_connect_token resp) \<noteq> [] then trim (resp_connect_token resp)
      else trim (resp_token resp))"

definition handle_auth_resp ::
  "(bytes \<Rightarrow> string + AuthResponseIp) \<Rightarrow> u8 \<Rightarrow> bytes \<Rightarrow> ConntrackMgr \<Rightarrow> (AtrError + unit) \<times> ConntrackMgr" where
  "handle_auth_resp from_slice status payload m =
     (if status \<noteq> 0 then (Inr (), m)
      else case from_slice payload of
        Inl text \<Rightarrow> (Inl (from_serde_error text), m)
      | Inr resp \<Rightarrow>
          (case lookup_id (resp_conntrack_hash resp) m of
             None \<Rightarrow> (Inl (NotFound ''conntrack missing''), m)
           | Some h \<Rightarrow>
               (let token = response_token resp;
                    ct = objs m ! h in
                if resp_code resp = 0 \<and> token \<noteq> [] then
                  (Inr (), m\<lparr>objs := (objs m)[h := ct\<lparr>connect_token := Some token, auth_result := Some (Inr ())\<rparr>]\<rparr>)
                else
                  (let err = Unauthorized (''auth failed: '' @ int_str (resp_code resp) @ '' '' @ resp_message resp)
                   in (Inl err, m\<lparr>objs := (objs m)[h := ct\<lparr>auth_result := Some (Inl err)\<rparr>]\<rparr>)))))"

section \<open>Liveness\<close>

record L3Liveness =
  last_frame_at :: nat
  heartbeat_acknowledged :: bool

definition liveness_new :: "nat \<Rightarrow> L3Liveness" where
  "liveness_new now = \<lparr>last_frame_at = now, heartbeat_acknowledged = False\<rparr>"

definition record_frame :: "u8 \<Rightarrow> nat \<Rightarrow> L3Liveness \<Rightarrow> L3Liveness" where
  "record_frame cmd now l =
     (let l1 = l\<lparr>last_frame_at := now\<rparr>
      in if cmd = 0x95 then l1\<lparr>heartbeat_acknowledged := True\<rparr> else l1)"

definition is_stale :: "nat \<Rightarrow> L3Liveness \<Rightarrow> bool" where
  "is_stale now l = (heartbeat_acknowledged l \<and> 80000 \<le> now - last_frame_at l)"

section \<open>The I/O worker\<close>

datatype L3RemoteCommand = L3Write bytes | L3Close

text \<open>\<open>drain_l3_remote_commands\<close>: whether to go on, and the commands left in the queue.\<close>

fun drain_l3_remote_commands :: "L3RemoteCommand list \<Rightarrow> (bool \<times> L3RemoteCommand list) io" where
  "drain_l3_remote_commands [] = io_bind flush (\<lambda>_. io_return (True, []))"
| "drain_l3_remote_commands (L3Write payload # q) =
     io_bind (write_all payload) (\<lambda>_. drain_l3_remote_commands q)"
| "drain_l3_remote_commands (L3Close # q) = io_return (False, q)"

record l3_worker =
  lw_conn :: conn
  lw_queue :: "L3RemoteCommand list"
  lw_incoming :: "bytes list"
  lw_receiver :: bool
  lw_mgr :: ConntrackMgr
  lw_vips :: "Ipv4Addr list"
  lw_live :: L3Liveness
  lw_next_heartbeat :: nat
  lw_continue :: bool
  lw_closed :: bool

text \<open>Sending decoded packets to the reader stops when its end of the channel is gone.\<close>

definition deliver :: "bytes list \<Rightarrow> l3_worker \<Rightarrow> (AtrError + unit) \<times> l3_worker" where
  "deliver packets w =
     (if packets = [] \<or> lw_receiver w then (Inr (), w\<lparr>lw_incoming := lw_incoming w @ packets\<rparr>)
      else (Inl (NetworkFailed ''l3 packet receiver stopped''), w))"

text \<open>
  \<open>handle_l3_remote_frame\<close>; the outer \<open>None\<close> is a panic of a decoder. Decoding and
  authorisation errors are only logged.
\<close>

definition handle_l3_remote_frame ::
  "(bytes \<Rightarrow> string + AuthResponseIp) \<Rightarrow> Frame \<Rightarrow> l3_worker \<Rightarrow> ((AtrError + unit) \<times> l3_worker) option" where
  "handle_l3_remote_frame from_slice frame w =
     (if fr_cmd frame = 0x94 then do {
        decoded \<leftarrow> decode_l3_data_payload (fr_payload frame) (fr_data_mode frame);
        (case decoded of
           Inr packets \<Rightarrow> Some (deliver packets w)
         | Inl _ \<Rightarrow> Some (Inr (), w))
      }
      else if fr_cmd frame = 0x93 then
        Some (Inr (), w\<lparr>lw_mgr := snd (handle_auth_resp from_slice (fr_status frame) (fr_payload frame) (lw_mgr w))\<rparr>)
      else if fr_cmd frame = 0x95 then Some (Inr (), w)
      else if fr_cmd frame = 0x96 then do {
        ips \<leftarrow> parse_virtual_ip_bytes (fr_payload frame);
        Some (Inr (), case ips of Some v \<Rightarrow> w\<lparr>lw_vips := v\<rparr> | None \<Rightarrow> w)
      }
      else Some (Inr (), w))"

text \<open>
  \<open>drain_l3_remote_frames\<close> with a limit on the frames of one batch: \<open>True\<close> when the limit
  was reached. \<open>None\<close>: still waiting in the middle of a frame. The read timeout of a millisecond, under which an idle
  stream answers with an error that is only temporary, is set and cleared without failing.
\<close>

fun drain_l3_remote_frames ::
  "(bytes \<Rightarrow> string + AuthResponseIp) \<Rightarrow> nat \<Rightarrow> nat \<Rightarrow> l3_worker \<Rightarrow> ((AtrError + bool) \<times> l3_worker) option" where
  "drain_l3_remote_frames from_slice now 0 w = Some (Inr True, w)"
| "drain_l3_remote_frames from_slice now (Suc k) w =
     (case read_l3_frame_available (lw_conn w) of
        None \<Rightarrow> None
      | Some (Inl e, c) \<Rightarrow> Some (Inl e, w\<lparr>lw_conn := c\<rparr>)
      | Some (Inr None, c) \<Rightarrow> Some (Inr False, w\<lparr>lw_conn := c\<rparr>)
      | Some (Inr (Some frame), c) \<Rightarrow>
          (case handle_l3_remote_frame from_slice frame
                  (w\<lparr>lw_conn := c, lw_live := record_frame (fr_cmd frame) now (lw_live w)\<rparr>) of
             None \<Rightarrow> None
           | Some (Inl e, w') \<Rightarrow> Some (Inl e, w')
           | Some (Inr _, w') \<Rightarrow> drain_l3_remote_frames from_slice now k w'))"

definition l3_commands :: "l3_worker \<Rightarrow> ((AtrError + bool) \<times> l3_worker) option" where
  "l3_commands w =
     (case drain_l3_remote_commands (lw_queue w) (lw_conn w) of
        None \<Rightarrow> None
      | Some (Inl e, c) \<Rightarrow> Some (Inl e, w\<lparr>lw_conn := c\<rparr>)
      | Some (Inr (go, left), c) \<Rightarrow> Some (Inr go, w\<lparr>lw_conn := c, lw_queue := left\<rparr>))"

text \<open>The heartbeat that is due is sent, and the next one scheduled 25 seconds later.\<close>

definition l3_heartbeat :: "nat \<Rightarrow> nat \<Rightarrow> l3_worker \<Rightarrow> ((AtrError + unit) \<times> l3_worker) option" where
  "l3_heartbeat now later w =
     (if lw_next_heartbeat w \<le> now then
        (case io_bind (write_all [0x05, 0x15, 0x00, 0x00]) (\<lambda>_. flush) (lw_conn w) of
           None \<Rightarrow> None
         | Some (Inl e, c) \<Rightarrow> Some (Inl e, w\<lparr>lw_conn := c\<rparr>)
         | Some (Inr _, c) \<Rightarrow> Some (Inr (), w\<lparr>lw_conn := c, lw_next_heartbeat := later + 25000\<rparr>))
      else Some (Inr (), w))"

text \<open>
  One round of \<open>run_l3_remote_worker_inner\<close>. The environment supplies the clock readings of
  the round, and what arrives: queued commands, socket data, the flows that callers look up or create meanwhile (key and
  application), and the outcome of the wait.
\<close>

record l3_round =
  now_heartbeat :: nat
  now_next :: nat
  now_stale :: nat
  now_frames :: nat
  arrived_commands :: "L3RemoteCommand list"
  arrived_rx :: "rx_event list"
  arrived_flows :: "(string \<times> string) list"
  waited :: "AtrError + bool \<times> bool"

datatype l3_outcome = Continue | Stop "AtrError + unit"

definition l3_unresponsive :: AtrError where
  "l3_unresponsive = NetworkFailed ''l3 remote unresponsive for 80s''"

definition l3_read_batch ::
  "(bytes \<Rightarrow> string + AuthResponseIp) \<Rightarrow> nat \<Rightarrow> l3_worker \<Rightarrow> (l3_outcome \<times> l3_worker) option" where
  "l3_read_batch from_slice now w =
     (case drain_l3_remote_frames from_slice now 32 w of
        None \<Rightarrow> None
      | Some (Inl e, w') \<Rightarrow> Some (Stop (Inl e), w')
      | Some (Inr again, w') \<Rightarrow> Some (Continue, w'\<lparr>lw_continue := again\<rparr>))"

definition l3_arrive :: "l3_round \<Rightarrow> l3_worker \<Rightarrow> l3_worker" where
  "l3_arrive r w =
     w\<lparr>lw_queue := lw_queue w @ arrived_commands r, lw_conn := (lw_conn w)\<lparr>rx := rx (lw_conn w) @ arrived_rx r\<rparr>,
       lw_mgr := fold (\<lambda>(key, aid) m. snd (get_or_create key aid m)) (arrived_flows r) (lw_mgr w)\<rparr>"

definition l3_wait ::
  "(bytes \<Rightarrow> string + AuthResponseIp) \<Rightarrow> l3_round \<Rightarrow> l3_worker \<Rightarrow> (l3_outcome \<times> l3_worker) option" where
  "l3_wait from_slice r w =
     (case waited r of
        Inl e \<Rightarrow> Some (Stop (Inl e), l3_arrive r w)
      | Inr (socket_readable, wake_readable) \<Rightarrow>
          (case (if wake_readable then l3_commands (l3_arrive r w) else Some (Inr True, l3_arrive r w)) of
             None \<Rightarrow> None
           | Some (Inl e, w') \<Rightarrow> Some (Stop (Inl e), w')
           | Some (Inr False, w') \<Rightarrow> Some (Stop (Inr ()), w')
           | Some (Inr True, w') \<Rightarrow>
               if socket_readable then l3_read_batch from_slice (now_frames r) w' else Some (Continue, w')))"

definition l3_round_step ::
  "(bytes \<Rightarrow> string + AuthResponseIp) \<Rightarrow> l3_round \<Rightarrow> l3_worker \<Rightarrow> (l3_outcome \<times> l3_worker) option" where
  "l3_round_step from_slice r w =
     (case l3_commands w of
        None \<Rightarrow> None
      | Some (Inl e, w1) \<Rightarrow> Some (Stop (Inl e), w1)
      | Some (Inr False, w1) \<Rightarrow> Some (Stop (Inr ()), w1)
      | Some (Inr True, w1) \<Rightarrow>
          (case l3_heartbeat (now_heartbeat r) (now_next r) w1 of
             None \<Rightarrow> None
           | Some (Inl e, w2) \<Rightarrow> Some (Stop (Inl e), w2)
           | Some (Inr _, w2) \<Rightarrow>
               if is_stale (now_stale r) (lw_live w2) then Some (Stop (Inl l3_unresponsive), w2)
               else if lw_continue w2 then l3_read_batch from_slice (now_frames r) w2
               else l3_wait from_slice r w2))"

fun run_l3_remote_worker_inner ::
  "(bytes \<Rightarrow> string + AuthResponseIp) \<Rightarrow> l3_round list \<Rightarrow> l3_worker \<Rightarrow> (l3_outcome \<times> l3_worker) option" where
  "run_l3_remote_worker_inner from_slice [] w = Some (Continue, w)"
| "run_l3_remote_worker_inner from_slice (r # rs) w =
     (case l3_round_step from_slice r w of
        None \<Rightarrow> None
      | Some (Stop res, w') \<Rightarrow> Some (Stop res, w')
      | Some (Continue, w') \<Rightarrow> run_l3_remote_worker_inner from_slice rs w')"

text \<open>
  \<open>run_l3_remote_worker\<close>: when the inner loop ends, the close flag is set, every waiting
  flow is failed and the socket shut down. The three are one step here; a flow that is created behind them finds the close flag set
  when it sends its request (\<open>enqueue_payload\<close>).
\<close>

definition l3_finish :: "AtrError + unit \<Rightarrow> l3_worker \<Rightarrow> l3_worker" where
  "l3_finish res w =
     (let failure = (case res of Inr _ \<Rightarrow> NetworkFailed ''l3 remote closed'' | Inl e \<Rightarrow> e)
      in w\<lparr>lw_closed := True, lw_mgr := fail_pending failure (lw_mgr w), lw_conn := shutdown (lw_conn w)\<rparr>)"

definition run_l3_remote_worker ::
  "(bytes \<Rightarrow> string + AuthResponseIp) \<Rightarrow> l3_round list \<Rightarrow> l3_worker \<Rightarrow> (bool \<times> l3_worker) option" where
  "run_l3_remote_worker from_slice rounds w =
     (case run_l3_remote_worker_inner from_slice rounds w of
        None \<Rightarrow> None
      | Some (Continue, w') \<Rightarrow> Some (False, w')
      | Some (Stop res, w') \<Rightarrow> Some (True, l3_finish res w'))"

section \<open>The remote handle\<close>

record L3ClientInfo =
  ci_sid :: string
  ci_device_id :: string
  ci_connection_id :: string

record TrustProcess =
  tp_name :: string
  tp_digital_signature :: string
  tp_platform :: string
  tp_fingerprint :: string
  tp_description :: string
  tp_path :: string
  tp_version :: string
  tp_security_env :: string

record TrustRuntime =
  tr_process :: TrustProcess
  tr_process_trusted :: string

record TrustApp =
  ta_runtime :: TrustRuntime

record TrustEnv =
  te_application :: TrustApp

definition process_fingerprint :: "TrustEnv \<Rightarrow> string" where
  "process_fingerprint env = tp_fingerprint (tr_process (ta_runtime (te_application env)))"

definition default_env :: "(bytes \<Rightarrow> bytes) \<Rightarrow> string \<Rightarrow> TrustEnv" where
  "default_env sha256 os =
     (let path = ''/usr/bin/zju-connect'';
          fingerprint = concat (map hex2_upper (sha256 (str_bytes path)))
      in \<lparr>te_application = \<lparr>ta_runtime =
           \<lparr>tr_process =
              \<lparr>tp_name = ''zju-connect'', tp_digital_signature = ''TrustAppClosed'',
               tp_platform = default_platform_name os, tp_fingerprint = fingerprint,
               tp_description = ''TrustAppClosed'', tp_path = path, tp_version = ''TrustAppClosed'',
               tp_security_env = ''normal''\<rparr>,
            tr_process_trusted = ''TRUSTED''\<rparr>\<rparr>\<rparr>)"

record AuthIp =
  ai_atype :: int
  ai_protocol :: int
  ai_dest_addr :: string
  ai_dest_port :: u16
  ai_src_addr :: string
  ai_src_port :: u16

record AuthRequestIp =
  ar_sid :: string
  ar_app_id :: string
  ar_url :: string
  ar_device_id :: string
  ar_connection_id :: string
  ar_env :: "TrustEnv option"
  ar_conntrack_hash :: u64
  ar_lang :: string
  ar_ip :: AuthIp
  ar_domain :: string
  ar_proc_hash :: string
  ar_x_request_sig :: string

text \<open>\<open>to_vec\<close> is the JSON encoder, \<open>sign\<close> the request signature, \<open>lang\<close> the language tag.\<close>

definition build_auth_request ::
  "(AuthRequestIp \<Rightarrow> string + bytes) \<Rightarrow> (bytes \<Rightarrow> string) \<Rightarrow> TrustEnv \<Rightarrow> string \<Rightarrow> L3ClientInfo \<Rightarrow>
   PacketMeta \<Rightarrow> Conntrack \<Rightarrow> AtrError + bytes" where
  "build_auth_request to_vec sign env lang info meta ct =
     (let req = \<lparr>ar_sid = ci_sid info, ar_app_id = ct_app_id ct,
            ar_url = proto_name (pm_protocol meta) @ '':'' @ show_ipv4 (pm_dst_ip meta) @ '':'' @
              nat_str (unat (pm_dst_port meta)),
            ar_device_id = ci_device_id info, ar_connection_id = ci_connection_id info, ar_env = Some env,
            ar_conntrack_hash = auth_id ct, ar_lang = lang,
            ar_ip = \<lparr>ai_atype = auth_ip_type (pm_atype meta), ai_protocol = protocol_number (pm_protocol meta),
              ai_dest_addr = show_ipv4 (pm_dst_ip meta), ai_dest_port = pm_dst_port meta,
              ai_src_addr = show_ipv4 (pm_src_ip meta), ai_src_port = pm_src_port meta\<rparr>,
            ar_domain = [], ar_proc_hash = process_fingerprint env, ar_x_request_sig = []\<rparr>
      in case to_vec req of
           Inl text \<Rightarrow> Inl (from_serde_error text)
         | Inr body \<Rightarrow>
             (case to_vec (req\<lparr>ar_x_request_sig := sign body\<rparr>) of
                Inl text \<Rightarrow> Inl (from_serde_error text)
              | Inr final \<Rightarrow> Inr final))"

record L3Remote =
  rm_queue :: "L3RemoteCommand list"
  rm_worker_alive :: bool
  rm_closed :: bool
  rm_mgr :: ConntrackMgr

definition enqueue_payload :: "bytes \<Rightarrow> L3Remote \<Rightarrow> (AtrError + unit) \<times> L3Remote" where
  "enqueue_payload payload r =
     (if rm_closed r then (Inl (NetworkFailed ''l3 remote closed''), r)
      else if \<not> rm_worker_alive r then (Inl (NetworkFailed ''l3 I/O worker stopped''), r)
      else (Inr (), r\<lparr>rm_queue := rm_queue r @ [L3Write payload]\<rparr>))"

definition send_heartbeat :: "L3Remote \<Rightarrow> (AtrError + unit) \<times> L3Remote" where
  "send_heartbeat r = enqueue_payload [0x05, 0x15, 0x00, 0x00] r"

definition send_auth_request ::
  "(PacketMeta \<Rightarrow> Conntrack \<Rightarrow> AtrError + bytes) \<Rightarrow> nat \<Rightarrow> PacketMeta \<Rightarrow> L3Remote \<Rightarrow>
   (AtrError + unit) \<times> L3Remote" where
  "send_auth_request build h meta r =
     (case bindR (build meta (objs (rm_mgr r) ! h)) build_l3_auth_request_payload of
        Inl e \<Rightarrow> (Inl e, r)
      | Inr packet \<Rightarrow> enqueue_payload packet r)"

definition auth_timeout :: "Conntrack \<Rightarrow> AtrError" where
  "auth_timeout ct = NetworkFailed (''l3 auth timeout for conntrack='' @ nat_str (unat (auth_id ct)))"

text \<open>
  \<open>ensure_auth\<close>: the first caller for a flow sends the request; every caller then waits up
  to eight seconds. \<open>meanwhile\<close> is what the worker and other callers do to the remote
  during that wait.
\<close>

definition mark_started :: "nat \<Rightarrow> L3Remote \<Rightarrow> L3Remote" where
  "mark_started h r =
     r\<lparr>rm_mgr := (rm_mgr r)\<lparr>objs := (objs (rm_mgr r))[h := (objs (rm_mgr r) ! h)\<lparr>auth_started := True\<rparr>]\<rparr>\<rparr>"

definition wait_auth :: "(L3Remote \<Rightarrow> L3Remote) \<Rightarrow> nat \<Rightarrow> L3Remote \<Rightarrow> (AtrError + unit) \<times> L3Remote" where
  "wait_auth meanwhile h r =
     (case auth_result (objs (rm_mgr r) ! h) of
        Some res \<Rightarrow> (res, r)
      | None \<Rightarrow>
          (let r' = meanwhile r in
           case auth_result (objs (rm_mgr r') ! h) of
             Some res \<Rightarrow> (res, r')
           | None \<Rightarrow> (Inl (auth_timeout (objs (rm_mgr r') ! h)), r')))"

definition ensure_auth ::
  "(PacketMeta \<Rightarrow> Conntrack \<Rightarrow> AtrError + bytes) \<Rightarrow> (L3Remote \<Rightarrow> L3Remote) \<Rightarrow> nat \<Rightarrow> PacketMeta \<Rightarrow>
   L3Remote \<Rightarrow> (AtrError + unit) \<times> L3Remote" where
  "ensure_auth build meanwhile h meta r =
     (case auth_result (objs (rm_mgr r) ! h) of
        Some res \<Rightarrow> (res, r)
      | None \<Rightarrow>
          if auth_started (objs (rm_mgr r) ! h) then wait_auth meanwhile h r
          else
            (case send_auth_request build h meta (mark_started h r) of
               (Inl e, r') \<Rightarrow> (Inl e, r')
             | (Inr _, r') \<Rightarrow> wait_auth meanwhile h r'))"

definition remote_write_packet ::
  "(PacketMeta \<Rightarrow> Conntrack \<Rightarrow> AtrError + bytes) \<Rightarrow> (L3Remote \<Rightarrow> L3Remote) \<Rightarrow> PacketMeta \<Rightarrow> string \<Rightarrow>
   bytes \<Rightarrow> L3Remote \<Rightarrow> (AtrError + unit) \<times> L3Remote" where
  "remote_write_packet build meanwhile meta aid pkt r =
     (case get_or_create (conn_track_key meta) aid (rm_mgr r) of
        (h, mgr) \<Rightarrow>
          (case ensure_auth build meanwhile h meta (r\<lparr>rm_mgr := mgr\<rparr>) of
             (Inl e, r') \<Rightarrow> (Inl e, r')
           | (Inr _, r') \<Rightarrow>
               (case connect_token (objs (rm_mgr r') ! h) of
                  None \<Rightarrow> (Inl (InvalidState ''missing connect token''), r')
                | Some token \<Rightarrow> enqueue_payload (build_data_payload token [pkt]) r')))"

definition remote_close :: "L3Remote \<Rightarrow> L3Remote" where
  "remote_close r =
     (let r1 = r\<lparr>rm_closed := True\<rparr>
      in if rm_closed r \<or> \<not> rm_worker_alive r then r1\<lparr>rm_worker_alive := False\<rparr>
         else r1\<lparr>rm_queue := rm_queue r1 @ [L3Close], rm_worker_alive := False\<rparr>)"

section \<open>Authenticating the stream\<close>

text \<open>
  \<open>Read::read_exact\<close>: interrupted reads are retried, any other error or the end of the
  stream ends it.
\<close>

function std_read_exact_loop ::
  "nat \<Rightarrow> bytes \<Rightarrow> rx_event list \<Rightarrow> ((AtrError + bytes) \<times> rx_event list) option" where
  "std_read_exact_loop n got evs =
     (if n \<le> length got then Some (Inr got, evs)
      else case read_call (n - length got) evs of
        None \<Rightarrow> None
      | Some (Inr b, evs') \<Rightarrow>
          if b = [] then Some (Inl (NetworkFailed ''failed to fill whole buffer''), evs')
          else std_read_exact_loop n (got @ b) evs'
      | Some (Inl e, evs') \<Rightarrow>
          if fst e = Interrupted then std_read_exact_loop n got evs'
          else Some (Inl (from_io_error e), evs'))"
  by pat_completeness auto
termination
  by (relation "measure (\<lambda>(n, got, evs). rx_size evs)") (auto dest: read_call_size [rotated])

lemmas [simp del] = std_read_exact_loop.simps

definition read_exact :: "nat \<Rightarrow> bytes io" where
  "read_exact n c =
     (case std_read_exact_loop n [] (rx c) of
        None \<Rightarrow> None
      | Some (res, evs) \<Rightarrow> Some (res, c\<lparr>rx := evs\<rparr>))"

record AuthResponseSid =
  sid_code :: int
  sid_message :: string

text \<open>\<open>format!("{:?}", [a, b])\<close> and \<open>format!("{:02x?}", ..)\<close>.\<close>

definition debug_bytes :: "bytes \<Rightarrow> string" where
  "debug_bytes bs = ''['' @ join_str '', '' (map (\<lambda>b. nat_str (unat b)) bs) @ '']''"

definition debug_hex :: "bytes \<Rightarrow> string" where
  "debug_hex bs = ''['' @ join_str '', '' (map hex2 bs) @ '']''"

text \<open>The part the session check and the virtual address request have in common.\<close>

definition auth_exchange ::
  "(bytes \<Rightarrow> string + AuthResponseSid) \<Rightarrow> (string \<Rightarrow> string + bytes) \<Rightarrow> string \<Rightarrow> string \<Rightarrow> string \<Rightarrow>
   string \<Rightarrow> unit io" where
  "auth_exchange from_slice sid_json method_text header_text failed_text sid =
     (case sid_json sid of
        Inl text \<Rightarrow> io_err (from_serde_error text)
      | Inr req \<Rightarrow>
          io_bind (write_all (wrap_auth_req_data req 1)) (\<lambda>_.
          io_bind flush (\<lambda>_.
          io_bind (read_exact 2) (\<lambda>method_bytes.
          if method_bytes \<noteq> [0x05, 0xD0] then
            io_err (NetworkFailed (''unexpected '' @ method_text @ '' '' @ debug_bytes method_bytes))
          else
            io_bind (read_exact 4) (\<lambda>header.
            if header ! 0 \<noteq> 0x53 then
              io_err (NetworkFailed (''unexpected '' @ header_text @ '' '' @ debug_hex header))
            else
              (let len = unat (u16_from_be_bytes (header ! 2) (header ! 3)) in
               io_bind (if 0 < len then read_exact len else io_return []) (\<lambda>payload.
               if header ! 1 \<noteq> 0 then io_err (Unauthorized (from_utf8_lossy payload))
               else if payload \<noteq> [] then
                 (case from_slice payload of
                    Inl text \<Rightarrow> io_err (from_serde_error text)
                  | Inr resp \<Rightarrow>
                      if sid_code resp \<noteq> 0 then
                        io_err (Unauthorized (failed_text @ '': '' @ sid_message resp))
                      else io_return ())
               else io_return ())))))))"

definition optional_vips :: "bytes option \<Rightarrow> Ipv4Addr list \<Rightarrow> Ipv4Addr list io" where
  "optional_vips vip_header vips =
     (case vip_header of
        None \<Rightarrow> io_return vips
      | Some header \<Rightarrow>
          if header ! 0 = 0x05 \<and> 0 < vip_payload_length (header ! 3) then
            io_bind (read_tunnel_exact_blocking (vip_payload_length (header ! 3))) (\<lambda>data.
            case parse_virtual_ip_bytes data of
              Some (Some ips) \<Rightarrow> io_return ips
            | _ \<Rightarrow> io_return vips)
          else io_return vips)"

text \<open>\<open>authenticate_l3_stream\<close> gives the new list of virtual addresses.\<close>

definition authenticate_l3_stream ::
  "(bytes \<Rightarrow> string + AuthResponseSid) \<Rightarrow> (string \<Rightarrow> string + bytes) \<Rightarrow> L3ClientInfo \<Rightarrow> Ipv4Addr list \<Rightarrow>
   Ipv4Addr list io" where
  "authenticate_l3_stream from_slice sid_json info vips =
     io_bind (auth_exchange from_slice sid_json ''auth method'' ''auth header'' ''tunnel auth failed''
       (ci_sid info)) (\<lambda>_.
     io_bind (read_tunnel_exact 4) (\<lambda>vip_header. optional_vips vip_header vips))"

definition virtual_ip_exchange ::
  "(bytes \<Rightarrow> string + AuthResponseSid) \<Rightarrow> (string \<Rightarrow> string + bytes) \<Rightarrow> string \<Rightarrow> Ipv4Addr list io" where
  "virtual_ip_exchange from_slice sid_json sid =
     io_bind (auth_exchange from_slice sid_json ''virtual ip method'' ''virtual ip header''
       ''virtual ip request failed'' sid) (\<lambda>_.
     io_bind (read_exact 4) (\<lambda>header.
     if header ! 0 \<noteq> 0x05 then
       io_err (NetworkFailed (''unexpected virtual ip payload header '' @ debug_hex header))
     else if vip_payload_length (header ! 3) = 0 then
       io_err (NetworkFailed ''virtual ip response had empty payload'')
     else
       io_bind (read_exact (vip_payload_length (header ! 3))) (\<lambda>data.
       case parse_virtual_ip_bytes data of
         Some (Some (ip # ips)) \<Rightarrow> io_return (ip # ips)
       | _ \<Rightarrow> io_err (ParseFailed ''virtual ip response had no ipv4''))))"

text \<open>\<open>connect_tls\<close> opens the stream and sets its read timeout.\<close>

definition request_l3_virtual_ips ::
  "(string \<Rightarrow> ClientConfig \<Rightarrow> AtrError + conn) \<Rightarrow> (bytes \<Rightarrow> string + AuthResponseSid) \<Rightarrow>
   (string \<Rightarrow> string + bytes) \<Rightarrow> AtrClient \<Rightarrow> (AtrError + Ipv4Addr list) option" where
  "request_l3_virtual_ips connect_tls from_slice sid_json client =
     (case cl_session client of
        None \<Rightarrow> Some (Inl (InvalidState ''session not set''))
      | Some session \<Rightarrow>
          (case best_node client of
             None \<Rightarrow> Some (Inl (NotFound ''no node for l3 virtual ip request''))
           | Some addr \<Rightarrow>
               (case connect_tls addr (cl_config client) of
                  Inl e \<Rightarrow> Some (Inl e)
                | Inr c \<Rightarrow> map_option fst (virtual_ip_exchange from_slice sid_json (sm_sid session) c))))"

section \<open>Connection tracking: reachable states\<close>

text \<open>
  What can happen to the manager: a packet of some flow creates or finds its conntrack, a
  caller marks one as started, a response arrives, and the worker fails the pending ones.
\<close>

inductive mgr_step :: "ConntrackMgr \<Rightarrow> ConntrackMgr \<Rightarrow> bool" where
  step_create: "mgr_step m (snd (get_or_create key aid m))"
| step_start: "h < length (objs m) \<Longrightarrow> mgr_step m (m\<lparr>objs := (objs m)[h := (objs m ! h)\<lparr>auth_started := True\<rparr>]\<rparr>)"
| step_respond: "mgr_step m (snd (handle_auth_resp from_slice status payload m))"
| step_fail: "mgr_step m (fail_pending e m)"

inductive_cases mgr_stepE: "mgr_step m m'"

definition mgr_reachable :: "ConntrackMgr \<Rightarrow> bool" where
  "mgr_reachable m = mgr_step\<^sup>*\<^sup>* mgr_new m"

definition mgr_inv :: "ConntrackMgr \<Rightarrow> bool" where
  "mgr_inv m \<longleftrightarrow>
     next_auth_id m = word_of_nat (length (objs m)) \<and>
     (\<forall>h < length (objs m). auth_id (objs m ! h) = word_of_nat (Suc h)) \<and>
     (\<forall>key h. hm_get (by_key m) key = Some h \<longrightarrow> h < length (objs m)) \<and>
     (\<forall>key key' h. hm_get (by_key m) key = Some h \<and> hm_get (by_key m) key' = Some h \<longrightarrow> key = key') \<and>
     (\<forall>ident h. hm_get (by_id m) ident = Some h \<longrightarrow> h < length (objs m)) \<and> hm_wf (by_id m) \<and>
     (length (objs m) < 2 ^ 64 \<longrightarrow> (\<forall>h < length (objs m). hm_get (by_id m) (word_of_nat (Suc h)) = Some h)) \<and>
     (\<forall>ct \<in> set (objs m). auth_result ct = Some (Inr ()) \<longrightarrow> (\<exists>t. connect_token ct = Some t \<and> t \<noteq> []))"

text \<open>Replacing one object by one with the same id keeps the invariant.\<close>

lemma mgr_inv_update:
  assumes "mgr_inv m" and "auth_id ct = auth_id (objs m ! h)"
    and "auth_result ct = Some (Inr ()) \<longrightarrow> (\<exists>t. connect_token ct = Some t \<and> t \<noteq> [])"
  shows "mgr_inv (m\<lparr>objs := (objs m)[h := ct]\<rparr>)"
proof (cases "h < length (objs m)")
  case True
  have "\<forall>h' < length (objs m). auth_id ((objs m)[h := ct] ! h') = word_of_nat (Suc h')"
    using assms(1,2) True by (auto simp: mgr_inv_def nth_list_update)
  moreover have "\<forall>x \<in> set ((objs m)[h := ct]). auth_result x = Some (Inr ()) \<longrightarrow>
      (\<exists>t. connect_token x = Some t \<and> t \<noteq> [])"
    using assms(1,3) set_update_subset_insert [of "objs m" h ct] by (auto simp: mgr_inv_def)
  ultimately show ?thesis using assms(1) by (simp add: mgr_inv_def)
next
  case False
  then have "m\<lparr>objs := (objs m)[h := ct]\<rparr> = m" by (simp add: list_update_beyond)
  with assms(1) show ?thesis by simp
qed

lemma mgr_inv_new: "mgr_inv mgr_new"
  by (simp add: mgr_inv_def mgr_new_def)

lemma word64_Suc_inj:
  assumes "a < 2 ^ 64" and "b < 2 ^ 64"
  shows "(word_of_nat a :: u64) = word_of_nat b \<longleftrightarrow> a = b"
  using assms by (simp add: word_unat_eq_iff unat_of_nat)

lemma mgr_inv_create: "mgr_inv m \<Longrightarrow> mgr_inv (snd (get_or_create key aid m))"
proof (cases "hm_get (by_key m) key")
  case None
  assume inv: "mgr_inv m"
  let ?n = "length (objs m)"
  let ?m = "snd (get_or_create key aid m)"
  have next_id: "next_auth_id m + 1 = word_of_nat (Suc ?n)"
    using inv by (simp add: mgr_inv_def)
  have objs': "objs ?m = objs m @ [\<lparr>auth_id = word_of_nat (Suc ?n), connect_token = None, ct_app_id = aid,
      auth_started = False, auth_result = None\<rparr>]"
    and key': "by_key ?m = hm_insert key ?n (by_key m)"
    and id': "by_id ?m = hm_insert (word_of_nat (Suc ?n)) ?n (by_id m)"
    and next': "next_auth_id ?m = word_of_nat (Suc ?n)"
    using None next_id
    by (simp_all add: get_or_create_def new_conntrack_def register_key_def register_id_def Let_def add.commute)
  have ids: "\<forall>h < length (objs ?m). hm_get (by_id ?m) (word_of_nat (Suc h)) = Some h"
    if "length (objs ?m) < 2 ^ 64"
  proof (intro allI impI)
    fix h assume "h < length (objs ?m)"
    then have h: "h < Suc ?n" by (simp add: objs')
    from that have b: "Suc ?n < 2 ^ 64" by (simp add: objs')
    show "hm_get (by_id ?m) (word_of_nat (Suc h)) = Some h"
    proof (cases "h = ?n")
      case False
      with h have "h < ?n" by simp
      moreover have "(word_of_nat (Suc h) :: u64) \<noteq> word_of_nat (Suc ?n)"
        using word64_Suc_inj [of "Suc h" "Suc ?n"] b \<open>h < ?n\<close> by simp
      ultimately show ?thesis using inv b unfolding id' hm.get_ins mgr_inv_def by simp
    qed (simp only: id' hm.get_ins_same)
  qed
  from inv show ?thesis
    unfolding mgr_inv_def [of ?m] objs' key' next'
    using ids [unfolded objs']
    by (auto simp: mgr_inv_def id' hm.get_ins hm.wf_ins nth_append less_Suc_eq split: if_splits)
qed (simp add: get_or_create_def)

lemma response_outcome:
  "response_token resp \<noteq> [] \<Longrightarrow> \<exists>t. Some (response_token resp) = Some t \<and> t \<noteq> []"
  by simp

lemma mgr_inv_respond: "mgr_inv m \<Longrightarrow> mgr_inv (snd (handle_auth_resp from_slice status payload m))"
  by (auto simp: handle_auth_resp_def Let_def intro!: mgr_inv_update split: sum.splits option.splits)

lemma fail_one_inv: "mgr_inv m \<Longrightarrow> mgr_inv (fail_one e h m)"
  by (auto simp: fail_one_def intro!: mgr_inv_update)

lemma mgr_inv_fail: "mgr_inv m \<Longrightarrow> mgr_inv (fail_pending e m)"
proof -
  have "mgr_inv m \<Longrightarrow> mgr_inv (fold (fail_one e) hs m)" for hs
    by (induction hs arbitrary: m) (simp_all add: fail_one_inv)
  then show "mgr_inv m \<Longrightarrow> mgr_inv (fail_pending e m)" by (simp add: fail_pending_def)
qed

lemma mgr_inv_step: "mgr_step m m' \<Longrightarrow> mgr_inv m \<Longrightarrow> mgr_inv m'"
  by (erule mgr_stepE)
    (auto simp: mgr_inv_create mgr_inv_respond mgr_inv_fail intro!: mgr_inv_update dest: nth_mem,
      auto simp: mgr_inv_def)

lemma mgr_reachable_inv: "mgr_reachable m \<Longrightarrow> mgr_inv m"
  unfolding mgr_reachable_def
  by (induction rule: rtranclp_induct) (auto intro: mgr_inv_new mgr_inv_step)

lemma fail_one_objs:
  "length (objs (fail_one e a m)) = length (objs m)"
  "h < length (objs m) \<Longrightarrow> objs (fail_one e a m) ! h =
     (if h = a \<and> auth_result (objs m ! h) = None
      then (objs m ! h)\<lparr>auth_result := Some (Inl e)\<rparr> else objs m ! h)"
  by (auto simp: fail_one_def)

lemma fail_fold:
  "length (objs (fold (fail_one e) hs m)) = length (objs m)"
  "h < length (objs m) \<Longrightarrow> objs (fold (fail_one e) hs m) ! h =
     (if h \<in> set hs \<and> auth_result (objs m ! h) = None
      then (objs m ! h)\<lparr>auth_result := Some (Inl e)\<rparr> else objs m ! h)"
  by (induction hs arbitrary: m) (auto simp: fail_one_objs)

lemma fail_pending_objs:
  assumes "mgr_inv m" and "length (objs m) < 2 ^ 64"
  shows "length (objs (fail_pending e m)) = length (objs m)"
    and "h < length (objs m) \<Longrightarrow> objs (fail_pending e m) ! h =
      (if auth_result (objs m ! h) = None then (objs m ! h)\<lparr>auth_result := Some (Inl e)\<rparr> else objs m ! h)"
proof -
  have "h \<in> set (hm_values (by_id m))" if "h < length (objs m)" for h
  proof -
    from assms that have "hm_get (by_id m) (word_of_nat (Suc h)) = Some h" unfolding mgr_inv_def by simp
    from hm_get_SomeD [OF this] show ?thesis by (force simp: hm_values_set)
  qed
  then show "length (objs (fail_pending e m)) = length (objs m)"
    "h < length (objs m) \<Longrightarrow> objs (fail_pending e m) ! h =
      (if auth_result (objs m ! h) = None then (objs m ! h)\<lparr>auth_result := Some (Inl e)\<rparr> else objs m ! h)"
    by (simp_all add: fail_pending_def fail_fold)
qed

text \<open>
  C3. Connection tracking is sound in every reachable state (with fewer than \<open>2^64\<close> flows):
  different flow keys have different conntracks, their ids differ and lead back to them,
  and a flow that is authorised has a non-empty token.
\<close>

theorem conntracks_sound:
  assumes "mgr_reachable m" and "length (objs m) < 2 ^ 64"
    and "hm_get (by_key m) key = Some h" and "hm_get (by_key m) key' = Some h'" and "key \<noteq> key'"
  shows "h \<noteq> h' \<and> auth_id (objs m ! h) \<noteq> auth_id (objs m ! h') \<and>
         lookup_id (auth_id (objs m ! h)) m = Some h \<and>
         (auth_result (objs m ! h) = Some (Inr ()) \<longrightarrow> (\<exists>t. connect_token (objs m ! h) = Some t \<and> t \<noteq> []))"
proof -
  note inv = mgr_reachable_inv [OF assms(1)]
  have h: "h < length (objs m)" "h' < length (objs m)" and "h \<noteq> h'"
    using inv assms(3-5) unfolding mgr_inv_def by blast+
  moreover have "auth_id (objs m ! h) = word_of_nat (Suc h)" "auth_id (objs m ! h') = word_of_nat (Suc h')"
    using inv h unfolding mgr_inv_def by blast+
  moreover have "lookup_id (word_of_nat (Suc h)) m = Some h" "lookup_id (word_of_nat (Suc h')) m = Some h'"
    using inv h assms(2) unfolding mgr_inv_def lookup_id_def by blast+
  moreover have "auth_result (objs m ! h) = Some (Inr ()) \<longrightarrow> (\<exists>t. connect_token (objs m ! h) = Some t \<and> t \<noteq> [])"
    using inv h(1) nth_mem unfolding mgr_inv_def by blast
  ultimately show ?thesis by (metis option.inject)
qed

theorem conntracks_sound_witness:
  "let m = snd (get_or_create ''b'' ''app'' (snd (get_or_create ''a'' ''app'' mgr_new)))
   in auth_id (objs m ! 0) \<noteq> auth_id (objs m ! 1) \<and> lookup_id (auth_id (objs m ! 0)) m = Some 0"
proof -
  let ?m = "snd (get_or_create ''b'' ''app'' (snd (get_or_create ''a'' ''app'' mgr_new)))"
  have "mgr_reachable ?m"
    unfolding mgr_reachable_def by (meson mgr_step.step_create rtranclp.rtrancl_into_rtrancl rtranclp.rtrancl_refl)
  moreover have "length (objs ?m) < 2 ^ 64" "hm_get (by_key ?m) ''a'' = Some 0" "hm_get (by_key ?m) ''b'' = Some 1"
    by code_simp+
  ultimately show ?thesis using conntracks_sound [of ?m "''a''" 0 "''b''" 1] by (simp add: Let_def)
qed

text \<open>
  The steps of \<open>get_or_create\<close> are not one: when two callers look up the same new key before either has entered its conntrack, each
  makes one of its own. The flow then has two conntracks with different ids, both known by their ids and each authorised separately, and
  the map by key keeps the one entered last. A caller between the two insertions leaves a conntrack that is known by its key and not yet by its id.
\<close>

theorem get_or_create_race:
  "hm_get (by_key mgr_new) ''k'' = None \<and>
   (let (a, m1) = new_conntrack ''app'' mgr_new; (b, m2) = new_conntrack ''app'' m1;
        half = register_key ''k'' a m2; m = register_id b (register_key ''k'' b (register_id a half))
    in a \<noteq> b \<and> auth_id (objs m ! a) \<noteq> auth_id (objs m ! b) \<and> hm_get (by_key m) ''k'' = Some b \<and>
       lookup_id (auth_id (objs m ! a)) m = Some a \<and> lookup_id (auth_id (objs m ! b)) m = Some b \<and>
       hm_get (by_key half) ''k'' = Some a \<and> lookup_id (auth_id (objs half ! a)) half = None)"
  by (simp add: new_conntrack_def register_key_def register_id_def lookup_id_def mgr_new_def hm_get_def hm_insert_def Let_def)

section \<open>The worker and the conntracks\<close>

lemma deliver_mgr [simp]: "lw_mgr (snd (deliver packets w)) = lw_mgr w"
  by (simp add: deliver_def)

lemma handle_frame_mgr:
  "handle_l3_remote_frame from_slice frame w = Some (res, w') \<Longrightarrow> mgr_step\<^sup>*\<^sup>* (lw_mgr w) (lw_mgr w')"
proof -
  assume h: "handle_l3_remote_frame from_slice frame w = Some (res, w')"
  consider "fr_cmd frame = 0x94" | "fr_cmd frame = 0x93" | "fr_cmd frame \<noteq> 0x94" "fr_cmd frame \<noteq> 0x93" by blast
  then show ?thesis
  proof cases
    case 1
    with h obtain decoded where "decode_l3_data_payload (fr_payload frame) (fr_data_mode frame) = Some decoded"
      by (auto simp: handle_l3_remote_frame_def bind_eq_Some_conv)
    with 1 h have "lw_mgr w' = lw_mgr w"
      by (cases decoded) (auto simp: handle_l3_remote_frame_def deliver_def split: if_splits)
    then show ?thesis by simp
  next
    case 2
    with h have "lw_mgr w' = snd (handle_auth_resp from_slice (fr_status frame) (fr_payload frame) (lw_mgr w))"
      by (auto simp: handle_l3_remote_frame_def)
    then show ?thesis by (metis mgr_step.step_respond r_into_rtranclp)
  next
    case 3
    with h have "lw_mgr w' = lw_mgr w"
      by (auto simp: handle_l3_remote_frame_def bind_eq_Some_conv split: if_splits option.splits)
    then show ?thesis by simp
  qed
qed

lemma drain_frames_mgr:
  "drain_l3_remote_frames from_slice now k w = Some (res, w') \<Longrightarrow> mgr_step\<^sup>*\<^sup>* (lw_mgr w) (lw_mgr w')"
proof (induction k arbitrary: w)
  case (Suc k)
  show ?case
  proof (cases "read_l3_frame_available (lw_conn w)")
    case (Some p)
    then obtain r c where p: "read_l3_frame_available (lw_conn w) = Some (r, c)" by (cases p) simp
    show ?thesis
    proof (cases "\<exists>frame. r = Inr (Some frame)")
      case True
      then obtain frame where r: "r = Inr (Some frame)" by blast
      let ?w1 = "w\<lparr>lw_conn := c, lw_live := record_frame (fr_cmd frame) now (lw_live w)\<rparr>"
      from Suc.prems p r obtain res2 w2 where h: "handle_l3_remote_frame from_slice frame ?w1 = Some (res2, w2)"
        by (auto split: option.splits)
      from handle_frame_mgr [OF h] have s: "mgr_step\<^sup>*\<^sup>* (lw_mgr w) (lw_mgr w2)" by simp
      show ?thesis
      proof (cases res2)
        case (Inl e)
        with Suc.prems p r h s show ?thesis by simp
      next
        case (Inr u)
        with Suc.prems p r h have "drain_l3_remote_frames from_slice now k w2 = Some (res, w')" by simp
        from Suc.IH [OF this] s show ?thesis by (rule rtranclp_trans [rotated])
      qed
    next
      case False
      with Suc.prems p show ?thesis by (auto split: sum.splits option.splits)
    qed
  qed (use Suc.prems in simp)
qed simp

lemma l3_commands_mgr: "l3_commands w = Some (res, w') \<Longrightarrow> lw_mgr w' = lw_mgr w"
  by (auto simp: l3_commands_def split: option.splits sum.splits)

lemma l3_heartbeat_mgr: "l3_heartbeat now later w = Some (res, w') \<Longrightarrow> lw_mgr w' = lw_mgr w"
  by (auto simp: l3_heartbeat_def split: option.splits sum.splits if_splits)

lemma l3_read_batch_mgr:
  "l3_read_batch from_slice now w = Some (out, w') \<Longrightarrow> mgr_step\<^sup>*\<^sup>* (lw_mgr w) (lw_mgr w')"
  by (auto simp: l3_read_batch_def split: option.splits sum.splits dest!: drain_frames_mgr)

lemma l3_arrive_mgr: "mgr_step\<^sup>*\<^sup>* (lw_mgr w) (lw_mgr (l3_arrive r w))"
proof -
  have "mgr_step\<^sup>*\<^sup>* m (fold (\<lambda>(key, aid) m. snd (get_or_create key aid m)) flows m)" for flows m
    by (induction flows arbitrary: m) (auto intro: converse_rtranclp_into_rtranclp mgr_step.step_create)
  then show ?thesis by (simp add: l3_arrive_def)
qed

lemma l3_wait_mgr:
  assumes "l3_wait from_slice r w = Some (out, w')"
  shows "mgr_step\<^sup>*\<^sup>* (lw_mgr w) (lw_mgr w')"
proof -
  have "mgr_step\<^sup>*\<^sup>* (lw_mgr (l3_arrive r w)) (lw_mgr w')"
    using assms by (auto simp: l3_wait_def split: option.splits sum.splits prod.splits if_splits bool.splits
      dest!: l3_commands_mgr l3_read_batch_mgr)
  with l3_arrive_mgr show ?thesis by (rule rtranclp_trans)
qed

lemma l3_round_mgr: "l3_round_step from_slice r w = Some (out, w') \<Longrightarrow> mgr_step\<^sup>*\<^sup>* (lw_mgr w) (lw_mgr w')"
  by (auto simp: l3_round_step_def split: option.splits sum.splits if_splits bool.splits
      dest!: l3_commands_mgr l3_heartbeat_mgr l3_wait_mgr l3_read_batch_mgr)

lemma worker_inner_mgr:
  "run_l3_remote_worker_inner from_slice rs w = Some (out, w') \<Longrightarrow> mgr_step\<^sup>*\<^sup>* (lw_mgr w) (lw_mgr w')"
proof (induction rs arbitrary: w)
  case (Cons r rs)
  then obtain out1 w1 where s: "l3_round_step from_slice r w = Some (out1, w1)" by (auto split: option.splits)
  note m = l3_round_mgr [OF s]
  show ?case
  proof (cases out1)
    case Continue
    with Cons.prems s Cons.IH [of w1] m show ?thesis by (auto intro: rtranclp_trans)
  qed (use Cons.prems s m in auto)
qed simp

text \<open>
  C5. No caller waits on a dead connection. Whenever the I/O worker ends, by a close command
  or by any error, in whatever rounds it went through and whatever flows callers created
  meanwhile, the socket is shut down, the close flag is set, and every flow of the connection
  that is known to it has an authorisation result.
\<close>

theorem worker_end_answers_all:
  assumes "mgr_reachable (lw_mgr w)" and "length (objs (lw_mgr w')) < 2 ^ 64"
    and "run_l3_remote_worker from_slice rounds w = Some (True, w')"
  shows "shut_down (lw_conn w') \<and> lw_closed w' \<and> (\<forall>ct \<in> set (objs (lw_mgr w')). auth_result ct \<noteq> None)"
proof -
  from assms(3) obtain res v where run: "run_l3_remote_worker_inner from_slice rounds w = Some (Stop res, v)"
    and w': "w' = l3_finish res v"
    by (auto simp: run_l3_remote_worker_def split: option.splits l3_outcome.splits)
  define e where "e = (case res of Inr _ \<Rightarrow> NetworkFailed ''l3 remote closed'' | Inl e \<Rightarrow> e)"
  have m: "lw_mgr w' = fail_pending e (lw_mgr v)" by (simp add: w' l3_finish_def Let_def e_def)
  have inv: "mgr_inv (lw_mgr v)"
    using assms(1) worker_inner_mgr [OF run] mgr_reachable_inv
    unfolding mgr_reachable_def by (meson rtranclp_trans)
  have "length (objs (lw_mgr v)) < 2 ^ 64"
    using assms(2) unfolding m fail_pending_def fail_fold(1) .
  note f = fail_pending_objs [OF inv this]
  have "auth_result ct \<noteq> None" if "ct \<in> set (objs (lw_mgr w'))" for ct
    using that unfolding m by (auto simp: in_set_conv_nth f)
  moreover have "shut_down (lw_conn w')" "lw_closed w'" by (simp_all add: w' l3_finish_def shutdown_def Let_def)
  ultimately show ?thesis by blast
qed

definition demo_l3 :: l3_worker where
  "demo_l3 = \<lparr>lw_conn = conn_of [], lw_queue = [L3Write [1], L3Close], lw_incoming = [], lw_receiver = True,
     lw_mgr = snd (get_or_create ''a'' ''app'' mgr_new), lw_vips = [], lw_live = liveness_new 0,
     lw_next_heartbeat = 25000, lw_continue = True, lw_closed = False\<rparr>"

definition demo_round :: l3_round where
  "demo_round = \<lparr>now_heartbeat = 0, now_next = 0, now_stale = 0, now_frames = 0, arrived_commands = [],
     arrived_rx = [], arrived_flows = [], waited = Inr (False, False)\<rparr>"

theorem worker_end_answers_all_witness:
  "\<exists>w'. run_l3_remote_worker (\<lambda>_. Inl ''no json'') [demo_round] demo_l3 = Some (True, w') \<and>
     shut_down (lw_conn w') \<and> (\<forall>ct \<in> set (objs (lw_mgr w')). auth_result ct \<noteq> None)"
proof -
  let ?r = "run_l3_remote_worker (\<lambda>_. Inl ''no json'') [demo_round] demo_l3"
  have run: "?r = Some (True, snd (the ?r))" "length (objs (lw_mgr (snd (the ?r)))) < 2 ^ 64" by code_simp+
  have "mgr_reachable (lw_mgr demo_l3)"
    unfolding mgr_reachable_def demo_l3_def by (auto intro: mgr_step.step_create)
  from worker_end_answers_all [OF this run(2,1)] run(1) show ?thesis by blast
qed

section \<open>Authorisation of writes\<close>

lemma wait_auth_ok:
  "wait_auth meanwhile h r = (Inr (), r') \<Longrightarrow> auth_result (objs (rm_mgr r') ! h) = Some (Inr ())"
  by (auto simp: wait_auth_def Let_def split: option.splits)

lemma ensure_auth_ok:
  "ensure_auth build meanwhile h meta r = (Inr (), r') \<Longrightarrow> auth_result (objs (rm_mgr r') ! h) = Some (Inr ())"
  by (auto simp: ensure_auth_def split: option.splits if_splits prod.splits sum.splits dest: wait_auth_ok)

text \<open>
  C6. Packets leave only for authorised flows. When writing a packet succeeds, the flow's
  conntrack holds a positive authorisation result and a token, and exactly one command was
  queued last: the data frame with that token and that packet.
\<close>

theorem write_packet_authorised:
  assumes "remote_write_packet build meanwhile meta aid pkt r = (Inr (), r')"
  shows "\<exists>h token queue. h = fst (get_or_create (conn_track_key meta) aid (rm_mgr r)) \<and>
           auth_result (objs (rm_mgr r') ! h) = Some (Inr ()) \<and>
           connect_token (objs (rm_mgr r') ! h) = Some token \<and>
           rm_queue r' = queue @ [L3Write (build_data_payload token [pkt])] \<and> \<not> rm_closed r'"
proof -
  obtain h mgr where g: "get_or_create (conn_track_key meta) aid (rm_mgr r) = (h, mgr)" by fastforce
  obtain res r1 where e: "ensure_auth build meanwhile h meta (r\<lparr>rm_mgr := mgr\<rparr>) = (res, r1)" by fastforce
  with assms g have res: "res = Inr ()" by (cases res) (auto simp: remote_write_packet_def)
  from assms g e res obtain token where t: "connect_token (objs (rm_mgr r1) ! h) = Some token"
    and q: "enqueue_payload (build_data_payload token [pkt]) r1 = (Inr (), r')"
    by (auto simp: remote_write_packet_def split: option.splits)
  from q have "r' = r1\<lparr>rm_queue := rm_queue r1 @ [L3Write (build_data_payload token [pkt])]\<rparr>" "\<not> rm_closed r1"
    by (auto simp: enqueue_payload_def split: if_splits)
  with ensure_auth_ok [OF e [unfolded res]] t g show ?thesis by auto
qed

definition demo_remote :: L3Remote where
  "demo_remote = \<lparr>rm_queue = [], rm_worker_alive = True, rm_closed = False, rm_mgr = mgr_new\<rparr>"

definition demo_meta :: PacketMeta where
  "demo_meta = \<lparr>pm_atype = 4, pm_protocol = Udp, pm_src_ip = ipv4_new 10 0 0 1, pm_dst_ip = ipv4_new 10 1 0 9,
     pm_src_port = 4000, pm_dst_port = 53\<rparr>"

definition demo_response_json :: "bytes \<Rightarrow> string + AuthResponseIp" where
  "demo_response_json _ = Inr \<lparr>resp_code = 0, resp_message = [], resp_conntrack_hash = 1,
     resp_connect_token = ''tok'', resp_token = []\<rparr>"

definition demo_meanwhile :: "L3Remote \<Rightarrow> L3Remote" where
  "demo_meanwhile r = r\<lparr>rm_mgr := snd (handle_auth_resp demo_response_json 0 [] (rm_mgr r))\<rparr>"

theorem write_packet_authorised_witness:
  "\<exists>r' h token queue. remote_write_packet (\<lambda>_ _. Inr [123]) demo_meanwhile demo_meta ''app'' [1, 2] demo_remote = (Inr (), r') \<and>
     auth_result (objs (rm_mgr r') ! h) = Some (Inr ()) \<and> connect_token (objs (rm_mgr r') ! h) = Some token \<and>
     rm_queue r' = queue @ [L3Write (build_data_payload token [[1, 2]])]"
proof -
  let ?w = "remote_write_packet (\<lambda>_ _. Inr [123]) demo_meanwhile demo_meta ''app'' [1, 2] demo_remote"
  have "?w = (Inr (), snd ?w)" by code_simp
  with write_packet_authorised [OF this] show ?thesis by blast
qed

text \<open>
  A flow whose authorisation request got no answer is stuck: once a request was started
  and no result has arrived, later calls send no new request. If nothing arrives while they
  wait they fail with a timeout, and the queue is what the other threads left.
\<close>

theorem ensure_auth_never_resends:
  assumes "auth_started (objs (rm_mgr r) ! h)" and "auth_result (objs (rm_mgr r) ! h) = None"
    and "auth_result (objs (rm_mgr (meanwhile r)) ! h) = None"
  shows "ensure_auth build meanwhile h meta r =
           (Inl (auth_timeout (objs (rm_mgr (meanwhile r)) ! h)), meanwhile r)"
  using assms by (simp add: ensure_auth_def wait_auth_def Let_def)

theorem ensure_auth_never_resends_witness:
  "ensure_auth (\<lambda>_ _. Inr [123]) id 0 demo_meta
     (mark_started 0 (demo_remote\<lparr>rm_mgr := snd (get_or_create ''k'' ''app'' mgr_new)\<rparr>)) =
   (Inl (auth_timeout (objs (rm_mgr (mark_started 0
       (demo_remote\<lparr>rm_mgr := snd (get_or_create ''k'' ''app'' mgr_new)\<rparr>))) ! 0)),
    mark_started 0 (demo_remote\<lparr>rm_mgr := snd (get_or_create ''k'' ''app'' mgr_new)\<rparr>))"
  using ensure_auth_never_resends [of "mark_started 0 (demo_remote\<lparr>rm_mgr := snd (get_or_create ''k'' ''app'' mgr_new)\<rparr>)"
      0 id "\<lambda>_ _. Inr [123]" demo_meta]
  by (simp add: mark_started_def demo_remote_def get_or_create_def new_conntrack_def register_key_def register_id_def mgr_new_def Let_def)

section \<open>Frames on the wire\<close>

text \<open>
  The token-framed branch of the data frame reader loses a byte. A complete data frame
  whose token envelope comes without a length prefix (here a token of 32 letters and one
  packet) is misread: the second peeked byte, which is the first letter of the token, is
  dropped, every later field is read one byte late, the packet is lost, and the bytes left
  over make the next frame header invalid, which ends the connection.
\<close>

theorem token_framing_loses_a_byte:
  "let body = data_body (replicate 32 CHR ''t'') [[0x45, 1, 2, 3]];
       first = read_l3_frame_available (conn_of [Chunk ([0x05, 0x94] @ body)])
   in parse_data_payload body = Some (Inr [[0x45, 1, 2, 3]]) \<and>
      (case first of
         Some (Inr (Some frame), c) \<Rightarrow>
           fr_data_mode frame = Token \<and> parse_data_payload (fr_payload frame) = Some (Inr []) \<and>
           rx_bytes (rx c) = [4, 0x45, 1, 2, 3] \<and>
           (case read_l3_frame_available c of
              Some (Inl e, _) \<Rightarrow> e = ParseFailed ''unexpected frame header 04 45''
            | _ \<Rightarrow> False)
       | _ \<Rightarrow> False)"
  by code_simp

text \<open>A length-framed data frame, as a node sends it.\<close>

definition l3_data_frame :: "bytes \<Rightarrow> bytes" where
  "l3_data_frame body = [0x05, 0x94] @ u16_to_be_bytes (word_of_nat (length body)) @ body"

lemma read_data_resp_len:
  assumes "benign (rx c)" and "tx_script c = []" and "0 < length body" and "length body \<le> 4096"
    and "rx_bytes (rx c) = u16_to_be_bytes (word_of_nat (length body)) @ body @ rest"
  shows "\<exists>evs. read_data_resp_payload c = Some (Inr (body, Len), c\<lparr>rx := evs\<rparr>) \<and> benign evs \<and> rx_bytes evs = rest"
proof -
  obtain a b where ab: "u16_to_be_bytes (word_of_nat (length body)) = [a, b]"
    "u16_from_be_bytes a b = word_of_nat (length body)" by (rule u16_be_cases)
  have n: "unat (u16_from_be_bytes a b) = length body" using assms(4) ab(2) by (simp add: unat_len_u16)
  from refines_Some [OF refines_read [of 2] assms(1,2), of "Inr [a, b]"] obtain evs where
    h: "read_tunnel_exact_blocking 2 c = Some (Inr [a, b], c\<lparr>rx := evs\<rparr>)" "benign evs" "rx_bytes evs = body @ rest"
    by (auto simp: w_take_def assms(5) ab)
  from refines_Some [OF refines_read [of "length body"], of "c\<lparr>rx := evs\<rparr>" "Inr body" rest "[]"] h assms(2)
  obtain evs2 where "read_tunnel_exact_blocking (length body) (c\<lparr>rx := evs\<rparr>) = Some (Inr body, c\<lparr>rx := evs2\<rparr>)"
    "benign evs2" "rx_bytes evs2 = rest" by (auto simp: w_take_def)
  with h n assms(3,4) show ?thesis
    by (auto simp: read_data_resp_payload_def io_bind_def io_return_def Let_def)
qed

lemma read_l3_data_frame:
  assumes "benign (rx c)" and "tx_script c = []" and "0 < length body" and "length body \<le> 4096"
    and "rx_bytes (rx c) = l3_data_frame body @ rest"
  shows "(\<exists>e evs. rx c = RxFail e # evs \<and> read_l3_frame_available c = Some (Inr None, c\<lparr>rx := evs\<rparr>)) \<or>
     (\<exists>evs. read_l3_frame_available c = Some (Inr (Some \<lparr>fr_cmd = 0x94, fr_status = 0, fr_payload = body,
        fr_data_mode = Len\<rparr>), c\<lparr>rx := evs\<rparr>) \<and> benign evs \<and> rx_bytes evs = rest)"
proof -
  note r = read_exact_loop_benign [OF assms(1), of "[]" 2]
  have len: "2 \<le> length (rx_bytes (rx c))" by (simp add: assms(5) l3_data_frame_def)
  with r obtain o1 evs where l: "read_exact_loop 2 [] (rx c) = Some (Inr o1, evs)"
    by (cases "read_exact_loop 2 [] (rx c)") (auto split: sum.splits, metis sum.exhaust)
  show ?thesis
  proof (cases o1)
    case None
    with l obtain e where "rx c = RxFail e # evs" using read_exact_loop_NoneE by metis
    with l None show ?thesis
      by (subst read_l3_frame_available.simps) (auto simp: read_tunnel_exact_def)
  next
    case (Some h)
    with r l assms(5) have h: "benign evs" "length h = 2"
      "[0x05, 0x94] @ u16_to_be_bytes (word_of_nat (length body)) @ body @ rest = h @ rx_bytes evs"
      by (auto simp: l3_data_frame_def)
    then have hh: "h = [0x05, 0x94]"
      and b: "rx_bytes evs = u16_to_be_bytes (word_of_nat (length body)) @ body @ rest"
      by (auto simp: length_Suc_conv numeral_2_eq_2)
    from read_data_resp_len [of "c\<lparr>rx := evs\<rparr>" body rest] h(1) b assms(2-4) obtain evs2 where
      p: "read_data_resp_payload (c\<lparr>rx := evs\<rparr>) = Some (Inr (body, Len), c\<lparr>rx := evs2\<rparr>)"
      "benign evs2" "rx_bytes evs2 = rest" by auto
    have "l3_frame_body h (c\<lparr>rx := evs\<rparr>) = Some (Inr (Some \<lparr>fr_cmd = 0x94, fr_status = 0, fr_payload = body,
        fr_data_mode = Len\<rparr>), c\<lparr>rx := evs2\<rparr>)"
      using p(1) by (simp add: l3_frame_body_def hh io_bind_def io_return_def)
    with p l Some show ?thesis
      by (subst (2) read_l3_frame_available.simps) (auto simp: read_tunnel_exact_def)
  qed
qed

text \<open>
  C35. Packets from the node reach the reader. When the bytes of a length-framed data frame
  with any token (printable, at most 255 bytes) and any packets are available, in any
  segmentation, draining one frame hands exactly those packets, in order, to the reading
  side, notes the frame for liveness, and continues behind the frame.
\<close>

theorem l3_packets_delivered:
  assumes "benign (rx (lw_conn w))" and "tx_script (lw_conn w) = []" and "lw_receiver w"
    and "length token \<le> 255" and "\<forall>c \<in> set token. printable c" and "length packets \<le> 255"
    and "length (data_body token packets) \<le> 4096"
    and "rx_bytes (rx (lw_conn w)) = l3_data_frame (data_body token packets) @ rest"
    and "\<forall>e evs. rx (lw_conn w) \<noteq> RxFail e # evs"
  shows "\<exists>w'. drain_l3_remote_frames from_slice now (Suc k) w = drain_l3_remote_frames from_slice now k w' \<and>
           lw_incoming w' = lw_incoming w @ packets \<and> rx_bytes (rx (lw_conn w')) = rest \<and>
           last_frame_at (lw_live w') = now"
proof -
  let ?body = "data_body token packets"
  have small: "length p < 65536" if "p \<in> set packets" for p
  proof -
    from that have "length (packet_entry p) \<le> length (concat (map packet_entry packets))"
      by (force simp: length_concat intro: member_le_sum_list)
    also have "\<dots> \<le> length ?body" by (simp add: data_body_eq)
    finally show ?thesis using assms(7) by (simp add: packet_entry_def)
  qed
  have ok: "decode_l3_data_payload ?body Len = Some (Inr packets)"
    using parse_data_body [of token packets] envelope_not_ip_packet [of token packets] assms(4-7) small
    by (simp add: decode_l3_data_payload_def list_all_iff)
  from read_l3_data_frame [OF assms(1,2) _ assms(7,8)] assms(9) obtain evs where
    r: "read_l3_frame_available (lw_conn w) = Some (Inr (Some \<lparr>fr_cmd = 0x94, fr_status = 0,
      fr_payload = ?body, fr_data_mode = Len\<rparr>), (lw_conn w)\<lparr>rx := evs\<rparr>)" "rx_bytes evs = rest"
    by (auto simp: data_body_eq)
  let ?w = "w\<lparr>lw_conn := (lw_conn w)\<lparr>rx := evs\<rparr>, lw_live := record_frame 0x94 now (lw_live w),
    lw_incoming := lw_incoming w @ packets\<rparr>"
  have "drain_l3_remote_frames from_slice now (Suc k) w = drain_l3_remote_frames from_slice now k ?w"
    using r(1) ok assms(3) by (simp add: handle_l3_remote_frame_def deliver_def)
  moreover have "last_frame_at (lw_live ?w) = now" by (simp add: record_frame_def Let_def)
  ultimately show ?thesis using r(2) by (intro exI [of _ ?w]) simp
qed

theorem l3_packets_delivered_witness:
  "\<exists>w'. drain_l3_remote_frames demo_response_json 7 (Suc 0)
        (demo_l3\<lparr>lw_conn := conn_of [Chunk [5], Chunk (tl (l3_data_frame (data_body ''tk'' [[9, 9], []])))]\<rparr>) =
      drain_l3_remote_frames demo_response_json 7 0 w' \<and>
     lw_incoming w' = [[9, 9], []] \<and> rx_bytes (rx (lw_conn w')) = [] \<and> last_frame_at (lw_live w') = 7"
proof -
  let ?w = "demo_l3\<lparr>lw_conn := conn_of [Chunk [5], Chunk (tl (l3_data_frame (data_body ''tk'' [[9, 9], []])))]\<rparr>"
  have "benign (rx (lw_conn ?w))" "tx_script (lw_conn ?w) = []" "lw_receiver ?w" "length ''tk'' \<le> 255"
    "\<forall>c \<in> set ''tk''. printable c" "length (data_body ''tk'' [[9, 9], []]) \<le> 4096"
    "rx_bytes (rx (lw_conn ?w)) = l3_data_frame (data_body ''tk'' [[9, 9], []]) @ []"
    by code_simp+
  from l3_packets_delivered [OF this(1-5) _ this(6,7), of demo_response_json 7 0]
  show ?thesis by (simp add: demo_l3_def conn_of_def)
qed

end
