(* ===== verification/L3_Tunnel.thy ===== *)
theory L3_Tunnel
  imports L3_Remote
begin

text \<open>
  The layer-3 tunnel and the UDP tunnel on top of it (transport.rs): one remote per node
  group, routing of packets, the business keep-alive, and small helpers (TLS server name,
  language tag, name resolution). Opening a remote connection, the DNS resolver and the
  environment are parameters.
\<close>

section \<open>Tunnel state\<close>

record L3TunnelState =
  l3_client :: AtrClient
  l3_remotes :: "(string, L3Remote) hmap"
  l3_closed :: bool
  l3_vips :: "Ipv4Addr list"
  l3_incoming :: "bytes list"

text \<open>
  What opening a remote gives: an error, or the remote and the virtual addresses the node
  announced during authentication.
\<close>

type_synonym connect_remote = "AtrClient \<Rightarrow> SessionMaterial \<Rightarrow> string \<Rightarrow> AtrError + (L3Remote \<times> Ipv4Addr list option)"

definition l3_new :: "AtrClient \<Rightarrow> L3TunnelState" where
  "l3_new client = \<lparr>l3_client = client, l3_remotes = [], l3_closed = False, l3_vips = [], l3_incoming = []\<rparr>"

text \<open>The part of \<open>remote_for\<close> that opens a new remote.\<close>

definition remote_create ::
  "connect_remote \<Rightarrow> string \<Rightarrow> L3TunnelState \<Rightarrow> (AtrError + L3Remote) \<times> L3TunnelState" where
  "remote_create connect gid st =
     (case best_node_for (l3_client st) gid of
        None \<Rightarrow> (Inl (NotFound (''no node for group '' @ gid)), st)
      | Some node \<Rightarrow>
          (case cl_session (l3_client st) of
             None \<Rightarrow> (Inl (InvalidState ''session not set''), st)
           | Some session \<Rightarrow>
               (case connect (l3_client st) session node of
                  Inl e \<Rightarrow> (Inl e, st)
                | Inr (remote, vips) \<Rightarrow>
                    (Inr remote,
                     st\<lparr>l3_remotes := hm_insert gid remote (l3_remotes st),
                        l3_vips := (case vips of Some v \<Rightarrow> v | None \<Rightarrow> l3_vips st)\<rparr>))))"

definition remote_for ::
  "connect_remote \<Rightarrow> string \<Rightarrow> L3TunnelState \<Rightarrow> (AtrError + L3Remote) \<times> L3TunnelState" where
  "remote_for connect gid st =
     (if l3_closed st then (Inl (InvalidState ''l3 tunnel closed''), st)
      else
        case hm_get (l3_remotes st) gid of
          Some existing \<Rightarrow>
            if \<not> rm_closed existing then (Inr existing, st)
            else remote_create connect gid (st\<lparr>l3_remotes := hm_remove gid (l3_remotes st)\<rparr>)
        | None \<Rightarrow> remote_create connect gid st)"

text \<open>Running an operation of the shared remote of a node group.\<close>

definition on_remote ::
  "string \<Rightarrow> (L3Remote \<Rightarrow> (AtrError + 'a) \<times> L3Remote) \<Rightarrow> L3Remote \<Rightarrow> L3TunnelState \<Rightarrow> (AtrError + 'a) \<times> L3TunnelState" where
  "on_remote gid f remote st =
     (case f remote of (res, remote') \<Rightarrow> (res, st\<lparr>l3_remotes := hm_insert gid remote' (l3_remotes st)\<rparr>))"

definition heartbeat_to ::
  "connect_remote \<Rightarrow> string \<Rightarrow> L3TunnelState \<Rightarrow> (AtrError + unit) \<times> L3TunnelState" where
  "heartbeat_to connect gid st =
     (case remote_for connect gid st of
        (Inl e, st') \<Rightarrow> (Inl e, st')
      | (Inr remote, st') \<Rightarrow> on_remote gid send_heartbeat remote st')"

definition l3_send_heartbeat :: "connect_remote \<Rightarrow> L3TunnelState \<Rightarrow> (AtrError + unit) \<times> L3TunnelState" where
  "l3_send_heartbeat connect st =
     (case cl_resource (l3_client st) of
        None \<Rightarrow> (Inl (InvalidState ''resource not set''), st)
      | Some resource \<Rightarrow> heartbeat_to connect (major_node_group resource) st)"

definition route_packet :: "AtrClient \<Rightarrow> PacketMeta \<Rightarrow> RouteDecision" where
  "route_packet client meta =
     (case pm_protocol meta of
        Tcp \<Rightarrow> route_tcp client (show_ipv4 (pm_dst_ip meta)) (pm_dst_port meta)
      | Udp \<Rightarrow> route_udp client (show_ipv4 (pm_dst_ip meta)) (pm_dst_port meta)
      | Icmp \<Rightarrow> route_icmp client (show_ipv4 (pm_dst_ip meta)))"

text \<open>
  \<open>L3Tunnel::write_packet\<close>; \<open>build\<close> and \<open>meanwhile\<close> are those of \<open>ensure_auth\<close>. The outer
  \<open>None\<close> is a panic of the packet parser.
\<close>

definition l3_write_packet ::
  "connect_remote \<Rightarrow> (PacketMeta \<Rightarrow> Conntrack \<Rightarrow> AtrError + bytes) \<Rightarrow> (L3Remote \<Rightarrow> L3Remote) \<Rightarrow> bytes \<Rightarrow>
   L3TunnelState \<Rightarrow> ((AtrError + nat) \<times> L3TunnelState) option" where
  "l3_write_packet connect build meanwhile packet st =
     (case parse_packet_meta packet of
        None \<Rightarrow> None
      | Some (Inl e) \<Rightarrow> Some (Inl e, st)
      | Some (Inr meta) \<Rightarrow>
          (case route_packet (l3_client st) meta of
             Direct \<Rightarrow> Some (Inl (NotFound (''resource not managed for '' @ show_ipv4 (pm_dst_ip meta))), st)
           | Managed hit \<Rightarrow>
               (case remote_for connect (node_group_id hit) st of
                  (Inl e, st') \<Rightarrow> Some (Inl e, st')
                | (Inr remote, st') \<Rightarrow>
                    (case on_remote (node_group_id hit) (remote_write_packet build meanwhile meta (app_id hit) packet) remote st' of
                       (Inl e, st'') \<Rightarrow> Some (Inl e, st'')
                     | (Inr _, st'') \<Rightarrow> Some (Inr (length packet), st'')))))"

text \<open>\<open>read_packet\<close>: \<open>None\<close> is a call that still polls.\<close>

definition l3_read_packet :: "L3TunnelState \<Rightarrow> ((AtrError + bytes) \<times> L3TunnelState) option" where
  "l3_read_packet st =
     (if l3_closed st then Some (Inl (NetworkFailed ''l3 tunnel closed''), st)
      else case l3_incoming st of
        [] \<Rightarrow> None
      | p # ps \<Rightarrow> Some (Inr p, st\<lparr>l3_incoming := ps\<rparr>))"

definition l3_close :: "L3TunnelState \<Rightarrow> L3TunnelState" where
  "l3_close st = (if l3_closed st then st else st\<lparr>l3_closed := True, l3_remotes := []\<rparr>)"

section \<open>Keep-alive\<close>

definition protocol_allows_icmp :: "string \<Rightarrow> bool" where
  "protocol_allows_icmp protocol = (protocol = ''icmp'' \<or> protocol = ''all'')"

definition representative_ipv4 :: "Ipv4Addr \<Rightarrow> Ipv4Addr \<Rightarrow> Ipv4Addr option" where
  "representative_ipv4 lo hi =
     (let mn = ip_order lo; mx = ip_order hi in
      if mx < mn then None
      else
        (let candidate = mn + (mx - mn) div 2 in
         if mn < mx \<and> (candidate AND 0xFF = 0 \<or> candidate AND 0xFF = 255)
         then Some (min (if candidate = 0xFFFFFFFF then candidate else candidate + 1) mx)
         else Some candidate))"

definition icmp_managed :: "AtrClient \<Rightarrow> Ipv4Addr \<Rightarrow> bool" where
  "icmp_managed client ip = (case route_icmp client (show_ipv4 ip) of Managed _ \<Rightarrow> True | Direct \<Rightarrow> False)"

fun keepalive_dns_target ::
  "AtrClient \<Rightarrow> (string, DomainResource) hmap \<Rightarrow> (string, Ipv4Addr) hmap \<Rightarrow> Ipv4Addr option" where
  "keepalive_dns_target client domains [] = None"
| "keepalive_dns_target client domains ((domain, ip) # rest) =
     (case hm_get domains domain of
        None \<Rightarrow> keepalive_dns_target client domains rest
      | Some r \<Rightarrow>
          if protocol_allows_icmp (dr_protocol r) \<and> icmp_managed client ip then Some ip
          else keepalive_dns_target client domains rest)"

text \<open>The \<open>?\<close> on \<open>representative_ipv4\<close> leaves the whole function, not just the iteration.\<close>

fun keepalive_ip_target :: "AtrClient \<Rightarrow> IpResource list \<Rightarrow> Ipv4Addr option" where
  "keepalive_ip_target client [] = None"
| "keepalive_ip_target client (r # rs) =
     (if \<not> protocol_allows_icmp (ir_protocol r) then keepalive_ip_target client rs
      else case representative_ipv4 (ir_ip_min r) (ir_ip_max r) of
        None \<Rightarrow> None
      | Some candidate \<Rightarrow>
          if icmp_managed client candidate then Some candidate else keepalive_ip_target client rs)"

definition select_icmp_keepalive_target :: "AtrClient \<Rightarrow> Ipv4Addr option" where
  "select_icmp_keepalive_target client =
     (case cl_resource client of
        None \<Rightarrow> None
      | Some resource \<Rightarrow>
          (case keepalive_dns_target client (domain_resources resource) (dns_resource resource) of
             Some ip \<Rightarrow> Some ip
           | None \<Rightarrow> keepalive_ip_target client (ip_resources resource)))"

definition send_icmp_keepalive ::
  "connect_remote \<Rightarrow> (PacketMeta \<Rightarrow> Conntrack \<Rightarrow> AtrError + bytes) \<Rightarrow> (L3Remote \<Rightarrow> L3Remote) \<Rightarrow> Ipv4Addr \<Rightarrow>
   u16 \<Rightarrow> L3TunnelState \<Rightarrow> ((AtrError + unit) \<times> L3TunnelState) option" where
  "send_icmp_keepalive connect build meanwhile destination sequence st =
     (case l3_send_heartbeat connect st of
        (Inl e, st1) \<Rightarrow> Some (Inl e, st1)
      | (Inr _, st1) \<Rightarrow>
          (case l3_vips st1 of
             [] \<Rightarrow> Some (Inl (InvalidState ''L3 virtual IP is not available''), st1)
           | source # _ \<Rightarrow>
               (case build_icmp_echo_packet source destination sequence of
                  None \<Rightarrow> None
                | Some packet \<Rightarrow>
                    (case route_icmp (l3_client st1) (show_ipv4 destination) of
                       Direct \<Rightarrow> Some (Inl (NotFound (''resource not managed for '' @ show_ipv4 destination)), st1)
                     | Managed hit \<Rightarrow>
                         (case remote_for connect (node_group_id hit) st1 of
                            (Inl e, st2) \<Rightarrow> Some (Inl e, st2)
                          | (Inr remote, st2) \<Rightarrow>
                              (case parse_packet_meta packet of
                                 None \<Rightarrow> None
                               | Some (Inl e) \<Rightarrow> Some (Inl e, st2)
                               | Some (Inr meta) \<Rightarrow>
                                   Some (on_remote (node_group_id hit)
                                     (remote_write_packet build meanwhile meta (app_id hit) packet) remote st2)))))))"

text \<open>
  \<open>sleep_until_keepalive\<close>: one-second steps until the duration is over or the tunnel is
  closed. \<open>closed_at k\<close> is what the flag reads at the \<open>k\<close>-th check; the result is the time
  slept, in milliseconds.
\<close>

function sleep_loop :: "(nat \<Rightarrow> bool) \<Rightarrow> nat \<Rightarrow> nat \<Rightarrow> nat \<Rightarrow> nat" where
  "sleep_loop closed_at k remaining slept =
     (if 0 < remaining \<and> \<not> closed_at k
      then sleep_loop closed_at (Suc k) (remaining - min remaining 1000) (slept + min remaining 1000)
      else slept)"
  by pat_completeness auto
termination
  by (relation "measure (\<lambda>(closed_at, k, remaining, slept). remaining)") auto

lemmas [simp del] = sleep_loop.simps

definition sleep_until_keepalive :: "(nat \<Rightarrow> bool) \<Rightarrow> nat \<Rightarrow> nat" where
  "sleep_until_keepalive closed_at duration = sleep_loop closed_at 0 duration 0"

text \<open>
  \<open>business_keepalive_loop\<close> runs beside the rest of the program. One \<open>ka_round\<close> is one turn of
  either of its loops: how connecting, authorisation and the I/O worker behave during the turn,
  and \<open>kr_sleep\<close>, what the other threads have done to the tunnel when the sleep of the turn is
  over. With no rounds left the loop is still running.
\<close>

record ka_round =
  kr_connect :: connect_remote
  kr_build :: "PacketMeta \<Rightarrow> Conntrack \<Rightarrow> AtrError + bytes"
  kr_meanwhile :: "L3Remote \<Rightarrow> L3Remote"
  kr_sleep :: "L3TunnelState \<Rightarrow> L3TunnelState"

datatype ka_end = KaReturned | KaPanicked | KaRunning

datatype ka_phase = Established "ka_round list" | GivenUp | StillTrying

fun keepalive_establish :: "string \<Rightarrow> ka_round list \<Rightarrow> L3TunnelState \<Rightarrow> ka_phase \<times> L3TunnelState" where
  "keepalive_establish gid [] st = (StillTrying, st)"
| "keepalive_establish gid (r # rs) st =
     (case heartbeat_to (kr_connect r) gid st of
        (Inr _, st') \<Rightarrow> (Established rs, st')
      | (Inl e, st') \<Rightarrow>
          (let st'' = kr_sleep r st' in
           if l3_closed st'' then (GivenUp, st'') else keepalive_establish gid rs st''))"

fun keepalive_pings :: "Ipv4Addr \<Rightarrow> u16 \<Rightarrow> ka_round list \<Rightarrow> L3TunnelState \<Rightarrow> ka_end \<times> L3TunnelState" where
  "keepalive_pings target sequence rounds st =
     (if l3_closed st then (KaReturned, st)
      else case rounds of
        [] \<Rightarrow> (KaRunning, st)
      | r # rs \<Rightarrow>
          (case send_icmp_keepalive (kr_connect r) (kr_build r) (kr_meanwhile r) target sequence st of
             None \<Rightarrow> (KaPanicked, st)
           | Some (res, st') \<Rightarrow> keepalive_pings target (sequence + 1) rs (kr_sleep r st')))"

definition business_keepalive_loop :: "ka_round list \<Rightarrow> L3TunnelState \<Rightarrow> ka_end \<times> L3TunnelState" where
  "business_keepalive_loop rounds st =
     (case cl_resource (l3_client st) of
        None \<Rightarrow> (KaReturned, st)
      | Some resource \<Rightarrow>
          (case keepalive_establish (major_node_group resource) rounds st of
             (StillTrying, st') \<Rightarrow> (KaRunning, st')
           | (GivenUp, st') \<Rightarrow> (KaReturned, st')
           | (Established rest, st') \<Rightarrow>
               (case select_icmp_keepalive_target (l3_client st') of
                  None \<Rightarrow> (KaReturned, st')
                | Some target \<Rightarrow> keepalive_pings target 0 rest st')))"

lemmas [simp del] = keepalive_pings.simps

section \<open>Helpers\<close>

definition tls_server_name_for :: "string \<Rightarrow> ClientConfig \<Rightarrow> AtrError + string" where
  "tls_server_name_for addr cfg =
     (let host = (case parse_socket_addr addr of
            Some (ip, _) \<Rightarrow> show_ip ip
          | None \<Rightarrow>
              (case rsplit_once CHR '':'' addr of
                 Some (h, _) \<Rightarrow> trim_matches ''[]'' h
               | None \<Rightarrow> addr))
      in if parse_ip host \<noteq> None then
           (if server_host cfg = [] then Inl (InvalidArgument ''server_host is required for IP TLS endpoints'')
            else Inr (server_host cfg))
         else Inr host)"

text \<open>
  \<open>to_lowercase\<close> and \<open>to_uppercase\<close> are applied to language tags; the model is their ASCII
  part. \<open>vars\<close> are the values of the four environment variables in order.
\<close>

definition lang_from_env :: "string option list \<Rightarrow> string" where
  "lang_from_env vars =
     (let value = (case List.find (\<lambda>s. s \<noteq> []) (List.map_filter id vars) of Some s \<Rightarrow> s | None \<Rightarrow> ''en-US'');
          lang0 = takeWhile (\<lambda>c. c \<noteq> CHR ''.'') value;
          lang = map (\<lambda>c. if c = CHR ''_'' then CHR ''-'' else c) lang0
      in if length lang = 2 then
           to_ascii_lowercase lang @ ''-'' @ to_ascii_uppercase (to_ascii_lowercase lang)
         else case split_once CHR ''-'' lang of
           Some (a, b) \<Rightarrow> to_ascii_lowercase a @ ''-'' @ to_ascii_uppercase b
         | None \<Rightarrow> lang)"

fun first_v4 :: "SocketAddr list \<Rightarrow> Ipv4Addr option" where
  "first_v4 [] = None"
| "first_v4 ((V4 ip, _) # rest) = Some ip"
| "first_v4 ((V6 _, _) # rest) = first_v4 rest"

text \<open>\<open>lookup\<close> is the system resolver (\<open>to_socket_addrs\<close>).\<close>

definition resolve_ipv4 :: "(string \<Rightarrow> string + SocketAddr list) \<Rightarrow> string \<Rightarrow> AtrError + Ipv4Addr" where
  "resolve_ipv4 lookup host =
     (case parse_ipv4 host of
        Some ip \<Rightarrow> Inr ip
      | None \<Rightarrow>
          (case lookup host of
             Inl e \<Rightarrow> Inl (NetworkFailed e)
           | Inr addrs \<Rightarrow> ok_or (NotFound (''no ipv4 address for '' @ host)) (first_v4 addrs)))"

section \<open>The UDP tunnel\<close>

record UdpTunnel =
  ut_l3 :: L3TunnelState
  ut_local_ip :: Ipv4Addr
  ut_local_port :: u16
  ut_remote_ip :: Ipv4Addr
  ut_remote_port :: u16
  ut_incoming :: "bytes list"
  ut_closed :: bool

definition udp_connect ::
  "(string \<Rightarrow> string + SocketAddr list) \<Rightarrow> AtrClient \<Rightarrow> string \<Rightarrow> u16 \<Rightarrow> (AtrError + UdpTunnel) option" where
  "udp_connect lookup client host port =
     (case route_udp client host port of
        Direct \<Rightarrow> Some (Inl (not_managed host port))
      | Managed _ \<Rightarrow>
          (case resolve_ipv4 lookup host of
             Inl e \<Rightarrow> Some (Inl e)
           | Inr remote_ip \<Rightarrow>
               (case pick_local_ip remote_ip of
                  None \<Rightarrow> None
                | Some local_ip \<Rightarrow>
                    Some (Inr \<lparr>ut_l3 = l3_new client, ut_local_ip = local_ip,
                      ut_local_port = pick_local_port host port, ut_remote_ip = remote_ip,
                      ut_remote_port = port, ut_incoming = [], ut_closed = False\<rparr>))))"

text \<open>One round of the reader thread: a packet of the layer-3 tunnel is kept when it matches.\<close>

definition udp_reader_step :: "UdpTunnel \<Rightarrow> UdpTunnel option" where
  "udp_reader_step t =
     (if ut_closed t then Some t
      else case l3_read_packet (ut_l3 t) of
        None \<Rightarrow> Some t
      | Some (Inl e, l3) \<Rightarrow> Some (t\<lparr>ut_l3 := l3\<rparr>)
      | Some (Inr packet, l3) \<Rightarrow>
          (case udp_payload_if_match packet (ut_local_ip t) (ut_local_port t) (ut_remote_ip t) (ut_remote_port t) of
             None \<Rightarrow> None
           | Some (Some payload) \<Rightarrow> Some (t\<lparr>ut_l3 := l3, ut_incoming := ut_incoming t @ [payload]\<rparr>)
           | Some None \<Rightarrow> Some (t\<lparr>ut_l3 := l3\<rparr>)))"

definition udp_read :: "nat \<Rightarrow> UdpTunnel \<Rightarrow> ((AtrError + bytes) \<times> UdpTunnel) option" where
  "udp_read n t =
     (if ut_closed t then Some (Inl (NetworkFailed ''udp tunnel closed''), t)
      else case ut_incoming t of
        [] \<Rightarrow> None
      | payload # rest \<Rightarrow> Some (Inr (take n payload), t\<lparr>ut_incoming := rest\<rparr>))"

definition udp_write ::
  "connect_remote \<Rightarrow> (PacketMeta \<Rightarrow> Conntrack \<Rightarrow> AtrError + bytes) \<Rightarrow> (L3Remote \<Rightarrow> L3Remote) \<Rightarrow> bytes \<Rightarrow>
   UdpTunnel \<Rightarrow> ((AtrError + nat) \<times> UdpTunnel) option" where
  "udp_write connect build meanwhile data t =
     (if ut_closed t then Some (Inl (InvalidState ''udp tunnel closed''), t)
      else case build_udp_ipv4_packet (ut_local_ip t) (ut_local_port t) (ut_remote_ip t) (ut_remote_port t) data of
        None \<Rightarrow> None
      | Some (Inl e) \<Rightarrow> Some (Inl e, t)
      | Some (Inr packet) \<Rightarrow>
          (case l3_write_packet connect build meanwhile packet (ut_l3 t) of
             None \<Rightarrow> None
           | Some (Inl e, l3) \<Rightarrow> Some (Inl e, t\<lparr>ut_l3 := l3\<rparr>)
           | Some (Inr _, l3) \<Rightarrow> Some (Inr (length data), t\<lparr>ut_l3 := l3\<rparr>)))"

definition udp_close :: "UdpTunnel \<Rightarrow> UdpTunnel" where
  "udp_close t = (if ut_closed t then t else t\<lparr>ut_closed := True, ut_l3 := l3_close (ut_l3 t)\<rparr>)"

section \<open>Properties\<close>

lemma route_packet_managed:
  assumes "route_packet client meta = Managed hit"
  shows "\<exists>snap r port. cl_resource client = Some snap \<and> r \<in> set (ip_resources snap) \<and>
           ip_resource_matches (pm_dst_ip meta) port (pm_protocol meta) r \<and> hit = ip_hit r \<and>
           (pm_protocol meta \<noteq> Icmp \<longrightarrow> port = pm_dst_port meta)"
proof -
  define port where "port = (if pm_protocol meta = Icmp then 0 else pm_dst_port meta)"
  have "client_route client (show_ipv4 (pm_dst_ip meta)) port (pm_protocol meta) = Managed hit"
    using assms by (cases "pm_protocol meta") (simp_all add: route_packet_def port_def route_tcp_def route_udp_def route_icmp_def)
  then obtain snap where s: "cl_resource client = Some snap"
    and r: "route snap (show_ipv4 (pm_dst_ip meta)) port (pm_protocol meta) = Managed hit"
    by (auto simp: client_route_def split: option.splits)
  from r show ?thesis
  proof (cases rule: route_Managed_cases)
    case (by_ip ip q)
    then have "ip = pm_dst_ip meta" by simp
    with by_ip s show ?thesis by (intro exI [of _ snap] exI [of _ q] exI [of _ port]) (simp add: port_def)
  qed simp
qed

text \<open>
  C4. Only packets to managed destinations enter the tunnel. Writing a packet never panics,
  and when it succeeds the packet is IPv4 and some IP resource of the client contains its
  destination address, admits its protocol and, for TCP and UDP, its destination port.
\<close>

theorem l3_write_only_managed:
  "case l3_write_packet connect build meanwhile packet st of
     None \<Rightarrow> False
   | Some (Inl e, st') \<Rightarrow> True
   | Some (Inr n, st') \<Rightarrow> n = length packet \<and>
       (\<exists>meta snap r. parse_packet_meta packet = Some (Inr meta) \<and> cl_resource (l3_client st) = Some snap \<and>
          r \<in> set (ip_resources snap) \<and> ir_ip_min r \<le> pm_dst_ip meta \<and> pm_dst_ip meta \<le> ir_ip_max r \<and>
          protocol_matches (ir_protocol r) (pm_protocol meta) \<and>
          (pm_protocol meta = Icmp \<or> ir_port_min r \<le> pm_dst_port meta \<and> pm_dst_port meta \<le> ir_port_max r))"
proof -
  obtain parsed where p: "parse_packet_meta packet = Some parsed"
    using packet_parse_total [of packet] by auto
  show ?thesis
  proof (cases parsed)
    case (Inl e)
    with p show ?thesis by (simp add: l3_write_packet_def)
  next
    case (Inr meta)
    show ?thesis
    proof (cases "route_packet (l3_client st) meta")
      case Direct
      with p Inr show ?thesis by (simp add: l3_write_packet_def)
    next
      case (Managed hit)
      from route_packet_managed [OF this] obtain snap r port where
        "cl_resource (l3_client st) = Some snap" "r \<in> set (ip_resources snap)"
        "ip_resource_matches (pm_dst_ip meta) port (pm_protocol meta) r"
        "pm_protocol meta \<noteq> Icmp \<longrightarrow> port = pm_dst_port meta" by blast
      then have "\<exists>snap r. cl_resource (l3_client st) = Some snap \<and> r \<in> set (ip_resources snap) \<and>
          ir_ip_min r \<le> pm_dst_ip meta \<and> pm_dst_ip meta \<le> ir_ip_max r \<and>
          protocol_matches (ir_protocol r) (pm_protocol meta) \<and>
          (pm_protocol meta = Icmp \<or> ir_port_min r \<le> pm_dst_port meta \<and> pm_dst_port meta \<le> ir_port_max r)"
        by (cases "pm_protocol meta") (auto simp: ip_resource_matches_def ip_between_iff ports_match_def)
      with p Inr Managed show ?thesis
        by (auto simp: l3_write_packet_def split: prod.splits sum.splits)
    qed
  qed
qed

text \<open>
  One open remote per node group. When a remote is handed out it is open, it is the one
  stored for that group, the remotes of other groups are untouched, and an open remote that
  already exists is reused. The hypothesis is that a freshly connected remote is open.
\<close>

theorem remote_for_open_and_unique:
  assumes "\<And>client session node remote vips. connect client session node = Inr (remote, vips) \<Longrightarrow> \<not> rm_closed remote"
    and "remote_for connect gid st = (Inr remote, st')"
  shows "\<not> rm_closed remote \<and> hm_get (l3_remotes st') gid = Some remote \<and> \<not> l3_closed st \<and>
         (\<forall>g. g \<noteq> gid \<longrightarrow> hm_get (l3_remotes st') g = hm_get (l3_remotes st) g) \<and>
         (\<forall>old. hm_get (l3_remotes st) gid = Some old \<and> \<not> rm_closed old \<longrightarrow> remote = old \<and> st' = st)"
proof -
  have create: "\<not> rm_closed remote \<and> hm_get (l3_remotes st') gid = Some remote \<and>
      (\<forall>g. g \<noteq> gid \<longrightarrow> hm_get (l3_remotes st') g = hm_get (l3_remotes s) g)"
    if "remote_create connect gid s = (Inr remote, st')" for s
    using that assms(1) by (auto simp: remote_create_def hm.get_ins split: option.splits sum.splits)
  show ?thesis
  proof (cases "hm_get (l3_remotes st) gid")
    case None
    with assms(2) create [of st] show ?thesis by (auto simp: remote_for_def split: if_splits)
  next
    case (Some old)
    with assms(2) create [of "st\<lparr>l3_remotes := hm_remove gid (l3_remotes st)\<rparr>"] show ?thesis
      by (auto simp: remote_for_def hm.get_del split: if_splits)
  qed
qed

definition demo_client :: AtrClient where
  "demo_client = \<lparr>cl_config = default_client_config,
     cl_session = Some (session_material_from_parts ''u'' ''sid'' ''dev'' ''con'' ''00''),
     cl_resource = Some demo_snapshot, cl_resource_bytes = None\<rparr>"

theorem remote_for_open_and_unique_witness:
  "\<exists>remote st'. remote_for (\<lambda>_ _ _. Inr (demo_remote, None)) ''g1'' (l3_new demo_client) = (Inr remote, st') \<and>
     \<not> rm_closed remote \<and> hm_get (l3_remotes st') ''g1'' = Some remote"
proof -
  let ?f = "\<lambda>(_ :: AtrClient) (_ :: SessionMaterial) (_ :: string). (Inr (demo_remote, None) :: AtrError + _)"
  have opened: "?f client session node = Inr (remote, vips) \<Longrightarrow> \<not> rm_closed remote" for client session node remote vips
    by (auto simp: demo_remote_def)
  let ?r = "remote_for ?f ''g1'' (l3_new demo_client)"
  have run: "?r = (Inr demo_remote, snd ?r)" by code_simp
  have "\<not> rm_closed demo_remote \<and> hm_get (l3_remotes (snd ?r)) ''g1'' = Some demo_remote"
    using remote_for_open_and_unique [where connect = ?f, OF _ run] opened by (simp add: demo_remote_def)
  with run show ?thesis by blast
qed

text \<open>
  The representative address of a range lies in the range, for every non-inverted range,
  without arithmetic overflow at the top of the address space.
\<close>

theorem representative_in_range:
  assumes "lo \<le> hi"
  shows "\<exists>ip. representative_ipv4 lo hi = Some ip \<and> lo \<le> ip \<and> ip \<le> hi"
proof -
  define c where "c = lo + (hi - lo) div 2"
  have d: "unat ((hi - lo) div 2) = (unat hi - unat lo) div 2"
    using assms by (simp add: unat_div unat_sub)
  have le: "unat lo \<le> unat hi" using assms by (simp add: word_le_nat_alt)
  then have "unat lo + (unat hi - unat lo) div 2 \<le> unat hi" by linarith
  from le_less_trans [OF this unat_u32_less [of hi]]
  have "unat c = unat lo + (unat hi - unat lo) div 2"
    unfolding c_def by (subst unat_add_lem [THEN iffD1]) (simp_all add: d)
  with le have c: "lo \<le> c" "c \<le> hi" by (simp_all add: word_le_nat_alt)
  have "lo \<le> min (if c = 0xFFFFFFFF then c else c + 1) hi"
  proof -
    have "c \<le> c + 1" if "c \<noteq> 0xFFFFFFFF"
    proof -
      from that have "unat c \<noteq> 4294967295" by (simp add: word_unat_eq_iff)
      then have "Suc (unat c) < 4294967296" using unat_u32_less [of c] by linarith
      then show ?thesis by (simp add: word_le_nat_alt unat_word_ariths(1))
    qed
    with c assms show ?thesis by auto
  qed
  with c assms show ?thesis
    by (auto simp: representative_ipv4_def Let_def c_def [symmetric])
qed

theorem representative_in_range_witness:
  "\<exists>ip. representative_ipv4 (ipv4_new 255 255 255 254) (ipv4_new 255 255 255 255) = Some ip \<and>
     ipv4_new 255 255 255 254 \<le> ip \<and> ip \<le> ipv4_new 255 255 255 255"
  by (rule representative_in_range) code_simp

lemma keepalive_dns_managed:
  "keepalive_dns_target client domains dns = Some ip \<Longrightarrow> icmp_managed client ip"
  by (induction client domains dns rule: keepalive_dns_target.induct) (auto split: option.splits if_splits)

lemma keepalive_ip_managed: "keepalive_ip_target client rs = Some ip \<Longrightarrow> icmp_managed client ip"
  by (induction client rs rule: keepalive_ip_target.induct) (auto split: option.splits if_splits)

text \<open>
  The keep-alive only pings managed addresses: the selected target is routed through
  the tunnel for ICMP.
\<close>

theorem keepalive_target_managed:
  assumes "select_icmp_keepalive_target client = Some ip"
  shows "\<exists>hit. route_icmp client (show_ipv4 ip) = Managed hit"
proof -
  from assms have "icmp_managed client ip"
    by (auto simp: select_icmp_keepalive_target_def split: option.splits
        dest: keepalive_dns_managed keepalive_ip_managed)
  then show ?thesis by (auto simp: icmp_managed_def split: RouteDecision.splits)
qed

definition range_of :: "string \<Rightarrow> Ipv4Addr \<Rightarrow> Ipv4Addr \<Rightarrow> IpResource" where
  "range_of protocol lo hi = \<lparr>ir_ip_min = lo, ir_ip_max = hi, ir_port_min = 1, ir_port_max = 65535,
     ir_protocol = protocol, ir_app_id = ''a1'', ir_node_group_id = ''g1''\<rparr>"

definition client_with :: "IpResource list \<Rightarrow> AtrClient" where
  "client_with rs = demo_client\<lparr>cl_resource := Some (demo_snapshot\<lparr>ip_resources := rs, dns_resource := []\<rparr>)\<rparr>"

theorem keepalive_target_managed_witness:
  "\<exists>hit. route_icmp (client_with [range_of ''all'' (ipv4_new 10 1 0 0) (ipv4_new 10 1 0 9)])
     (show_ipv4 (ipv4_new 10 1 0 4)) = Managed hit"
  by (rule keepalive_target_managed) code_simp

text \<open>
  An inverted range switches the keep-alive off: when a resource that allows ICMP has
  its bounds the wrong way round, target selection gives up although a later resource has a
  managed address, because \<open>?\<close> leaves the function instead of skipping the entry.
\<close>

theorem inverted_range_disables_keepalive:
  "select_icmp_keepalive_target (client_with [range_of ''all'' (ipv4_new 10 2 0 9) (ipv4_new 10 2 0 0),
      range_of ''all'' (ipv4_new 10 1 0 0) (ipv4_new 10 1 0 9)]) = None \<and>
   select_icmp_keepalive_target (client_with [range_of ''all'' (ipv4_new 10 1 0 0) (ipv4_new 10 1 0 9)]) =
     Some (ipv4_new 10 1 0 4) \<and>
   icmp_managed (client_with [range_of ''all'' (ipv4_new 10 2 0 9) (ipv4_new 10 2 0 0),
      range_of ''all'' (ipv4_new 10 1 0 0) (ipv4_new 10 1 0 9)]) (ipv4_new 10 1 0 4)"
  by code_simp

lemma sleep_loop_full:
  "sleep_loop (\<lambda>_. False) k remaining slept = slept + remaining"
proof (induction remaining arbitrary: k slept rule: less_induct)
  case (less remaining)
  show ?case
  proof (cases "0 < remaining")
    case True
    then have "remaining - min remaining 1000 < remaining" by simp
    with less True show ?thesis by (subst sleep_loop.simps) simp
  next
    case False
    then show ?thesis by (subst sleep_loop.simps) simp
  qed
qed

lemma sleep_loop_bound: "sleep_loop closed_at k remaining slept \<le> slept + remaining"
proof (induction closed_at k remaining slept rule: sleep_loop.induct)
  case (1 closed_at k remaining slept)
  then show ?case by (subst sleep_loop.simps) auto
qed

lemma sleep_loop_stops:
  "k \<le> j \<Longrightarrow> closed_at j \<Longrightarrow> sleep_loop closed_at k remaining slept \<le> slept + 1000 * (j - k)"
proof (induction closed_at k remaining slept rule: sleep_loop.induct)
  case (1 closed_at k remaining slept)
  show ?case
  proof (cases "0 < remaining \<and> \<not> closed_at k")
    case True
    with "1.prems" have "Suc k \<le> j" by (metis le_eq_less_or_eq Suc_leI)
    with "1.IH" [OF True] "1.prems" have "sleep_loop closed_at (Suc k) (remaining - min remaining 1000)
        (slept + min remaining 1000) \<le> slept + min remaining 1000 + 1000 * (j - Suc k)" by simp
    also have "\<dots> \<le> slept + 1000 * (j - k)" using \<open>Suc k \<le> j\<close> by simp
    finally show ?thesis using True by (subst sleep_loop.simps) simp
  next
    case False
    then show ?thesis by (subst sleep_loop.simps) auto
  qed
qed

text \<open>
  The keep-alive sleep always ends. It lasts the full duration when the tunnel stays
  open, never longer, and when the tunnel is closed by the \<open>j\<close>-th check it ends within
  \<open>j\<close> seconds.
\<close>

theorem keepalive_sleep_bounded:
  "sleep_until_keepalive (\<lambda>_. False) duration = duration \<and>
   sleep_until_keepalive closed_at duration \<le> duration \<and>
   sleep_until_keepalive (\<lambda>i. j \<le> i) duration \<le> 1000 * j"
  using sleep_loop_full [of 0 duration 0] sleep_loop_bound [of closed_at 0 duration 0]
    sleep_loop_stops [of 0 j "\<lambda>i. j \<le> i" duration 0]
  by (simp add: sleep_until_keepalive_def)

lemma remote_for_closed [simp]: "remote_for connect gid st = (res, st') \<Longrightarrow> l3_closed st' = l3_closed st"
  by (auto simp: remote_for_def remote_create_def split: if_splits option.splits sum.splits)

lemma on_remote_closed [simp]: "on_remote gid f remote st = (res, st') \<Longrightarrow> l3_closed st' = l3_closed st"
  by (auto simp: on_remote_def split: prod.splits)

lemma heartbeat_to_closed [simp]: "heartbeat_to connect gid st = (res, st') \<Longrightarrow> l3_closed st' = l3_closed st"
  by (auto simp: heartbeat_to_def split: prod.splits sum.splits)

lemma l3_send_heartbeat_closed [simp]: "l3_send_heartbeat connect st = (res, st') \<Longrightarrow> l3_closed st' = l3_closed st"
  by (auto simp: l3_send_heartbeat_def split: option.splits)

lemma send_icmp_keepalive_closed:
  "send_icmp_keepalive connect build meanwhile target sequence st = Some (res, st') \<Longrightarrow> l3_closed st' = l3_closed st"
  by (auto simp: send_icmp_keepalive_def split: prod.splits sum.splits list.splits option.splits RouteDecision.splits)

lemma send_icmp_keepalive_total: "send_icmp_keepalive connect build meanwhile target sequence st \<noteq> None"
  by (auto simp: send_icmp_keepalive_def build_icmp_layout packet_parse_total
      split: prod.splits sum.splits list.splits option.splits RouteDecision.splits)

definition ends_closed :: "ka_round \<Rightarrow> bool" where
  "ends_closed r = (\<forall>st. l3_closed (kr_sleep r st))"

lemma keepalive_pings_stop:
  assumes "\<exists>r \<in> set rounds. ends_closed r"
  shows "\<exists>st'. keepalive_pings target sequence rounds st = (KaReturned, st') \<and> l3_closed st'"
  using assms
proof (induction rounds arbitrary: sequence st)
  case (Cons r rs)
  show ?case
  proof (cases "l3_closed st")
    case True
    then show ?thesis by (subst keepalive_pings.simps) simp
  next
    case False
    obtain res st1 where s: "send_icmp_keepalive (kr_connect r) (kr_build r) (kr_meanwhile r) target sequence st = Some (res, st1)"
      using send_icmp_keepalive_total by fastforce
    then have step: "keepalive_pings target sequence (r # rs) st = keepalive_pings target (sequence + 1) rs (kr_sleep r st1)"
      using False by (subst keepalive_pings.simps) simp
    show ?thesis
    proof (cases "l3_closed (kr_sleep r st1)")
      case True
      then have "keepalive_pings target (sequence + 1) rs (kr_sleep r st1) = (KaReturned, kr_sleep r st1)"
        by (subst keepalive_pings.simps) simp
      with step True show ?thesis by simp
    next
      case False
      with Cons.prems have "\<exists>r \<in> set rs. ends_closed r" by (auto simp: ends_closed_def)
      with Cons step show ?thesis by simp
    qed
  qed
qed simp

lemma keepalive_establish_ends:
  assumes "ends_closed c1"
  shows "\<exists>st'. keepalive_establish gid (early @ c1 # c2 # late) st = (GivenUp, st') \<or>
           (\<exists>rest. keepalive_establish gid (early @ c1 # c2 # late) st = (Established rest, st') \<and> c2 \<in> set rest)"
proof (induction early arbitrary: st)
  case Nil
  show ?case
    using assms by (auto simp: ends_closed_def split: prod.splits sum.splits)
next
  case (Cons r rs)
  obtain res st1 where h: "heartbeat_to (kr_connect r) gid st = (res, st1)" by fastforce
  with Cons [of "kr_sleep r st1"] show ?case by (cases res) (auto simp: Let_def)
qed

text \<open>
  Datagrams of the peer reach the reader, and no others. A packet built from the remote
  endpoint to the local one is appended with exactly its payload; every packet whose four
  addresses differ from that, or that is no well-formed UDP packet, is dropped; and the reader
  never panics.
\<close>

theorem udp_reader_filters:
  assumes "\<not> ut_closed t" "\<not> l3_closed (ut_l3 t)" "l3_incoming (ut_l3 t) = p # ps"
  shows "\<exists>t'. udp_reader_step t = Some t' \<and> l3_incoming (ut_l3 t') = ps \<and>
     (\<forall>data. build_udp_ipv4_packet (ut_remote_ip t) (ut_remote_port t) (ut_local_ip t) (ut_local_port t) data = Some (Inr p) \<longrightarrow>
        ut_incoming t' = ut_incoming t @ [data]) \<and>
     ((\<nexists>data. parse_ipv4_udp_packet p =
          Some (Inr (ut_remote_ip t, ut_local_ip t, ut_remote_port t, ut_local_port t, data))) \<longrightarrow>
        ut_incoming t' = ut_incoming t)"
proof -
  obtain parsed where q: "parse_ipv4_udp_packet p = Some parsed"
    using udp_parse_total [of p] by auto
  have built: "parsed = Inr (ut_remote_ip t, ut_local_ip t, ut_remote_port t, ut_local_port t, data)"
    if "build_udp_ipv4_packet (ut_remote_ip t) (ut_remote_port t) (ut_local_ip t) (ut_local_port t) data = Some (Inr p)" for data
    using build_udp_parses [OF that] q by simp
  show ?thesis
    using assms q built
    by (cases parsed) (auto simp: udp_reader_step_def l3_read_packet_def udp_payload_if_match_def split: if_splits)
qed

definition demo_datagram :: "bytes" where
  "demo_datagram = (case build_udp_ipv4_packet (ipv4_new 10 1 0 9) 53 (ipv4_new 10 8 0 2) 40000 [7, 8, 9] of
     Some (Inr packet) \<Rightarrow> packet | _ \<Rightarrow> [])"

definition demo_udp :: UdpTunnel where
  "demo_udp = \<lparr>ut_l3 = (l3_new demo_client)\<lparr>l3_incoming := [demo_datagram]\<rparr>, ut_local_ip = ipv4_new 10 8 0 2,
     ut_local_port = 40000, ut_remote_ip = ipv4_new 10 1 0 9, ut_remote_port = 53, ut_incoming = [], ut_closed = False\<rparr>"

theorem udp_reader_filters_witness:
  "\<exists>t'. udp_reader_step demo_udp = Some t' \<and> ut_incoming t' = [[7, 8, 9]]"
proof -
  have "\<not> ut_closed demo_udp" "\<not> l3_closed (ut_l3 demo_udp)" "l3_incoming (ut_l3 demo_udp) = demo_datagram # []"
    "ut_incoming demo_udp = []"
    by (simp_all add: demo_udp_def l3_new_def)
  moreover have "build_udp_ipv4_packet (ut_remote_ip demo_udp) (ut_remote_port demo_udp) (ut_local_ip demo_udp)
      (ut_local_port demo_udp) [7, 8, 9] = Some (Inr demo_datagram)"
    by code_simp
  ultimately show ?thesis using udp_reader_filters [of demo_udp demo_datagram "[]"] by auto
qed

text \<open>
  C37. The keep-alive thread ends when the tunnel is closed, so joining it returns. Whatever
  happens in the rounds before, once two consecutive rounds find the tunnel closed after their
  sleep the loop has returned, and it never panics.
\<close>

theorem keepalive_loop_returns:
  assumes "ends_closed c1" "ends_closed c2"
  shows "fst (business_keepalive_loop (early @ c1 # c2 # late) st) = KaReturned"
proof (cases "cl_resource (l3_client st)")
  case (Some resource)
  obtain st' where e: "keepalive_establish (major_node_group resource) (early @ c1 # c2 # late) st = (GivenUp, st') \<or>
      (\<exists>rest. keepalive_establish (major_node_group resource) (early @ c1 # c2 # late) st = (Established rest, st') \<and>
        c2 \<in> set rest)"
    using keepalive_establish_ends [OF assms(1)] by blast
  have "\<exists>st''. keepalive_pings target sequence rest st' = (KaReturned, st'')" if "c2 \<in> set rest" for target sequence rest
    using keepalive_pings_stop assms(2) that by blast
  with e Some show ?thesis by (auto simp: business_keepalive_loop_def split: option.splits) (metis fst_conv)
qed (simp add: business_keepalive_loop_def)

definition demo_ka_round :: "(L3TunnelState \<Rightarrow> L3TunnelState) \<Rightarrow> ka_round" where
  "demo_ka_round sleep = \<lparr>kr_connect = (\<lambda>_ _ _. Inr (demo_remote, Some [ipv4_new 10 8 0 2])),
     kr_build = (\<lambda>_ _. Inr [1]), kr_meanwhile = id, kr_sleep = sleep\<rparr>"

lemma demo_ka_round_closed: "ends_closed (demo_ka_round l3_close)"
  by (simp add: ends_closed_def demo_ka_round_def l3_close_def)

theorem keepalive_loop_returns_witness:
  "fst (business_keepalive_loop ([demo_ka_round id] @ demo_ka_round l3_close # demo_ka_round l3_close # [])
     (l3_new demo_client)) = KaReturned"
  by (rule keepalive_loop_returns) (rule demo_ka_round_closed)+

end
