(* ===== verification/Sockets.thy ===== *)
theory Sockets
  imports Interfaces L3_Tunnel
begin

text \<open>
  Opening connections (transport.rs): the socket of one attempt with its descriptor, options and connect
  wait, readiness of the worker's two sockets, finding an interface by name, the Windows choice of an interface, the
  TLS client on top, and the connection of a layer-3 remote. System calls and the TLS and hex crates are parameters: a call
  is given by its result; numbers of the platform are those of macOS. A descriptor is in the table of open descriptors from \<open>socket\<close> to \<open>close\<close>.
\<close>

section \<open>Descriptors\<close>

text \<open>
  An open descriptor: address family, file status flags, the option that binds it to an interface (level, name and bytes of
  the value), whether it raises no signal when the peer is gone, TCP options.
\<close>

record fd_state =
  fd_family :: nat
  fd_flags :: "32 word"
  fd_bound :: "(nat \<times> nat \<times> bytes) option"
  fd_nosigpipe :: bool
  fd_nodelay :: bool
  fd_keepalive :: "(nat \<times> nat \<times> nat) option"

type_synonym fd_table = "nat \<Rightarrow> fd_state option"

definition AF_INET :: nat where
  "AF_INET = 2"

definition AF_INET6 :: nat where
  "AF_INET6 = 30"

definition socket_domain :: "SocketAddr \<Rightarrow> nat" where
  "socket_domain addr = (case fst addr of V4 _ \<Rightarrow> AF_INET | V6 _ \<Rightarrow> AF_INET6)"

definition close_fd :: "nat \<Rightarrow> fd_table \<Rightarrow> fd_table" where
  "close_fd fd t = t(fd := None)"

definition on_fd :: "nat \<Rightarrow> (fd_state \<Rightarrow> fd_state) \<Rightarrow> fd_table \<Rightarrow> fd_table" where
  "on_fd fd f t = t(fd := map_option f (t fd))"

section \<open>Steps of an attempt\<close>

text \<open>A number as it lies in memory, on a little-endian machine.\<close>

definition u32_to_ne_bytes :: "u32 \<Rightarrow> bytes" where
  "u32_to_ne_bytes v = rev (u32_to_be_bytes v)"

text \<open>Level, option and value by address family.\<close>

definition bound_option :: "SocketAddr \<Rightarrow> u32 \<Rightarrow> nat \<times> nat \<times> bytes" where
  "bound_option addr interface_index =
     (case fst addr of V4 _ \<Rightarrow> (0, 25, u32_to_ne_bytes interface_index) | V6 _ \<Rightarrow> (41, 125, u32_to_ne_bytes interface_index))"

text \<open>\<open>set_bound_interface\<close>; \<open>res\<close> is the result of \<open>setsockopt\<close>, \<open>Some\<close> an error.\<close>

definition set_bound_interface ::
  "io_error option \<Rightarrow> nat \<Rightarrow> SocketAddr \<Rightarrow> u32 option \<Rightarrow> fd_table \<Rightarrow> (AtrError + unit) \<times> fd_table" where
  "set_bound_interface res fd addr interface_index t =
     (case interface_index of
        None \<Rightarrow> (Inr (), t)
      | Some index \<Rightarrow>
          (case res of
             Some e \<Rightarrow> (Inl (from_io_error e), t)
           | None \<Rightarrow> (Inr (), on_fd fd (\<lambda>s. s\<lparr>fd_bound := Some (bound_option addr index)\<rparr>) t)))"

text \<open>\<open>set_no_sigpipe\<close>; a failure is ignored.\<close>

definition set_no_sigpipe :: "io_error option \<Rightarrow> nat \<Rightarrow> fd_table \<Rightarrow> fd_table" where
  "set_no_sigpipe res fd t = (if res = None then on_fd fd (\<lambda>s. s\<lparr>fd_nosigpipe := True\<rparr>) t else t)"

definition O_NONBLOCK :: "32 word" where
  "O_NONBLOCK = 0x4"

unbundle bit_operations_syntax

definition set_nonblocking ::
  "io_error option \<times> io_error option \<Rightarrow> nat \<Rightarrow> bool \<Rightarrow> fd_table \<Rightarrow> (AtrError + unit) \<times> fd_table" where
  "set_nonblocking res fd on t =
     (case res of
        (Some e, _) \<Rightarrow> (Inl (from_io_error e), t)
      | (None, Some e) \<Rightarrow> (Inl (from_io_error e), t)
      | (None, None) \<Rightarrow>
          (Inr (), on_fd fd (\<lambda>s. s\<lparr>fd_flags := (if on then fd_flags s OR O_NONBLOCK else fd_flags s AND NOT O_NONBLOCK)\<rparr>) t))"

text \<open>The timeout handed to \<open>poll\<close>, in milliseconds.\<close>

definition poll_timeout :: "nat \<Rightarrow> nat" where
  "poll_timeout timeout_ms = min timeout_ms 2147483647"

datatype poll_result = PollReady | PollTimeout | PollError io_error

text \<open>
  \<open>wait_for_connect\<close>: the results of the \<open>poll\<close> calls, then that of reading \<open>SO_ERROR\<close>: an error of the
  call, or the pending error of the socket, if any. \<open>None\<close> is a wait that has not ended.
\<close>

fun wait_for_connect :: "poll_result list \<Rightarrow> io_error + io_error option \<Rightarrow> (AtrError + unit) option" where
  "wait_for_connect [] so_error = None"
| "wait_for_connect (PollReady # _) so_error =
     Some (case so_error of
        Inl e \<Rightarrow> Inl (from_io_error e)
      | Inr (Some e) \<Rightarrow> Inl (from_io_error e)
      | Inr None \<Rightarrow> Inr ())"
| "wait_for_connect (PollTimeout # _) so_error = Some (Inl (NetworkFailed ''connect timed out''))"
| "wait_for_connect (PollError e # later) so_error =
     (if fst e = Interrupted then wait_for_connect later so_error else Some (Inl (from_io_error e)))"

text \<open>The results of the system calls of one attempt, in order; \<open>sy_connect\<close> has the error and whether it only says \<open>in progress\<close>.\<close>

record attempt_calls =
  sy_socket :: "io_error + nat"
  sy_bind :: "io_error option"
  sy_sigpipe :: "io_error option"
  sy_nonblock :: "io_error option \<times> io_error option"
  sy_connect :: "(io_error \<times> bool) option"
  sy_poll :: "poll_result list"
  sy_so_error :: "io_error + io_error option"
  sy_block :: "io_error option \<times> io_error option"

definition fresh_fd :: "SocketAddr \<Rightarrow> fd_state" where
  "fresh_fd addr = \<lparr>fd_family = socket_domain addr, fd_flags = 2, fd_bound = None, fd_nosigpipe = False, fd_nodelay = False, fd_keepalive = None\<rparr>"

text \<open>A step of the attempt that closes the descriptor when it fails.\<close>

definition or_close ::
  "nat \<Rightarrow> (AtrError + unit) \<times> fd_table \<Rightarrow> (fd_table \<Rightarrow> ((AtrError + 'a) \<times> fd_table) option) \<Rightarrow> ((AtrError + 'a) \<times> fd_table) option" where
  "or_close fd r k = (case r of (Inl e, t) \<Rightarrow> Some (Inl e, close_fd fd t) | (Inr _, t) \<Rightarrow> k t)"

definition connect_tcp_bound_once ::
  "attempt_calls \<Rightarrow> SocketAddr \<Rightarrow> u32 option \<Rightarrow> fd_table \<Rightarrow> ((AtrError + nat) \<times> fd_table) option" where
  "connect_tcp_bound_once calls addr interface_index t =
     (case sy_socket calls of
        Inl e \<Rightarrow> Some (Inl (from_io_error e), t)
      | Inr fd \<Rightarrow>
          or_close fd (set_bound_interface (sy_bind calls) fd addr interface_index (t(fd \<mapsto> fresh_fd addr))) (\<lambda>t.
          or_close fd (set_nonblocking (sy_nonblock calls) fd True (set_no_sigpipe (sy_sigpipe calls) fd t)) (\<lambda>t.
          case sy_connect calls of
            Some (e, in_progress) \<Rightarrow>
              if fst e \<noteq> WouldBlock \<and> \<not> in_progress then Some (Inl (from_io_error e), close_fd fd t)
              else (case wait_for_connect (sy_poll calls) (sy_so_error calls) of
                      None \<Rightarrow> None
                    | Some r \<Rightarrow> or_close fd (r, t) (\<lambda>t.
                        or_close fd (set_nonblocking (sy_block calls) fd False t) (\<lambda>t. Some (Inr fd, t))))
          | None \<Rightarrow>
              (case wait_for_connect (sy_poll calls) (sy_so_error calls) of
                 None \<Rightarrow> None
               | Some r \<Rightarrow> or_close fd (r, t) (\<lambda>t.
                   or_close fd (set_nonblocking (sy_block calls) fd False t) (\<lambda>t. Some (Inr fd, t)))))))"

definition TCP_KEEPALIVE_IDLE :: nat where
  "TCP_KEEPALIVE_IDLE = 15"

definition TCP_KEEPALIVE_INTERVAL :: nat where
  "TCP_KEEPALIVE_INTERVAL = 15"

definition TCP_KEEPALIVE_RETRIES :: nat where
  "TCP_KEEPALIVE_RETRIES = 3"

text \<open>
  \<open>configure_connected_tcp\<close>: a failure to set \<open>TCP_NODELAY\<close> drops the stream, which closes it; keep-alive falls back
  to the system's parameters (written 0), whose result is ignored. \<open>nodelay\<close>, \<open>tuned\<close> and \<open>plain\<close> are the results.
\<close>

definition configure_connected_tcp ::
  "io_error option \<Rightarrow> io_error option \<Rightarrow> io_error option \<Rightarrow> nat \<Rightarrow> fd_table \<Rightarrow> (AtrError + nat) \<times> fd_table" where
  "configure_connected_tcp nodelay tuned plain fd t =
     (case nodelay of
        Some e \<Rightarrow> (Inl (from_io_error e), close_fd fd t)
      | None \<Rightarrow>
          (Inr fd, on_fd fd (\<lambda>s. s\<lparr>fd_nodelay := True, fd_keepalive :=
             (if tuned = None then Some (TCP_KEEPALIVE_IDLE, TCP_KEEPALIVE_INTERVAL, TCP_KEEPALIVE_RETRIES)
              else if plain = None then Some (0, 0, 0) else fd_keepalive s)\<rparr>) t))"

section \<open>Socket addresses\<close>

text \<open>The C structures with their size; ports and addresses are the bytes in memory.\<close>

record sockaddr_in =
  sin_len :: nat
  sin_family :: nat
  sin_port :: bytes
  sin_addr :: bytes
  sin_zero :: bytes

record sockaddr_in6 =
  sin6_len :: nat
  sin6_family :: nat
  sin6_port :: bytes
  sin6_flowinfo :: u32
  sin6_addr :: bytes
  sin6_scope_id :: u32

definition sockaddr_storage :: "u32 \<Rightarrow> u32 \<Rightarrow> SocketAddr \<Rightarrow> sockaddr_in + sockaddr_in6" where
  "sockaddr_storage flowinfo scope_id addr =
     (case addr of
        (V4 ip, port) \<Rightarrow> Inl \<lparr>sin_len = 16, sin_family = AF_INET, sin_port = u16_to_be_bytes port, sin_addr = octets ip, sin_zero = replicate 8 0\<rparr>
      | (V6 segments, port) \<Rightarrow>
          Inr \<lparr>sin6_len = 28, sin6_family = AF_INET6, sin6_port = u16_to_be_bytes port, sin6_flowinfo = flowinfo,
            sin6_addr = concat (map u16_to_be_bytes segments), sin6_scope_id = scope_id\<rparr>)"

section \<open>Readiness and wake streams\<close>

record TcpTunnelEvent =
  socket_readable :: bool
  wake_readable :: bool

text \<open>
  \<open>SocketReadiness::new\<close>: clones of both streams; on Unix they are then registered with a new poller, as tokens 0 and 1.
  The arguments are the results of those calls.
\<close>

definition readiness_new ::
  "io_error + 's \<Rightarrow> io_error + 's \<Rightarrow> io_error option \<Rightarrow> io_error option \<Rightarrow> io_error option \<Rightarrow> AtrError + (nat \<times> 's) list" where
  "readiness_new socket_clone wake_clone poller register_socket register_wake =
     (case (socket_clone, wake_clone, poller, register_socket, register_wake) of
        (Inl e, _, _, _, _) \<Rightarrow> Inl (from_io_error e)
      | (Inr _, Inl e, _, _, _) \<Rightarrow> Inl (from_io_error e)
      | (Inr _, Inr _, Some e, _, _) \<Rightarrow> Inl (from_io_error e)
      | (Inr _, Inr _, None, Some e, _) \<Rightarrow> Inl (from_io_error e)
      | (Inr _, Inr _, None, None, Some e) \<Rightarrow> Inl (from_io_error e)
      | (Inr s, Inr w, None, None, None) \<Rightarrow> Inr [(0, s), (1, w)])"

definition windows_readiness_new :: "io_error + 's \<Rightarrow> io_error + 's \<Rightarrow> AtrError + 's \<times> 's" where
  "windows_readiness_new socket_clone wake_clone =
     (case (socket_clone, wake_clone) of
        (Inl e, _) \<Rightarrow> Inl (from_io_error e)
      | (Inr _, Inl e) \<Rightarrow> Inl (from_io_error e)
      | (Inr s, Inr w) \<Rightarrow> Inr (s, w))"

text \<open>\<open>SocketReadiness::wait\<close> on Unix: the tokens of the events, socket 0 and wake stream 1.\<close>

definition readiness_wait :: "io_error + nat list \<Rightarrow> AtrError + TcpTunnelEvent" where
  "readiness_wait polled =
     (case polled of
        Inl e \<Rightarrow> Inl (from_io_error e)
      | Inr tokens \<Rightarrow> Inr \<lparr>socket_readable = (0 \<in> set tokens), wake_readable = (1 \<in> set tokens)\<rparr>)"

text \<open>On Windows: the timeout of \<open>WSAPoll\<close> in milliseconds, rounded up, and the bits that count as readable.\<close>

definition wsa_timeout_ms :: "nat option \<Rightarrow> int" where
  "wsa_timeout_ms timeout_us =
     (case timeout_us of None \<Rightarrow> -1 | Some us \<Rightarrow> min (int ((us + 999) div 1000)) 2147483647)"

definition wsa_ready :: "16 word \<Rightarrow> bool" where
  "wsa_ready revents \<longleftrightarrow> revents AND (0x100 OR 0x2 OR 0x1 OR 0x4) \<noteq> 0"

definition wsa_wait :: "io_error + 16 word \<times> 16 word \<Rightarrow> AtrError + TcpTunnelEvent" where
  "wsa_wait polled =
     (case polled of
        Inl e \<Rightarrow> Inl (from_io_error e)
      | Inr (socket_revents, wake_revents) \<Rightarrow> Inr \<lparr>socket_readable = wsa_ready socket_revents, wake_readable = wsa_ready wake_revents\<rparr>)"

text \<open>\<open>drain_wake_stream\<close>: read until the stream is closed or has nothing more.\<close>

function drain_wake_stream :: "rx_event list \<Rightarrow> rx_event list" where
  "drain_wake_stream evs =
     (case read_call 64 evs of
        None \<Rightarrow> evs
      | Some (Inl e, rest) \<Rightarrow> rest
      | Some (Inr b, rest) \<Rightarrow> if b = [] then rest else drain_wake_stream rest)"
  by pat_completeness auto
termination
  by (relation "measure rx_size") (auto intro: read_call_size [of 64])

lemmas [simp del] = drain_wake_stream.simps

text \<open>\<open>tcp_stream_pair\<close>: listener, its address, the connecting and the accepting end, both made non-blocking.\<close>

definition tcp_stream_pair ::
  "io_error + unit \<Rightarrow> io_error + SocketAddr \<Rightarrow> (SocketAddr \<Rightarrow> io_error + 's) \<Rightarrow> io_error + 's \<Rightarrow> io_error option \<Rightarrow> io_error option \<Rightarrow>
   AtrError + 's \<times> 's" where
  "tcp_stream_pair bound local_addr connect accepted receiver_nb sender_nb =
     (case bound of
        Inl e \<Rightarrow> Inl (from_io_error e)
      | Inr _ \<Rightarrow>
          (case local_addr of
             Inl e \<Rightarrow> Inl (from_io_error e)
           | Inr address \<Rightarrow>
               (case connect address of
                  Inl e \<Rightarrow> Inl (from_io_error e)
                | Inr sender \<Rightarrow>
                    (case accepted of
                       Inl e \<Rightarrow> Inl (from_io_error e)
                     | Inr receiver \<Rightarrow>
                         (case receiver_nb of
                            Some e \<Rightarrow> Inl (from_io_error e)
                          | None \<Rightarrow>
                              (case sender_nb of Some e \<Rightarrow> Inl (from_io_error e) | None \<Rightarrow> Inr (receiver, sender)))))))"

section \<open>Interfaces by name\<close>

text \<open>\<open>Debug\<close> of a C string: quoted, with the escapes of \<open>escape_ascii\<close>.\<close>

definition escape_byte :: "char \<Rightarrow> string" where
  "escape_byte c =
     (if c = CHR 0x09 then [CHR 0x5C, CHR ''t''] else if c = CHR 0x0D then [CHR 0x5C, CHR ''r'']
      else if c = CHR 0x0A then [CHR 0x5C, CHR ''n'']
      else if c \<in> {CHR 0x27, CHR 0x22, CHR 0x5C} then [CHR 0x5C, c]
      else if printable c \<or> c = CHR '' '' then [c]
      else [CHR 0x5C, CHR ''x''] @ hex2 (word_of_nat (of_char c)))"

definition debug_cstring :: "string \<Rightarrow> string" where
  "debug_cstring s = [CHR 0x22] @ concat (map escape_byte s) @ [CHR 0x22]"

definition interface_index_by_name :: "(string \<Rightarrow> u32) \<Rightarrow> string \<Rightarrow> AtrError + u32 option" where
  "interface_index_by_name if_nametoindex name =
     (if CHR 0x00 \<in> set name then Inl (InvalidArgument ''bind_interface contains NUL'')
      else if if_nametoindex name = 0 then Inl (InvalidArgument (''network interface not found: '' @ debug_cstring name))
      else Inr (Some (if_nametoindex name)))"

section \<open>Windows\<close>

text \<open>An entry of the adapter list: operational, its index, its decoded name, its type.\<close>

record adapter_entry =
  ad_up :: bool
  ad_if_index :: u32
  ad_friendly_name :: "string option"
  ad_if_type :: nat

text \<open>\<open>windows_adapters\<close>: results of the call for the size and of the call for the list.\<close>

definition ERROR_BUFFER_OVERFLOW :: nat where
  "ERROR_BUFFER_OVERFLOW = 111"

definition windows_adapters :: "nat \<Rightarrow> nat \<Rightarrow> adapter_entry list \<Rightarrow> AtrError + (string \<times> u32 \<times> nat) list" where
  "windows_adapters size_result list_result entries =
     (if size_result \<noteq> ERROR_BUFFER_OVERFLOW then Inl (NetworkFailed (''GetAdaptersAddresses failed: '' @ nat_str size_result))
      else if list_result \<noteq> 0 then Inl (NetworkFailed (''GetAdaptersAddresses failed: '' @ nat_str list_result))
      else Inr (map (\<lambda>a. (case ad_friendly_name a of None \<Rightarrow> [] | Some n \<Rightarrow> n, ad_if_index a, ad_if_type a))
                 (filter (\<lambda>a. ad_up a \<and> ad_if_index a \<noteq> 0) entries)))"

definition windows_interface_index_by_name ::
  "AtrError + (string \<times> u32 \<times> nat) list \<Rightarrow> string \<Rightarrow> AtrError + u32 option" where
  "windows_interface_index_by_name adapters name0 =
     (case parse_u32 name0 of
        Some index \<Rightarrow> Inr (Some index)
      | None \<Rightarrow>
          (let name = to_ascii_lowercase (trim name0) in
           bindR adapters (\<lambda>l.
             case List.find (\<lambda>(adapter_name, _, _). to_ascii_lowercase adapter_name = name) l of
               Some (_, index, _) \<Rightarrow> Inr (Some index)
             | None \<Rightarrow> Inl (InvalidArgument (''network interface not found: '' @ name)))))"

text \<open>A row of the forwarding table, with the metric of its interface when that can be read.\<close>

record forward_row =
  fw_prefix_len :: nat
  fw_interface :: u32
  fw_metric :: u32
  fw_interface_metric :: "u32 option"

definition saturating_add :: "u32 \<Rightarrow> u32 \<Rightarrow> u32" where
  "saturating_add a b = (if unat a + unat b < 2 ^ 32 then a + b else -1)"

definition effective_metric :: "forward_row \<Rightarrow> u32" where
  "effective_metric row = saturating_add (fw_metric row) (case fw_interface_metric row of Some v \<Rightarrow> v | None \<Rightarrow> 0)"

fun best_route :: "u32 list \<Rightarrow> forward_row list \<Rightarrow> (u32 \<times> u32) option \<Rightarrow> (u32 \<times> u32) option" where
  "best_route up [] best = best"
| "best_route up (row # rows) best =
     best_route up rows
       (if fw_prefix_len row \<noteq> 0 \<or> fw_interface row \<notin> set up then best
        else case best of
          None \<Rightarrow> Some (fw_interface row, effective_metric row)
        | Some (_, current) \<Rightarrow>
            if effective_metric row < current then Some (fw_interface row, effective_metric row) else best)"

definition windows_default_route_interface ::
  "AtrError + (string \<times> u32 \<times> nat) list \<Rightarrow> forward_row list option \<Rightarrow> u32 option" where
  "windows_default_route_interface adapters table =
     (case adapters of
        Inl _ \<Rightarrow> None
      | Inr l \<Rightarrow>
          (case table of
             None \<Rightarrow> None
           | Some rows \<Rightarrow> map_option fst (best_route (map (\<lambda>(_, index, _). index) l) rows None)))"

text \<open>The second reading of the adapter list is \<open>again\<close>; 6 and 71 are the types of Ethernet and wireless adapters.\<close>

definition windows_compute_default_interface_index ::
  "AtrError + (string \<times> u32 \<times> nat) list \<Rightarrow> forward_row list option \<Rightarrow> AtrError + (string \<times> u32 \<times> nat) list \<Rightarrow> u32 option" where
  "windows_compute_default_interface_index adapters table again =
     (case windows_default_route_interface adapters table of
        Some index \<Rightarrow> Some index
      | None \<Rightarrow>
          (case again of
             Inl _ \<Rightarrow> None
           | Inr l \<Rightarrow>
               (case filter (\<lambda>(_, _, kind). kind = 6 \<or> kind = 71) l of
                  (_, index, _) # _ \<Rightarrow> Some index
                | [] \<Rightarrow> (case l of (_, index, _) # _ \<Rightarrow> Some index | [] \<Rightarrow> None))))"

text \<open>
  \<open>set_windows_bound_interface\<close>: an IPv4 index goes out in network order, an IPv6 one as it is. A failed step drops the
  socket, which closes it.
\<close>

definition windows_bound_option :: "SocketAddr \<Rightarrow> u32 \<Rightarrow> nat \<times> nat \<times> bytes" where
  "windows_bound_option addr interface_index =
     (if is_v4 addr then (0, 31, u32_to_be_bytes interface_index) else (41, 31, u32_to_ne_bytes interface_index))"

definition set_windows_bound_interface ::
  "io_error option \<Rightarrow> nat \<Rightarrow> SocketAddr \<Rightarrow> u32 \<Rightarrow> fd_table \<Rightarrow> (AtrError + unit) \<times> fd_table" where
  "set_windows_bound_interface res fd addr interface_index t =
     (case res of
        Some e \<Rightarrow> (Inl (from_io_error e), t)
      | None \<Rightarrow> (Inr (), on_fd fd (\<lambda>s. s\<lparr>fd_bound := Some (windows_bound_option addr interface_index)\<rparr>) t))"

definition windows_connect_tcp_bound_once ::
  "io_error + nat \<Rightarrow> io_error option \<Rightarrow> io_error option \<Rightarrow> SocketAddr \<Rightarrow> u32 option \<Rightarrow> fd_table \<Rightarrow> ((AtrError + nat) \<times> fd_table) option" where
  "windows_connect_tcp_bound_once socket bound connected addr interface_index t =
     (case socket of
        Inl e \<Rightarrow> Some (Inl (from_io_error e), t)
      | Inr fd \<Rightarrow>
          or_close fd
            (case interface_index of
               None \<Rightarrow> (Inr (), t(fd \<mapsto> fresh_fd addr))
             | Some index \<Rightarrow> set_windows_bound_interface bound fd addr index (t(fd \<mapsto> fresh_fd addr))) (\<lambda>t.
          case connected of
            Some e \<Rightarrow> Some (Inl (from_io_error e), close_fd fd t)
          | None \<Rightarrow> Some (Inr fd, t)))"

section \<open>Connecting through an interface\<close>

text \<open>
  \<open>connect_tcp_bound\<close> on the table of descriptors: \<open>once\<close> and \<open>again\<close> are the two attempts with the results of their
  system calls; the other arguments are as in \<open>Interfaces.connect_tcp_bound\<close>.
\<close>

type_synonym attempt = "u32 option \<Rightarrow> fd_table \<Rightarrow> ((AtrError + nat) \<times> fd_table) option"

definition connect_tcp_bound_fds ::
  "(string \<Rightarrow> AtrError + u32 option) \<Rightarrow> attempt \<Rightarrow> attempt \<Rightarrow> (nat \<Rightarrow> fd_table \<Rightarrow> (AtrError + nat) \<times> fd_table) \<Rightarrow>
   u32 option \<Rightarrow> u32 option \<Rightarrow> ClientConfig \<Rightarrow> fd_table \<Rightarrow> ((AtrError + nat) \<times> fd_table) option" where
  "connect_tcp_bound_fds by_name once again configure cached refreshed config t =
     (case (case bind_interface config of None \<Rightarrow> Inr None | Some name \<Rightarrow> by_name name) of
        Inl e \<Rightarrow> Some (Inl e, t)
      | Inr manual_index \<Rightarrow>
          (let auto_detect = (manual_index = None \<and> auto_detect_interface config);
               selected = (case manual_index of Some i \<Rightarrow> Some i | None \<Rightarrow> if auto_detect then cached else None)
           in case once selected t of
             None \<Rightarrow> None
           | Some (Inr fd, t') \<Rightarrow> Some (configure fd t')
           | Some (Inl e, t') \<Rightarrow>
               if \<not> auto_detect \<or> refreshed = selected then Some (Inl e, t')
               else (case again refreshed t' of
                       None \<Rightarrow> None
                     | Some (Inr fd, t'') \<Rightarrow> Some (configure fd t'')
                     | Some (Inl e', t'') \<Rightarrow> Some (Inl e', t''))))"

text \<open>\<open>connect_tcp_any\<close> on the table: \<open>connect i addr timeout\<close> is the \<open>i\<close>-th attempt, \<open>now i\<close> the clock before it.\<close>

fun connect_any_fds ::
  "(nat \<Rightarrow> nat) \<Rightarrow> (nat \<Rightarrow> SocketAddr \<Rightarrow> nat \<Rightarrow> fd_table \<Rightarrow> ((AtrError + nat) \<times> fd_table) option) \<Rightarrow> nat \<Rightarrow> nat \<Rightarrow> SocketAddr list \<Rightarrow>
   AtrError option \<Rightarrow> fd_table \<Rightarrow> ((AtrError + nat) \<times> fd_table) option" where
  "connect_any_fds now connect deadline i [] last_error t =
     Some (Inl (case last_error of Some e \<Rightarrow> e | None \<Rightarrow> NetworkFailed ''no address to connect to''), t)"
| "connect_any_fds now connect deadline i (addr # rest) last_error t =
     (let remaining = deadline - now i in
      if remaining = 0
      then Some (Inl (case last_error of Some e \<Rightarrow> e | None \<Rightarrow> NetworkFailed ''no address to connect to''), t)
      else case connect i addr (attempt_timeout remaining (rest = [])) t of
        None \<Rightarrow> None
      | Some (Inr fd, t') \<Rightarrow> Some (Inr fd, t')
      | Some (Inl e, t') \<Rightarrow> connect_any_fds now connect deadline (Suc i) rest (Some e) t')"

text \<open>What the system answers while one candidate is tried.\<close>

record candidate_calls =
  ca_first :: attempt_calls
  ca_retry :: attempt_calls
  ca_nodelay :: "io_error option"
  ca_tuned :: "io_error option"
  ca_plain :: "io_error option"
  ca_cached :: "u32 option"
  ca_refreshed :: "u32 option"

definition connect_candidate ::
  "(string \<Rightarrow> AtrError + u32 option) \<Rightarrow> ClientConfig \<Rightarrow> candidate_calls \<Rightarrow> SocketAddr \<Rightarrow> fd_table \<Rightarrow> ((AtrError + nat) \<times> fd_table) option" where
  "connect_candidate by_name config calls addr =
     connect_tcp_bound_fds by_name (connect_tcp_bound_once (ca_first calls) addr) (connect_tcp_bound_once (ca_retry calls) addr)
       (configure_connected_tcp (ca_nodelay calls) (ca_tuned calls) (ca_plain calls)) (ca_cached calls) (ca_refreshed calls) config"

section \<open>TLS\<close>

text \<open>The verifier of \<open>client_tls_config\<close>: the built-in roots, or the one that accepts everything.\<close>

datatype cert_verifier = WebPkiRoots | NoVerifier

definition client_tls_config :: "bool \<Rightarrow> cert_verifier" where
  "client_tls_config insecure = (if insecure then NoVerifier else WebPkiRoots)"

text \<open>\<open>verify_server_cert\<close>: \<open>roots\<close> is the check of a certificate for a name against the roots.\<close>

fun verify_server_cert :: "(string \<Rightarrow> bytes \<Rightarrow> bool) \<Rightarrow> cert_verifier \<Rightarrow> string \<Rightarrow> bytes \<Rightarrow> bool" where
  "verify_server_cert roots NoVerifier server_name end_entity = True"
| "verify_server_cert roots WebPkiRoots server_name end_entity = roots server_name end_entity"

text \<open>
  The other checks of \<open>NoVerifier\<close>: every handshake signature passes, under one of the schemes it offers; \<open>sig_check\<close> is the check
  of the TLS crate.
\<close>

datatype SignatureScheme = ECDSA_NISTP256_SHA256 | RSA_PKCS1_SHA256 | RSA_PSS_SHA256

definition supported_verify_schemes :: "SignatureScheme list" where
  "supported_verify_schemes = [ECDSA_NISTP256_SHA256, RSA_PKCS1_SHA256, RSA_PSS_SHA256]"

fun verify_tls_signature :: "(bytes \<Rightarrow> bytes \<Rightarrow> bytes \<Rightarrow> bool) \<Rightarrow> cert_verifier \<Rightarrow> bytes \<Rightarrow> bytes \<Rightarrow> bytes \<Rightarrow> bool" where
  "verify_tls_signature sig_check NoVerifier message cert dss = True"
| "verify_tls_signature sig_check WebPkiRoots message cert dss = sig_check message cert dss"

text \<open>Setting a read or write timeout of a stream: the standard library refuses zero before it asks the system.\<close>

definition set_timeout :: "io_error option \<Rightarrow> u64 \<Rightarrow> io_error option" where
  "set_timeout res ms = (if ms = 0 then Some (OtherKind, ''cannot set a 0 duration timeout'') else res)"

text \<open>
  \<open>connect_tls\<close>: \<open>resolve\<close> is \<open>to_socket_addrs\<close>, \<open>connect\<close> the connection to the first reachable address within a time,
  \<open>write_timeout\<close> the result of setting the write timeout, \<open>valid_name\<close> and \<open>tls_new\<close> are of the TLS crate.
\<close>

definition connect_tls ::
  "(string \<Rightarrow> io_error + SocketAddr list) \<Rightarrow> (SocketAddr list \<Rightarrow> nat \<Rightarrow> AtrError + 's) \<Rightarrow> io_error option \<Rightarrow> (string \<Rightarrow> bool) \<Rightarrow>
   (cert_verifier \<Rightarrow> string \<Rightarrow> string option) \<Rightarrow> string \<Rightarrow> ClientConfig \<Rightarrow> AtrError + 's \<times> cert_verifier \<times> string" where
  "connect_tls resolve connect write_timeout valid_name tls_new addr cfg =
     (case resolve addr of
        Inl e \<Rightarrow> Inl (from_io_error e)
      | Inr [] \<Rightarrow> Inl (NetworkFailed (''failed to resolve '' @ addr))
      | Inr addrs \<Rightarrow>
          bindR (connect addrs (max (unat (connect_timeout_ms cfg)) 1)) (\<lambda>tcp.
          case set_timeout write_timeout (io_timeout_ms cfg) of
            Some e \<Rightarrow> Inl (from_io_error e)
          | None \<Rightarrow>
              bindR (tls_server_name_for addr cfg) (\<lambda>tls_host.
              if \<not> valid_name tls_host then Inl (InvalidArgument (''invalid TLS server name '' @ tls_host))
              else case tls_new (client_tls_config (allow_insecure_tls cfg)) tls_host of
                Some e \<Rightarrow> Inl (NetworkFailed e)
              | None \<Rightarrow> Inr (tcp, client_tls_config (allow_insecure_tls cfg), tls_host))))"

section \<open>The connection of a layer-3 remote\<close>

text \<open>
  \<open>L3Remote::connect\<close>: the read timeout is set and later cleared (\<open>timeout_on\<close>, \<open>timeout_off\<close>), \<open>pair\<close> is the outcome of
  \<open>tcp_stream_pair\<close> and \<open>spawn\<close> that of starting the worker. The result has the remote, its signing key and the stream
  its worker gets; the list of virtual addresses is shared, so it is given back also when a later step fails.
\<close>

definition l3_remote_connect ::
  "(string \<Rightarrow> ClientConfig \<Rightarrow> AtrError + conn) \<Rightarrow> io_error option \<Rightarrow> (string \<Rightarrow> string + bytes) \<Rightarrow> (bytes \<Rightarrow> string + AuthResponseSid) \<Rightarrow>
   (string \<Rightarrow> string + bytes) \<Rightarrow> io_error option \<Rightarrow> AtrError + unit \<Rightarrow> string + unit \<Rightarrow> AtrClient \<Rightarrow> SessionMaterial \<Rightarrow> string \<Rightarrow>
   Ipv4Addr list \<Rightarrow> ((AtrError + L3Remote \<times> bytes \<times> conn) \<times> Ipv4Addr list) option" where
  "l3_remote_connect open_tls timeout_on hex_decode from_slice sid_json timeout_off pair spawn client session addr vips =
     (case open_tls addr (cl_config client) of
        Inl e \<Rightarrow> Some (Inl e, vips)
      | Inr c \<Rightarrow>
          (case set_timeout timeout_on (io_timeout_ms (cl_config client)) of
             Some e \<Rightarrow> Some (Inl (from_io_error e), vips)
           | None \<Rightarrow>
               (case hex_decode (sm_sign_key_hex session) of
                  Inl e \<Rightarrow> Some (Inl (CryptoFailed e), vips)
                | Inr sign_key \<Rightarrow>
                    (case authenticate_l3_stream from_slice sid_json
                            \<lparr>ci_sid = sm_sid session, ci_device_id = sm_device_id session, ci_connection_id = sm_connection_id session\<rparr> vips c of
                       None \<Rightarrow> None
                     | Some (Inl e, _) \<Rightarrow> Some (Inl e, vips)
                     | Some (Inr vips', c') \<Rightarrow>
                         (case timeout_off of
                            Some e \<Rightarrow> Some (Inl (from_io_error e), vips')
                          | None \<Rightarrow>
                              (case pair of
                                 Inl e \<Rightarrow> Some (Inl e, vips')
                               | Inr _ \<Rightarrow>
                                   (case spawn of
                                      Inl e \<Rightarrow> Some (Inl (Internal (''failed to start L3 I/O worker: '' @ e)), vips')
                                    | Inr _ \<Rightarrow>
                                        Some (Inr (\<lparr>rm_queue = [], rm_worker_alive = True, rm_closed = False, rm_mgr = mgr_new\<rparr>,
                                          sign_key, c'), vips'))))))))"

section \<open>Properties\<close>

lemma or_close_Some:
  "or_close fd r k = Some x \<Longrightarrow> (\<And>e t. r = (Inl e, t) \<Longrightarrow> x = (Inl e, close_fd fd t) \<Longrightarrow> thesis) \<Longrightarrow>
     (\<And>u t. r = (Inr u, t) \<Longrightarrow> k t = Some x \<Longrightarrow> thesis) \<Longrightarrow> thesis"
  unfolding or_close_def by (cases r; cases "fst r") auto

text \<open>The steps only change the entry of their descriptor.\<close>

lemma set_bound_table:
  "set_bound_interface res fd addr i (t(fd \<mapsto> s)) = (r, t') \<Longrightarrow>
     \<exists>s'. t' = t(fd \<mapsto> s') \<and> fd_family s' = fd_family s \<and>
       (\<forall>u. r = Inr u \<and> fd_bound s = None \<longrightarrow> fd_bound s' = map_option (bound_option addr) i)"
  by (auto simp: set_bound_interface_def on_fd_def split: option.splits)

lemma set_no_sigpipe_table:
  "\<exists>s'. set_no_sigpipe res fd (t(fd \<mapsto> s)) = t(fd \<mapsto> s') \<and> fd_family s' = fd_family s \<and> fd_bound s' = fd_bound s"
  by (auto simp: set_no_sigpipe_def on_fd_def)

lemma blocking_flag: "(flags AND NOT O_NONBLOCK) AND O_NONBLOCK = (0 :: 32 word)"
  by (metis and.assoc and.commute bit.conj_cancel_left and_zero_eq)

lemma set_nonblocking_table:
  "set_nonblocking res fd on (t(fd \<mapsto> s)) = (r, t') \<Longrightarrow>
     \<exists>s'. t' = t(fd \<mapsto> s') \<and> fd_family s' = fd_family s \<and> fd_bound s' = fd_bound s \<and>
       (\<forall>u. r = Inr u \<and> \<not> on \<longrightarrow> fd_flags s' AND O_NONBLOCK = 0)"
  by (auto simp: set_nonblocking_def on_fd_def blocking_flag split: option.splits prod.splits)

lemma close_table: "t fd = None \<Longrightarrow> close_fd fd (t(fd \<mapsto> s)) = t"
  by (auto simp: close_fd_def)

text \<open>The end of an attempt, from the connect wait on.\<close>

definition finish_attempt :: "attempt_calls \<Rightarrow> nat \<Rightarrow> fd_table \<Rightarrow> ((AtrError + nat) \<times> fd_table) option" where
  "finish_attempt calls fd t =
     (case wait_for_connect (sy_poll calls) (sy_so_error calls) of
        None \<Rightarrow> None
      | Some r \<Rightarrow> or_close fd (r, t) (\<lambda>t. or_close fd (set_nonblocking (sy_block calls) fd False t) (\<lambda>t. Some (Inr fd, t))))"

lemma finish_attempt_table:
  assumes "finish_attempt calls fd (t(fd \<mapsto> s)) = Some (r, t')" "t fd = None"
  shows "(\<exists>e. r = Inl e) \<and> t' = t \<or>
    r = Inr fd \<and> (\<exists>s'. t' = t(fd \<mapsto> s') \<and> fd_family s' = fd_family s \<and> fd_bound s' = fd_bound s \<and> fd_flags s' AND O_NONBLOCK = 0)"
  using assms unfolding finish_attempt_def
  by (auto elim!: or_close_Some dest!: set_nonblocking_table simp: close_table split: option.splits)

lemma attempt_steps:
  assumes "or_close fd (set_bound_interface res fd addr i (t(fd \<mapsto> fresh_fd addr))) (\<lambda>t.
      or_close fd (set_nonblocking nb fd True (set_no_sigpipe sp fd t)) (\<lambda>t.
      if refused then Some (Inl err, close_fd fd t) else finish_attempt calls fd t)) = Some (r, t')" "t fd = None"
  obtains e where "r = Inl e" "t' = t"
    | s where "r = Inr fd" "t' = t(fd \<mapsto> s)" "fd_family s = socket_domain addr" "fd_bound s = map_option (bound_option addr) i"
        "fd_flags s AND O_NONBLOCK = 0"
proof (rule or_close_Some [OF assms(1)])
  fix e u assume "set_bound_interface res fd addr i (t(fd \<mapsto> fresh_fd addr)) = (Inl e, u)" "(r, t') = (Inl e, close_fd fd u)"
  with set_bound_table assms(2) that(1) show thesis by (metis close_table prod.inject)
next
  fix v u
  assume bound: "set_bound_interface res fd addr i (t(fd \<mapsto> fresh_fd addr)) = (Inr v, u)"
    and rest: "or_close fd (set_nonblocking nb fd True (set_no_sigpipe sp fd u)) (\<lambda>t.
      if refused then Some (Inl err, close_fd fd t) else finish_attempt calls fd t) = Some (r, t')"
  obtain s where s: "u = t(fd \<mapsto> s)" "fd_family s = socket_domain addr" "fd_bound s = map_option (bound_option addr) i"
    using set_bound_table [OF bound] by (auto simp: fresh_fd_def)
  obtain s' where s': "set_no_sigpipe sp fd u = t(fd \<mapsto> s')" "fd_family s' = socket_domain addr" "fd_bound s' = map_option (bound_option addr) i"
    using set_no_sigpipe_table [of sp fd t s] s by auto
  show thesis
    using rest unfolding s'(1)
  proof (rule or_close_Some)
    fix e w assume "set_nonblocking nb fd True (t(fd \<mapsto> s')) = (Inl e, w)" "(r, t') = (Inl e, close_fd fd w)"
    with set_nonblocking_table assms(2) that(1) show thesis by (metis close_table prod.inject)
  next
    fix x w assume nb: "set_nonblocking nb fd True (t(fd \<mapsto> s')) = (Inr x, w)"
      and fin: "(if refused then Some (Inl err, close_fd fd w) else finish_attempt calls fd w) = Some (r, t')"
    obtain q where q: "w = t(fd \<mapsto> q)" "fd_family q = socket_domain addr" "fd_bound q = map_option (bound_option addr) i"
      using set_nonblocking_table [OF nb] s' by auto
    show thesis
    proof (cases refused)
      case True
      with fin q that(1) assms(2) show thesis by (auto simp: close_table)
    next
      case False
      with fin q have "finish_attempt calls fd (t(fd \<mapsto> q)) = Some (r, t')" by simp
      from finish_attempt_table [OF this assms(2)] q that show thesis by metis
    qed
  qed
qed

lemma connect_once_steps:
  "connect_tcp_bound_once calls addr i t =
     (case sy_socket calls of
        Inl e \<Rightarrow> Some (Inl (from_io_error e), t)
      | Inr fd \<Rightarrow>
          or_close fd (set_bound_interface (sy_bind calls) fd addr i (t(fd \<mapsto> fresh_fd addr))) (\<lambda>t.
          or_close fd (set_nonblocking (sy_nonblock calls) fd True (set_no_sigpipe (sy_sigpipe calls) fd t)) (\<lambda>t.
          if (case sy_connect calls of Some (e, p) \<Rightarrow> fst e \<noteq> WouldBlock \<and> \<not> p | None \<Rightarrow> False)
          then Some (Inl (from_io_error (fst (the (sy_connect calls)))), close_fd fd t)
          else finish_attempt calls fd t)))"
  by (auto simp: connect_tcp_bound_once_def finish_attempt_def or_close_def split: sum.splits option.splits prod.splits)

section \<open>Contract of an attempt\<close>

text \<open>What a connection relies on: a failed attempt leaves no descriptor behind, a successful one exactly one.\<close>

locale socket_attempt =
  fixes attempt :: attempt
    and opened :: "u32 option \<Rightarrow> fd_state \<Rightarrow> bool"
    and free :: "fd_table \<Rightarrow> bool"
  assumes fails_closed: "free t \<Longrightarrow> attempt i t = Some (Inl e, t') \<Longrightarrow> t' = t"
    and opens_one: "free t \<Longrightarrow> attempt i t = Some (Inr fd, t') \<Longrightarrow> t fd = None \<and> (\<exists>s. t' = t(fd \<mapsto> s) \<and> opened i s)"

text \<open>Configuring a connected stream keeps it or closes it.\<close>

locale socket_setup =
  fixes configure :: "nat \<Rightarrow> fd_table \<Rightarrow> (AtrError + nat) \<times> fd_table"
    and opened :: "u32 option \<Rightarrow> fd_state \<Rightarrow> bool"
    and ready :: "u32 option \<Rightarrow> fd_state \<Rightarrow> bool"
  assumes setup_fails: "configure fd t = (Inl e, t') \<Longrightarrow> t' = close_fd fd t"
    and setup_keeps: "opened i s \<Longrightarrow> configure fd (t(fd \<mapsto> s)) = (Inr fd', t') \<Longrightarrow> fd' = fd \<and> (\<exists>s'. t' = t(fd \<mapsto> s') \<and> ready i s')"

definition leaves_one :: "(fd_state \<Rightarrow> bool) \<Rightarrow> fd_table \<Rightarrow> AtrError + nat \<Rightarrow> fd_table \<Rightarrow> bool" where
  "leaves_one P t r t' \<longleftrightarrow>
     (case r of Inl _ \<Rightarrow> t' = t | Inr fd \<Rightarrow> t fd = None \<and> close_fd fd t' = t \<and> (\<exists>s. t' fd = Some s \<and> P s))"

lemma leaves_one_failed [simp]: "leaves_one P t (Inl e) t"
  by (simp add: leaves_one_def)

lemma leaves_one_mono: "leaves_one P t r t' \<Longrightarrow> (\<And>s. P s \<Longrightarrow> Q s) \<Longrightarrow> leaves_one Q t r t'"
  by (auto simp: leaves_one_def split: sum.splits)

text \<open>The interface is the one of the configuration, if that names one.\<close>

definition interface_asked :: "(string \<Rightarrow> AtrError + u32 option) \<Rightarrow> ClientConfig \<Rightarrow> u32 option \<Rightarrow> bool" where
  "interface_asked by_name config i \<longleftrightarrow>
     (\<forall>name index. bind_interface config = Some name \<and> by_name name = Inr (Some index) \<longrightarrow> i = Some index)"

text \<open>An attempt followed by the configuration.\<close>

locale configured_attempt = socket_attempt attempt opened free + socket_setup configure opened ready
  for attempt opened free configure ready
begin

lemma setup_leaves_one:
  assumes "t fd = None" "opened i s" "configure fd (t(fd \<mapsto> s)) = (r, t')"
  shows "leaves_one (ready i) t r t'"
  using assms setup_fails setup_keeps [OF assms(2)]
  by (cases r) (fastforce simp: leaves_one_def close_table)+

lemma configured_leaves_one:
  assumes "free t" "attempt i t = Some (Inr fd, t')" "configure fd t' = (r, t'')" "interface_asked by_name config i"
  shows "leaves_one (\<lambda>s. \<exists>i. interface_asked by_name config i \<and> ready i s) t r t''"
proof -
  from opens_one [OF assms(1,2)] obtain s where "t fd = None" "t' = t(fd \<mapsto> s)" "opened i s" by blast
  with setup_leaves_one assms(3) have "leaves_one (ready i) t r t''" by simp
  then show ?thesis by (rule leaves_one_mono) (use assms(4) in blast)
qed

end

text \<open>The two attempts of one connection.\<close>

locale bound_connection =
  first: configured_attempt once opened free configure ready + retry: configured_attempt again opened free' configure ready
  for once again opened free free' configure ready
begin

lemma bound_no_leak:
  assumes free: "free t" "free' t"
    and "connect_tcp_bound_fds by_name once again configure cached refreshed config t = Some (r, t')"
  shows "leaves_one (\<lambda>s. \<exists>i. interface_asked by_name config i \<and> ready i s) t r t'"
  using assms(3) unfolding connect_tcp_bound_fds_def Let_def
  by (auto split: sum.splits option.splits if_splits
      dest!: first.fails_closed [OF free(1)] retry.fails_closed [OF free(2)]
      elim!: first.configured_leaves_one [OF free(1)] retry.configured_leaves_one [OF free(2)])
    (simp_all add: interface_asked_def)

end

text \<open>Both systems provide the contract, for whatever the system calls return.\<close>

definition fresh_socket :: "io_error + nat \<Rightarrow> fd_table \<Rightarrow> bool" where
  "fresh_socket socket t \<longleftrightarrow> (\<forall>fd. socket = Inr fd \<longrightarrow> t fd = None)"

definition opened_socket :: "(SocketAddr \<Rightarrow> u32 \<Rightarrow> nat \<times> nat \<times> bytes) \<Rightarrow> SocketAddr \<Rightarrow> u32 option \<Rightarrow> fd_state \<Rightarrow> bool" where
  "opened_socket bound_to addr i s \<longleftrightarrow>
     fd_family s = socket_domain addr \<and> fd_bound s = map_option (bound_to addr) i \<and> fd_flags s AND O_NONBLOCK = 0"

definition ready_socket :: "(SocketAddr \<Rightarrow> u32 \<Rightarrow> nat \<times> nat \<times> bytes) \<Rightarrow> SocketAddr \<Rightarrow> u32 option \<Rightarrow> fd_state \<Rightarrow> bool" where
  "ready_socket bound_to addr i s \<longleftrightarrow> opened_socket bound_to addr i s \<and> fd_nodelay s"

lemma unix_attempt:
  assumes "fresh_socket (sy_socket calls) t" "connect_tcp_bound_once calls addr i t = Some (r, t')"
  shows "(\<exists>e. r = Inl e) \<and> t' = t \<or> (\<exists>fd s. r = Inr fd \<and> t fd = None \<and> t' = t(fd \<mapsto> s) \<and> opened_socket bound_option addr i s)"
proof (cases "sy_socket calls")
  case (Inl e)
  with assms(2) show ?thesis by (auto simp: connect_once_steps)
next
  case (Inr fd)
  with assms show ?thesis
    unfolding connect_once_steps by (auto simp: fresh_socket_def opened_socket_def elim!: attempt_steps)
qed

lemma same_entry: "t(fd \<mapsto> s) = t(fd \<mapsto> s') \<longleftrightarrow> s = s'"
  by (auto dest: map_upd_eqD1)

lemma windows_attempt:
  assumes "fresh_socket socket t" "windows_connect_tcp_bound_once socket bound connected addr i t = Some (r, t')"
  shows "(\<exists>e. r = Inl e) \<and> t' = t \<or> (\<exists>fd s. r = Inr fd \<and> t fd = None \<and> t' = t(fd \<mapsto> s) \<and> opened_socket windows_bound_option addr i s)"
  using assms
  by (auto simp: windows_connect_tcp_bound_once_def set_windows_bound_interface_def or_close_def fresh_socket_def opened_socket_def
      fresh_fd_def on_fd_def close_table same_entry O_NONBLOCK_def split: sum.splits option.splits)

lemma configure_contract: "socket_setup (configure_connected_tcp nodelay tuned plain) (opened_socket b addr) (ready_socket b addr)"
  by unfold_locales
    (auto simp: configure_connected_tcp_def ready_socket_def opened_socket_def on_fd_def split: option.splits)

interpretation unix: bound_connection "connect_tcp_bound_once calls addr" "connect_tcp_bound_once calls' addr" "opened_socket bound_option addr"
  "fresh_socket (sy_socket calls)" "fresh_socket (sy_socket calls')" "configure_connected_tcp nodelay tuned plain" "ready_socket bound_option addr"
  for calls calls' addr nodelay tuned plain
  unfolding bound_connection_def configured_attempt_def socket_attempt_def
  by (intro conjI allI impI configure_contract) (drule (1) unix_attempt; fastforce)+

interpretation windows: bound_connection "windows_connect_tcp_bound_once socket bound connected addr"
  "windows_connect_tcp_bound_once socket' bound' connected' addr" "opened_socket windows_bound_option addr"
  "fresh_socket socket" "fresh_socket socket'" "configure_connected_tcp nodelay tuned plain" "ready_socket windows_bound_option addr"
  for socket bound connected socket' bound' connected' addr nodelay tuned plain
  unfolding bound_connection_def configured_attempt_def socket_attempt_def
  by (intro conjI allI impI configure_contract) (drule (1) windows_attempt; fastforce)+

text \<open>One candidate on Unix.\<close>

lemma candidate_leaves_one:
  assumes "fresh_socket (sy_socket (ca_first calls)) t" "fresh_socket (sy_socket (ca_retry calls)) t"
    and "connect_candidate by_name config calls addr t = Some (r, t')"
  shows "leaves_one (\<lambda>s. \<exists>i. interface_asked by_name config i \<and> ready_socket bound_option addr i s) t r t'"
  by (rule unix.bound_no_leak [OF assms(1,2) assms(3) [unfolded connect_candidate_def]])

text \<open>The same on Windows, with the option of that system.\<close>

lemma windows_connect_no_fd_leak:
  assumes "fresh_socket socket t" "fresh_socket socket' t"
    and "connect_tcp_bound_fds by_name (windows_connect_tcp_bound_once socket bound connected addr) (windows_connect_tcp_bound_once socket' bound' connected' addr)
      (configure_connected_tcp nodelay tuned plain) cached refreshed config t = Some (r, t')"
  shows "leaves_one (\<lambda>s. \<exists>i. interface_asked by_name config i \<and> ready_socket windows_bound_option addr i s) t r t'"
  by (rule windows.bound_no_leak [OF assms])

text \<open>Trying candidates in turn: every failed one leaves the table as it was, so the next starts from the same table.\<close>

lemma any_leaves_one:
  assumes "\<And>i addr timeout r t'. connect i addr timeout t = Some (r, t') \<Longrightarrow> leaves_one (P addr) t r t'"
    and "connect_any_fds now connect deadline i addrs last_error t = Some (r, t')"
  shows "leaves_one (\<lambda>s. \<exists>addr\<in>set addrs. P addr s) t r t'"
  using assms(2)
proof (induction addrs arbitrary: i last_error)
  case Nil
  then show ?case by auto
next
  case (Cons addr rest)
  have failed: "u = t" if "connect j a timeout t = Some (Inl e, u)" for j a timeout e u
    using assms(1) [OF that] by (simp add: leaves_one_def)
  consider e where "r = Inl e" "t' = t"
    | fd where "r = Inr fd" "connect i addr (attempt_timeout (deadline - now i) (rest = [])) t = Some (Inr fd, t')"
    | e where "connect_any_fds now connect deadline (Suc i) rest (Some e) t = Some (r, t')"
    using Cons.prems by (auto simp: Let_def split: if_splits option.splits sum.splits dest!: failed)
  then show ?case
  proof cases
    case 1
    then show ?thesis by simp
  next
    case 2
    with assms(1) have "leaves_one (P addr) t r t'" by blast
    then show ?thesis by (rule leaves_one_mono) simp
  next
    case 3
    show ?thesis by (rule leaves_one_mono [OF Cons.IH [OF 3]]) auto
  qed
qed

text \<open>
  C20. Connecting never leaks a descriptor. The system hands out unused descriptors. When \<open>connect_tcp_any\<close> fails, after whatever
  failures of the attempts, the retries and the configuration for each of its addresses, the table of open descriptors is as
  before. When it succeeds, exactly one descriptor is new: a blocking socket of the family of one of the addresses with
  \<open>TCP_NODELAY\<close> set, bound to the interface that was tried, which is the one the configuration names, if it names one.
\<close>

theorem connect_no_fd_leak:
  assumes "\<And>i. fresh_socket (sy_socket (ca_first (calls i))) t" "\<And>i. fresh_socket (sy_socket (ca_retry (calls i))) t"
    and "connect_any_fds now (\<lambda>i addr _. connect_candidate by_name config (calls i) addr) deadline 0 addrs None t = Some (r, t')"
  shows "leaves_one (\<lambda>s. \<exists>addr\<in>set addrs. \<exists>i. interface_asked by_name config i \<and> ready_socket bound_option addr i s) t r t'"
  by (rule any_leaves_one [OF _ assms(3)]) (rule candidate_leaves_one [OF assms(1,2)])

definition demo_calls :: "bool \<Rightarrow> attempt_calls" where
  "demo_calls refused = \<lparr>sy_socket = Inr 7, sy_bind = None, sy_sigpipe = None, sy_nonblock = (None, None),
     sy_connect = Some ((OtherKind, ''Operation now in progress''), True), sy_poll = [PollError (Interrupted, ''EINTR''), PollReady],
     sy_so_error = Inr (if refused then Some (OtherKind, ''Connection refused'') else None), sy_block = (None, None)\<rparr>"

definition demo_candidate :: "nat \<Rightarrow> candidate_calls" where
  "demo_candidate i = \<lparr>ca_first = demo_calls (i = 0), ca_retry = demo_calls True, ca_nodelay = None, ca_tuned = None, ca_plain = None,
     ca_cached = None, ca_refreshed = Some 9\<rparr>"

definition demo_bound_config :: ClientConfig where
  "demo_bound_config = default_client_config\<lparr>bind_interface := Some ''en0'', auto_detect_interface := False\<rparr>"

theorem connect_no_fd_leak_witness:
  "\<exists>t'. connect_any_fds (\<lambda>i. i) (\<lambda>i addr _. connect_candidate (interface_index_by_name (\<lambda>_. 4)) demo_bound_config (demo_candidate i) addr)
       20000 0 [(V6 [0, 0, 0, 0, 0, 0, 0, 1], 443), (V4 1, 443)] None Map.empty = Some (Inr 7, t') \<and>
     leaves_one (\<lambda>s. \<exists>addr\<in>set [(V6 [0, 0, 0, 0, 0, 0, 0, 1], 443), (V4 1, 443)].
       \<exists>i. interface_asked (interface_index_by_name (\<lambda>_. 4)) demo_bound_config i \<and> ready_socket bound_option addr i s) Map.empty (Inr 7) t'"
proof -
  let ?run = "connect_any_fds (\<lambda>i. i) (\<lambda>i addr _. connect_candidate (interface_index_by_name (\<lambda>_. 4)) demo_bound_config (demo_candidate i) addr)
       20000 0 [(V6 [0, 0, 0, 0, 0, 0, 0, 1], 443), (V4 1, 443)] None Map.empty"
  have "map_option fst ?run = Some (Inr 7)"
    by code_simp
  then obtain t' where run: "?run = Some (Inr 7, t')" by (cases ?run) auto
  have "fresh_socket (sy_socket (ca_first (demo_candidate i))) Map.empty" "fresh_socket (sy_socket (ca_retry (demo_candidate i))) Map.empty" for i
    by (simp_all add: fresh_socket_def)
  from connect_no_fd_leak [OF this run] run show ?thesis by blast
qed

text \<open>The host part of an endpoint.\<close>

definition endpoint_host :: "string \<Rightarrow> string" where
  "endpoint_host addr =
     (case parse_socket_addr addr of
        Some (ip, _) \<Rightarrow> show_ip ip
      | None \<Rightarrow> (case rsplit_once CHR '':'' addr of Some (h, _) \<Rightarrow> trim_matches ''[]'' h | None \<Rightarrow> addr))"

lemma tls_server_name_for_host:
  "tls_server_name_for addr cfg = Inr name \<longleftrightarrow>
     (if parse_ip (endpoint_host addr) = None then name = endpoint_host addr else name = server_host cfg \<and> name \<noteq> [])"
  by (auto simp: tls_server_name_for_def endpoint_host_def Let_def split: option.splits)

lemma verify_server_cert_iff:
  "verify_server_cert roots (client_tls_config insecure) name cert \<longleftrightarrow> insecure \<or> roots name cert"
  by (simp add: client_tls_config_def)

lemma connect_tls_Inr:
  assumes "connect_tls resolve connect write_timeout valid_name tls_new addr cfg = Inr (tcp, verifier, name)"
  obtains addrs where "addrs \<noteq> []" "resolve addr = Inr addrs" "connect addrs (max (unat (connect_timeout_ms cfg)) 1) = Inr tcp"
    "set_timeout write_timeout (io_timeout_ms cfg) = None" "tls_server_name_for addr cfg = Inr name" "valid_name name"
    "tls_new verifier name = None" "verifier = client_tls_config (allow_insecure_tls cfg)"
proof -
  obtain a as where resolved: "resolve addr = Inr (a # as)"
    using assms by (cases "resolve addr"; cases "projr (resolve addr)") (auto simp: connect_tls_def)
  have timeout: "set_timeout write_timeout (io_timeout_ms cfg) = None"
    using assms resolved by (cases "set_timeout write_timeout (io_timeout_ms cfg)") (auto simp: connect_tls_def bindR_eq_Inr)
  from assms show thesis
    using that [of "a # as"] unfolding connect_tls_def
    by (auto simp: resolved timeout bindR_eq_Inr split: option.split_asm if_split_asm)
qed

text \<open>
  C21. Whom a TLS connection authenticates. A connection is set up only to a resolved address, within the connect timeout (at least a
  millisecond). It verifies certificates against the built-in roots exactly when the configuration does not allow insecure TLS: then
  every accepted certificate is valid for the name. The name is the host part of the address, never
  an IP literal; for an IP literal it is the configured server name, without which there is no connection. A zero I/O
  timeout never connects.
\<close>

theorem tls_peer_verified:
  assumes "connect_tls resolve connect write_timeout valid_name tls_new addr cfg = Inr (tcp, verifier, name)"
  shows "(verify_server_cert roots verifier name cert \<longleftrightarrow> allow_insecure_tls cfg \<or> roots name cert) \<and>
    (verifier = NoVerifier \<longleftrightarrow> allow_insecure_tls cfg) \<and>
    valid_name name \<and> name = (if parse_ip (endpoint_host addr) = None then endpoint_host addr else server_host cfg) \<and>
    (parse_ip name = None \<or> name = server_host cfg \<and> name \<noteq> []) \<and>
    (\<exists>addrs. addrs \<noteq> [] \<and> resolve addr = Inr addrs \<and> connect addrs (max (unat (connect_timeout_ms cfg)) 1) = Inr tcp) \<and>
    io_timeout_ms cfg \<noteq> 0"
  using assms
proof (rule connect_tls_Inr)
  fix addrs
  assume "addrs \<noteq> []" "resolve addr = Inr addrs" "connect addrs (max (unat (connect_timeout_ms cfg)) 1) = Inr tcp"
    "set_timeout write_timeout (io_timeout_ms cfg) = None" "valid_name name"
    and host: "tls_server_name_for addr cfg = Inr name" and verifier: "verifier = client_tls_config (allow_insecure_tls cfg)"
  moreover from host have "name = (if parse_ip (endpoint_host addr) = None then endpoint_host addr else server_host cfg)"
    "parse_ip name = None \<or> name = server_host cfg \<and> name \<noteq> []"
    by (auto simp: tls_server_name_for_host split: if_splits)
  moreover from verifier have "verifier = NoVerifier \<longleftrightarrow> allow_insecure_tls cfg"
    by (simp add: client_tls_config_def)
  ultimately show ?thesis
    by (auto simp: verify_server_cert_iff set_timeout_def split: if_splits)
qed

definition demo_tls_config :: ClientConfig where
  "demo_tls_config = default_client_config\<lparr>server_host := ''vpn.example.org''\<rparr>"

theorem tls_peer_verified_witness:
  "connect_tls (\<lambda>_. Inr [(V4 1, 441)]) (\<lambda>addrs _. Inr (hd addrs)) None (\<lambda>n. n \<noteq> []) (\<lambda>_ _. None) ''10.1.2.3:441'' demo_tls_config =
     Inr ((V4 1, 441), WebPkiRoots, ''vpn.example.org'') \<and>
   \<not> verify_server_cert (\<lambda>n c. c = [1]) WebPkiRoots ''vpn.example.org'' [2]"
proof -
  have run: "connect_tls (\<lambda>_. Inr [(V4 1, 441)]) (\<lambda>addrs _. Inr (hd addrs)) None (\<lambda>n. n \<noteq> []) (\<lambda>_ _. None) ''10.1.2.3:441'' demo_tls_config =
     Inr ((V4 1, 441), WebPkiRoots, ''vpn.example.org'')"
    by code_simp
  have "\<not> allow_insecure_tls demo_tls_config"
    by (simp add: demo_tls_config_def default_client_config_def)
  with tls_peer_verified [OF run, of "\<lambda>n c. c = [1]" "[2]"] run show ?thesis by simp
qed

text \<open>With an I/O timeout of zero no endpoint can be reached, although the connection itself was made.\<close>

lemma zero_io_timeout_never_connects:
  assumes "io_timeout_ms cfg = 0" "resolve addr = Inr (a # as)" "connect (a # as) (max (unat (connect_timeout_ms cfg)) 1) = Inr tcp"
  shows "connect_tls resolve connect write_timeout valid_name tls_new addr cfg = Inl (NetworkFailed ''cannot set a 0 duration timeout'')"
  using assms by (simp add: connect_tls_def set_timeout_def from_io_error_def)


section \<open>The Windows choice of an interface\<close>

definition default_route_up :: "u32 list \<Rightarrow> forward_row \<Rightarrow> bool" where
  "default_route_up up row \<longleftrightarrow> fw_prefix_len row = 0 \<and> fw_interface row \<in> set up"

lemma effective_metric_sum:
  "unat (effective_metric row) =
     min (unat (fw_metric row) + unat (case fw_interface_metric row of Some v \<Rightarrow> v | None \<Rightarrow> 0)) (2 ^ 32 - 1)"
proof -
  have "unat (saturating_add a b) = min (unat a + unat b) (2 ^ 32 - 1)" for a b :: u32
  proof (cases "unat a + unat b < 2 ^ 32")
    case True
    then show ?thesis by (simp add: saturating_add_def unat_word_ariths)
  next
    case False
    moreover have "unat (- 1 :: u32) = 2 ^ 32 - 1" by code_simp
    ultimately show ?thesis by (simp add: saturating_add_def)
  qed
  then show ?thesis unfolding effective_metric_def by blast
qed

text \<open>The loop keeps the best route so far.\<close>

lemma best_route_invariant:
  "case best_route up rows best of
     None \<Rightarrow> best = None \<and> (\<forall>row\<in>set rows. \<not> default_route_up up row)
   | Some (i, m) \<Rightarrow>
       (best = Some (i, m) \<or> (\<exists>row\<in>set rows. default_route_up up row \<and> i = fw_interface row \<and> m = effective_metric row)) \<and>
       (\<forall>row\<in>set rows. default_route_up up row \<longrightarrow> m \<le> effective_metric row) \<and> (\<forall>b. best = Some b \<longrightarrow> m \<le> snd b)"
proof (induction rows arbitrary: best)
  case Nil
  then show ?case by (auto split: option.split)
next
  case (Cons row rows)
  show ?case
  proof (cases "default_route_up up row \<and> (best = None \<or> effective_metric row < snd (the best))")
    case True
    then have step: "best_route up (row # rows) best = best_route up rows (Some (fw_interface row, effective_metric row))"
      by (auto simp: default_route_up_def split: option.split)
    show ?thesis
      unfolding step using Cons [of "Some (fw_interface row, effective_metric row)"] True
      by (auto split: option.splits prod.splits)
  next
    case False
    then have step: "best_route up (row # rows) best = best_route up rows best"
      by (auto simp: default_route_up_def split: option.split)
    show ?thesis
      unfolding step using Cons [of best] False
      by (auto split: option.splits prod.splits)
  qed
qed

lemma windows_adapters_operational:
  "windows_adapters size_result list_result entries = Inr l \<Longrightarrow> (name, index, kind) \<in> set l \<Longrightarrow>
     index \<noteq> 0 \<and> (\<exists>a\<in>set entries. ad_up a \<and> ad_if_index a = index)"
  by (auto simp: windows_adapters_def split: if_splits)

lemma windows_default_route_lowest:
  assumes "windows_default_route_interface (Inr l) (Some rows) = Some i"
  obtains row where "row \<in> set rows" "default_route_up (map (fst \<circ> snd) l) row" "i = fw_interface row"
    "\<And>row'. row' \<in> set rows \<Longrightarrow> default_route_up (map (fst \<circ> snd) l) row' \<Longrightarrow> effective_metric row \<le> effective_metric row'"
proof -
  have up: "map (\<lambda>(_, index, _). index) l = map (fst \<circ> snd) l" by (auto simp: case_prod_beta)
  from assms obtain m where "best_route (map (fst \<circ> snd) l) rows None = Some (i, m)"
    unfolding windows_default_route_interface_def by (auto simp: up)
  with best_route_invariant [where up = "map (fst \<circ> snd) l" and rows = rows and best = None] that show thesis by auto
qed

lemma windows_no_default_route:
  "windows_default_route_interface (Inr l) (Some rows) = None \<longleftrightarrow> (\<forall>row\<in>set rows. \<not> default_route_up (map (fst \<circ> snd) l) row)"
proof -
  have up: "map (\<lambda>(_, index, _). index) l = map (fst \<circ> snd) l" by (auto simp: case_prod_beta)
  show ?thesis
    using best_route_invariant [where up = "map (fst \<circ> snd) l" and rows = rows and best = None]
    unfolding windows_default_route_interface_def by (auto simp: up split: option.splits)
qed

text \<open>
  The interface chosen on Windows is always an operational adapter, and it carries a default route of the lowest effective metric
  when any operational adapter has a default route.
\<close>

theorem windows_interface_choice:
  assumes "windows_adapters size_result list_result entries = Inr l"
    and "windows_compute_default_interface_index (Inr l) (Some rows) (Inr l) = Some i"
  shows "(\<exists>a\<in>set entries. ad_up a \<and> ad_if_index a = i \<and> i \<noteq> 0) \<and>
    ((\<exists>row\<in>set rows. default_route_up (map (fst \<circ> snd) l) row) \<longrightarrow>
     (\<exists>row\<in>set rows. default_route_up (map (fst \<circ> snd) l) row \<and> i = fw_interface row \<and>
       (\<forall>row'\<in>set rows. default_route_up (map (fst \<circ> snd) l) row' \<longrightarrow> effective_metric row \<le> effective_metric row')))"
proof (cases "windows_default_route_interface (Inr l) (Some rows)")
  case None
  have "i \<in> fst ` snd ` set l"
    using assms(2) None
    by (auto simp: windows_compute_default_interface_index_def filter_eq_Cons_iff image_iff split: list.splits)
  with windows_adapters_operational [OF assms(1)] None show ?thesis
    by (fastforce simp: windows_no_default_route)
next
  case (Some j)
  with assms(2) have "j = i" by (simp add: windows_compute_default_interface_index_def)
  obtain row where row: "row \<in> set rows" "default_route_up (map (fst \<circ> snd) l) row" "i = fw_interface row"
    "\<And>row'. row' \<in> set rows \<Longrightarrow> default_route_up (map (fst \<circ> snd) l) row' \<Longrightarrow> effective_metric row \<le> effective_metric row'"
    using windows_default_route_lowest [OF Some [unfolded \<open>j = i\<close>]] by blast
  then have "i \<in> fst ` snd ` set l" by (auto simp: default_route_up_def)
  with windows_adapters_operational [OF assms(1)] have "\<exists>a\<in>set entries. ad_up a \<and> ad_if_index a = i \<and> i \<noteq> 0" by fastforce
  with row show ?thesis by blast
qed

section \<open>Further facts\<close>

text \<open>A wait on Windows never ends before the deadline it was given, and less than a millisecond after it.\<close>

lemma wsa_timeout_rounds_up:
  "us \<le> 2147483647000 \<Longrightarrow> int us \<le> 1000 * wsa_timeout_ms (Some us) \<and> 1000 * wsa_timeout_ms (Some us) < int us + 1000"
proof -
  assume "us \<le> 2147483647000"
  then have small: "(us + 999) div 1000 \<le> 2147483647" by auto
  have "us \<le> 1000 * ((us + 999) div 1000)" "1000 * ((us + 999) div 1000) < us + 1000" by auto
  with small show ?thesis by (simp add: wsa_timeout_ms_def del: of_nat_add of_nat_div)
qed

text \<open>The C address determines the address.\<close>

lemma u16_be_inject: "u16_to_be_bytes p = u16_to_be_bytes q \<Longrightarrow> p = q"
  unfolding u16_to_be_bytes_def by (metis list.inject u16_from_to_be_bytes)

lemma concat_be_inject: "concat (map u16_to_be_bytes xs) = concat (map u16_to_be_bytes ys) \<Longrightarrow> xs = ys"
proof (induction xs arbitrary: ys)
  case Nil
  then show ?case by (cases ys) (auto simp: u16_to_be_bytes_def)
next
  case (Cons x xs)
  from Cons.prems obtain y ys' where "ys = y # ys'" by (cases ys) (auto simp: u16_to_be_bytes_def)
  with Cons show ?case by (auto simp: append_eq_append_conv dest: u16_be_inject)
qed

lemma sockaddr_storage_inject: "sockaddr_storage flow scope a = sockaddr_storage flow' scope' b \<Longrightarrow> a = b"
  by (cases a; cases "fst a"; cases b; cases "fst b")
    (auto simp: sockaddr_storage_def octets_inj dest: u16_be_inject concat_be_inject)

lemma wait_for_connect_ends:
  "(\<exists>r\<in>set polls. \<forall>e. r = PollError e \<longrightarrow> fst e \<noteq> Interrupted) \<Longrightarrow> \<exists>r. wait_for_connect polls so_error = Some r"
  by (induction polls so_error rule: wait_for_connect.induct) auto


text \<open>
  A remote exists only when the gateway has accepted the session on its stream; it starts open, with no flow and nothing queued, and
  the virtual addresses are those the gateway gave. A failed connection leaves the list alone, or has stored those addresses.
\<close>

lemma l3_remote_authenticated:
  assumes "l3_remote_connect open_tls on hex_decode from_slice sid_json off pair spawn client session addr vips = Some (Inr (r, key, c'), vips')"
  obtains c where "open_tls addr (cl_config client) = Inr c" "hex_decode (sm_sign_key_hex session) = Inr key"
    "authenticate_l3_stream from_slice sid_json
       \<lparr>ci_sid = sm_sid session, ci_device_id = sm_device_id session, ci_connection_id = sm_connection_id session\<rparr> vips c = Some (Inr vips', c')"
    "r = \<lparr>rm_queue = [], rm_worker_alive = True, rm_closed = False, rm_mgr = mgr_new\<rparr>"
  using assms unfolding l3_remote_connect_def
  by (auto split: sum.split_asm option.split_asm prod.split_asm)


text \<open>Where the attempts return whatever the table holds, the connection returns what the one without descriptors returns.\<close>

lemma connect_tcp_bound_fds_refines:
  assumes once: "\<And>i t. map_option fst (once i t) = Some (result i)" "\<And>i t. map_option fst (again i t) = Some (result i)"
    and conf: "\<And>fd t. fst (configure fd t) = conf fd"
  shows "map_option fst (connect_tcp_bound_fds by_name once again configure cached refreshed config t) =
    Some (fst (connect_tcp_bound by_name result conf cached refreshed config))"
proof -
  have one: "\<exists>t'. once i t = Some (result i, t')" for i t
    using once(1) [of i t] by auto
  have two: "\<exists>t'. again i t = Some (result i, t')" for i t
    using once(2) [of i t] by auto
  have configured: "\<exists>t'. configure fd t = (conf fd, t')" for fd t
    using conf [of fd t] by (cases "configure fd t") auto
  let ?manual = "case bind_interface config of None \<Rightarrow> Inr None | Some name \<Rightarrow> by_name name"
  show ?thesis
  proof (cases ?manual)
    case (Inl e)
    then show ?thesis by (simp add: connect_tcp_bound_fds_def connect_tcp_bound_def)
  next
    case (Inr manual)
    define auto_detect where "auto_detect \<longleftrightarrow> manual = None \<and> auto_detect_interface config"
    define selected where "selected = (case manual of Some i \<Rightarrow> Some i | None \<Rightarrow> if auto_detect then cached else None)"
    obtain t' where first: "once selected t = Some (result selected, t')" using one by blast
    obtain t'' where retry: "again refreshed t' = Some (result refreshed, t'')" using two by blast
    show ?thesis
      unfolding connect_tcp_bound_fds_def connect_tcp_bound_def Inr sum.case Let_def
        auto_detect_def [symmetric] selected_def [symmetric] first option.case prod.case retry
      by (auto simp: is_ok_def configured split: sum.split)
  qed
qed


end
