(* ===== verification/L3_Buffer.thy ===== *)
theory L3_Buffer
  imports L3_Remote
begin

text \<open>
  The buffered stream of a layer-3 worker (transport.rs). The frame readers of the source are generic in the reader:
  here they are written once for any reader, with the interface they need as the locale \<open>reader\<close>, interpreted on the
  plain stream, where they are the readers of \<open>L3_Remote\<close>, and on \<open>L3BufferedStream\<close>. A loop over an unknown reader
  may not end: it is a partial function whose value is then \<open>None\<close>.
\<close>

section \<open>Generic readers\<close>

type_synonym ('s, 'a) reads = "'s \<Rightarrow> ((AtrError + 'a) \<times> 's) option"
type_synonym 's read_fn = "nat \<Rightarrow> 's \<Rightarrow> ((io_error + bytes) \<times> 's) option"

definition rd_return :: "'a \<Rightarrow> ('s, 'a) reads" where
  "rd_return a s = Some (Inr a, s)"

definition rd_err :: "AtrError \<Rightarrow> ('s, 'a) reads" where
  "rd_err e s = Some (Inl e, s)"

definition rd_bind :: "('s, 'a) reads \<Rightarrow> ('a \<Rightarrow> ('s, 'b) reads) \<Rightarrow> ('s, 'b) reads" where
  "rd_bind m f s =
     (case m s of
        None \<Rightarrow> None
      | Some (Inl e, s') \<Rightarrow> Some (Inl e, s')
      | Some (Inr a, s') \<Rightarrow> f a s')"

text \<open>\<open>read_tunnel_exact\<close> with the part of the buffer filled so far, and \<open>read_tunnel_exact_blocking\<close>.\<close>

partial_function (option) exact_from :: "'s read_fn \<Rightarrow> nat \<Rightarrow> bytes \<Rightarrow> ('s, bytes option) reads" where
  "exact_from read n got s =
     (if n \<le> length got then Some (Inr (Some got), s)
      else case read (n - length got) s of
        None \<Rightarrow> None
      | Some (Inr b, s') \<Rightarrow>
          if b = [] then
            Some (Inl (NetworkFailed
              (if got = [] then ''connection closed by server''
               else ''unexpected eof in tcp tunnel frame'')), s')
          else exact_from read n (got @ b) s'
      | Some (Inl e, s') \<Rightarrow>
          if transient e then
            (if got = [] then Some (Inr None, s') else exact_from read n got s')
          else Some (Inl (from_io_error e), s'))"

partial_function (option) blocking_from :: "'s read_fn \<Rightarrow> nat \<Rightarrow> ('s, bytes) reads" where
  "blocking_from read n s =
     (case exact_from read n [] s of
        None \<Rightarrow> None
      | Some (Inl e, s') \<Rightarrow> Some (Inl e, s')
      | Some (Inr (Some b), s') \<Rightarrow> Some (Inr b, s')
      | Some (Inr None, s') \<Rightarrow> blocking_from read n s')"

fun token_packets_from :: "'s read_fn \<Rightarrow> nat \<Rightarrow> bytes \<Rightarrow> ('s, bytes) reads" where
  "token_packets_from read 0 payload = rd_return payload"
| "token_packets_from read (Suc k) payload =
     rd_bind (blocking_from read 2) (\<lambda>l.
     let plen = unat (u16_from_be_bytes (l ! 0) (l ! 1)) in
     if 0 < plen then
       rd_bind (blocking_from read plen) (\<lambda>pkt. token_packets_from read k (payload @ l @ pkt))
     else token_packets_from read k (payload @ l))"

definition data_resp_payload_from :: "'s read_fn \<Rightarrow> ('s, bytes \<times> DataMode) reads" where
  "data_resp_payload_from read =
     rd_bind (blocking_from read 2) (\<lambda>peek.
     let payload_len = unat (u16_from_be_bytes (peek ! 0) (peek ! 1)) in
     if 0 < payload_len \<and> payload_len \<le> 4096 then
       rd_bind (blocking_from read payload_len) (\<lambda>payload. rd_return (payload, Len))
     else
       rd_bind (if 0 < unat (peek ! 0) then blocking_from read (unat (peek ! 0)) else rd_return []) (\<lambda>token.
       rd_bind (blocking_from read 2) (\<lambda>reserved.
       rd_bind (blocking_from read 1) (\<lambda>count.
       rd_bind (token_packets_from read (unat (count ! 0)) ([peek ! 0] @ token @ reserved @ count)) (\<lambda>payload.
       rd_return (payload, Token))))))"

definition len_payload_from :: "'s read_fn \<Rightarrow> ('s, bytes) reads" where
  "len_payload_from read =
     rd_bind (blocking_from read 2) (\<lambda>l.
     let len = unat (u16_from_be_bytes (l ! 0) (l ! 1)) in
     if 0 < len then blocking_from read len else rd_return [])"

definition frame_body_from :: "'s read_fn \<Rightarrow> bytes \<Rightarrow> ('s, Frame option) reads" where
  "frame_body_from read header =
     (if header ! 0 = 0x05 \<and> (header ! 1 = 0x93 \<or> header ! 1 = 0x96) then
        rd_bind (blocking_from read 3) (\<lambda>sl.
        let len = unat (u16_from_be_bytes (sl ! 1) (sl ! 2)) in
        rd_bind (if 0 < len then blocking_from read len else rd_return []) (\<lambda>payload.
        rd_return (Some \<lparr>fr_cmd = header ! 1, fr_status = sl ! 0, fr_payload = payload, fr_data_mode = Len\<rparr>)))
      else if header = [0x05, 0x94] then
        rd_bind (data_resp_payload_from read) (\<lambda>(payload, mode).
        rd_return (Some \<lparr>fr_cmd = 0x94, fr_status = 0, fr_payload = payload, fr_data_mode = mode\<rparr>))
      else if header ! 0 = 0x05 then
        rd_bind (len_payload_from read) (\<lambda>payload.
        rd_return (Some \<lparr>fr_cmd = header ! 1, fr_status = 0, fr_payload = payload, fr_data_mode = Len\<rparr>))
      else if header = [0x53, 0x00] then
        rd_bind (len_payload_from read) (\<lambda>_. rd_return None)
      else
        rd_err (ParseFailed (''unexpected frame header '' @ hex2 (header ! 0) @ '' '' @ hex2 (header ! 1))))"

partial_function (option) frame_available_from :: "'s read_fn \<Rightarrow> ('s, Frame option) reads" where
  "frame_available_from read s =
     (case exact_from read 2 [] s of
        None \<Rightarrow> None
      | Some (Inl e, s') \<Rightarrow> Some (Inl e, s')
      | Some (Inr None, s') \<Rightarrow> Some (Inr None, s')
      | Some (Inr (Some header), s') \<Rightarrow>
          (case frame_body_from read header s' of
             None \<Rightarrow> None
           | Some (Inl e, s'') \<Rightarrow> Some (Inl e, s'')
           | Some (Inr (Some frame), s'') \<Rightarrow> Some (Inr (Some frame), s'')
           | Some (Inr None, s'') \<Rightarrow> frame_available_from read s''))"

lemmas [code] = exact_from.simps blocking_from.simps frame_available_from.simps

section \<open>The buffered stream\<close>

record L3BufferedStream =
  bs_buf :: bytes
  bs_conn :: conn

definition BUF_CAPACITY :: nat where
  "BUF_CAPACITY = 64 * 1024"

definition buffered_new :: "conn \<Rightarrow> L3BufferedStream" where
  "buffered_new stream = \<lparr>bs_buf = [], bs_conn = stream\<rparr>"

text \<open>
  \<open>Read::read\<close>, which is that of \<open>BufReader\<close>: an empty buffer is filled by one read of its capacity, unless the caller asks for
  at least as much, who then reads from the stream itself. Writes and flushes go to the stream.
\<close>

definition buffered_read :: "L3BufferedStream read_fn" where
  "buffered_read n s =
     (if bs_buf s \<noteq> [] then Some (Inr (take n (bs_buf s)), s\<lparr>bs_buf := drop n (bs_buf s)\<rparr>)
      else if BUF_CAPACITY \<le> n then
        map_option (\<lambda>(r, evs). (r, s\<lparr>bs_conn := (bs_conn s)\<lparr>rx := evs\<rparr>\<rparr>)) (read_call n (rx (bs_conn s)))
      else case read_call BUF_CAPACITY (rx (bs_conn s)) of
        None \<Rightarrow> None
      | Some (Inl e, evs) \<Rightarrow> Some (Inl e, s\<lparr>bs_conn := (bs_conn s)\<lparr>rx := evs\<rparr>\<rparr>)
      | Some (Inr b, evs) \<Rightarrow> Some (Inr (take n b), \<lparr>bs_buf = drop n b, bs_conn = (bs_conn s)\<lparr>rx := evs\<rparr>\<rparr>))"

definition buffered_io :: "'a io \<Rightarrow> (L3BufferedStream, 'a) reads" where
  "buffered_io m s = map_option (\<lambda>(r, c). (r, s\<lparr>bs_conn := c\<rparr>)) (m (bs_conn s))"

definition buffered_write :: "bytes \<Rightarrow> (L3BufferedStream, unit) reads" where
  "buffered_write data = buffered_io (write_all data)"

definition buffered_flush :: "(L3BufferedStream, unit) reads" where
  "buffered_flush = buffered_io flush"

text \<open>One read of the plain stream.\<close>

definition plain_read :: "conn read_fn" where
  "plain_read n c = map_option (\<lambda>(r, evs). (r, c\<lparr>rx := evs\<rparr>)) (read_call n (rx c))"

text \<open>A batch of frames read through the buffered stream.\<close>

fun drain_buffered_frames ::
  "(bytes \<Rightarrow> string + AuthResponseIp) \<Rightarrow> nat \<Rightarrow> nat \<Rightarrow> L3BufferedStream \<Rightarrow> l3_worker \<Rightarrow> ((AtrError + bool) \<times> L3BufferedStream \<times> l3_worker) option" where
  "drain_buffered_frames from_slice now 0 s w = Some (Inr True, s, w)"
| "drain_buffered_frames from_slice now (Suc k) s w =
     (case frame_available_from buffered_read s of
        None \<Rightarrow> None
      | Some (Inl e, s') \<Rightarrow> Some (Inl e, s', w)
      | Some (Inr None, s') \<Rightarrow> Some (Inr False, s', w)
      | Some (Inr (Some frame), s') \<Rightarrow>
          (case handle_l3_remote_frame from_slice frame (w\<lparr>lw_live := record_frame (fr_cmd frame) now (lw_live w)\<rparr>) of
             None \<Rightarrow> None
           | Some (Inl e, w') \<Rightarrow> Some (Inl e, s', w')
           | Some (Inr _, w') \<Rightarrow> drain_buffered_frames from_slice now k s' w'))"

section \<open>Simulation\<close>

text \<open>A program on a reader simulates one on a stream that the reader's state presents.\<close>

definition sim :: "('s \<Rightarrow> conn) \<Rightarrow> ('s, 'a) reads \<Rightarrow> 'a io \<Rightarrow> bool" where
  "sim view m m' \<longleftrightarrow> (\<forall>s. map_option (map_prod id view) (m s) = m' (view s))"

named_theorems sim_intros

lemma simD: "sim view m m' \<Longrightarrow> m' (view s) = map_option (map_prod id view) (m s)"
  by (simp add: sim_def)

lemma sim_return [sim_intros]: "sim view (rd_return a) (io_return a)"
  by (simp add: sim_def rd_return_def io_return_def)

lemma sim_err [sim_intros]: "sim view (rd_err e) (io_err e)"
  by (simp add: sim_def rd_err_def io_err_def)

lemma sim_bind [sim_intros]:
  assumes "sim view m m'" "\<And>a. sim view (f a) (f' a)"
  shows "sim view (rd_bind m f) (io_bind m' f')"
  unfolding sim_def
proof
  fix s
  show "map_option (map_prod id view) (rd_bind m f s) = io_bind m' f' (view s)"
    using simD [OF assms(1), of s] simD [OF assms(2)]
    by (auto simp: rd_bind_def io_bind_def split: option.splits sum.splits prod.splits)
qed

lemma sim_if [sim_intros]:
  "(P \<Longrightarrow> sim view m m') \<Longrightarrow> (\<not> P \<Longrightarrow> sim view q q') \<Longrightarrow> sim view (if P then m else q) (if P then m' else q')"
  by simp

lemma sim_case_prod [sim_intros]:
  "(\<And>a b. sim view (f a b) (f' a b)) \<Longrightarrow> sim view (case p of (a, b) \<Rightarrow> f a b) (case p of (a, b) \<Rightarrow> f' a b)"
  by (cases p) simp

text \<open>Two states of a stream that differ in what is left to read.\<close>

definition only_rx :: "conn \<Rightarrow> conn \<Rightarrow> bool" where
  "only_rx c c' \<longleftrightarrow> c' = c\<lparr>rx := rx c'\<rparr>"

lemma only_rx_refl [simp]: "only_rx c c"
  by (simp add: only_rx_def)

lemma only_rx_update [simp]: "only_rx c (c\<lparr>rx := evs\<rparr>)"
  by (simp add: only_rx_def)

lemma only_rx_trans: "only_rx a b \<Longrightarrow> only_rx b c \<Longrightarrow> only_rx a c"
  unfolding only_rx_def by (cases a; cases b; cases c) simp

text \<open>
  What the frame readers rely on: a read of at most what a 16-bit length can ask for acts as one on the stream
  presented, and an error is only reported by a reader that holds nothing back.
\<close>

locale reader =
  fixes read :: "'s read_fn"
    and view :: "'s \<Rightarrow> conn"
    and drained :: "'s \<Rightarrow> bool"
  assumes read_sim: "0 < n \<Longrightarrow> n < 65536 \<Longrightarrow> map_option (map_prod id view) (read n s) = plain_read n (view s)"
    and error_drained: "0 < n \<Longrightarrow> n < 65536 \<Longrightarrow> read n s = Some (Inl e, s') \<Longrightarrow> drained s'"
begin

lemma read_None: "0 < n \<Longrightarrow> n < 65536 \<Longrightarrow> read_call n (rx (view s)) = None \<longleftrightarrow> read n s = None"
  using read_sim [of n s] by (cases "read n s"; cases "read_call n (rx (view s))") (auto simp: plain_read_def)

lemma read_Some:
  assumes "0 < n" "n < 65536" "read n s = Some (r, s')"
  shows "read_call n (rx (view s)) = Some (r, rx (view s')) \<and> only_rx (view s) (view s')"
  using read_sim [OF assms(1,2), of s] assms(3) by (cases "read_call n (rx (view s))") (auto simp: plain_read_def)

text \<open>The loop that fills a buffer.\<close>

lemma exact_loop:
  assumes "n < 65536" "rx (view s) = evs"
  shows "(case exact_from read n got s of
      None \<Rightarrow> read_exact_loop n got evs = None
    | Some (r, s') \<Rightarrow> read_exact_loop n got evs = Some (r, rx (view s')) \<and> only_rx (view s) (view s') \<and>
        (r = Inr None \<longrightarrow> drained s'))"
  using assms
proof (induction n got evs arbitrary: s rule: read_exact_loop.induct)
  case (1 n got evs)
  show ?case
  proof (cases "n \<le> length got")
    case True
    then show ?thesis by (simp add: exact_from.simps [of read n got] read_exact_loop.simps "1.prems"(2))
  next
    case False
    let ?k = "n - length got"
    have k: "0 < ?k" "?k < 65536" using False "1.prems"(1) by auto
    show ?thesis
    proof (cases "read ?k s")
      case None
      with read_None [OF k, of s] False "1.prems"(2) show ?thesis
        by (simp add: exact_from.simps [of read n got] read_exact_loop.simps [of n got])
    next
      case (Some p)
      obtain r s' where p: "read ?k s = Some (r, s')" using Some by (cases p) simp
      have call: "read_call ?k evs = Some (r, rx (view s'))" and view': "only_rx (view s) (view s')"
        using read_Some [OF k p] "1.prems"(2) by simp_all
      show ?thesis
      proof (cases r)
        case (Inr b)
        show ?thesis
          using "1.IH"(2) [OF False call refl, of b s'] "1.prems"(1) False p call view' Inr
          by (cases "b = []")
            (auto simp: exact_from.simps [of read n got] read_exact_loop.simps [of n got evs] dest: only_rx_trans split: option.splits)
      next
        case (Inl e)
        have "drained s'" using error_drained [OF k, of s e s'] p Inl by simp
        moreover have "exact_from read n got s =
            (if transient e then if got = [] then Some (Inr None, s') else exact_from read n got s' else Some (Inl (from_io_error e), s'))"
          using False p Inl by (simp add: exact_from.simps [of read n got s])
        moreover have "read_exact_loop n got evs =
            (if transient e then if got = [] then Some (Inr None, rx (view s')) else read_exact_loop n got (rx (view s'))
             else Some (Inl (from_io_error e), rx (view s')))"
          using False call Inl by (simp add: read_exact_loop.simps [of n got evs])
        ultimately show ?thesis
          using "1.IH"(1) [OF False call refl, of e s'] "1.prems"(1) view' Inl
          by (auto dest: only_rx_trans split: option.splits)
      qed
    qed
  qed
qed

lemma exact_sim: "n < 65536 \<Longrightarrow> sim view (exact_from read n []) (read_tunnel_exact n)"
  unfolding sim_def
proof
  fix s assume n: "n < 65536"
  show "map_option (map_prod id view) (exact_from read n [] s) = read_tunnel_exact n (view s)"
    using exact_loop [OF n refl, of "[]" s]
    by (auto simp: read_tunnel_exact_def only_rx_def split: option.splits)
qed

lemma exact_idle: "n < 65536 \<Longrightarrow> exact_from read n [] s = Some (Inr None, s') \<Longrightarrow> drained s'"
  using exact_loop [OF _ refl, of n "[]" s] by auto

lemma blocking_sim: "n < 65536 \<Longrightarrow> sim view (blocking_from read n) (read_tunnel_exact_blocking n)"
  unfolding sim_def
proof
  fix s assume n: "n < 65536"
  show "map_option (map_prod id view) (blocking_from read n s) = read_tunnel_exact_blocking n (view s)"
  proof (induction "rx_size (rx (view s))" arbitrary: s rule: less_induct)
    case less
    note exact = simD [OF exact_sim [OF n], of s]
    show ?case
    proof (cases "\<exists>s'. exact_from read n [] s = Some (Inr None, s')")
      case True
      then obtain s' where s': "exact_from read n [] s = Some (Inr None, s')" by blast
      with exact have t: "read_tunnel_exact n (view s) = Some (Inr None, view s')" by simp
      then have "rx_size (rx (view s')) < rx_size (rx (view s))"
        by (auto simp: read_tunnel_exact_def split: option.splits dest!: sym [of _ "view s'"] read_exact_loop_size)
      from less.hyps [OF this] s' t show ?thesis
        by (simp add: blocking_from.simps [of read n s] read_tunnel_exact_blocking.simps [of n "view s"])
    next
      case False
      with exact show ?thesis
        by (auto simp: blocking_from.simps [of read n s] read_tunnel_exact_blocking.simps [of n "view s"] split: option.splits sum.splits)
    qed
  qed
qed

lemma u16_lengths: "unat (w :: u16) < 65536" "unat (v :: u8) < 65536"
  using unat_u8_less [of v] by (simp, linarith)

lemma token_packets_sim: "sim view (token_packets_from read k payload) (read_token_packets k payload)"
  by (induction k arbitrary: payload) (auto simp: Let_def intro!: sim_intros blocking_sim u16_lengths)

lemma frame_body_sim: "sim view (frame_body_from read header) (l3_frame_body header)"
  unfolding frame_body_from_def l3_frame_body_def data_resp_payload_from_def read_data_resp_payload_def
    len_payload_from_def read_len_payload_opt_def Let_def
  by (intro sim_intros blocking_sim token_packets_sim u16_lengths) simp_all

lemma frame_available_sim: "sim view (frame_available_from read) read_l3_frame_available"
  unfolding sim_def
proof
  fix s
  show "map_option (map_prod id view) (frame_available_from read s) = read_l3_frame_available (view s)"
  proof (induction "rx_size (rx (view s))" arbitrary: s rule: less_induct)
    case less
    have exact: "read_tunnel_exact 2 (view s) = map_option (map_prod id view) (exact_from read 2 [] s)"
      by (rule simD [OF exact_sim]) simp
    show ?case
    proof (cases "\<exists>h s'. exact_from read 2 [] s = Some (Inr (Some h), s') \<and> (\<exists>s''. frame_body_from read h s' = Some (Inr None, s''))")
      case True
      then obtain h s' s'' where e: "exact_from read 2 [] s = Some (Inr (Some h), s')" and b: "frame_body_from read h s' = Some (Inr None, s'')"
        by blast
      have t: "read_tunnel_exact 2 (view s) = Some (Inr (Some h), view s')" "l3_frame_body h (view s') = Some (Inr None, view s'')"
        using exact e simD [OF frame_body_sim, of h s'] b by simp_all
      then have "rx_size (rx (view s'')) < rx_size (rx (view s))"
        by (auto dest!: read_tunnel_exact_less shrinksD [OF shrinks_l3_frame_body])
      from less.hyps [OF this] e b t show ?thesis
        by (simp add: frame_available_from.simps [of read s] read_l3_frame_available.simps [of "view s"])
    next
      case False
      with exact simD [OF frame_body_sim] show ?thesis
        by (auto simp: frame_available_from.simps [of read s] read_l3_frame_available.simps [of "view s"] split: option.splits sum.splits)
    qed
  qed
qed

lemma frame_available_idle: "frame_available_from read s = Some (Inr None, s') \<Longrightarrow> drained s'"
proof (induction "rx_size (rx (view s))" arbitrary: s rule: less_induct)
  case less
  have exact: "read_tunnel_exact 2 (view s) = map_option (map_prod id view) (exact_from read 2 [] s)"
    by (rule simD [OF exact_sim]) simp
  from less.prems consider "exact_from read 2 [] s = Some (Inr None, s')"
    | h t u where "exact_from read 2 [] s = Some (Inr (Some h), t)" "frame_body_from read h t = Some (Inr None, u)"
        "frame_available_from read u = Some (Inr None, s')"
    by (auto simp: frame_available_from.simps [of read s] split: option.splits sum.splits)
  then show ?case
  proof cases
    case 1
    then show ?thesis by (rule exact_idle [rotated]) simp
  next
    case 2
    have "read_tunnel_exact 2 (view s) = Some (Inr (Some h), view t)" "l3_frame_body h (view t) = Some (Inr None, view u)"
      using exact 2(1,2) simD [OF frame_body_sim, of h t] by simp_all
    then have "rx_size (rx (view u)) < rx_size (rx (view s))"
      by (auto dest!: read_tunnel_exact_less shrinksD [OF shrinks_l3_frame_body])
    from less.hyps [OF this 2(3)] show ?thesis .
  qed
qed

end

section \<open>Both readers\<close>

interpretation plain: reader plain_read id "\<lambda>_. True"
  by unfold_locales (simp_all add: prod.map_id0 option.map_id)

text \<open>On the plain stream the generic reader of frames is the one of \<open>L3_Remote\<close>.\<close>

lemma frame_available_plain: "frame_available_from plain_read = read_l3_frame_available"
  using plain.frame_available_sim by (auto simp: sim_def prod.map_id0 option.map_id fun_eq_iff)

text \<open>
  What a buffered stream presents: the bytes in its buffer, then what the stream has, each chunk cut to what one fill of the
  buffer takes.
\<close>

fun fills :: "rx_event list \<Rightarrow> rx_event list" where
  "fills [] = []"
| "fills (RxFail e # r) = RxFail e # fills r"
| "fills (Chunk b # r) = (if b = [] then [Chunk []] else map Chunk (chunks BUF_CAPACITY b)) @ fills r"

definition buffered_view :: "L3BufferedStream \<Rightarrow> conn" where
  "buffered_view s =
     (bs_conn s)\<lparr>rx := (if bs_buf s = [] then [] else [Chunk (bs_buf s)]) @ fills (rx (bs_conn s))\<rparr>"

lemma fills_bytes: "rx_bytes (fills evs) = rx_bytes evs"
proof (induction evs rule: fills.induct)
  case (3 b r)
  have "rx_bytes (map Chunk bss @ evs) = concat bss @ rx_bytes evs" for bss evs
    by (induction bss) simp_all
  with 3 show ?case by (simp add: concat_chunks BUF_CAPACITY_def)
qed simp_all

lemma fills_append: "fills (a @ b) = fills a @ fills b"
  by (induction a rule: fills.induct) simp_all

lemma buffered_view_bytes: "rx_bytes (rx (buffered_view s)) = bs_buf s @ rx_bytes (rx (bs_conn s))"
  by (simp add: buffered_view_def fills_bytes)

lemma buffered_read_sim:
  assumes "0 < n" "n < 65536"
  shows "map_option (map_prod id buffered_view) (buffered_read n s) = plain_read n (buffered_view s)"
proof (cases "bs_buf s = []")
  case False
  then show ?thesis
    by (auto simp: buffered_read_def plain_read_def buffered_view_def read_call_def)
next
  case True
  have cap: "0 < BUF_CAPACITY" "n < BUF_CAPACITY" "\<not> BUF_CAPACITY \<le> n" using assms(2) by (simp_all add: BUF_CAPACITY_def)
  show ?thesis
  proof (cases "rx (bs_conn s)")
    case Nil
    with True cap show ?thesis by (simp add: buffered_read_def plain_read_def buffered_view_def read_call_def)
  next
    case (Cons ev r)
    show ?thesis
    proof (cases ev)
      case (RxFail e)
      with Cons True cap show ?thesis by (simp add: buffered_read_def plain_read_def buffered_view_def read_call_def)
    next
      case (Chunk b)
      with Cons True cap show ?thesis
        by (auto simp: buffered_read_def plain_read_def buffered_view_def read_call_def chunks.simps [of BUF_CAPACITY b] chunks.simps [of _ "[]"])
    qed
  qed
qed

lemma buffered_error_drained: "buffered_read n s = Some (Inl e, s') \<Longrightarrow> bs_buf s' = []"
  by (auto simp: buffered_read_def split: if_splits option.splits sum.splits)

interpretation buffered: reader buffered_read buffered_view "\<lambda>s. bs_buf s = []"
  by unfold_locales (simp_all add: buffered_read_sim buffered_error_drained)

text \<open>Writing goes past the buffer, and new data arrives behind it.\<close>

lemma buffered_write_sim: "sim buffered_view (buffered_write data) (write_all data)"
  by (auto simp: sim_def buffered_write_def buffered_io_def write_all_def buffered_view_def split: list.splits tx_event.splits)

lemma buffered_flush_sim: "sim buffered_view buffered_flush flush"
  by (auto simp: sim_def buffered_flush_def buffered_io_def flush_def buffered_view_def split: list.splits tx_event.splits)

section \<open>The worker on the buffered stream\<close>

lemma handle_frame_conn:
  "handle_l3_remote_frame from_slice frame (w\<lparr>lw_conn := c\<rparr>) =
     map_option (\<lambda>(r, w'). (r, w'\<lparr>lw_conn := c\<rparr>)) (handle_l3_remote_frame from_slice frame w)"
  by (auto simp: handle_l3_remote_frame_def deliver_def split: option.splits sum.splits Option.bind_splits)

lemma drain_buffered_sim:
  "drain_l3_remote_frames from_slice now k (w\<lparr>lw_conn := buffered_view s\<rparr>) =
     map_option (\<lambda>(r, s', w'). (r, w'\<lparr>lw_conn := buffered_view s'\<rparr>)) (drain_buffered_frames from_slice now k s w)"
proof (induction k arbitrary: s w)
  case 0
  show ?case by simp
next
  case (Suc k)
  note frame = simD [OF buffered.frame_available_sim, of s]
  have conn: "w\<lparr>lw_conn := c, lw_live := l\<rparr> = (w\<lparr>lw_live := l\<rparr>)\<lparr>lw_conn := c\<rparr>" for c l
    by simp
  show ?case
    using frame by (auto simp: conn handle_frame_conn Suc.IH split: option.splits sum.splits)
qed

lemma drain_buffered_idle:
  "drain_buffered_frames from_slice now k s w = Some (Inr False, s', w') \<Longrightarrow> bs_buf s' = []"
proof (induction k arbitrary: s w)
  case (Suc k)
  then show ?case
    by (auto split: option.splits sum.splits dest: buffered.frame_available_idle)
qed simp

text \<open>
  C19. C9x. The buffer of a layer-3 stream is transparent and never holds a frame back. A batch of frames read through the buffered
  stream gives the same result, the same frames handled and the same state of the worker as one read from a stream that
  delivers the bytes of the buffer and then those of the socket, in order. And whenever a batch ends because there is
  nothing more to read, which is when the worker goes on to wait for its socket, the buffer is
  empty: no data is left where the readiness of the socket cannot report it.
\<close>

theorem l3_buffer_transparent:
  "drain_l3_remote_frames from_slice now k (w\<lparr>lw_conn := buffered_view s\<rparr>) =
     map_option (\<lambda>(r, s', w'). (r, w'\<lparr>lw_conn := buffered_view s'\<rparr>)) (drain_buffered_frames from_slice now k s w) \<and>
   rx_bytes (rx (buffered_view s)) = bs_buf s @ rx_bytes (rx (bs_conn s)) \<and>
   (drain_buffered_frames from_slice now k s w = Some (Inr False, s', w') \<longrightarrow> bs_buf s' = [])"
  using drain_buffered_sim buffered_view_bytes drain_buffered_idle by blast

definition demo_l3_worker :: l3_worker where
  "demo_l3_worker = \<lparr>lw_conn = conn_of [], lw_queue = [], lw_incoming = [], lw_receiver = True, lw_mgr = mgr_new, lw_vips = [],
     lw_live = liveness_new 0, lw_next_heartbeat = 25000, lw_continue = True, lw_closed = False\<rparr>"

definition demo_buffered :: L3BufferedStream where
  "demo_buffered = buffered_new (conn_of [Chunk [0x05, 0x95, 0, 0, 0x05, 0x95, 0, 0], RxFail (WouldBlock, ''would block'')])"

theorem l3_buffer_transparent_witness:
  "\<exists>s' w'. drain_buffered_frames (\<lambda>_. Inl ''no'') 7 32 demo_buffered demo_l3_worker = Some (Inr False, s', w') \<and> bs_buf s' = []"
proof -
  let ?run = "drain_buffered_frames (\<lambda>_. Inl ''no'') 7 32 demo_buffered demo_l3_worker"
  have "map_option fst ?run = Some (Inr False)"
    by code_simp
  then obtain s' w' where "?run = Some (Inr False, s', w')"
    by auto
  with l3_buffer_transparent [where from_slice = "\<lambda>_. Inl ''no''" and now = 7 and k = 32 and s = demo_buffered and w = demo_l3_worker
      and s' = s' and w' = w']
  show ?thesis by blast
qed


end
