(* ===== verification/Ffi_Heap.thy ===== *)
theory Ffi_Heap
  imports Client
begin

text \<open>
  Memory handed to C callers (src/src/ffi.rs): the copies of Rust values into C structures and
  the functions that release them, over an explicit heap. A pointer is an address, 0 is null; every allocation
  is one cell. Releasing an address that is not allocated, or with another length, is undefined behaviour, the value
  \<open>None\<close>. What a structure owns is an assertion on a heap and a set of addresses; the contract of a
  kind of structure is the locale \<open>ffi_object\<close>, and that of lists of them a sublocale. The capacity of a vector
  that was reserved and filled exactly is taken to be its length.
\<close>

section \<open>C structures\<close>

type_synonym ptr = nat

text \<open>The address of an empty slice: not null, but no allocation.\<close>

definition dangling :: ptr where
  "dangling = 1"

text \<open>All list structures (and blobs) are an address and a length.\<close>

record c_slice =
  cl_items :: ptr
  cl_len :: nat

type_synonym atr_blob_t = c_slice
type_synonym atr_string_list_t = c_slice
type_synonym atr_cookie_list_t = c_slice
type_synonym atr_ip_resource_list_t = c_slice
type_synonym atr_domain_resource_list_t = c_slice
type_synonym atr_dns_resource_list_t = c_slice
type_synonym atr_node_group_list_t = c_slice
type_synonym atr_auth_method_list_t = c_slice

definition no_slice :: c_slice where
  "no_slice = \<lparr>cl_items = 0, cl_len = 0\<rparr>"

record atr_cookie_record_t =
  cc_host :: ptr
  cc_scheme :: ptr
  cc_name :: ptr
  cc_value :: ptr

record atr_session_material_t =
  cs_username :: ptr
  cs_sid :: ptr
  cs_device_id :: ptr
  cs_connection_id :: ptr
  cs_sign_key_hex :: ptr
  cs_cookies :: atr_cookie_list_t

record atr_ip_resource_t =
  ci_ip_min :: ptr
  ci_ip_max :: ptr
  ci_port_min :: u16
  ci_port_max :: u16
  ci_protocol :: ptr
  ci_app_id :: ptr
  ci_node_group_id :: ptr

record atr_domain_resource_t =
  cd_domain :: ptr
  cd_port_min :: u16
  cd_port_max :: u16
  cd_protocol :: ptr
  cd_app_id :: ptr
  cd_node_group_id :: ptr

record atr_dns_resource_t =
  cn_domain :: ptr
  cn_ip :: ptr

record atr_node_group_t =
  cg_group_id :: ptr
  cg_addresses :: atr_string_list_t

record atr_auth_method_info_t =
  cm_login_domain :: ptr
  cm_auth_type :: ptr
  cm_auth_name :: ptr
  cm_login_url :: ptr

section \<open>Heap\<close>

datatype cell =
    CStr string
  | CBytes bytes
  | CPtrs "ptr list"
  | CCookies "atr_cookie_record_t list"
  | CIps "atr_ip_resource_t list"
  | CDomains "atr_domain_resource_t list"
  | CDns "atr_dns_resource_t list"
  | CGroups "atr_node_group_t list"
  | CMethods "atr_auth_method_info_t list"

record heap =
  hp_cells :: "ptr \<Rightarrow> cell option"
  hp_next :: ptr

definition heap_start :: heap where
  "heap_start = \<lparr>hp_cells = (\<lambda>_. None), hp_next = 2\<rparr>"

definition heap_wf :: "heap \<Rightarrow> bool" where
  "heap_wf h \<longleftrightarrow> 2 \<le> hp_next h \<and> (\<forall>p. hp_next h \<le> p \<or> p < 2 \<longrightarrow> hp_cells h p = None)"

definition alloc :: "cell \<Rightarrow> heap \<Rightarrow> ptr \<times> heap" where
  "alloc c h = (hp_next h, h\<lparr>hp_cells := (hp_cells h)(hp_next h := Some c), hp_next := hp_next h + 1\<rparr>)"

definition release :: "ptr set \<Rightarrow> heap \<Rightarrow> heap" where
  "release S h = h\<lparr>hp_cells := (\<lambda>p. if p \<in> S then None else hp_cells h p)\<rparr>"

type_synonym 'a heapm = "heap \<Rightarrow> (AtrError + 'a) \<times> heap"

definition retH :: "'a \<Rightarrow> 'a heapm" where
  "retH v h = (Inr v, h)"

definition bindH :: "'a heapm \<Rightarrow> ('a \<Rightarrow> 'b heapm) \<Rightarrow> 'b heapm" where
  "bindH m f h = (case m h of (Inl e, h') \<Rightarrow> (Inl e, h') | (Inr v, h') \<Rightarrow> f v h')"

section \<open>Copying\<close>

text \<open>\<open>CString::new(value)...into_raw()\<close>; a text with a NUL byte is refused with its position.\<close>

definition nul_error :: "string \<Rightarrow> AtrError" where
  "nul_error v =
     Internal (''nul byte found in provided data at position: '' @ nat_str (length (takeWhile (\<lambda>c. c \<noteq> CHR 0x00) v)))"

definition c_string :: "string \<Rightarrow> ptr heapm" where
  "c_string v h =
     (if CHR 0x00 \<in> set v then (Inl (nul_error v), h)
      else case alloc (CStr v) h of (p, h') \<Rightarrow> (Inr p, h'))"

definition leak_boxed_slice :: "('a list \<Rightarrow> cell) \<Rightarrow> 'a list \<Rightarrow> c_slice heapm" where
  "leak_boxed_slice wrap values h =
     (if values = [] then (Inr \<lparr>cl_items = dangling, cl_len = 0\<rparr>, h)
      else case alloc (wrap values) h of (p, h') \<Rightarrow> (Inr \<lparr>cl_items = p, cl_len = length values\<rparr>, h'))"

fun copy_items :: "('v \<Rightarrow> 'c heapm) \<Rightarrow> 'v list \<Rightarrow> 'c list heapm" where
  "copy_items copy [] = retH []"
| "copy_items copy (v # vs) = bindH (copy v) (\<lambda>c. bindH (copy_items copy vs) (\<lambda>cs. retH (c # cs)))"

definition copy_list :: "('v \<Rightarrow> 'c heapm) \<Rightarrow> ('c list \<Rightarrow> cell) \<Rightarrow> 'v list \<Rightarrow> c_slice heapm" where
  "copy_list copy wrap values = bindH (copy_items copy values) (leak_boxed_slice wrap)"

definition copy_blob :: "bytes \<Rightarrow> atr_blob_t heapm" where
  "copy_blob data = leak_boxed_slice CBytes data"

definition copy_string_list :: "string list \<Rightarrow> atr_string_list_t heapm" where
  "copy_string_list values = copy_list c_string CPtrs values"

definition copy_cookie_record :: "CookieRecord \<Rightarrow> atr_cookie_record_t heapm" where
  "copy_cookie_record cookie =
     bindH (c_string (ck_host cookie)) (\<lambda>host.
     bindH (c_string (ck_scheme cookie)) (\<lambda>scheme.
     bindH (c_string (ck_name cookie)) (\<lambda>name.
     bindH (c_string (ck_value cookie)) (\<lambda>value.
     retH \<lparr>cc_host = host, cc_scheme = scheme, cc_name = name, cc_value = value\<rparr>))))"

definition copy_session_material :: "SessionMaterial \<Rightarrow> atr_session_material_t heapm" where
  "copy_session_material session =
     bindH (copy_list copy_cookie_record CCookies (sm_cookies session)) (\<lambda>cookies.
     bindH (c_string (sm_username session)) (\<lambda>username.
     bindH (c_string (sm_sid session)) (\<lambda>sid.
     bindH (c_string (sm_device_id session)) (\<lambda>device_id.
     bindH (c_string (sm_connection_id session)) (\<lambda>connection_id.
     bindH (c_string (sm_sign_key_hex session)) (\<lambda>sign_key_hex.
     retH \<lparr>cs_username = username, cs_sid = sid, cs_device_id = device_id, cs_connection_id = connection_id,
       cs_sign_key_hex = sign_key_hex, cs_cookies = cookies\<rparr>))))))"

definition copy_ip_resource :: "IpResource \<Rightarrow> atr_ip_resource_t heapm" where
  "copy_ip_resource r =
     bindH (c_string (show_ipv4 (ir_ip_min r))) (\<lambda>ip_min.
     bindH (c_string (show_ipv4 (ir_ip_max r))) (\<lambda>ip_max.
     bindH (c_string (ir_protocol r)) (\<lambda>protocol.
     bindH (c_string (ir_app_id r)) (\<lambda>app_id.
     bindH (c_string (ir_node_group_id r)) (\<lambda>node_group_id.
     retH \<lparr>ci_ip_min = ip_min, ci_ip_max = ip_max, ci_port_min = ir_port_min r, ci_port_max = ir_port_max r,
       ci_protocol = protocol, ci_app_id = app_id, ci_node_group_id = node_group_id\<rparr>)))))"

definition copy_domain_resource :: "string \<times> DomainResource \<Rightarrow> atr_domain_resource_t heapm" where
  "copy_domain_resource d =
     (case d of (name, r) \<Rightarrow>
     bindH (c_string name) (\<lambda>domain.
     bindH (c_string (dr_protocol r)) (\<lambda>protocol.
     bindH (c_string (dr_app_id r)) (\<lambda>app_id.
     bindH (c_string (dr_node_group_id r)) (\<lambda>node_group_id.
     retH \<lparr>cd_domain = domain, cd_port_min = dr_port_min r, cd_port_max = dr_port_max r, cd_protocol = protocol,
       cd_app_id = app_id, cd_node_group_id = node_group_id\<rparr>)))))"

definition copy_dns_resource :: "string \<times> Ipv4Addr \<Rightarrow> atr_dns_resource_t heapm" where
  "copy_dns_resource d =
     (case d of (name, addr) \<Rightarrow>
     bindH (c_string name) (\<lambda>domain.
     bindH (c_string (show_ipv4 addr)) (\<lambda>ip.
     retH \<lparr>cn_domain = domain, cn_ip = ip\<rparr>)))"

definition copy_node_group :: "string \<times> string list \<Rightarrow> atr_node_group_t heapm" where
  "copy_node_group g =
     (case g of (name, addresses) \<Rightarrow>
     bindH (copy_string_list addresses) (\<lambda>addr_list.
     bindH (c_string name) (\<lambda>group_id.
     retH \<lparr>cg_group_id = group_id, cg_addresses = addr_list\<rparr>)))"

definition copy_node_groups :: "(string, string list) hmap \<Rightarrow> atr_node_group_list_t heapm" where
  "copy_node_groups groups = copy_list copy_node_group CGroups groups"

definition copy_auth_method :: "AuthMethodInfo \<Rightarrow> atr_auth_method_info_t heapm" where
  "copy_auth_method a =
     bindH (c_string (am_login_domain a)) (\<lambda>login_domain.
     bindH (c_string (am_auth_type a)) (\<lambda>auth_type.
     bindH (c_string (am_auth_name a)) (\<lambda>auth_name.
     bindH (c_string (am_login_url a)) (\<lambda>login_url.
     retH \<lparr>cm_login_domain = login_domain, cm_auth_type = auth_type, cm_auth_name = auth_name, cm_login_url = login_url\<rparr>))))"

datatype challenge_kind = CHALLENGE_CAPTCHA | CHALLENGE_SMS_CODE | CHALLENGE_CALLBACK_URL | CHALLENGE_DONE

record atr_auth_challenge_t =
  ch_kind :: challenge_kind
  ch_image :: atr_blob_t
  ch_auth_id :: ptr
  ch_auth_url :: ptr
  ch_callback_kind :: challenge_kind
  ch_session :: atr_session_material_t

definition no_session :: atr_session_material_t where
  "no_session = \<lparr>cs_username = 0, cs_sid = 0, cs_device_id = 0, cs_connection_id = 0, cs_sign_key_hex = 0, cs_cookies = no_slice\<rparr>"

definition no_challenge :: atr_auth_challenge_t where
  "no_challenge = \<lparr>ch_kind = CHALLENGE_DONE, ch_image = no_slice, ch_auth_id = 0, ch_auth_url = 0,
     ch_callback_kind = CHALLENGE_DONE, ch_session = no_session\<rparr>"

fun kind_to_ffi :: "AuthChallengeKind \<Rightarrow> challenge_kind" where
  "kind_to_ffi KindCaptcha = CHALLENGE_CAPTCHA"
| "kind_to_ffi KindSmsCode = CHALLENGE_SMS_CODE"
| "kind_to_ffi KindCallbackUrl = CHALLENGE_CALLBACK_URL"

fun challenge_to_ffi :: "AuthChallenge \<Rightarrow> atr_auth_challenge_t heapm" where
  "challenge_to_ffi (NeedCaptcha img) =
     bindH (copy_blob img) (\<lambda>b. retH (no_challenge\<lparr>ch_kind := CHALLENGE_CAPTCHA, ch_image := b\<rparr>))"
| "challenge_to_ffi (NeedSmsCode auth_id) =
     bindH (c_string auth_id) (\<lambda>p. retH (no_challenge\<lparr>ch_kind := CHALLENGE_SMS_CODE, ch_auth_id := p\<rparr>))"
| "challenge_to_ffi (NeedCallbackUrl auth_url kind) =
     bindH (c_string auth_url) (\<lambda>p. retH (no_challenge\<lparr>ch_kind := CHALLENGE_CALLBACK_URL, ch_auth_url := p,
       ch_callback_kind := kind_to_ffi kind\<rparr>))"
| "challenge_to_ffi (ChallengeDone session) =
     bindH (copy_session_material session) (\<lambda>s. retH (no_challenge\<lparr>ch_kind := CHALLENGE_DONE, ch_session := s\<rparr>))"

record atr_resource_snapshot_t =
  cr_resource_bytes :: atr_blob_t
  cr_dns_server :: ptr
  cr_major_node_group :: ptr
  cr_ip_resources :: atr_ip_resource_list_t
  cr_domain_resources :: atr_domain_resource_list_t
  cr_dns_resources :: atr_dns_resource_list_t
  cr_node_groups :: atr_node_group_list_t
  cr_excluded_ips :: atr_string_list_t

text \<open>An optional value is copied, or its null value taken.\<close>

definition copy_opt :: "('v \<Rightarrow> 'c heapm) \<Rightarrow> 'c \<Rightarrow> 'v option \<Rightarrow> 'c heapm" where
  "copy_opt copy null v = (case v of Some x \<Rightarrow> copy x | None \<Rightarrow> retH null)"

definition copy_resource_snapshot :: "ResourceSnapshot \<Rightarrow> bytes option \<Rightarrow> atr_resource_snapshot_t heapm" where
  "copy_resource_snapshot snapshot resource_bytes =
     bindH (copy_items copy_ip_resource (ip_resources snapshot)) (\<lambda>ip_items.
     bindH (copy_items copy_domain_resource (domain_resources snapshot)) (\<lambda>domain_items.
     bindH (copy_items copy_dns_resource (dns_resource snapshot)) (\<lambda>dns_items.
     bindH (copy_opt copy_blob no_slice resource_bytes) (\<lambda>blob.
     bindH (copy_opt c_string 0 (dns_server snapshot)) (\<lambda>dns.
     bindH (c_string (major_node_group snapshot)) (\<lambda>major.
     bindH (leak_boxed_slice CIps ip_items) (\<lambda>ips.
     bindH (leak_boxed_slice CDomains domain_items) (\<lambda>domains.
     bindH (leak_boxed_slice CDns dns_items) (\<lambda>dnss.
     bindH (copy_node_groups (node_groups snapshot)) (\<lambda>groups.
     bindH (copy_string_list (map show_ipv4 (excluded_ips snapshot))) (\<lambda>excluded.
     retH \<lparr>cr_resource_bytes = blob, cr_dns_server = dns, cr_major_node_group = major, cr_ip_resources = ips,
       cr_domain_resources = domains, cr_dns_resources = dnss, cr_node_groups = groups,
       cr_excluded_ips = excluded\<rparr>)))))))))))"

section \<open>Releasing\<close>

type_synonym freem = "heap \<Rightarrow> heap option"

definition thenF :: "freem \<Rightarrow> freem \<Rightarrow> freem" where
  "thenF f g h = Option.bind (f h) g"

definition free_c_string :: "ptr \<Rightarrow> freem" where
  "free_c_string p h =
     (if p = 0 then Some h
      else case hp_cells h p of Some (CStr _) \<Rightarrow> Some (release {p} h) | _ \<Rightarrow> None)"

text \<open>The items behind a slice, as far as the cell has the right type and length.\<close>

definition slice_items :: "(cell \<Rightarrow> 'a list option) \<Rightarrow> c_slice \<Rightarrow> heap \<Rightarrow> 'a list option" where
  "slice_items unwrap sl h =
     (case hp_cells h (cl_items sl) of
        None \<Rightarrow> None
      | Some c \<Rightarrow>
          (case unwrap c of None \<Rightarrow> None | Some xs \<Rightarrow> if length xs = cl_len sl then Some xs else None))"

definition free_boxed_slice :: "(cell \<Rightarrow> 'a list option) \<Rightarrow> c_slice \<Rightarrow> freem" where
  "free_boxed_slice unwrap sl h =
     (if cl_items sl = 0 \<or> cl_len sl = 0 then Some h
      else case slice_items unwrap sl h of None \<Rightarrow> None | Some _ \<Rightarrow> Some (release {cl_items sl} h))"

fun free_each :: "('c \<Rightarrow> freem) \<Rightarrow> 'c list \<Rightarrow> freem" where
  "free_each free [] = Some"
| "free_each free (c # cs) = thenF (free c) (free_each free cs)"

text \<open>
  The list functions: the items, then the slice. The pointers of the items are set to null before the slice
  that holds them is released, which leaves no trace.
\<close>

definition free_items :: "('c \<Rightarrow> freem) \<Rightarrow> (cell \<Rightarrow> 'c list option) \<Rightarrow> c_slice \<Rightarrow> freem" where
  "free_items free unwrap sl h =
     (if cl_items sl \<noteq> 0 \<and> 0 < cl_len sl
      then case slice_items unwrap sl h of
             None \<Rightarrow> None
           | Some cs \<Rightarrow> thenF (free_each free cs) (free_boxed_slice unwrap sl) h
      else Some h)"

definition free_blob :: "atr_blob_t \<Rightarrow> freem" where
  "free_blob = free_boxed_slice (\<lambda>c. case c of CBytes bs \<Rightarrow> Some bs | _ \<Rightarrow> None)"

definition free_string_list :: "atr_string_list_t \<Rightarrow> freem" where
  "free_string_list = free_items free_c_string (\<lambda>c. case c of CPtrs ps \<Rightarrow> Some ps | _ \<Rightarrow> None)"

definition free_cookie_record :: "atr_cookie_record_t \<Rightarrow> freem" where
  "free_cookie_record c =
     thenF (free_c_string (cc_host c)) (thenF (free_c_string (cc_scheme c))
       (thenF (free_c_string (cc_name c)) (free_c_string (cc_value c))))"

definition free_cookie_list :: "atr_cookie_list_t \<Rightarrow> freem" where
  "free_cookie_list = free_items free_cookie_record (\<lambda>c. case c of CCookies cs \<Rightarrow> Some cs | _ \<Rightarrow> None)"

definition free_session_material :: "atr_session_material_t \<Rightarrow> freem" where
  "free_session_material s =
     thenF (free_c_string (cs_username s)) (thenF (free_c_string (cs_sid s))
       (thenF (free_c_string (cs_device_id s)) (thenF (free_c_string (cs_connection_id s))
          (thenF (free_c_string (cs_sign_key_hex s)) (free_cookie_list (cs_cookies s))))))"

definition free_ip_resource :: "atr_ip_resource_t \<Rightarrow> freem" where
  "free_ip_resource r =
     thenF (free_c_string (ci_ip_min r)) (thenF (free_c_string (ci_ip_max r)) (thenF (free_c_string (ci_protocol r))
       (thenF (free_c_string (ci_app_id r)) (free_c_string (ci_node_group_id r)))))"

definition free_ip_resource_list :: "atr_ip_resource_list_t \<Rightarrow> freem" where
  "free_ip_resource_list = free_items free_ip_resource (\<lambda>c. case c of CIps cs \<Rightarrow> Some cs | _ \<Rightarrow> None)"

definition free_domain_resource :: "atr_domain_resource_t \<Rightarrow> freem" where
  "free_domain_resource r =
     thenF (free_c_string (cd_domain r)) (thenF (free_c_string (cd_protocol r))
       (thenF (free_c_string (cd_app_id r)) (free_c_string (cd_node_group_id r))))"

definition free_domain_resource_list :: "atr_domain_resource_list_t \<Rightarrow> freem" where
  "free_domain_resource_list = free_items free_domain_resource (\<lambda>c. case c of CDomains cs \<Rightarrow> Some cs | _ \<Rightarrow> None)"

definition free_dns_resource :: "atr_dns_resource_t \<Rightarrow> freem" where
  "free_dns_resource r = thenF (free_c_string (cn_domain r)) (free_c_string (cn_ip r))"

definition free_dns_resource_list :: "atr_dns_resource_list_t \<Rightarrow> freem" where
  "free_dns_resource_list = free_items free_dns_resource (\<lambda>c. case c of CDns cs \<Rightarrow> Some cs | _ \<Rightarrow> None)"

definition free_node_group :: "atr_node_group_t \<Rightarrow> freem" where
  "free_node_group g = thenF (free_c_string (cg_group_id g)) (free_string_list (cg_addresses g))"

definition free_node_group_list :: "atr_node_group_list_t \<Rightarrow> freem" where
  "free_node_group_list = free_items free_node_group (\<lambda>c. case c of CGroups cs \<Rightarrow> Some cs | _ \<Rightarrow> None)"

definition free_auth_method :: "atr_auth_method_info_t \<Rightarrow> freem" where
  "free_auth_method a =
     thenF (free_c_string (cm_login_domain a)) (thenF (free_c_string (cm_auth_type a))
       (thenF (free_c_string (cm_auth_name a)) (free_c_string (cm_login_url a))))"

definition auth_method_list_free :: "atr_auth_method_list_t \<Rightarrow> freem" where
  "auth_method_list_free = free_items free_auth_method (\<lambda>c. case c of CMethods cs \<Rightarrow> Some cs | _ \<Rightarrow> None)"

definition free_challenge :: "atr_auth_challenge_t \<Rightarrow> freem" where
  "free_challenge c =
     thenF (free_blob (ch_image c)) (thenF (free_c_string (ch_auth_id c)) (thenF (free_c_string (ch_auth_url c))
       (free_session_material (ch_session c))))"

definition free_resource_snapshot :: "atr_resource_snapshot_t \<Rightarrow> freem" where
  "free_resource_snapshot c =
     thenF (free_blob (cr_resource_bytes c)) (thenF (free_c_string (cr_dns_server c))
       (thenF (free_c_string (cr_major_node_group c)) (thenF (free_ip_resource_list (cr_ip_resources c))
         (thenF (free_domain_resource_list (cr_domain_resources c)) (thenF (free_dns_resource_list (cr_dns_resources c))
           (thenF (free_node_group_list (cr_node_groups c)) (free_string_list (cr_excluded_ips c))))))))"

section \<open>Ownership\<close>

text \<open>An assertion on a heap and the set of addresses it speaks about.\<close>

type_synonym assn = "heap \<Rightarrow> ptr set \<Rightarrow> bool"

definition footed :: "assn \<Rightarrow> bool" where
  "footed A \<longleftrightarrow> (\<forall>h h' S. A h S \<longrightarrow> (\<forall>p \<in> S. hp_cells h' p = hp_cells h p) \<longrightarrow> A h' S)"

definition star :: "assn \<Rightarrow> assn \<Rightarrow> assn" where
  "star A B h S \<longleftrightarrow> (\<exists>S1 S2. S = S1 \<union> S2 \<and> S1 \<inter> S2 = {} \<and> A h S1 \<and> B h S2)"

definition emp :: assn where
  "emp h S \<longleftrightarrow> S = {}"

fun stars :: "assn list \<Rightarrow> assn" where
  "stars [] = emp"
| "stars (A # As) = star A (stars As)"

text \<open>
  A copy that succeeds leaves the old heap alone, and what it returns owns exactly the addresses
  allocated meanwhile; one that fails leaves the old heap alone. Releasing what is owned removes exactly
  those addresses.
\<close>

definition extends :: "heap \<Rightarrow> heap \<Rightarrow> bool" where
  "extends h h' \<longleftrightarrow> hp_next h \<le> hp_next h' \<and> (\<forall>p < hp_next h. hp_cells h' p = hp_cells h p)"

definition copies :: "'c heapm \<Rightarrow> ('c \<Rightarrow> assn) \<Rightarrow> bool" where
  "copies m Q \<longleftrightarrow> (\<forall>h. heap_wf h \<longrightarrow> heap_wf (snd (m h)) \<and> extends h (snd (m h)) \<and>
     (\<forall>c. fst (m h) = Inr c \<longrightarrow> Q c (snd (m h)) {hp_next h ..< hp_next (snd (m h))}))"

definition frees :: "freem \<Rightarrow> assn \<Rightarrow> bool" where
  "frees f A \<longleftrightarrow> (\<forall>h S. A h S \<longrightarrow> f h = Some (release S h))"

named_theorems footed_intros "assertions that depend on their addresses only"

lemma footedD: "footed A \<Longrightarrow> A h S \<Longrightarrow> (\<And>p. p \<in> S \<Longrightarrow> hp_cells h' p = hp_cells h p) \<Longrightarrow> A h' S"
  unfolding footed_def by blast

lemma footed_star [footed_intros]: "footed A \<Longrightarrow> footed B \<Longrightarrow> footed (star A B)"
  unfolding footed_def star_def by (metis UnI1 UnI2)

lemma footed_stars: "(\<And>A. A \<in> set As \<Longrightarrow> footed A) \<Longrightarrow> footed (stars As)"
proof (induction As)
  case Nil
  show ?case by (simp add: footed_def emp_def)
next
  case (Cons A As)
  then show ?case by (auto intro: footed_star)
qed

lemma footed_ex [footed_intros]: "(\<And>x. footed (A x)) \<Longrightarrow> footed (\<lambda>h S. \<exists>x. A x h S)"
  unfolding footed_def by blast

lemma footed_conj [footed_intros]: "footed A \<Longrightarrow> footed (\<lambda>h S. P \<and> A h S)"
  unfolding footed_def by blast

lemma starI: "A h S1 \<Longrightarrow> B h S2 \<Longrightarrow> S1 \<inter> S2 = {} \<Longrightarrow> S = S1 \<union> S2 \<Longrightarrow> star A B h S"
  unfolding star_def by blast

lemma starE:
  assumes "star A B h S"
  obtains S1 S2 where "S = S1 \<union> S2" "S1 \<inter> S2 = {}" "A h S1" "B h S2"
  using assms unfolding star_def by blast

lemma star_assoc: "star (star A B) C = star A (star B C)"
proof (intro ext iffI)
  fix h S
  assume "star (star A B) C h S"
  then obtain S1 S2 S3 where "S = (S1 \<union> S2) \<union> S3" "(S1 \<union> S2) \<inter> S3 = {}" "S1 \<inter> S2 = {}" "A h S1" "B h S2" "C h S3"
    by (elim starE) simp
  then show "star A (star B C) h S"
    by (intro starI [of A h S1 "star B C" "S2 \<union> S3"] starI [of B h S2 C S3]) auto
next
  fix h S
  assume "star A (star B C) h S"
  then obtain S1 S2 S3 where "S = S1 \<union> (S2 \<union> S3)" "S1 \<inter> (S2 \<union> S3) = {}" "S2 \<inter> S3 = {}" "A h S1" "B h S2" "C h S3"
    by (elim starE) simp
  then show "star (star A B) C h S"
    by (intro starI [of "star A B" h "S1 \<union> S2" C S3] starI [of A h S1 B S2]) auto
qed

lemma star_commute: "star A B = star B A"
  by (intro ext) (auto simp: star_def)

lemma star_left_commute: "star A (star B C) = star B (star A C)"
  by (metis star_assoc star_commute)

lemmas star_ac = star_assoc star_commute star_left_commute

lemma star_emp [simp]: "star emp A = A" "star A emp = A"
  by (intro ext; auto simp: star_def emp_def)+

lemma star_mono: "star A B h S \<Longrightarrow> (\<And>S. A h S \<Longrightarrow> A' h S) \<Longrightarrow> (\<And>S. B h S \<Longrightarrow> B' h S) \<Longrightarrow> star A' B' h S"
  unfolding star_def by blast

subsection \<open>Rules for copies\<close>

lemma copiesD:
  assumes "copies m Q" "heap_wf h" "m h = (r, h1)"
  shows "heap_wf h1" "extends h h1" "r = Inr c \<Longrightarrow> Q c h1 {hp_next h ..< hp_next h1}"
  using assms unfolding copies_def by (metis fst_conv snd_conv)+

lemma extends_refl: "extends h h"
  by (simp add: extends_def)

lemma extends_trans: "extends h h1 \<Longrightarrow> extends h1 h2 \<Longrightarrow> extends h h2"
  unfolding extends_def by (metis le_trans order_less_le_trans)

lemma copies_ret: "Q c = emp \<Longrightarrow> copies (retH c) Q"
  by (simp add: copies_def retH_def extends_refl emp_def)

lemma copies_bind:
  assumes m: "copies m P" and f: "\<And>a. copies (f a) (R a)" and loc: "\<And>a. footed (P a)"
  shows "copies (bindH m f) (\<lambda>c h S. \<exists>a. star (P a) (R a c) h S)"
  unfolding copies_def
proof (intro allI impI)
  fix h
  assume wf: "heap_wf h"
  obtain r h1 where mh: "m h = (r, h1)" by fastforce
  note 1 = copiesD [OF m wf mh]
  show "heap_wf (snd (bindH m f h)) \<and> extends h (snd (bindH m f h)) \<and>
    (\<forall>c. fst (bindH m f h) = Inr c \<longrightarrow> (\<exists>a. star (P a) (R a c) (snd (bindH m f h)) {hp_next h ..< hp_next (snd (bindH m f h))}))"
  proof (cases r)
    case (Inl e)
    with mh 1 show ?thesis by (simp add: bindH_def)
  next
    case (Inr a)
    obtain r2 h2 where fh: "f a h1 = (r2, h2)" by fastforce
    note 2 = copiesD [OF f [of a] 1(1) fh]
    have "P a h2 {hp_next h ..< hp_next h1}"
      by (rule footedD [OF loc 1(3) [OF Inr]]) (use 2(2) in \<open>simp add: extends_def\<close>)
    moreover have "{hp_next h ..< hp_next h2} = {hp_next h ..< hp_next h1} \<union> {hp_next h1 ..< hp_next h2}"
      using 1(2) 2(2) by (auto simp: extends_def)
    ultimately have "star (P a) (R a c) h2 {hp_next h ..< hp_next h2}" if "r2 = Inr c" for c
      unfolding star_def using 2(3) [OF that]
      by (intro exI [of _ "{hp_next h ..< hp_next h1}"] exI [of _ "{hp_next h1 ..< hp_next h2}"]) auto
    with mh fh Inr 1 2 extends_trans show ?thesis by (auto simp: bindH_def)
  qed
qed

lemma copies_weaken: "copies m Q \<Longrightarrow> (\<And>c h S. Q c h S \<Longrightarrow> Q' c h S) \<Longrightarrow> copies m Q'"
  unfolding copies_def by blast

text \<open>A copy of a field followed by the copies of the other fields.\<close>

lemma copies_field:
  assumes "copies m P" "\<And>a. copies (f a) (\<lambda>c. R a c)" "\<And>a. footed (P a)"
    and "\<And>a c h S. star (P a) (R a c) h S \<Longrightarrow> Q c h S"
  shows "copies (bindH m f) Q"
  by (rule copies_weaken [OF copies_bind [OF assms(1-3)]]) (use assms(4) in blast)

subsection \<open>Rules for releases\<close>

lemma release_release: "release S2 (release S1 h) = release (S1 \<union> S2) h"
  by (auto simp: release_def fun_eq_iff)

lemma release_empty [simp]: "release {} h = h"
  by (simp add: release_def)

lemma frees_then:
  assumes "frees f A" "frees g B" "footed B"
  shows "frees (thenF f g) (star A B)"
  unfolding frees_def
proof (intro allI impI)
  fix h S
  assume "star A B h S"
  then obtain S1 S2 where S: "S = S1 \<union> S2" "S1 \<inter> S2 = {}" "A h S1" "B h S2" unfolding star_def by blast
  have "B (release S1 h) S2" by (rule footedD [OF assms(3) S(4)]) (use S(2) in \<open>auto simp: release_def\<close>)
  with assms S show "thenF f g h = Some (release S h)"
    by (simp add: frees_def thenF_def release_release)
qed

lemma frees_each:
  assumes "\<And>c v. frees (free c) (at c v)" "\<And>c v. footed (at c v)" "length cs = length vs"
  shows "frees (free_each free cs) (stars (map2 at cs vs))"
  using assms(3)
proof (induction cs vs rule: list_induct2)
  case Nil
  show ?case by (simp add: frees_def emp_def)
next
  case (Cons c cs v vs)
  have "footed (stars (map2 at cs vs))" using assms(2) by (intro footed_stars) auto
  then show ?case using Cons.IH assms(1) by (simp add: frees_then)
qed

lemma frees_pure: "frees f A \<Longrightarrow> frees f (\<lambda>h S. P \<and> A h S)"
  unfolding frees_def by blast

lemma frees_null: "frees (free_c_string 0) emp"
  by (simp add: frees_def free_c_string_def emp_def)

subsection \<open>Pure parts and witnesses inside assertions\<close>

lemma star_ex: "star A (\<lambda>h S. \<exists>x. B x h S) = (\<lambda>h S. \<exists>x. star A (B x) h S)"
  "star (\<lambda>h S. \<exists>x. B x h S) A = (\<lambda>h S. \<exists>x. star (B x) A h S)"
  by (intro ext; auto simp: star_def)+

lemma star_pure: "star A (\<lambda>h S. P \<and> B h S) = (\<lambda>h S. P \<and> star A B h S)"
  "star (\<lambda>h S. P \<and> B h S) A = (\<lambda>h S. P \<and> star B A h S)"
  by (intro ext; auto simp: star_def)+

lemma copies_pure: "copies (retH c0) (\<lambda>c h S. c = c0 \<and> emp h S)"
  by (simp add: copies_def retH_def extends_refl emp_def)

named_theorems copies_intros "copies of C values"

lemmas [copies_intros] = copies_bind copies_pure

subsection \<open>Strings and slices\<close>

definition str_at :: "ptr \<Rightarrow> string \<Rightarrow> assn" where
  "str_at p v h S \<longleftrightarrow> p \<noteq> 0 \<and> S = {p} \<and> hp_cells h p = Some (CStr v)"

lemma footed_str [footed_intros]: "footed (str_at p v)"
  by (auto simp: footed_def str_at_def)

lemma alloc_copies:
  assumes "heap_wf h" "alloc c h = (p, h')"
  shows "heap_wf h' \<and> extends h h' \<and> {hp_next h ..< hp_next h'} = {p} \<and> p \<noteq> 0 \<and> hp_cells h' p = Some c"
  using assms by (auto simp: alloc_def heap_wf_def extends_def)

lemma copies_c_string [copies_intros]: "copies (c_string v) (\<lambda>p. str_at p v)"
  unfolding copies_def
proof (intro allI impI)
  fix h
  assume wf: "heap_wf h"
  obtain p h' where a: "alloc (CStr v) h = (p, h')" by fastforce
  from alloc_copies [OF wf a] wf a show "heap_wf (snd (c_string v h)) \<and> extends h (snd (c_string v h)) \<and>
    (\<forall>c. fst (c_string v h) = Inr c \<longrightarrow> str_at c v (snd (c_string v h)) {hp_next h..<hp_next (snd (c_string v h))})"
    by (simp add: c_string_def str_at_def extends_refl)
qed

lemma frees_c_string: "frees (free_c_string p) (str_at p v)"
  by (auto simp: frees_def free_c_string_def str_at_def)

definition slice_at :: "('c list \<Rightarrow> cell) \<Rightarrow> c_slice \<Rightarrow> 'c list \<Rightarrow> assn" where
  "slice_at wrap sl cs h S \<longleftrightarrow> cl_len sl = length cs \<and> cl_items sl \<noteq> 0 \<and>
     (if cs = [] then S = {} else S = {cl_items sl} \<and> hp_cells h (cl_items sl) = Some (wrap cs))"

lemma footed_slice [footed_intros]: "footed (slice_at wrap sl cs)"
  by (auto simp: footed_def slice_at_def)

lemma copies_leak [copies_intros]: "copies (leak_boxed_slice wrap cs) (\<lambda>sl. slice_at wrap sl cs)"
  unfolding copies_def
proof (intro allI impI)
  fix h
  assume wf: "heap_wf h"
  obtain p h' where a: "alloc (wrap cs) h = (p, h')" by fastforce
  from alloc_copies [OF wf a] wf a
  show "heap_wf (snd (leak_boxed_slice wrap cs h)) \<and> extends h (snd (leak_boxed_slice wrap cs h)) \<and>
    (\<forall>c. fst (leak_boxed_slice wrap cs h) = Inr c \<longrightarrow>
      slice_at wrap c cs (snd (leak_boxed_slice wrap cs h)) {hp_next h..<hp_next (snd (leak_boxed_slice wrap cs h))})"
    by (simp add: leak_boxed_slice_def slice_at_def extends_refl dangling_def)
qed

lemma frees_slice:
  assumes "unwrap (wrap cs) = Some cs"
  shows "frees (free_boxed_slice unwrap sl) (slice_at wrap sl cs)"
  using assms by (auto simp: frees_def free_boxed_slice_def slice_at_def slice_items_def split: if_splits)

section \<open>The contract of a C structure\<close>

text \<open>
  A Rust value \<open>v\<close> is copied into a C value \<open>c\<close>; \<open>at c v\<close> says that \<open>c\<close> holds \<open>v\<close> in the heap. Copies own
  exactly what they allocate, and releasing gives back exactly what is owned.
\<close>

locale ffi_object =
  fixes copy :: "'v \<Rightarrow> 'c heapm"
    and at :: "'c \<Rightarrow> 'v \<Rightarrow> assn"
    and free :: "'c \<Rightarrow> freem"
  assumes at_footed: "footed (at c v)"
    and copy_at: "copies (copy v) (\<lambda>c. at c v)"
    and free_at: "frees (free c) (at c v)"
begin

lemma copy_then_free:
  assumes "heap_wf h" "copy v h = (Inr c, h1)"
  shows "at c v h1 {hp_next h ..< hp_next h1}"
    and "\<exists>h2. free c h1 = Some h2 \<and> hp_cells h2 = hp_cells h \<and> heap_wf h2"
proof -
  from copiesD [OF copy_at assms] have 1: "heap_wf h1" "extends h h1" "at c v h1 {hp_next h ..< hp_next h1}" by simp_all
  then show "at c v h1 {hp_next h ..< hp_next h1}" by simp
  let ?h2 = "release {hp_next h ..< hp_next h1} h1"
  have "free c h1 = Some ?h2" using free_at 1(3) by (auto simp: frees_def)
  moreover have "hp_cells ?h2 = hp_cells h"
  proof
    fix p
    show "hp_cells ?h2 p = hp_cells h p"
      using assms(1) 1(1,2) by (cases "p < hp_next h") (auto simp: release_def extends_def heap_wf_def)
  qed
  moreover have "heap_wf ?h2" using 1(1) by (simp add: release_def heap_wf_def)
  ultimately show "\<exists>h2. free c h1 = Some h2 \<and> hp_cells h2 = hp_cells h \<and> heap_wf h2" by blast
qed

lemma failed_copy:
  assumes "heap_wf h" "copy v h = (Inl e, h1)" "p < hp_next h"
  shows "hp_cells h1 p = hp_cells h p"
  using copy_at assms unfolding copies_def extends_def by (metis snd_conv)

end

definition list_at :: "('c \<Rightarrow> 'v \<Rightarrow> assn) \<Rightarrow> ('c list \<Rightarrow> cell) \<Rightarrow> c_slice \<Rightarrow> 'v list \<Rightarrow> assn" where
  "list_at at wrap sl vs h S \<longleftrightarrow> (\<exists>cs. length cs = length vs \<and> star (stars (map2 at cs vs)) (slice_at wrap sl cs) h S)"

text \<open>A list of objects, in a slice of its own kind.\<close>

locale ffi_list = ffi_object copy at free
  for copy :: "'v \<Rightarrow> 'c heapm" and at :: "'c \<Rightarrow> 'v \<Rightarrow> assn" and free :: "'c \<Rightarrow> freem" +
  fixes wrap :: "'c list \<Rightarrow> cell"
    and unwrap :: "cell \<Rightarrow> 'c list option"
  assumes unwrap_wrap: "unwrap (wrap cs) = Some cs"
begin

lemma items_copied: "copies (copy_items copy vs) (\<lambda>cs h S. length cs = length vs \<and> stars (map2 at cs vs) h S)"
proof (induction vs)
  case Nil
  show ?case by (simp add: copies_def retH_def extends_refl emp_def)
next
  case (Cons v vs)
  have "copies (copy_items copy (v # vs)) (\<lambda>c h S. \<exists>a. star (at a v) (\<lambda>h S. \<exists>cs.
      star (\<lambda>h S. length cs = length vs \<and> stars (map2 at cs vs) h S) (\<lambda>h S. c = a # cs \<and> emp h S) h S) h S)"
    unfolding copy_items.simps
    by (intro copies_bind copies_pure copy_at Cons.IH at_footed footed_conj footed_stars) (auto intro: at_footed)
  then show ?case by (rule copies_weaken) (auto simp: star_ex star_pure)
qed

end

sublocale ffi_list \<subseteq> list: ffi_object "copy_list copy wrap" "list_at at wrap" "free_items free unwrap"
proof
  fix sl vs
  have foot: "footed (stars (map2 at cs vs))" for cs using at_footed by (intro footed_stars) auto
  show "footed (list_at at wrap sl vs)"
    unfolding list_at_def [abs_def] by (intro footed_ex footed_conj footed_star foot footed_slice)
  have "copies (copy_list copy wrap vs) (\<lambda>sl h S. \<exists>cs. star (\<lambda>h S. length cs = length vs \<and> stars (map2 at cs vs) h S)
      (slice_at wrap sl cs) h S)"
    unfolding copy_list_def by (intro copies_bind items_copied copies_leak footed_conj foot)
  then show "copies (copy_list copy wrap vs) (\<lambda>sl. list_at at wrap sl vs)"
    by (rule copies_weaken) (auto simp: list_at_def star_pure)
  show "frees (free_items free unwrap sl) (list_at at wrap sl vs)"
    unfolding frees_def
  proof (intro allI impI)
    fix h S
    assume "list_at at wrap sl vs h S"
    then obtain cs where cs: "length cs = length vs" "star (stars (map2 at cs vs)) (slice_at wrap sl cs) h S"
      by (auto simp: list_at_def)
    then have arr: "cl_len sl = length cs" "cl_items sl \<noteq> 0"
      "cs \<noteq> [] \<Longrightarrow> hp_cells h (cl_items sl) = Some (wrap cs)"
      by (auto simp: star_def slice_at_def split: if_splits)
    have "frees (thenF (free_each free cs) (free_boxed_slice unwrap sl)) (star (stars (map2 at cs vs)) (slice_at wrap sl cs))"
      by (intro frees_then frees_each frees_slice free_at at_footed cs footed_slice unwrap_wrap)
    with cs have t: "thenF (free_each free cs) (free_boxed_slice unwrap sl) h = Some (release S h)" by (simp add: frees_def)
    show "free_items free unwrap sl h = Some (release S h)"
    proof (cases "cs = []")
      case True
      with t arr show ?thesis by (simp add: free_items_def thenF_def free_boxed_slice_def)
    next
      case False
      with t arr unwrap_wrap show ?thesis by (simp add: free_items_def slice_items_def)
    qed
  qed
qed

section \<open>The structures of the interface\<close>

subsection \<open>Structures of strings\<close>

interpretation c_str: ffi_list c_string str_at free_c_string CPtrs "\<lambda>c. case c of CPtrs ps \<Rightarrow> Some ps | _ \<Rightarrow> None"
  by unfold_locales (simp_all add: footed_str copies_c_string frees_c_string)

definition cookie_at :: "atr_cookie_record_t \<Rightarrow> CookieRecord \<Rightarrow> assn" where
  "cookie_at c v = stars [str_at (cc_host c) (ck_host v), str_at (cc_scheme c) (ck_scheme v),
     str_at (cc_name c) (ck_name v), str_at (cc_value c) (ck_value v)]"

interpretation cookie: ffi_list copy_cookie_record cookie_at free_cookie_record CCookies
  "\<lambda>c. case c of CCookies cs \<Rightarrow> Some cs | _ \<Rightarrow> None"
proof
  show "footed (cookie_at c v)" for c v unfolding cookie_at_def by (intro footed_stars) (auto intro: footed_intros)
  show "copies (copy_cookie_record v) (\<lambda>c. cookie_at c v)" for v unfolding copy_cookie_record_def
    by (rule copies_weaken, (rule copies_intros footed_intros)+) (auto simp: cookie_at_def star_ex star_pure)
  show "frees (free_cookie_record c) (cookie_at c v)" for c v
    unfolding free_cookie_record_def cookie_at_def stars.simps star_emp
    by (intro frees_then frees_c_string footed_intros)
qed simp

definition ip_at :: "atr_ip_resource_t \<Rightarrow> IpResource \<Rightarrow> assn" where
  "ip_at c v = (\<lambda>h S. (ci_port_min c = ir_port_min v \<and> ci_port_max c = ir_port_max v) \<and>
     stars [str_at (ci_ip_min c) (show_ipv4 (ir_ip_min v)), str_at (ci_ip_max c) (show_ipv4 (ir_ip_max v)),
       str_at (ci_protocol c) (ir_protocol v), str_at (ci_app_id c) (ir_app_id v),
       str_at (ci_node_group_id c) (ir_node_group_id v)] h S)"

definition domain_at :: "atr_domain_resource_t \<Rightarrow> string \<times> DomainResource \<Rightarrow> assn" where
  "domain_at c v = (\<lambda>h S. (cd_port_min c = dr_port_min (snd v) \<and> cd_port_max c = dr_port_max (snd v)) \<and>
     stars [str_at (cd_domain c) (fst v), str_at (cd_protocol c) (dr_protocol (snd v)),
       str_at (cd_app_id c) (dr_app_id (snd v)), str_at (cd_node_group_id c) (dr_node_group_id (snd v))] h S)"

definition dns_at :: "atr_dns_resource_t \<Rightarrow> string \<times> Ipv4Addr \<Rightarrow> assn" where
  "dns_at c v = stars [str_at (cn_domain c) (fst v), str_at (cn_ip c) (show_ipv4 (snd v))]"

definition method_at :: "atr_auth_method_info_t \<Rightarrow> AuthMethodInfo \<Rightarrow> assn" where
  "method_at c v = stars [str_at (cm_login_domain c) (am_login_domain v), str_at (cm_auth_type c) (am_auth_type v),
     str_at (cm_auth_name c) (am_auth_name v), str_at (cm_login_url c) (am_login_url v)]"

definition group_at :: "atr_node_group_t \<Rightarrow> string \<times> string list \<Rightarrow> assn" where
  "group_at c v = stars [str_at (cg_group_id c) (fst v), list_at str_at CPtrs (cg_addresses c) (snd v)]"

interpretation ip: ffi_list copy_ip_resource ip_at free_ip_resource CIps "\<lambda>c. case c of CIps cs \<Rightarrow> Some cs | _ \<Rightarrow> None"
proof
  show "footed (ip_at c v)" for c v unfolding ip_at_def by (intro footed_conj footed_stars) (auto intro: footed_intros)
  show "copies (copy_ip_resource v) (\<lambda>c. ip_at c v)" for v unfolding copy_ip_resource_def
    by (rule copies_weaken, (rule copies_intros footed_intros)+) (auto simp: ip_at_def star_ex star_pure)
  show "frees (free_ip_resource c) (ip_at c v)" for c v unfolding free_ip_resource_def ip_at_def stars.simps star_emp
    by (intro frees_pure frees_then frees_c_string footed_intros)
qed simp

interpretation domain: ffi_list copy_domain_resource domain_at free_domain_resource CDomains
  "\<lambda>c. case c of CDomains cs \<Rightarrow> Some cs | _ \<Rightarrow> None"
proof
  show "footed (domain_at c v)" for c v unfolding domain_at_def by (intro footed_conj footed_stars) (auto intro: footed_intros)
  show "copies (copy_domain_resource v) (\<lambda>c. domain_at c v)" for v unfolding copy_domain_resource_def case_prod_beta
    by (rule copies_weaken, (rule copies_intros footed_intros)+) (auto simp: domain_at_def star_ex star_pure)
  show "frees (free_domain_resource c) (domain_at c v)" for c v unfolding free_domain_resource_def domain_at_def stars.simps star_emp
    by (intro frees_pure frees_then frees_c_string footed_intros)
qed simp

interpretation dns_res: ffi_list copy_dns_resource dns_at free_dns_resource CDns "\<lambda>c. case c of CDns cs \<Rightarrow> Some cs | _ \<Rightarrow> None"
proof
  show "footed (dns_at c v)" for c v unfolding dns_at_def by (intro footed_stars) (auto intro: footed_intros)
  show "copies (copy_dns_resource v) (\<lambda>c. dns_at c v)" for v unfolding copy_dns_resource_def case_prod_beta
    by (rule copies_weaken, (rule copies_intros footed_intros)+) (auto simp: dns_at_def star_ex star_pure)
  show "frees (free_dns_resource c) (dns_at c v)" for c v
    unfolding free_dns_resource_def dns_at_def stars.simps star_emp by (intro frees_then frees_c_string footed_intros)
qed simp

interpretation auth_method: ffi_list copy_auth_method method_at free_auth_method CMethods
  "\<lambda>c. case c of CMethods cs \<Rightarrow> Some cs | _ \<Rightarrow> None"
proof
  show "footed (method_at c v)" for c v unfolding method_at_def by (intro footed_stars) (auto intro: footed_intros)
  show "copies (copy_auth_method v) (\<lambda>c. method_at c v)" for v unfolding copy_auth_method_def
    by (rule copies_weaken, (rule copies_intros footed_intros)+) (auto simp: method_at_def star_ex star_pure)
  show "frees (free_auth_method c) (method_at c v)" for c v
    unfolding free_auth_method_def method_at_def stars.simps star_emp by (intro frees_then frees_c_string footed_intros)
qed simp

lemmas [copies_intros] = c_str.list.copy_at cookie.list.copy_at ip.items_copied domain.items_copied dns_res.items_copied
lemmas [footed_intros] = c_str.list.at_footed cookie.list.at_footed

interpretation node_group: ffi_list copy_node_group group_at free_node_group CGroups
  "\<lambda>c. case c of CGroups cs \<Rightarrow> Some cs | _ \<Rightarrow> None"
proof
  show "footed (group_at c v)" for c v unfolding group_at_def stars.simps star_emp by (intro footed_intros)
  show "copies (copy_node_group v) (\<lambda>c. group_at c v)" for v unfolding copy_node_group_def case_prod_beta copy_string_list_def
    by (rule copies_weaken, (rule copies_intros footed_intros)+) (auto simp: group_at_def star_ex star_pure star_commute)
  show "frees (free_node_group c) (group_at c v)" for c v
    unfolding free_node_group_def group_at_def stars.simps star_emp free_string_list_def
    by (intro frees_then frees_c_string c_str.list.free_at footed_intros)
qed simp

subsection \<open>Sessions and challenges\<close>

definition session_at :: "atr_session_material_t \<Rightarrow> SessionMaterial \<Rightarrow> assn" where
  "session_at c v = stars [str_at (cs_username c) (sm_username v), str_at (cs_sid c) (sm_sid v),
     str_at (cs_device_id c) (sm_device_id v), str_at (cs_connection_id c) (sm_connection_id v),
     str_at (cs_sign_key_hex c) (sm_sign_key_hex v), list_at cookie_at CCookies (cs_cookies c) (sm_cookies v)]"

interpretation session: ffi_object copy_session_material session_at free_session_material
proof
  show "footed (session_at c v)" for c v unfolding session_at_def stars.simps star_emp by (intro footed_intros)
  show "copies (copy_session_material v) (\<lambda>c. session_at c v)" for v unfolding copy_session_material_def
    by (rule copies_weaken, (rule copies_intros footed_intros)+) (auto simp: session_at_def star_ex star_pure star_ac)
  show "frees (free_session_material c) (session_at c v)" for c v
    unfolding free_session_material_def session_at_def stars.simps star_emp free_cookie_list_def
    by (intro frees_then frees_c_string cookie.list.free_at footed_intros)
qed

text \<open>Optional parts: the value, or the null value, which owns nothing.\<close>

definition opt_at :: "('c \<Rightarrow> 'v \<Rightarrow> assn) \<Rightarrow> 'c \<Rightarrow> 'c \<Rightarrow> 'v option \<Rightarrow> assn" where
  "opt_at at null c v = (case v of Some x \<Rightarrow> at c x | None \<Rightarrow> (\<lambda>h S. c = null \<and> emp h S))"

definition blob_at :: "atr_blob_t \<Rightarrow> bytes \<Rightarrow> assn" where
  "blob_at c v = slice_at CBytes c v"

interpretation blob: ffi_object copy_blob blob_at free_blob
  unfolding copy_blob_def blob_at_def free_blob_def
  by unfold_locales (simp_all add: footed_slice copies_leak frees_slice)

locale ffi_optional = ffi_object copy at free
  for copy :: "'v \<Rightarrow> 'c heapm" and at :: "'c \<Rightarrow> 'v \<Rightarrow> assn" and free :: "'c \<Rightarrow> freem" +
  fixes null :: 'c
  assumes free_null: "free null h = Some h"

sublocale ffi_optional \<subseteq> opt: ffi_object "copy_opt copy null" "opt_at at null" free
proof
  fix c v
  show "footed (opt_at at null c v)"
    by (cases v) (auto simp: opt_at_def at_footed intro: footed_conj footed_stars [of "[]", simplified])
  show "copies (copy_opt copy null v) (\<lambda>c. opt_at at null c v)"
    by (cases v) (auto simp: opt_at_def copy_opt_def copy_at copies_pure)
  show "frees (free c) (opt_at at null c v)"
    using free_at free_null by (cases v) (auto simp: opt_at_def frees_def emp_def)
qed

interpretation opt_str: ffi_optional c_string str_at free_c_string 0
  by unfold_locales (simp add: free_c_string_def)

interpretation opt_blob: ffi_optional copy_blob blob_at free_blob no_slice
  by unfold_locales (simp add: free_blob_def free_boxed_slice_def no_slice_def)

lemma free_no_session: "free_session_material no_session h = Some h"
  by (simp add: free_session_material_def no_session_def free_cookie_list_def free_items_def no_slice_def
      free_c_string_def thenF_def)

interpretation opt_session: ffi_optional copy_session_material session_at free_session_material no_session
  by unfold_locales (rule free_no_session)

lemmas [copies_intros] = opt_str.opt.copy_at opt_blob.opt.copy_at blob.copy_at session.copy_at
lemmas [footed_intros] = opt_str.opt.at_footed opt_blob.opt.at_footed opt_session.opt.at_footed blob.at_footed session.at_footed

fun challenge_kind_of :: "AuthChallenge \<Rightarrow> challenge_kind \<times> challenge_kind" where
  "challenge_kind_of (NeedCaptcha _) = (CHALLENGE_CAPTCHA, CHALLENGE_DONE)"
| "challenge_kind_of (NeedSmsCode _) = (CHALLENGE_SMS_CODE, CHALLENGE_DONE)"
| "challenge_kind_of (NeedCallbackUrl _ kind) = (CHALLENGE_CALLBACK_URL, kind_to_ffi kind)"
| "challenge_kind_of (ChallengeDone _) = (CHALLENGE_DONE, CHALLENGE_DONE)"

definition challenge_at :: "atr_auth_challenge_t \<Rightarrow> AuthChallenge \<Rightarrow> assn" where
  "challenge_at c v = (\<lambda>h S. (ch_kind c, ch_callback_kind c) = challenge_kind_of v \<and>
     stars [opt_at blob_at no_slice (ch_image c) (case v of NeedCaptcha img \<Rightarrow> Some img | _ \<Rightarrow> None),
       opt_at str_at 0 (ch_auth_id c) (case v of NeedSmsCode i \<Rightarrow> Some i | _ \<Rightarrow> None),
       opt_at str_at 0 (ch_auth_url c) (case v of NeedCallbackUrl u _ \<Rightarrow> Some u | _ \<Rightarrow> None),
       opt_at session_at no_session (ch_session c) (case v of ChallengeDone s \<Rightarrow> Some s | _ \<Rightarrow> None)] h S)"

interpretation challenge: ffi_object challenge_to_ffi challenge_at free_challenge
proof
  show "footed (challenge_at c v)" for c v unfolding challenge_at_def stars.simps star_emp by (intro footed_intros)
  show "frees (free_challenge c) (challenge_at c v)" for c v
    unfolding free_challenge_def challenge_at_def stars.simps star_emp
    by (intro frees_pure frees_then opt_str.opt.free_at opt_blob.opt.free_at opt_session.opt.free_at footed_intros)
  show "copies (challenge_to_ffi v) (\<lambda>c. challenge_at c v)" for v
    by (cases v; simp only: challenge_to_ffi.simps; rule copies_weaken, (rule copies_intros footed_intros)+)
      (auto simp: challenge_at_def star_ex star_pure opt_at_def no_challenge_def)
qed

subsection \<open>The resource snapshot\<close>

definition snapshot_at :: "atr_resource_snapshot_t \<Rightarrow> ResourceSnapshot \<times> bytes option \<Rightarrow> assn" where
  "snapshot_at c v = stars
     [opt_at blob_at no_slice (cr_resource_bytes c) (snd v), opt_at str_at 0 (cr_dns_server c) (dns_server (fst v)),
      str_at (cr_major_node_group c) (major_node_group (fst v)),
      list_at ip_at CIps (cr_ip_resources c) (ip_resources (fst v)),
      list_at domain_at CDomains (cr_domain_resources c) (domain_resources (fst v)),
      list_at dns_at CDns (cr_dns_resources c) (dns_resource (fst v)),
      list_at group_at CGroups (cr_node_groups c) (node_groups (fst v)),
      list_at str_at CPtrs (cr_excluded_ips c) (map show_ipv4 (excluded_ips (fst v)))]"

lemmas [copies_intros] = node_group.list.copy_at
lemmas [footed_intros] = ip.list.at_footed domain.list.at_footed dns_res.list.at_footed node_group.list.at_footed

text \<open>Items copied first and put into their slices later are lists.\<close>

lemma lists_at:
  assumes "length cs1 = length vs1" "length cs2 = length vs2" "length cs3 = length vs3"
    and "star (star (stars (map2 at1 cs1 vs1)) (slice_at w1 sl1 cs1)) (star (star (stars (map2 at2 cs2 vs2)) (slice_at w2 sl2 cs2))
      (star (star (stars (map2 at3 cs3 vs3)) (slice_at w3 sl3 cs3)) R)) h S"
  shows "star (list_at at1 w1 sl1 vs1) (star (list_at at2 w2 sl2 vs2) (star (list_at at3 w3 sl3 vs3) R)) h S"
  using assms(4)
proof (rule star_mono)
  show "list_at at1 w1 sl1 vs1 h S'" if "star (stars (map2 at1 cs1 vs1)) (slice_at w1 sl1 cs1) h S'" for S'
    using that assms(1) by (auto simp: list_at_def)
  show "star (list_at at2 w2 sl2 vs2) (star (list_at at3 w3 sl3 vs3) R) h S'"
    if "star (star (stars (map2 at2 cs2 vs2)) (slice_at w2 sl2 cs2)) (star (star (stars (map2 at3 cs3 vs3)) (slice_at w3 sl3 cs3)) R) h S'" for S'
    using that
  proof (rule star_mono)
    show "list_at at2 w2 sl2 vs2 h T" if "star (stars (map2 at2 cs2 vs2)) (slice_at w2 sl2 cs2) h T" for T
      using that assms(2) by (auto simp: list_at_def)
    show "star (list_at at3 w3 sl3 vs3) R h T" if "star (star (stars (map2 at3 cs3 vs3)) (slice_at w3 sl3 cs3)) R h T" for T
      using that by (rule star_mono) (use assms(3) in \<open>auto simp: list_at_def\<close>)
  qed
qed

lemma snapshot_parts:
  assumes "length ics = length ips" "length dcs = length ds" "length ncs = length ns"
    and "star (stars (map2 ip_at ics ips)) (star (stars (map2 domain_at dcs ds)) (star (stars (map2 dns_at ncs ns))
      (star B (star D (star M (star (slice_at CIps ipsl ics) (star (slice_at CDomains domsl dcs) (star (slice_at CDns dnssl ncs) (star G E))))))))) h S"
  shows "star B (star D (star M (star (list_at ip_at CIps ipsl ips) (star (list_at domain_at CDomains domsl ds)
      (star (list_at dns_at CDns dnssl ns) (star G E)))))) h S"
proof -
  from assms(4) have "star (star (stars (map2 ip_at ics ips)) (slice_at CIps ipsl ics))
      (star (star (stars (map2 domain_at dcs ds)) (slice_at CDomains domsl dcs))
      (star (star (stars (map2 dns_at ncs ns)) (slice_at CDns dnssl ncs)) (star B (star D (star M (star G E)))))) h S"
    by (simp only: star_ac)
  from lists_at [OF assms(1-3) this] show ?thesis by (simp only: star_ac)
qed

lemma footed_items [footed_intros]:
  "footed (stars (map2 ip_at cs vs))" "footed (stars (map2 domain_at cds vds))" "footed (stars (map2 dns_at cns vns))"
  by (auto intro!: footed_stars ip.at_footed domain.at_footed dns_res.at_footed)

interpretation snapshot: ffi_object "\<lambda>v. copy_resource_snapshot (fst v) (snd v)" snapshot_at free_resource_snapshot
proof
  show "footed (snapshot_at c v)" for c v unfolding snapshot_at_def stars.simps star_emp by (intro footed_intros)
  show "frees (free_resource_snapshot c) (snapshot_at c v)" for c v
    unfolding free_resource_snapshot_def snapshot_at_def stars.simps star_emp free_string_list_def free_ip_resource_list_def
      free_domain_resource_list_def free_dns_resource_list_def free_node_group_list_def
    by (intro frees_then opt_str.opt.free_at opt_blob.opt.free_at frees_c_string ip.list.free_at domain.list.free_at
        dns_res.list.free_at node_group.list.free_at c_str.list.free_at footed_intros)
  show "copies (copy_resource_snapshot (fst v) (snd v)) (\<lambda>c. snapshot_at c v)" for v
    unfolding copy_resource_snapshot_def copy_node_groups_def copy_string_list_def
    by (rule copies_weaken, (rule copies_intros footed_intros)+)
      (auto simp: star_ex star_pure snapshot_at_def intro: snapshot_parts)
qed

end
