(* ===== verification/Proxy_Parse.thy ===== *)
theory Proxy_Parse
  imports Types
begin

text \<open>
  The wire formats of the local proxy (proxy_service.rs): the SOCKS5 greeting, request and
  reply, HTTP proxy requests and their rewriting for the origin server, and host:port parsing.
  As elsewhere an outer \<open>None\<close> is an index out of range, which Rust turns into a panic.
\<close>

section \<open>SOCKS5\<close>

definition parse_socks5_greeting :: "bytes \<Rightarrow> (AtrError + nat option) option" where
  "parse_socks5_greeting buffer =
     (if length buffer < 2 then Some (Inr None)
      else do {
        b0 \<leftarrow> idx buffer 0;
        if b0 \<noteq> 0x05 then Some (Inl (InvalidArgument ''invalid socks5 version''))
        else do {
          b1 \<leftarrow> idx buffer 1;
          let len = 2 + unat b1 in
          if length buffer < len then Some (Inr None)
          else do {
            methods \<leftarrow> slice buffer 2 len;
            if 0x00 \<notin> set methods
            then Some (Inl (Unsupported ''socks5 authentication is not supported''))
            else Some (Inr (Some len))
          }
        }
      })"

record Socks5ConnectRequest =
  sr_host :: string
  sr_port :: u16
  sr_leftover :: bytes

text \<open>The text of a \<open>Utf8Error\<close>: the first ill-formed sequence, at byte \<open>i\<close>.\<close>

function utf8_error_at :: "nat \<Rightarrow> nat list \<Rightarrow> string" where
  "utf8_error_at i [] = []"
| "utf8_error_at i (a # rest) =
     (case utf8_step a rest of (ok, n) \<Rightarrow>
        if ok then utf8_error_at (i + n) (drop (n - 1) rest)
        else if n = Suc (length rest) \<and> 0xC2 \<le> a \<and> a \<le> 0xF4
          then ''incomplete utf-8 byte sequence from index '' @ nat_str i
        else ''invalid utf-8 sequence of '' @ nat_str n @ '' bytes from index '' @ nat_str i)"
  by pat_completeness auto
termination
  by (relation "measure (\<lambda>(i, bs). length bs)") auto

definition str_from_utf8 :: "bytes \<Rightarrow> AtrError + string" where
  "str_from_utf8 bs = ok_or (ParseFailed (utf8_error_at 0 (map unat bs))) (from_utf8 bs)"

text \<open>\<open>Ipv6Addr::from\<close> of sixteen bytes.\<close>

fun groups16 :: "bytes \<Rightarrow> u16 list" where
  "groups16 (a # b # r) = u16_from_be_bytes a b # groups16 r"
| "groups16 _ = []"

text \<open>The address part: the host and the cursor behind it; \<open>None\<close> inside is an incomplete buffer.\<close>

definition socks5_address :: "bytes \<Rightarrow> u8 \<Rightarrow> (AtrError + (string \<times> nat) option) option" where
  "socks5_address buffer atype =
     (if atype = 0x01 then
        if length buffer < 10 then Some (Inr None)
        else do {
          a \<leftarrow> idx buffer 4; b \<leftarrow> idx buffer 5; c \<leftarrow> idx buffer 6; d \<leftarrow> idx buffer 7;
          Some (Inr (Some (show_ipv4 (ipv4_new a b c d), 8)))
        }
      else if atype = 0x03 then
        if length buffer < 5 then Some (Inr None)
        else do {
          b4 \<leftarrow> idx buffer 4;
          let len = unat b4 in
          if length buffer < 5 + len + 2 then Some (Inr None)
          else do {
            raw \<leftarrow> slice buffer 5 (5 + len);
            Some (mapR (\<lambda>host. Some (host, 5 + len)) (str_from_utf8 raw))
          }
        }
      else if atype = 0x04 then
        if length buffer < 22 then Some (Inr None)
        else do {
          raw \<leftarrow> slice buffer 4 20;
          Some (Inr (Some (show_ipv6 (groups16 raw), 20)))
        }
      else Some (Inl (Unsupported ''unsupported socks5 address type'')))"

definition parse_socks5_connect :: "bytes \<Rightarrow> (AtrError + Socks5ConnectRequest option) option" where
  "parse_socks5_connect buffer =
     (if length buffer < 4 then Some (Inr None)
      else do {
        b0 \<leftarrow> idx buffer 0;
        if b0 \<noteq> 0x05 then Some (Inl (InvalidArgument ''invalid socks5 version''))
        else do {
          b1 \<leftarrow> idx buffer 1;
          if b1 \<noteq> 0x01 then Some (Inl (Unsupported ''only socks5 CONNECT is supported''))
          else do {
            b3 \<leftarrow> idx buffer 3;
            addr \<leftarrow> socks5_address buffer b3;
            (case addr of
               Inl e \<Rightarrow> Some (Inl e)
             | Inr None \<Rightarrow> Some (Inr None)
             | Inr (Some (host, cursor)) \<Rightarrow>
                 if length buffer < cursor + 2 then Some (Inr None)
                 else do {
                   p \<leftarrow> idx buffer cursor;
                   q \<leftarrow> idx buffer (cursor + 1);
                   Some (Inr (Some \<lparr>sr_host = host, sr_port = u16_from_be_bytes p q,
                     sr_leftover = drop (cursor + 2) buffer\<rparr>))
                 })
          }
        }
      })"

definition socks5_reply :: "u8 \<Rightarrow> bytes" where
  "socks5_reply rep = [0x05, rep, 0x00, 0x01, 0, 0, 0, 0, 0, 0]"

section \<open>HTTP\<close>

abbreviation CRLF :: string where
  "CRLF \<equiv> [CHR 0x0D, CHR 0x0A]"

record HttpProxyRequest =
  hr_method :: string
  hr_target :: string
  hr_version :: string
  hr_headers :: "(string \<times> string) list"
  hr_body :: bytes

definition find_header_end :: "bytes \<Rightarrow> nat option" where
  "find_header_end buffer = find_sub [0x0D, 0x0A, 0x0D, 0x0A] buffer"

definition header_line :: "string \<Rightarrow> (string \<times> string) option" where
  "header_line line =
     (case split_once CHR '':'' line of
        None \<Rightarrow> None
      | Some (name, v) \<Rightarrow> Some (trim name, trim v))"

definition parse_http_proxy_request :: "bytes \<Rightarrow> (AtrError + HttpProxyRequest) option" where
  "parse_http_proxy_request buffer =
     (case find_header_end buffer of
        None \<Rightarrow> Some (Inl (ParseFailed ''incomplete http proxy request''))
      | Some header_end \<Rightarrow> do {
          raw \<leftarrow> slice buffer 0 header_end;
          (case str_from_utf8 raw of
             Inl e \<Rightarrow> Some (Inl e)
           | Inr header \<Rightarrow>
               (case split_str CRLF header of
                  [] \<Rightarrow> Some (Inl (ParseFailed ''missing request line''))
                | request_line # lines \<Rightarrow>
                    (case split_whitespace request_line of
                       [] \<Rightarrow> Some (Inl (ParseFailed ''missing method''))
                     | [_] \<Rightarrow> Some (Inl (ParseFailed ''missing target''))
                     | [_, _] \<Rightarrow> Some (Inl (ParseFailed ''missing version''))
                     | method # target # version # _ \<Rightarrow> do {
                         body \<leftarrow> slice buffer (header_end + 4) (length buffer);
                         Some (Inr \<lparr>hr_method = method, hr_target = target, hr_version = version,
                           hr_headers = List.map_filter header_line lines, hr_body = body\<rparr>)
                       })))
        })"

definition parse_host_port :: "string \<Rightarrow> u16 \<Rightarrow> AtrError + string \<times> u16" where
  "parse_host_port v default_port =
     (case strip_prefix ''['' v of
        Some stripped \<Rightarrow>
          (case split_once CHR '']'' stripped of
             None \<Rightarrow> Inl (InvalidArgument ''invalid bracketed host'')
           | Some (host, rest) \<Rightarrow>
               Inr (host, case Option.bind (strip_prefix '':'' rest) parse_u16 of Some port \<Rightarrow> port | None \<Rightarrow> default_port))
      | None \<Rightarrow>
          (case rsplit_once CHR '':'' v of
             Some (host, port) \<Rightarrow>
               (case parse_u16 port of Some p \<Rightarrow> Inr (host, p) | None \<Rightarrow> Inr (v, default_port))
           | None \<Rightarrow> Inr (v, default_port)))"

text \<open>The tokens of the \<open>Connection\<close> headers and which headers do not travel further.\<close>

definition connection_tokens :: "(string \<times> string) list \<Rightarrow> string list" where
  "connection_tokens headers =
     filter (\<lambda>t. t \<noteq> [])
       (map (\<lambda>t. to_ascii_lowercase (trim t))
         (concat (map (\<lambda>(name, v). split_char CHR '','' v)
           (filter (\<lambda>(name, v). eq_ignore_ascii_case name ''connection'' \<or>
              eq_ignore_ascii_case name ''proxy-connection'') headers))))"

definition is_upgrade :: "(string \<times> string) list \<Rightarrow> bool" where
  "is_upgrade headers \<longleftrightarrow>
     ''upgrade'' \<in> set (connection_tokens headers) \<and>
     list_ex (\<lambda>(name, v). eq_ignore_ascii_case name ''upgrade'') headers"

definition hop_by_hop :: "(string \<times> string) list \<Rightarrow> string \<Rightarrow> bool" where
  "hop_by_hop headers name =
     (let lower = to_ascii_lowercase name in
      lower \<in> {''connection'', ''proxy-connection'', ''keep-alive'', ''proxy-authorization''} \<or>
      lower \<in> set (connection_tokens headers) \<and> \<not> (is_upgrade headers \<and> lower = ''upgrade''))"

definition rewrite_http_proxy_request :: "HttpProxyRequest \<Rightarrow> AtrError + string \<times> u16 \<times> bytes" where
  "rewrite_http_proxy_request request =
     (case split_once_str ''://'' (hr_target request) of
        None \<Rightarrow> Inl (InvalidArgument ''http proxy request target is not absolute'')
      | Some (scheme, rest) \<Rightarrow>
          (let default_port = (if eq_ignore_ascii_case scheme ''https'' then 443 else 80);
               slash = (case find_sub ''/'' rest of Some i \<Rightarrow> i | None \<Rightarrow> length rest);
               authority = take slash rest;
               path = (if slash < length rest then drop slash rest else ''/'')
           in bindR (parse_host_port authority default_port) (\<lambda>(host, port).
             Inr (host, port,
               str_bytes (hr_method request @ '' '' @ path @ '' '' @ hr_version request @ CRLF) @
               concat (map (\<lambda>(name, v). str_bytes (name @ '': '' @ v @ CRLF))
                 (filter (\<lambda>(name, v). \<not> hop_by_hop (hr_headers request) name) (hr_headers request))) @
               str_bytes ((if is_upgrade (hr_headers request) then ''Connection: Upgrade'' else ''Connection: close'') @ CRLF @ CRLF) @
               hr_body request))))"

section \<open>Lemmas\<close>

subsection \<open>SOCKS5\<close>

text \<open>What a client sends: a target and its encoding.\<close>

datatype socks_target = SockV4 u8 u8 u8 u8 | SockName string | SockV6 bytes

fun socks_encode :: "socks_target \<Rightarrow> u16 \<Rightarrow> bytes" where
  "socks_encode (SockV4 a b c d) port = [0x05, 0x01, 0x00, 0x01, a, b, c, d] @ u16_to_be_bytes port"
| "socks_encode (SockName name) port =
     [0x05, 0x01, 0x00, 0x03, word_of_nat (length name)] @ str_bytes name @ u16_to_be_bytes port"
| "socks_encode (SockV6 bs) port = [0x05, 0x01, 0x00, 0x04] @ bs @ u16_to_be_bytes port"

fun socks_host :: "socks_target \<Rightarrow> string" where
  "socks_host (SockV4 a b c d) = show_ipv4 (ipv4_new a b c d)"
| "socks_host (SockName name) = name"
| "socks_host (SockV6 bs) = show_ipv6 (groups16 bs)"

definition ascii :: "string \<Rightarrow> bool" where
  "ascii s = list_all (\<lambda>c. (of_char c :: nat) < 128) s"

fun socks_ok :: "socks_target \<Rightarrow> bool" where
  "socks_ok (SockV4 a b c d) = True"
| "socks_ok (SockName name) = (length name \<le> 255 \<and> ascii name)"
| "socks_ok (SockV6 bs) = (length bs = 16)"

lemma from_utf8_ascii: "ascii s \<Longrightarrow> from_utf8 (str_bytes s) = Some s"
proof -
  assume "ascii s"
  moreover have "unat (word_of_nat (of_char c) :: u8) = of_char c" for c
    using of_char_mod_256 [of c, where ?'a = nat] by (simp add: unat_of_nat)
  ultimately have "utf8_valid_nat (map unat (str_bytes s))"
    by (induction s) (auto simp: ascii_def str_bytes_def utf8_step_def)
  then show ?thesis by (simp add: from_utf8_def)
qed

lemma str_from_utf8_ascii: "ascii s \<Longrightarrow> str_from_utf8 (str_bytes s) = Inr s"
  by (simp add: str_from_utf8_def from_utf8_ascii ok_or_def)

lemma idx_take: "i < k \<Longrightarrow> idx (take k xs) i = idx xs i"
  by (auto simp: idx_def)

lemma unat_len_u8: "n \<le> 255 \<Longrightarrow> unat (word_of_nat n :: u8) = n"
  by (simp add: unat_of_nat)

lemma socks_parse_complete:
  assumes "socks_ok t"
  shows "parse_socks5_connect (socks_encode t port @ leftover) =
     Some (Inr (Some \<lparr>sr_host = socks_host t, sr_port = port, sr_leftover = leftover\<rparr>))"
proof -
  obtain p q where port: "u16_to_be_bytes port = [p, q]" "u16_from_be_bytes p q = port" by (rule u16_be_cases)
  show ?thesis
  proof (cases t)
    case (SockV4 a b c d)
    then show ?thesis by (simp add: parse_socks5_connect_def socks5_address_def idx_def port)
  next
    case (SockName name)
    let ?n = "length name"
    have n: "unat (word_of_nat ?n :: u8) = ?n" and a: "ascii name" using assms SockName by (simp_all add: unat_len_u8)
    let ?e = "[0x05, 0x01, 0x00, 0x03, word_of_nat ?n] @ str_bytes name @ [p, q] @ leftover"
    have "slice ?e 5 (5 + ?n) = Some (str_bytes name)" by (simp add: slice_def)
    then have "socks5_address ?e 3 = Some (Inr (Some (name, 5 + ?n)))"
      using n a by (simp add: socks5_address_def idx_def del: append.simps append_Cons) (simp add: str_from_utf8_ascii mapR_def)
    moreover have "idx ?e (5 + ?n) = Some p" "idx ?e (5 + ?n + 1) = Some q"
      by (simp_all add: idx_def nth_append)
    moreover have "drop (5 + ?n + 2) (([0x05, 0x01, 0x00, 0x03, word_of_nat ?n] @ str_bytes name @ [p, q]) @ leftover) = leftover"
      by (subst drop_append) simp
    ultimately show ?thesis
      using SockName port by (simp add: parse_socks5_connect_def idx_def nth_append)
  next
    case (SockV6 bs)
    let ?e = "[0x05, 0x01, 0x00, 0x04] @ bs @ [p, q] @ leftover"
    have len: "length bs = 16" using assms SockV6 by simp
    then have "socks5_address ?e 4 = Some (Inr (Some (show_ipv6 (groups16 bs), 20)))"
      by (simp add: socks5_address_def slice_def)
    moreover have "idx ?e 20 = Some p" "idx ?e 21 = Some q" "drop 22 ?e = leftover"
      using len by (simp_all add: idx_def nth_append)
    ultimately show ?thesis
      using SockV6 port len by (simp add: parse_socks5_connect_def idx_def)
  qed
qed

lemma socks_parse_prefix:
  assumes "socks_ok t" and "k < length (socks_encode t port)"
  shows "parse_socks5_connect (take k (socks_encode t port)) = Some (Inr None)"
proof (cases "k < 4")
  case True
  then have "length (take k (socks_encode t port)) < 4" by simp
  then show ?thesis unfolding parse_socks5_connect_def by (simp only: if_True)
next
  case False
  obtain p q where port: "u16_to_be_bytes port = [p, q]" by (rule u16_be_cases)
  let ?e = "socks_encode t port"
  have heads: "idx (take k ?e) 0 = Some 0x05" "idx (take k ?e) 1 = Some 0x01"
    using False by (cases t; simp add: idx_take; simp add: idx_def)+
  obtain atype where at: "idx (take k ?e) 3 = Some atype" "socks5_address (take k ?e) atype = Some (Inr None)"
  proof (cases t)
    case (SockV4 a b c d)
    with that [of 1] assms(2) False port show ?thesis by (simp add: idx_take socks5_address_def idx_def)
  next
    case (SockName name)
    have n: "unat (word_of_nat (length name) :: u8) = length name" using assms SockName by (simp add: unat_len_u8)
    have "idx (take k ?e) 4 = Some (word_of_nat (length name))" if "5 \<le> k"
      using that SockName by (simp add: idx_take idx_def)
    with that [of 3] assms(2) False port SockName n show ?thesis
      by (cases "k < 5") (simp_all add: idx_take socks5_address_def idx_def)
  next
    case (SockV6 bs)
    with that [of 4] assms False port show ?thesis by (simp add: idx_take socks5_address_def idx_def)
  qed
  with heads False assms(2) show ?thesis by (simp add: parse_socks5_connect_def)
qed

lemma socks_address_total: "4 \<le> length buffer \<Longrightarrow> socks5_address buffer atype \<noteq> None"
  by (auto simp: socks5_address_def idx_def slice_def Let_def)

lemma socks_parsers_total: "parse_socks5_greeting buffer \<noteq> None \<and> parse_socks5_connect buffer \<noteq> None"
proof
  show "parse_socks5_greeting buffer \<noteq> None"
    by (auto simp: parse_socks5_greeting_def idx_def slice_def Let_def)
  show "parse_socks5_connect buffer \<noteq> None"
  proof (cases "length buffer < 4")
    case False
    then obtain addr where "socks5_address buffer (buffer ! 3) = Some addr"
      using socks_address_total [of buffer "buffer ! 3"] by auto
    with False show ?thesis
      by (auto simp: parse_socks5_connect_def idx_def split: sum.splits option.splits prod.splits)
  qed (simp add: parse_socks5_connect_def)
qed

text \<open>What a client sends: a greeting that offers some methods.\<close>

definition socks_greeting :: "bytes \<Rightarrow> bytes" where
  "socks_greeting methods = [0x05, word_of_nat (length methods)] @ methods"

lemma socks_greeting_parse:
  assumes "length methods \<le> 255" "0x00 \<in> set methods"
  shows "parse_socks5_greeting (socks_greeting methods) = Some (Inr (Some (length (socks_greeting methods))))"
    "k < length (socks_greeting methods) \<Longrightarrow> parse_socks5_greeting (take k (socks_greeting methods)) = Some (Inr None)"
proof -
  have n: "unat (word_of_nat (length methods) :: u8) = length methods" using assms(1) by (rule unat_len_u8)
  show "parse_socks5_greeting (socks_greeting methods) = Some (Inr (Some (length (socks_greeting methods))))"
    using assms(2) n by (simp add: parse_socks5_greeting_def socks_greeting_def idx_def slice_def)
  show "parse_socks5_greeting (take k (socks_greeting methods)) = Some (Inr None)" if "k < length (socks_greeting methods)"
  proof (cases "k < 2")
    case False
    with that n show ?thesis by (simp add: parse_socks5_greeting_def idx_take) (simp add: idx_def socks_greeting_def)
  next
    case True
    then have "length (take k (socks_greeting methods)) < 2" by simp
    then show ?thesis unfolding parse_socks5_greeting_def by (simp only: if_True)
  qed
qed

text \<open>
  C28. SOCKS5 requests are understood in any segmentation. For every target the parser asks
  for more data on each proper prefix of the request, and on the whole request, whatever
  follows it, yields the target's host, its port and exactly the bytes behind it.
\<close>

theorem socks5_connect_incremental:
  assumes "socks_ok t"
  shows "parse_socks5_connect (socks_encode t port @ leftover) =
           Some (Inr (Some \<lparr>sr_host = socks_host t, sr_port = port, sr_leftover = leftover\<rparr>)) \<and>
         list_all (\<lambda>k. parse_socks5_connect (take k (socks_encode t port)) = Some (Inr None))
           [0..<length (socks_encode t port)]"
  using socks_parse_complete [OF assms] socks_parse_prefix [OF assms] by (simp add: list_all_iff)

theorem socks5_connect_incremental_witness:
  "parse_socks5_connect (socks_encode (SockName ''git.example.com'') 443 @ [1, 2]) =
     Some (Inr (Some \<lparr>sr_host = ''git.example.com'', sr_port = 443, sr_leftover = [1, 2]\<rparr>))"
proof -
  have "socks_ok (SockName ''git.example.com'')" by code_simp
  from socks5_connect_incremental [OF this, of 443 "[1, 2]"] show ?thesis by simp
qed

subsection \<open>HTTP requests\<close>

lemma find_sub_skip: "p \<noteq> [] \<Longrightarrow> hd p \<notin> set l \<Longrightarrow> find_sub p (l @ s) = map_option ((+) (length l)) (find_sub p s)"
proof (induction l)
  case (Cons x l)
  then have "\<not> starts_with p (x # l @ s)" by (cases p) (auto simp: starts_with_def)
  with Cons show ?case by (simp add: option.map_comp comp_def)
next
  case Nil
  then show ?case by (cases "find_sub p s") simp_all
qed

lemma find_sub_here: "p \<noteq> [] \<Longrightarrow> find_sub p (p @ s) = Some 0"
  by (cases p) (auto simp: starts_with_def)

lemma split_str_sep: "p \<noteq> [] \<Longrightarrow> hd p \<notin> set l \<Longrightarrow> split_str p (l @ p @ s) = l # split_str p s"
  by (subst split_str.simps) (simp add: find_sub_skip find_sub_here)

lemma split_str_last: "p \<noteq> [] \<Longrightarrow> hd p \<notin> set l \<Longrightarrow> split_str p l = [l]"
  using find_sub_skip [of p l "[]"] by (subst split_str.simps) simp

lemma split_join:
  assumes "p \<noteq> []" "list_all (\<lambda>l. hd p \<notin> set l) ls" "ls \<noteq> []"
  shows "split_str p (join_str p ls) = ls"
  using assms(2,3)
  by (induction ls rule: induct_list012) (simp_all add: split_str_sep split_str_last assms(1))

lemma str_bytes_crlf: "str_bytes (CHR 0x0D # CHR 0x0A # s) = 0x0D # 0x0A # str_bytes s"
  by (simp add: str_bytes_def)

lemma find_header_end_lines:
  assumes "list_all (\<lambda>l. l \<noteq> [] \<and> CHR 0x0D \<notin> set l) ls" "ls \<noteq> []"
  shows "find_header_end (str_bytes (join_str CRLF ls) @ [0x0D, 0x0A, 0x0D, 0x0A] @ body) =
     Some (length (join_str CRLF ls))"
  using assms
proof (induction ls)
  case (Cons l ls)
  have cr: "0x0D \<notin> set (str_bytes l)" if "CHR 0x0D \<notin> set l" for l
  proof
    assume "0x0D \<in> set (str_bytes l)"
    then have "char_of (unat (0x0D :: u8)) \<in> set (bytes_str (str_bytes l))"
      unfolding bytes_str_def set_map by (rule imageI)
    moreover have "char_of (unat (0x0D :: u8)) = CHR 0x0D" by code_simp
    ultimately show False using that by simp
  qed
  show ?case
  proof (cases ls)
    case Nil
    with Cons.prems cr show ?thesis by (simp add: find_header_end_def find_sub_skip starts_with_def)
  next
    case (Cons l' ls')
    obtain c l'' where l': "l' = c # l''" "c \<noteq> CHR 0x0D" using Cons Cons.prems by (cases l') auto
    have "word_of_nat (of_char c) \<noteq> (0x0D :: u8)"
      using cr [of "[c]"] l'(2) by (simp add: str_bytes_def)
    then have j: "\<exists>b bs. str_bytes (join_str CRLF ls) = b # bs \<and> b \<noteq> 0x0D"
      using Cons l' by (cases ls') (auto simp: str_bytes_def)
    have "find_header_end (str_bytes (join_str CRLF ls) @ [0x0D, 0x0A, 0x0D, 0x0A] @ body) =
        Some (length (join_str CRLF ls))"
      using Cons.IH Cons.prems Cons by simp
    with j Cons Cons.prems cr show ?thesis
      by (auto simp: find_header_end_def find_sub_skip starts_with_def str_bytes_crlf)
  qed
qed simp

text \<open>The text of a request, and the requests whose text is unambiguous.\<close>

definition header_text :: "string \<times> string \<Rightarrow> string" where
  "header_text = (\<lambda>(name, v). name @ '': '' @ v)"

definition request_lines :: "HttpProxyRequest \<Rightarrow> string list" where
  "request_lines r = (hr_method r @ '' '' @ hr_target r @ '' '' @ hr_version r) # map header_text (hr_headers r)"

definition http_text :: "HttpProxyRequest \<Rightarrow> bytes" where
  "http_text r = str_bytes (join_str CRLF (request_lines r)) @ [0x0D, 0x0A, 0x0D, 0x0A] @ hr_body r"

definition clean_word :: "string \<Rightarrow> bool" where
  "clean_word w = (w \<noteq> [] \<and> list_all printable w)"

definition clean_header :: "string \<times> string \<Rightarrow> bool" where
  "clean_header = (\<lambda>(name, v). clean_word name \<and> CHR '':'' \<notin> set name \<and> trim v = v \<and>
     list_all (\<lambda>c. printable c \<or> c = CHR '' '') v)"

definition clean_request :: "HttpProxyRequest \<Rightarrow> bool" where
  "clean_request r = (clean_word (hr_method r) \<and> clean_word (hr_target r) \<and> clean_word (hr_version r) \<and>
     list_all clean_header (hr_headers r))"

lemma split_ws_word:
  "list_all printable w \<Longrightarrow> split_ws_acc acc (w @ s) = split_ws_acc (rev w @ acc) s"
proof (induction w arbitrary: acc)
  case (Cons c w)
  then show ?case by (subst split_ws_acc.simps) simp
qed simp

lemma split_ws_space: "split_ws_acc acc (CHR '' '' # s) = (if acc = [] then [] else [rev acc]) @ split_ws_acc [] s"
  by (subst split_ws_acc.simps) (simp add: ws_len_def ascii_ws_def)

lemma split_ws_end: "split_ws_acc acc [] = (if acc = [] then [] else [rev acc])"
  by (subst split_ws_acc.simps) simp

lemma split_whitespace_words:
  assumes "clean_word a" "clean_word b" "clean_word c"
  shows "split_whitespace (a @ '' '' @ b @ '' '' @ c) = [a, b, c]"
  using assms split_ws_word [of c "[]" "[]"]
  by (simp add: split_whitespace_def clean_word_def split_ws_word split_ws_space split_ws_end)

lemma trim_space: "trim (CHR '' '' # v) = trim v"
proof -
  have "trim_start (CHR '' '' # v) = trim_start v"
    unfolding trim_start_def by (subst drop_ws.simps) (simp add: ws_len_def ascii_ws_def)
  then show ?thesis by (simp add: trim_def)
qed

lemma header_line_text:
  assumes "clean_header h"
  shows "header_line (header_text h) = Some h"
proof -
  obtain name v where h: "h = (name, v)" by fastforce
  have "trim name = name" using assms by (intro trim_printable) (auto simp: h clean_header_def clean_word_def list_all_iff)
  then show ?thesis
    using assms by (simp add: h header_line_def header_text_def clean_header_def trim_space)
qed

lemma printable_not_cr: "printable c \<Longrightarrow> c \<noteq> CHR 0x0D" "printable c \<Longrightarrow> (of_char c :: nat) < 128"
  by (auto simp: printable_def)

lemma request_lines_clean:
  assumes "clean_request r"
  shows "list_all (\<lambda>l. l \<noteq> [] \<and> CHR 0x0D \<notin> set l \<and> ascii l) (request_lines r)"
proof -
  have word: "CHR 0x0D \<notin> set w \<and> ascii w" if "list_all (\<lambda>c. printable c \<or> c = CHR '' '') w" for w
    using that printable_not_cr by (fastforce simp: list_all_iff ascii_def)
  have "list_all (\<lambda>c. printable c \<or> c = CHR '' '') w" if "clean_word w" for w
    using that by (auto simp: clean_word_def list_all_iff)
  with word have cw: "CHR 0x0D \<notin> set w" "ascii w" if "clean_word w" for w using that by blast+
  have "header_text h \<noteq> [] \<and> CHR 0x0D \<notin> set (header_text h) \<and> ascii (header_text h)" if "clean_header h" for h
    using that cw word by (cases h) (auto simp: header_text_def clean_header_def ascii_def)
  with assms cw show ?thesis
    by (auto simp: request_lines_def clean_request_def list_all_iff ascii_def)
qed

lemma ascii_join: "list_all ascii ls \<Longrightarrow> ascii (join_str CRLF ls)"
  by (induction ls rule: induct_list012) (auto simp: ascii_def)

lemma http_text_parses:
  assumes "clean_request r"
  shows "parse_http_proxy_request (http_text r) = Some (Inr r)"
proof -
  note lines = request_lines_clean [OF assms]
  define h where "h = join_str CRLF (request_lines r)"
  have ne: "request_lines r \<noteq> []" by (simp add: request_lines_def)
  have h_end: "find_header_end (http_text r) = Some (length h)"
    unfolding http_text_def h_def using lines by (intro find_header_end_lines ne) (auto simp: list_all_iff)
  have raw: "slice (http_text r) 0 (length h) = Some (str_bytes h)"
    and body: "slice (http_text r) (length h + 4) (length (http_text r)) = Some (hr_body r)"
    by (simp_all add: slice_def http_text_def h_def)
  have utf: "str_from_utf8 (str_bytes h) = Inr h"
    unfolding h_def using lines by (intro str_from_utf8_ascii ascii_join) (auto simp: list_all_iff)
  have split: "split_str CRLF h = request_lines r"
    unfolding h_def using lines by (intro split_join ne) (auto simp: list_all_iff)
  have "List.map_filter header_line (map header_text hs) = hs" if "list_all clean_header hs" for hs
    using that by (induction hs) (simp_all add: List.map_filter_simps header_line_text)
  moreover have "split_whitespace (hr_method r @ '' '' @ hr_target r @ '' '' @ hr_version r) =
      [hr_method r, hr_target r, hr_version r]"
    using assms by (intro split_whitespace_words) (simp_all add: clean_request_def)
  ultimately show ?thesis
    using assms by (simp add: parse_http_proxy_request_def h_end raw body utf split)
      (simp add: request_lines_def clean_request_def body)
qed

lemma rewritten_text:
  "str_bytes (line @ CRLF) @ concat (map (\<lambda>(name, v). str_bytes (name @ '': '' @ v @ CRLF)) hs) @
     str_bytes (final @ CRLF @ CRLF) @ body =
   str_bytes (join_str CRLF (line # map header_text hs @ [final])) @ [0x0D, 0x0A, 0x0D, 0x0A] @ body"
proof (induction hs arbitrary: line)
  case Nil
  then show ?case by (simp add: str_bytes_crlf) (simp add: str_bytes_def)
next
  case (Cons h hs)
  obtain name v where h: "h = (name, v)" by fastforce
  from Cons [of "header_text h"] show ?case by (simp add: h header_text_def) (simp add: str_bytes_def)
qed

lemma rewrite_parts:
  assumes "rewrite_http_proxy_request r = Inr (host, port, out)"
  obtains scheme authority rest where "hr_target r = scheme @ ''://'' @ authority @ rest"
    "CHR ''/'' \<notin> set authority" "rest = [] \<or> hd rest = CHR ''/''"
    "parse_host_port authority (if eq_ignore_ascii_case scheme ''https'' then 443 else 80) = Inr (host, port)"
    "out = http_text (r\<lparr>hr_target := (if rest = [] then ''/'' else rest),
       hr_headers := filter (\<lambda>(name, v). \<not> hop_by_hop (hr_headers r) name) (hr_headers r) @
         [(''Connection'', if is_upgrade (hr_headers r) then ''Upgrade'' else ''close'')]\<rparr>)"
proof -
  from assms obtain scheme rest0 where sp: "split_once_str ''://'' (hr_target r) = Some (scheme, rest0)"
    by (auto simp: rewrite_http_proxy_request_def split: option.splits)
  then obtain i where i: "find_sub ''://'' (hr_target r) = Some i" "scheme = take i (hr_target r)"
    "rest0 = drop (i + 3) (hr_target r)" by (auto simp: split_once_str_def numeral_3_eq_3 split: option.splits)
  from find_sub_Some [OF i(1)] obtain b where b: "hr_target r = scheme @ ''://'' @ b" and le: "i + 3 \<le> length (hr_target r)"
    using i(2) by (metis length_Cons list.size(3) numeral_3_eq_3)
  have "length scheme = i" unfolding i(2) using le by simp
  then have "rest0 = drop (length (scheme @ ''://'')) (hr_target r)" unfolding i(3) by (simp add: numeral_3_eq_3)
  with b have target: "hr_target r = scheme @ ''://'' @ rest0" by (metis append_assoc append_eq_conv_conj)
  define slash where "slash = (case find_sub ''/'' rest0 of Some i \<Rightarrow> i | None \<Rightarrow> length rest0)"
  have slash: "CHR ''/'' \<notin> set (take slash rest0)" "drop slash rest0 = [] \<or> hd (drop slash rest0) = CHR ''/''"
    unfolding slash_def by (induction rest0) (auto simp: starts_with_def split: option.splits)
  let ?kept = "filter (\<lambda>(name, v). \<not> hop_by_hop (hr_headers r) name) (hr_headers r)"
  let ?final = "(if is_upgrade (hr_headers r) then ''Connection: Upgrade'' else ''Connection: close'')"
  let ?path = "if slash < length rest0 then drop slash rest0 else ''/''"
  from assms sp have php: "parse_host_port (take slash rest0) (if eq_ignore_ascii_case scheme ''https'' then 443 else 80) = Inr (host, port)"
    and out: "out = str_bytes (hr_method r @ '' '' @ ?path @ '' '' @ hr_version r @ CRLF) @
       concat (map (\<lambda>(name, v). str_bytes (name @ '': '' @ v @ CRLF)) ?kept) @
       str_bytes (?final @ CRLF @ CRLF) @ hr_body r"
    by (auto simp: rewrite_http_proxy_request_def Let_def slash_def bindR_def split: sum.splits prod.splits)
  have "?final = header_text (''Connection'', if is_upgrade (hr_headers r) then ''Upgrade'' else ''close'')"
    by (simp add: header_text_def)
  moreover have "?path = (if drop slash rest0 = [] then ''/'' else drop slash rest0)" by simp
  ultimately show ?thesis
    using rewritten_text [of "hr_method r @ '' '' @ ?path @ '' '' @ hr_version r" ?kept ?final "hr_body r"] out target slash php
    by (intro that [of scheme "take slash rest0" "drop slash rest0"]) (simp_all add: http_text_def request_lines_def)
qed

lemma find_sub_short: "length s < length p \<Longrightarrow> find_sub p s = None"
  using find_sub_Some [of p s] by (cases "find_sub p s") auto

lemma find_sub_take:
  "p \<noteq> [] \<Longrightarrow> find_sub p s = Some i \<Longrightarrow> find_sub p (take k s) = (if i + length p \<le> k then Some i else None)"
proof (induction s arbitrary: i k)
  case (Cons x s)
  show ?case
  proof (cases k)
    case 0
    with Cons.prems show ?thesis by auto
  next
    case (Suc m)
    have sw: "starts_with p (x # take m s) \<longleftrightarrow> starts_with p (x # s) \<and> length p \<le> k"
      using Suc by (auto simp: starts_with_def take_Cons' min_def split: if_splits)
    with Suc Cons.prems Cons.IH [OF Cons.prems(1), of _ m] find_sub_short [of "take m s" p] show ?thesis
      by (auto split: if_splits)
  qed
qed simp

text \<open>The text of a request up to its body.\<close>

definition http_head :: "HttpProxyRequest \<Rightarrow> bytes" where
  "http_head r = str_bytes (join_str CRLF (request_lines r)) @ [0x0D, 0x0A, 0x0D, 0x0A]"

lemma http_text_head: "http_text r = http_head r @ hr_body r"
  by (simp add: http_text_def http_head_def)

lemma http_head_body [simp]: "http_head (r\<lparr>hr_body := b\<rparr>) = http_head r"
  by (simp add: http_head_def request_lines_def)

lemma header_end_take:
  assumes "clean_request r"
  shows "find_header_end (take k (http_text r)) = (if length (http_head r) \<le> k then Some (length (http_head r) - 4) else None)"
proof -
  have "find_header_end (http_text r) = Some (length (http_head r) - 4)"
    unfolding http_text_def using request_lines_clean [OF assms]
    by (subst find_header_end_lines) (auto simp: list_all_iff request_lines_def http_head_def)
  moreover have "4 \<le> length (http_head r)" by (simp add: http_head_def)
  ultimately show ?thesis unfolding find_header_end_def by (subst find_sub_take) auto
qed

lemma http_text_take:
  "length (http_head r) \<le> k \<Longrightarrow> take k (http_text r) = http_text (r\<lparr>hr_body := take (k - length (http_head r)) (hr_body r)\<rparr>)"
  by (simp add: http_text_head)

lemma rewrite_body:
  assumes "rewrite_http_proxy_request r = Inr (host, port, head @ hr_body r)"
  shows "rewrite_http_proxy_request (r\<lparr>hr_body := b\<rparr>) = Inr (host, port, head @ b)"
proof -
  define before where "before = (\<lambda>path. str_bytes (hr_method r @ '' '' @ path @ '' '' @ hr_version r @ CRLF) @
      concat (map (\<lambda>(name, v). str_bytes (name @ '': '' @ v @ CRLF))
        (filter (\<lambda>(name, v). \<not> hop_by_hop (hr_headers r) name) (hr_headers r))) @
      str_bytes ((if is_upgrade (hr_headers r) then ''Connection: Upgrade'' else ''Connection: close'') @ CRLF @ CRLF))"
  have any: "rewrite_http_proxy_request (r\<lparr>hr_body := b\<rparr>) =
      (case split_once_str ''://'' (hr_target r) of
         None \<Rightarrow> Inl (InvalidArgument ''http proxy request target is not absolute'')
       | Some (scheme, rest) \<Rightarrow>
           (let slash = (case find_sub ''/'' rest of Some i \<Rightarrow> i | None \<Rightarrow> length rest)
            in bindR (parse_host_port (take slash rest) (if eq_ignore_ascii_case scheme ''https'' then 443 else 80)) (\<lambda>(host, port).
              Inr (host, port, before (if slash < length rest then drop slash rest else ''/'') @ b))))" for b
    by (cases r) (simp only: rewrite_http_proxy_request_def before_def HttpProxyRequest.select_convs HttpProxyRequest.update_convs Let_def append_assoc)
  show ?thesis
  proof (cases "split_once_str ''://'' (hr_target r)")
    case (Some sr)
    obtain scheme rest where sr: "sr = (scheme, rest)" by fastforce
    define slash where "slash = (case find_sub ''/'' rest of Some i \<Rightarrow> i | None \<Rightarrow> length rest)"
    let ?hp = "parse_host_port (take slash rest) (if eq_ignore_ascii_case scheme ''https'' then 443 else 80)"
    have out: "rewrite_http_proxy_request (r\<lparr>hr_body := b\<rparr>) =
        bindR ?hp (\<lambda>(host, port). Inr (host, port, before (if slash < length rest then drop slash rest else ''/'') @ b))" for b
      unfolding any Some sr slash_def by (simp only: option.case prod.case Let_def)
    from out [of "hr_body r"] assms show ?thesis
      unfolding out [of b] by (cases ?hp) (auto simp: bindR_def)
  qed (use any [of "hr_body r"] assms in simp)
qed

text \<open>
  Which headers the \<open>Connection\<close> headers of a request nominate: those named, in any case, by one of their
  comma-separated tokens. A request asks for a protocol upgrade when \<open>upgrade\<close> is nominated and present.
\<close>

definition nominated :: "(string \<times> string) list \<Rightarrow> string \<Rightarrow> bool" where
  "nominated headers name \<longleftrightarrow> name \<noteq> [] \<and>
     (\<exists>(c, v) \<in> set headers. to_ascii_lowercase c \<in> {''connection'', ''proxy-connection''} \<and>
        (\<exists>t \<in> set (split_char CHR '','' v). eq_ignore_ascii_case (trim t) name))"

definition upgrading :: "(string \<times> string) list \<Rightarrow> bool" where
  "upgrading headers \<longleftrightarrow> nominated headers ''upgrade'' \<and> (\<exists>(name, v) \<in> set headers. to_ascii_lowercase name = ''upgrade'')"

lemma lowercase_fixed:
  "to_ascii_lowercase ''connection'' = ''connection''" "to_ascii_lowercase ''proxy-connection'' = ''proxy-connection''"
  "to_ascii_lowercase ''upgrade'' = ''upgrade''"
  by code_simp+

lemma in_connection_tokens: "to_ascii_lowercase name \<in> set (connection_tokens headers) \<longleftrightarrow> nominated headers name"
proof -
  let ?conn = "\<lambda>c. eq_ignore_ascii_case c ''connection'' \<or> eq_ignore_ascii_case c ''proxy-connection''"
  have nil: "to_ascii_lowercase t = [] \<longleftrightarrow> t = []" for t by (simp add: to_ascii_lowercase_def)
  have "to_ascii_lowercase name \<in> set (connection_tokens headers) \<longleftrightarrow> to_ascii_lowercase name \<noteq> [] \<and>
      (\<exists>h \<in> set headers. ?conn (fst h) \<and> (\<exists>t \<in> set (split_char CHR '','' (snd h)). to_ascii_lowercase name = to_ascii_lowercase (trim t)))"
    unfolding connection_tokens_def by (simp add: case_prod_beta image_iff Bex_def) blast
  also have "\<dots> \<longleftrightarrow> nominated headers name"
    unfolding nominated_def nil eq_ignore_ascii_case_def lowercase_fixed by (simp add: case_prod_beta eq_commute)
  finally show ?thesis .
qed

lemma is_upgrade_iff: "is_upgrade headers \<longleftrightarrow> upgrading headers"
  using in_connection_tokens [of "''upgrade''" headers]
  by (simp add: is_upgrade_def upgrading_def lowercase_fixed list_ex_iff eq_ignore_ascii_case_def)

lemma hop_by_hop_iff:
  "\<not> hop_by_hop headers name \<longleftrightarrow>
     to_ascii_lowercase name \<notin> {''connection'', ''proxy-connection'', ''keep-alive'', ''proxy-authorization''} \<and>
     (nominated headers name \<longrightarrow> upgrading headers \<and> to_ascii_lowercase name = ''upgrade'')"
  by (simp add: hop_by_hop_def Let_def in_connection_tokens is_upgrade_iff)

text \<open>
  C32. What the origin server receives. For a request of printable ASCII words and header texts, the rewritten request, read by the same parser, is the
  client's request with the path of its absolute target; with exactly those of its headers, in order, that are none of
  \<open>Connection\<close>, \<open>Proxy-Connection\<close>, \<open>Keep-Alive\<close> and \<open>Proxy-Authorization\<close> and are not nominated by a \<open>Connection\<close> header,
  except \<open>Upgrade\<close> in a request for an upgrade; then one final \<open>Connection\<close> header, and the body unchanged. The connection goes to the
  authority of the target.
\<close>

theorem http_rewrite_sound:
  assumes "clean_request r" and "rewrite_http_proxy_request r = Inr (host, port, out)"
  shows "\<exists>scheme authority rest. hr_target r = scheme @ ''://'' @ authority @ rest \<and>
     CHR ''/'' \<notin> set authority \<and> (rest = [] \<or> hd rest = CHR ''/'') \<and>
     parse_host_port authority (if eq_ignore_ascii_case scheme ''https'' then 443 else 80) = Inr (host, port) \<and>
     parse_http_proxy_request out = Some (Inr (r\<lparr>hr_target := (if rest = [] then ''/'' else rest),
       hr_headers := filter (\<lambda>(name, v).
           to_ascii_lowercase name \<notin> {''connection'', ''proxy-connection'', ''keep-alive'', ''proxy-authorization''} \<and>
           (nominated (hr_headers r) name \<longrightarrow> upgrading (hr_headers r) \<and> to_ascii_lowercase name = ''upgrade'')) (hr_headers r) @
         [(''Connection'', if upgrading (hr_headers r) then ''Upgrade'' else ''close'')]\<rparr>))"
proof -
  from rewrite_parts [OF assms(2)] obtain scheme authority rest where
    t: "hr_target r = scheme @ ''://'' @ authority @ rest" "CHR ''/'' \<notin> set authority" "rest = [] \<or> hd rest = CHR ''/''"
      "parse_host_port authority (if eq_ignore_ascii_case scheme ''https'' then 443 else 80) = Inr (host, port)"
    and out: "out = http_text (r\<lparr>hr_target := (if rest = [] then ''/'' else rest),
       hr_headers := filter (\<lambda>(name, v). \<not> hop_by_hop (hr_headers r) name) (hr_headers r) @
         [(''Connection'', if is_upgrade (hr_headers r) then ''Upgrade'' else ''close'')]\<rparr>)" (is "_ = http_text ?r'")
    by metis
  have "clean_header (''Connection'', ''Upgrade'')" "clean_header (''Connection'', ''close'')" "clean_word ''/''"
    by code_simp+
  then have "clean_request ?r'"
    using assms(1) t(1) by (auto simp: clean_request_def clean_word_def list_all_iff)
  from http_text_parses [OF this] out t show ?thesis unfolding hop_by_hop_iff is_upgrade_iff by blast
qed

definition demo_http_request :: HttpProxyRequest where
  "demo_http_request = \<lparr>hr_method = ''POST'', hr_target = ''http://git.example.com:8080/a?b=1'', hr_version = ''HTTP/1.1'',
     hr_headers = [(''Host'', ''git.example.com:8080''), (''Proxy-Connection'', ''keep-alive, X-Hop''), (''x-hop'', ''1''),
       (''Keep-Alive'', ''5''), (''Proxy-Authorization'', ''Basic eDp5''), (''Content-Length'', ''2'')], hr_body = [104, 105]\<rparr>"

theorem http_rewrite_sound_witness:
  "\<exists>out r'. rewrite_http_proxy_request demo_http_request = Inr (''git.example.com'', 8080, out) \<and>
     parse_http_proxy_request out = Some (Inr r') \<and>
     hr_headers r' = [(''Host'', ''git.example.com:8080''), (''Content-Length'', ''2''), (''Connection'', ''close'')]"
proof -
  have c: "clean_request demo_http_request" by code_simp
  let ?hs = "hr_headers demo_http_request"
  have kept: "filter (\<lambda>(name, v).
           to_ascii_lowercase name \<notin> {''connection'', ''proxy-connection'', ''keep-alive'', ''proxy-authorization''} \<and>
           (nominated ?hs name \<longrightarrow> upgrading ?hs \<and> to_ascii_lowercase name = ''upgrade'')) ?hs =
      [(''Host'', ''git.example.com:8080''), (''Content-Length'', ''2'')]" "\<not> upgrading ?hs"
    by code_simp+
  have "\<exists>out. rewrite_http_proxy_request demo_http_request = Inr (''git.example.com'', 8080, out)"
  proof -
    have "(case rewrite_http_proxy_request demo_http_request of Inr (h, p, _) \<Rightarrow> h = ''git.example.com'' \<and> p = 8080 | _ \<Rightarrow> False)"
      by code_simp
    then show ?thesis by (auto split: sum.splits)
  qed
  then obtain out where out: "rewrite_http_proxy_request demo_http_request = Inr (''git.example.com'', 8080, out)" by blast
  from http_rewrite_sound [OF c out] out kept show ?thesis by auto
qed

end
