(* ===== verification/Proxy_Conn.thy ===== *)
theory Proxy_Conn
  imports Proxy_Parse Tcp_Tunnel Ttl_Cache Interfaces Pac
begin

text \<open>
  One connection of the local proxy (proxy_service.rs): reading the request, choosing where it
  goes, the SOCKS5 and HTTP dialogues, the PAC file, and the copying in both directions. The
  resolver, the opening of tunnels and sockets and the outcome of the two relay threads are
  parameters of the handlers; the relay itself is a step relation that interleaves the threads.
  Duplicating a socket handle is taken to succeed. As for streams, \<open>None\<close> is a call that waits.
\<close>

section \<open>Configuration\<close>

record ProxyServiceConfig =
  listen_host :: string
  listen_port :: u16
  px_connect_timeout_ms :: u64
  px_idle_timeout_ms :: u64
  enable_http :: bool
  enable_socks5 :: bool
  pac_token :: "string option"

definition default_proxy_config :: ProxyServiceConfig where
  "default_proxy_config = \<lparr>listen_host = ''127.0.0.1'', listen_port = 1080, px_connect_timeout_ms = 10000,
     px_idle_timeout_ms = 0, enable_http = True, enable_socks5 = True, pac_token = None\<rparr>"

definition READ_BUF_SIZE :: nat where
  "READ_BUF_SIZE = 64 * 1024"

definition MAX_HEADER_SIZE :: nat where
  "MAX_HEADER_SIZE = 64 * 1024"

section \<open>The DNS cache\<close>

definition DNS_CACHE_TTL :: nat where
  "DNS_CACHE_TTL = 30000"

definition DNS_CACHE_MAX_ENTRIES :: nat where
  "DNS_CACHE_MAX_ENTRIES = 1024"

type_synonym dns_cache = "(string, string list \<times> nat) hmap"

text \<open>
  \<open>lookup t0 t1 host\<close> is what the system resolver answers in a call that starts at \<open>t0\<close> and
  ends at \<open>t1\<close> (milliseconds).
  The cache is locked once to look the host up and once to enter the answer; \<open>resolve_ipv4_addresses\<close> is a call between whose two
  sections no other call enters anything. Entries are only added with room made first, so the bound holds in any interleaving of the sections.
\<close>

type_synonym resolver = "nat \<Rightarrow> nat \<Rightarrow> string \<Rightarrow> string + SocketAddr list"

fun v4_texts :: "SocketAddr list \<Rightarrow> string list" where
  "v4_texts [] = []"
| "v4_texts ((V4 ip, _) # r) = show_ipv4 ip # v4_texts r"
| "v4_texts ((V6 _, _) # r) = v4_texts r"

definition lookup_v4 :: "resolver \<Rightarrow> nat \<Rightarrow> nat \<Rightarrow> string \<Rightarrow> string list" where
  "lookup_v4 lookup t0 t1 host = (case lookup t0 t1 host of Inl _ \<Rightarrow> [] | Inr addrs \<Rightarrow> v4_texts addrs)"

definition make_room :: "nat \<Rightarrow> dns_cache \<Rightarrow> dns_cache" where
  "make_room now cache =
     (if DNS_CACHE_MAX_ENTRIES \<le> length cache then
        (let kept = filter (\<lambda>(host, (addrs, resolved)). now - resolved < DNS_CACHE_TTL) cache in
         if DNS_CACHE_MAX_ENTRIES \<le> length kept then [] else kept)
      else cache)"

definition resolve_ipv4_addresses ::
  "resolver \<Rightarrow> nat \<Rightarrow> nat \<Rightarrow> string \<Rightarrow> dns_cache \<Rightarrow> string list \<times> dns_cache" where
  "resolve_ipv4_addresses lookup t0 t1 host cache =
     (let fresh = (let addrs = lookup_v4 lookup t0 t1 host in
                   (addrs, hm_insert host (addrs, t1) (make_room t1 cache)))
      in case hm_get cache host of
           Some (addrs, resolved) \<Rightarrow> if t0 - resolved < DNS_CACHE_TTL then (addrs, cache) else fresh
         | None \<Rightarrow> fresh)"

section \<open>Where a connection goes\<close>

datatype ProxyRouteDecision = PxDirect | PxManaged

record ResolvedProxyRoute =
  rr_decision :: ProxyRouteDecision
  rr_connect_host :: string

definition is_managed_route :: "RouteDecision \<Rightarrow> bool" where
  "is_managed_route d = (case d of Managed _ \<Rightarrow> True | Direct \<Rightarrow> False)"

definition resolved_tcp_route ::
  "resolver \<Rightarrow> nat \<Rightarrow> nat \<Rightarrow> AtrClient \<Rightarrow> string \<Rightarrow> u16 \<Rightarrow> dns_cache \<Rightarrow> ResolvedProxyRoute \<times> dns_cache" where
  "resolved_tcp_route lookup t0 t1 client host port cache =
     (if is_managed_route (route_tcp client host port)
      then (\<lparr>rr_decision = PxManaged, rr_connect_host = host\<rparr>, cache)
      else if parse_ip (trim_matches ''[]'' host) \<noteq> None
      then (\<lparr>rr_decision = PxDirect, rr_connect_host = host\<rparr>, cache)
      else case resolve_ipv4_addresses lookup t0 t1 host cache of
        (ips, cache') \<Rightarrow>
          (case List.find (\<lambda>ip. is_managed_route (route_tcp client ip port)) ips of
             Some ip \<Rightarrow> (\<lparr>rr_decision = PxManaged, rr_connect_host = ip\<rparr>, cache')
           | None \<Rightarrow> (\<lparr>rr_decision = PxDirect, rr_connect_host = host\<rparr>, cache')))"

datatype ProxyRemote = RemoteDirect conn | RemoteManaged TcpTunnel

text \<open>
  What opening a target needs of the outside: tunnels, resolving a host and port, connecting
  to one of some addresses within a timeout, and setting the socket option.
\<close>

record px_env =
  pe_lookup :: resolver
  pe_t0 :: nat
  pe_t1 :: nat
  pe_open_tunnel :: "AtrClient \<Rightarrow> string \<Rightarrow> u16 \<Rightarrow> (AtrError + TcpTunnel) option"
  pe_socket_addrs :: "string \<Rightarrow> u16 \<Rightarrow> io_error + SocketAddr list"
  pe_connect_any :: "SocketAddr list \<Rightarrow> nat \<Rightarrow> ClientConfig \<Rightarrow> AtrError + conn"
  pe_set_nodelay :: "conn \<Rightarrow> io_error + unit"

definition open_proxy_target ::
  "px_env \<Rightarrow> AtrClient \<Rightarrow> ProxyServiceConfig \<Rightarrow> string \<Rightarrow> u16 \<Rightarrow> dns_cache \<Rightarrow> ((AtrError + ProxyRemote) \<times> dns_cache) option" where
  "open_proxy_target env client config host port cache =
     (case resolved_tcp_route (pe_lookup env) (pe_t0 env) (pe_t1 env) client host port cache of
        (r, cache') \<Rightarrow>
          (case rr_decision r of
             PxManaged \<Rightarrow>
               (case pe_open_tunnel env client (rr_connect_host r) port of
                  None \<Rightarrow> None
                | Some res \<Rightarrow> Some (mapR RemoteManaged res, cache'))
           | PxDirect \<Rightarrow>
               Some ((case pe_socket_addrs env host port of
                  Inl e \<Rightarrow> Inl (from_io_error e)
                | Inr addrs \<Rightarrow>
                    bindR (pe_connect_any env addrs (unat (max (px_connect_timeout_ms config) 1)) (cl_config client)) (\<lambda>stream.
                      case pe_set_nodelay env stream of Inl e \<Rightarrow> Inl (from_io_error e) | Inr _ \<Rightarrow> Inr (RemoteDirect stream))),
                 cache')))"

definition remote_write_all :: "ProxyRemote \<Rightarrow> bytes \<Rightarrow> ((AtrError + unit) \<times> ProxyRemote) option" where
  "remote_write_all remote data =
     (case remote of
        RemoteDirect c \<Rightarrow> map_option (\<lambda>(res, c'). (res, RemoteDirect c')) (write_all data c)
      | RemoteManaged t \<Rightarrow> map_option (\<lambda>(res, t'). (mapR (\<lambda>_. ()) res, RemoteManaged t')) (tunnel_write data t))"

definition remote_flush :: "ProxyRemote \<Rightarrow> ((AtrError + unit) \<times> ProxyRemote) option" where
  "remote_flush remote =
     (case remote of
        RemoteDirect c \<Rightarrow> map_option (\<lambda>(res, c'). (res, RemoteDirect c')) (flush c)
      | RemoteManaged t \<Rightarrow> Some (Inr (), RemoteManaged t))"

section \<open>The PAC file\<close>

definition pac_token_matches :: "ProxyServiceConfig \<Rightarrow> string \<Rightarrow> bool" where
  "pac_token_matches config query =
     (case pac_token config of
        None \<Rightarrow> False
      | Some token \<Rightarrow> token \<noteq> [] \<and>
          list_ex (\<lambda>pair. strip_prefix ''token='' pair = Some token) (split_char CHR ''&'' query))"

definition pac_body :: "(string \<Rightarrow> string) \<Rightarrow> AtrClient \<Rightarrow> ProxyServiceConfig \<Rightarrow> string" where
  "pac_body js_string client config =
     (let endpoint = (case parse_ip (listen_host config) of Some ip \<Rightarrow> ip | None \<Rightarrow> V4 (ipv4_new 127 0 0 1),
                      listen_port config)
      in case cl_resource client of
           Some resource \<Rightarrow> generate_pac js_string resource endpoint
         | None \<Rightarrow> ''function FindProxyForURL(url, host) { return '' @ quoted ''DIRECT'' @ ''; }'' @ [CHR 0x0A])"

definition not_found_response :: bytes where
  "not_found_response = str_bytes (''HTTP/1.1 404 Not Found'' @ CRLF @ ''Content-Length: 0'' @ CRLF @ ''Connection: close'' @ CRLF @ CRLF)"

definition local_response :: "(string \<Rightarrow> string) \<Rightarrow> AtrClient \<Rightarrow> ProxyServiceConfig \<Rightarrow> HttpProxyRequest \<Rightarrow> bytes" where
  "local_response js_string client config request =
     (let is_get = eq_ignore_ascii_case (hr_method request) ''GET'';
          is_head = eq_ignore_ascii_case (hr_method request) ''HEAD'';
          (path, query) = (case split_once CHR ''?'' (hr_target request) of Some pq \<Rightarrow> pq | None \<Rightarrow> (hr_target request, []))
      in if (is_get \<or> is_head) \<and> path = ''/proxy.pac'' \<and> pac_token_matches config query then
           (let body = pac_body js_string client config in
            str_bytes (''HTTP/1.1 200 OK'' @ CRLF @ ''Content-Type: application/x-ns-proxy-autoconfig'' @ CRLF @
              ''Cache-Control: no-store'' @ CRLF @ ''Content-Length: '' @ nat_str (length body) @ CRLF @
              ''Connection: close'' @ CRLF @ CRLF) @
            (if is_get then str_bytes body else []))
         else not_found_response)"

definition serve_local_http_request ::
  "(string \<Rightarrow> string) \<Rightarrow> AtrClient \<Rightarrow> ProxyServiceConfig \<Rightarrow> HttpProxyRequest \<Rightarrow> unit io" where
  "serve_local_http_request js_string client config request =
     io_bind (write_all (local_response js_string client config request)) (\<lambda>_.
       io_bind flush (\<lambda>_ c. Some (Inr (), shutdown c)))"

section \<open>Reading the request\<close>

definition read_some :: "bytes io" where
  "read_some c =
     (case read_call READ_BUF_SIZE (rx c) of
        None \<Rightarrow> None
      | Some (Inl e, evs) \<Rightarrow> Some (Inl (from_io_error e), c\<lparr>rx := evs\<rparr>)
      | Some (Inr b, evs) \<Rightarrow> Some (Inr b, c\<lparr>rx := evs\<rparr>))"

definition append_read :: "bytes \<Rightarrow> bytes io" where
  "append_read buffer =
     io_bind read_some (\<lambda>data.
       if data = [] then io_err (NetworkFailed ''connection closed'') else io_return (buffer @ data))"

lemma append_read_size: "append_read buffer c = Some (Inr buffer', c') \<Longrightarrow> rx_size (rx c') < rx_size (rx c)"
  by (auto simp: append_read_def read_some_def io_bind_def io_err_def io_return_def READ_BUF_SIZE_def
      split: option.splits sum.splits prod.splits if_splits dest!: read_call_size [rotated])

text \<open>
  The three reading loops: read until a test of the buffer says that it is complete. The
  greeting and the HTTP header are tested before the first read, the SOCKS5 request after it.
\<close>

function read_until :: "(bytes \<Rightarrow> (AtrError + 'a option) option) \<Rightarrow> AtrError \<Rightarrow> bytes \<Rightarrow> ('a \<times> bytes) io" where
  "read_until test too_large buffer c =
     (case test buffer of
        None \<Rightarrow> None
      | Some (Inl e) \<Rightarrow> Some (Inl e, c)
      | Some (Inr (Some a)) \<Rightarrow> Some (Inr (a, buffer), c)
      | Some (Inr None) \<Rightarrow>
          (case append_read buffer c of
             None \<Rightarrow> None
           | Some (Inl e, c') \<Rightarrow> Some (Inl e, c')
           | Some (Inr buffer', c') \<Rightarrow>
               if MAX_HEADER_SIZE < length buffer' then Some (Inl too_large, c')
               else read_until test too_large buffer' c'))"
  by pat_completeness auto
termination
  by (relation "measure (\<lambda>(test, too_large, buffer, c). rx_size (rx c))") (auto dest: append_read_size)

function read_then_test :: "(bytes \<Rightarrow> (AtrError + 'a option) option) \<Rightarrow> AtrError \<Rightarrow> bytes \<Rightarrow> 'a io" where
  "read_then_test test too_large buffer c =
     (case append_read buffer c of
        None \<Rightarrow> None
      | Some (Inl e, c') \<Rightarrow> Some (Inl e, c')
      | Some (Inr buffer', c') \<Rightarrow>
          (case test buffer' of
             None \<Rightarrow> None
           | Some (Inl e) \<Rightarrow> Some (Inl e, c')
           | Some (Inr (Some a)) \<Rightarrow> Some (Inr a, c')
           | Some (Inr None) \<Rightarrow>
               if MAX_HEADER_SIZE < length buffer' then Some (Inl too_large, c')
               else read_then_test test too_large buffer' c'))"
  by pat_completeness auto
termination
  by (relation "measure (\<lambda>(test, too_large, buffer, c). rx_size (rx c))") (auto dest: append_read_size)

lemmas [simp del] = read_until.simps read_then_test.simps

definition header_test :: "bytes \<Rightarrow> (AtrError + nat option) option" where
  "header_test buffer = Some (Inr (find_header_end buffer))"

section \<open>The dialogues\<close>

record px_conn =
  pc_client :: conn
  pc_cache :: dns_cache
  pc_up :: u64
  pc_down :: u64

text \<open>
  \<open>relay client remote up down\<close> is the outcome of running the two relay threads to their end:
  the combined result, the client connection and the two byte counters.
\<close>

type_synonym relay_run = "conn \<Rightarrow> ProxyRemote \<Rightarrow> u64 \<Rightarrow> u64 \<Rightarrow> ((AtrError + unit) \<times> conn \<times> u64 \<times> u64) option"
type_synonym open_target = "string \<Rightarrow> u16 \<Rightarrow> dns_cache \<Rightarrow> ((AtrError + ProxyRemote) \<times> dns_cache) option"
type_synonym px_result = "((AtrError + unit) \<times> px_conn) option"

definition is_managed_remote :: "ProxyRemote \<Rightarrow> bool" where
  "is_managed_remote remote = (case remote of RemoteManaged _ \<Rightarrow> True | RemoteDirect _ \<Rightarrow> False)"

definition run_relay :: "relay_run \<Rightarrow> ProxyRemote \<Rightarrow> px_conn \<Rightarrow> px_result" where
  "run_relay relay remote pc =
     (case relay (pc_client pc) remote (pc_up pc) (pc_down pc) of
        None \<Rightarrow> None
      | Some (res, c, up, down) \<Rightarrow> Some (res, pc\<lparr>pc_client := c, pc_up := up, pc_down := down\<rparr>))"

text \<open>Data the client sent early goes to the remote before the relay starts; managed bytes are counted.\<close>

definition send_early :: "bytes \<Rightarrow> ProxyRemote \<Rightarrow> px_conn \<Rightarrow> ((AtrError + ProxyRemote) \<times> px_conn) option" where
  "send_early data remote pc =
     (case remote_write_all remote data of
        None \<Rightarrow> None
      | Some (Inl e, _) \<Rightarrow> Some (Inl e, pc)
      | Some (Inr _, remote') \<Rightarrow>
          Some (Inr remote', if is_managed_remote remote' then pc\<lparr>pc_up := pc_up pc + word_of_nat (length data)\<rparr> else pc))"

definition accept_target :: "relay_run \<Rightarrow> bytes \<Rightarrow> bytes \<Rightarrow> ProxyRemote \<Rightarrow> px_conn \<Rightarrow> px_result" where
  "accept_target relay reply leftover remote pc =
     (case io_bind (write_all reply) (\<lambda>_. flush) (pc_client pc) of
        None \<Rightarrow> None
      | Some (Inl e, c) \<Rightarrow> Some (Inl e, pc\<lparr>pc_client := c\<rparr>)
      | Some (Inr _, c) \<Rightarrow>
          (case (if leftover = [] then Some (Inr remote, pc\<lparr>pc_client := c\<rparr>)
                 else send_early leftover remote (pc\<lparr>pc_client := c\<rparr>)) of
             None \<Rightarrow> None
           | Some (Inl e, pc') \<Rightarrow> Some (Inl e, pc')
           | Some (Inr remote', pc') \<Rightarrow> run_relay relay remote' pc'))"

definition refuse :: "bytes \<Rightarrow> AtrError \<Rightarrow> px_conn \<Rightarrow> px_result" where
  "refuse reply e pc =
     Some (Inl e, pc\<lparr>pc_client := run_ignoring flush (run_ignoring (write_all reply) (pc_client pc))\<rparr>)"

definition socks5_greeting_too_large :: AtrError where
  "socks5_greeting_too_large = InvalidArgument ''socks5 greeting too large''"

definition socks5_request_too_large :: AtrError where
  "socks5_request_too_large = InvalidArgument ''socks5 request too large''"

definition socks5_request :: "bytes \<Rightarrow> Socks5ConnectRequest io" where
  "socks5_request buffer =
     io_bind (read_until parse_socks5_greeting socks5_greeting_too_large buffer) (\<lambda>_.
       io_bind (write_all [0x05, 0x00]) (\<lambda>_.
         io_bind flush (\<lambda>_. read_then_test parse_socks5_connect socks5_request_too_large [])))"

definition handle_socks5 :: "open_target \<Rightarrow> relay_run \<Rightarrow> bytes \<Rightarrow> px_conn \<Rightarrow> px_result" where
  "handle_socks5 open_to relay buffer pc =
     (case socks5_request buffer (pc_client pc) of
        None \<Rightarrow> None
      | Some (Inl e, c) \<Rightarrow> Some (Inl e, pc\<lparr>pc_client := c\<rparr>)
      | Some (Inr request, c) \<Rightarrow>
          (case open_to (sr_host request) (sr_port request) (pc_cache pc) of
             None \<Rightarrow> None
           | Some (Inr remote, cache) \<Rightarrow>
               accept_target relay (socks5_reply 0x00) (sr_leftover request) remote (pc\<lparr>pc_client := c, pc_cache := cache\<rparr>)
           | Some (Inl e, cache) \<Rightarrow> refuse (socks5_reply 0x01) e (pc\<lparr>pc_client := c, pc_cache := cache\<rparr>)))"

definition connect_established :: bytes where
  "connect_established =
     str_bytes (''HTTP/1.1 200 Connection Established'' @ CRLF @ ''Proxy-Agent: NulConnect'' @ CRLF @ CRLF)"

definition bad_gateway :: bytes where
  "bad_gateway =
     str_bytes (''HTTP/1.1 502 Bad Gateway'' @ CRLF @ ''Connection: close'' @ CRLF @ ''Content-Length: 0'' @ CRLF @ CRLF)"

definition handle_http_connect :: "open_target \<Rightarrow> relay_run \<Rightarrow> HttpProxyRequest \<Rightarrow> px_conn \<Rightarrow> px_result" where
  "handle_http_connect open_to relay request pc =
     (case parse_host_port (hr_target request) 443 of
        Inl e \<Rightarrow> Some (Inl e, pc)
      | Inr (host, port) \<Rightarrow>
          (case open_to host port (pc_cache pc) of
             None \<Rightarrow> None
           | Some (Inr remote, cache) \<Rightarrow>
               accept_target relay connect_established (hr_body request) remote (pc\<lparr>pc_cache := cache\<rparr>)
           | Some (Inl e, cache) \<Rightarrow> refuse bad_gateway e (pc\<lparr>pc_cache := cache\<rparr>)))"

definition handle_http_forward :: "open_target \<Rightarrow> relay_run \<Rightarrow> HttpProxyRequest \<Rightarrow> px_conn \<Rightarrow> px_result" where
  "handle_http_forward open_to relay request pc =
     (case rewrite_http_proxy_request request of
        Inl e \<Rightarrow> Some (Inl e, pc)
      | Inr (host, port, rewritten) \<Rightarrow>
          (case open_to host port (pc_cache pc) of
             None \<Rightarrow> None
           | Some (Inl e, cache) \<Rightarrow> refuse bad_gateway e (pc\<lparr>pc_cache := cache\<rparr>)
           | Some (Inr remote, cache) \<Rightarrow>
               (case send_early rewritten remote (pc\<lparr>pc_cache := cache\<rparr>) of
                  None \<Rightarrow> None
                | Some (Inl e, pc') \<Rightarrow> Some (Inl e, pc')
                | Some (Inr remote', pc') \<Rightarrow>
                    (case remote_flush remote' of
                       None \<Rightarrow> None
                     | Some (Inl e, _) \<Rightarrow> Some (Inl e, pc')
                     | Some (Inr _, remote'') \<Rightarrow> run_relay relay remote'' pc'))))"

definition handle_http ::
  "(string \<Rightarrow> string) \<Rightarrow> open_target \<Rightarrow> relay_run \<Rightarrow> AtrClient \<Rightarrow> ProxyServiceConfig \<Rightarrow> bytes \<Rightarrow> px_conn \<Rightarrow> px_result" where
  "handle_http js_string open_to relay client config buffer0 pc =
     (case read_until header_test (InvalidArgument ''http proxy header too large'') buffer0 (pc_client pc) of
        None \<Rightarrow> None
      | Some (Inl e, c) \<Rightarrow> Some (Inl e, pc\<lparr>pc_client := c\<rparr>)
      | Some (Inr (_, buffer), c) \<Rightarrow>
          (let pc1 = pc\<lparr>pc_client := c\<rparr> in
           case parse_http_proxy_request buffer of
             None \<Rightarrow> None
           | Some (Inl e) \<Rightarrow> Some (Inl e, pc1)
           | Some (Inr request) \<Rightarrow>
               if eq_ignore_ascii_case (hr_method request) ''CONNECT'' then handle_http_connect open_to relay request pc1
               else if starts_with ''/'' (hr_target request) then
                 (case serve_local_http_request js_string client config request c of
                    None \<Rightarrow> None
                  | Some (res, c') \<Rightarrow> Some (res, pc1\<lparr>pc_client := c'\<rparr>))
               else handle_http_forward open_to relay request pc1))"

text \<open>
  \<open>handle_connection\<close>; \<open>setup\<close> is the outcome of setting the options of the client socket.
\<close>

definition handle_connection ::
  "io_error + unit \<Rightarrow> (string \<Rightarrow> string) \<Rightarrow> px_env \<Rightarrow> relay_run \<Rightarrow> AtrClient \<Rightarrow> ProxyServiceConfig \<Rightarrow> px_conn \<Rightarrow> px_result" where
  "handle_connection setup js_string env relay client config pc =
     (case setup of
        Inl e \<Rightarrow> Some (Inl (from_io_error e), pc)
      | Inr _ \<Rightarrow>
          (case read_some (pc_client pc) of
             None \<Rightarrow> None
           | Some (Inl e, c) \<Rightarrow> Some (Inl e, pc\<lparr>pc_client := c\<rparr>)
           | Some (Inr first, c) \<Rightarrow>
               (let pc1 = pc\<lparr>pc_client := c\<rparr>; open_to = open_proxy_target env client config in
                case first of
                  [] \<Rightarrow> Some (Inr (), pc1)
                | b # _ \<Rightarrow>
                    if b = 0x05 \<and> enable_socks5 config then handle_socks5 open_to relay first pc1
                    else if enable_http config then handle_http js_string open_to relay client config first pc1
                    else Some (Inl (InvalidArgument ''unsupported proxy protocol''), pc1))))"

section \<open>Routing properties\<close>

lemma make_room_entries: "hm_get (make_room now cache) k = Some v \<Longrightarrow> (k, v) \<in> set cache"
  by (auto simp: make_room_def Let_def hm_get_def split: if_splits dest!: map_of_SomeD)

lemma dns_keeps_aux:
  assumes "hm_wf cache" "hm_get (hm_insert host (addrs, t1) (make_room t1 cache)) k = Some (v, t)"
  shows "hm_get cache k = Some (v, t) \<or> k = host \<and> v = addrs \<and> t = t1"
proof (cases "k = host")
  case False
  with assms(2) have "(k, (v, t)) \<in> set cache" by (intro make_room_entries) (simp add: hm.get_ins)
  with assms(1) show ?thesis by (simp add: hm_get_def hm_wf_def)
qed (use assms in \<open>simp add: hm.get_ins\<close>)

definition dns_inv :: "dns_cache \<Rightarrow> bool" where
  "dns_inv cache \<longleftrightarrow> hm_wf cache \<and> length cache \<le> DNS_CACHE_MAX_ENTRIES"

lemma length_insert_le: "length (hm_insert k v m) \<le> Suc (length m)"
  by (induction m) (auto simp: hm_insert_def)

lemma make_room_inv: "dns_inv cache \<Longrightarrow> hm_wf (make_room now cache) \<and> length (make_room now cache) < DNS_CACHE_MAX_ENTRIES"
proof -
  assume c: "dns_inv cache"
  then have "distinct (map fst (filter P cache))" for P
    unfolding dns_inv_def hm_wf_def by (simp add: distinct_map_filter)
  with c show ?thesis
    by (auto simp: make_room_def Let_def dns_inv_def hm_wf_def DNS_CACHE_MAX_ENTRIES_def)
qed

lemma dns_inv_insert: "dns_inv cache \<Longrightarrow> dns_inv (hm_insert host e (make_room now cache))"
  using make_room_inv [of cache now] length_insert_le [of host e "make_room now cache"]
  by (auto simp: dns_inv_def hm.wf_ins)

interpretation dns: ttl_cache "resolve_ipv4_addresses lookup" hm_get "lookup_v4 lookup" DNS_CACHE_TTL dns_inv
  for lookup
proof unfold_locales
  fix s :: dns_cache and k v t t0 t1
  assume "hm_get s k = Some (v, t)" "t0 - t < DNS_CACHE_TTL"
  then show "resolve_ipv4_addresses lookup t0 t1 k s = (v, s)" by (simp add: resolve_ipv4_addresses_def)
next
  fix s :: dns_cache and k t0 t1
  assume "\<not> (\<exists>v t. hm_get s k = Some (v, t) \<and> t0 - t < DNS_CACHE_TTL)"
  then show "fst (resolve_ipv4_addresses lookup t0 t1 k s) = lookup_v4 lookup t0 t1 k"
    by (auto simp: resolve_ipv4_addresses_def Let_def split: option.splits)
next
  fix s :: dns_cache and k t0 t1
  assume "dns_inv s"
  then show "dns_inv (snd (resolve_ipv4_addresses lookup t0 t1 k s))"
    by (auto simp: resolve_ipv4_addresses_def Let_def dns_inv_insert split: option.splits prod.splits)
next
  fix s :: dns_cache and k k' v t t0 t1
  assume "dns_inv s" "hm_get (snd (resolve_ipv4_addresses lookup t0 t1 k s)) k' = Some (v, t)"
  then show "hm_get s k' = Some (v, t) \<or> k' = k \<and> v = lookup_v4 lookup t0 t1 k \<and> t = t1"
    using dns_keeps_aux [of s k "lookup_v4 lookup t0 t1 k" t1 k' v t]
    by (auto simp: resolve_ipv4_addresses_def Let_def dns_inv_def split: option.splits if_splits)
qed

text \<open>
  C33. The DNS cache answers with fresh data and stays small. After any calls, an answer is
  what the resolver says in this call or said for the same host in an earlier call that ended
  less than 30 seconds before; and the cache never holds more than 1024 hosts.
\<close>

theorem dns_cache_fresh_and_bounded:
  "(fst (resolve_ipv4_addresses lookup t0 t1 host (dns.run lookup calls [])) = lookup_v4 lookup t0 t1 host \<or>
    (\<exists>u0 u1. (u0, u1, host) \<in> set calls \<and> t0 - u1 < 30000 \<and>
       fst (resolve_ipv4_addresses lookup t0 t1 host (dns.run lookup calls [])) = lookup_v4 lookup u0 u1 host)) \<and>
   length (dns.run lookup calls []) \<le> 1024"
proof
  have inv: "dns_inv []" by (simp add: dns_inv_def hm_wf_def)
  show "length (dns.run lookup calls []) \<le> 1024"
    using dns.run_inv [OF inv] by (simp add: dns_inv_def DNS_CACHE_MAX_ENTRIES_def)
  show "fst (resolve_ipv4_addresses lookup t0 t1 host (dns.run lookup calls [])) = lookup_v4 lookup t0 t1 host \<or>
    (\<exists>u0 u1. (u0, u1, host) \<in> set calls \<and> t0 - u1 < 30000 \<and>
       fst (resolve_ipv4_addresses lookup t0 t1 host (dns.run lookup calls [])) = lookup_v4 lookup u0 u1 host)"
    using dns.answer_fresh [OF inv, of lookup t0 t1 host calls] by (auto simp: hm_get_def DNS_CACHE_TTL_def)
qed

lemma find_split:
  assumes "List.find P xs = Some x"
  obtains before after where "xs = before @ x # after" "P x" "list_all (\<lambda>y. \<not> P y) before"
proof -
  from assms obtain i where i: "i < length xs" "P (xs ! i)" "x = xs ! i" "\<forall>j < i. \<not> P (xs ! j)" by (auto simp: find_Some_iff)
  then have "xs = take i xs @ x # drop (Suc i) xs" by (simp add: id_take_nth_drop)
  moreover have "list_all (\<lambda>y. \<not> P y) (take i xs)" using i by (auto simp: list_all_iff in_set_conv_nth)
  ultimately show thesis using i(2,3) that by blast
qed

text \<open>
  C22. The route of a proxied connection follows the router. It is managed exactly when the router manages the
  host, or the host is no IP literal and the router manages one of the addresses it resolves to. A host the router manages is
  connected under its own name and without the resolver; otherwise a managed route goes to the first of the resolved addresses that the router
  manages, and a direct one to the host. The resolver, and with it the cache, is used exactly for names the router does not manage.
\<close>

theorem proxy_route_follows_router:
  "let (r, cache') = resolved_tcp_route lookup t0 t1 client host port cache;
       (ips, resolved) = resolve_ipv4_addresses lookup t0 t1 host cache;
       managed = (\<lambda>h. \<exists>hit. route_tcp client h port = Managed hit);
       name = (parse_ip (trim_matches ''[]'' host) = None) in
     (rr_decision r = PxManaged \<longleftrightarrow> managed host \<or> name \<and> (\<exists>ip \<in> set ips. managed ip)) \<and>
     (if \<not> managed host \<and> rr_decision r = PxManaged
      then \<exists>before after. ips = before @ rr_connect_host r # after \<and> managed (rr_connect_host r) \<and> list_all (\<lambda>ip. \<not> managed ip) before
      else rr_connect_host r = host) \<and>
     cache' = (if managed host \<or> \<not> name then cache else resolved)"
proof -
  have m: "is_managed_route d \<longleftrightarrow> (\<exists>hit. d = Managed hit)" for d
    by (cases d; simp add: is_managed_route_def)
  obtain ips resolved where ips: "resolve_ipv4_addresses lookup t0 t1 host cache = (ips, resolved)" by fastforce
  consider (host) "is_managed_route (route_tcp client host port)"
    | (literal) "\<not> is_managed_route (route_tcp client host port)" "parse_ip (trim_matches ''[]'' host) \<noteq> None"
    | (name) "\<not> is_managed_route (route_tcp client host port)" "parse_ip (trim_matches ''[]'' host) = None" by blast
  then show ?thesis
  proof cases
    case host
    then show ?thesis unfolding resolved_tcp_route_def ips by (simp add: m)
  next
    case literal
    then show ?thesis unfolding resolved_tcp_route_def ips by (simp add: m)
  next
    case name
    show ?thesis
    proof (cases "List.find (\<lambda>ip. is_managed_route (route_tcp client ip port)) ips")
      case None
      then have "\<forall>ip \<in> set ips. \<not> is_managed_route (route_tcp client ip port)" by (simp add: find_None_iff)
      moreover have "resolved_tcp_route lookup t0 t1 client host port cache = (\<lparr>rr_decision = PxDirect, rr_connect_host = host\<rparr>, resolved)"
        unfolding resolved_tcp_route_def ips using name None by simp
      ultimately show ?thesis using name unfolding ips by (simp add: m)
    next
      case (Some ip)
      then obtain before after where "ips = before @ ip # after" "is_managed_route (route_tcp client ip port)"
        "list_all (\<lambda>ip. \<not> is_managed_route (route_tcp client ip port)) before"
        by (rule find_split)
      moreover have "resolved_tcp_route lookup t0 t1 client host port cache = (\<lparr>rr_decision = PxManaged, rr_connect_host = ip\<rparr>, resolved)"
        unfolding resolved_tcp_route_def ips using name Some by simp
      ultimately show ?thesis using name unfolding ips by (auto simp: m)
    qed
  qed
qed

definition px_demo_client :: AtrClient where
  "px_demo_client = \<lparr>cl_config = default_client_config, cl_session = None, cl_resource = Some demo_snapshot,
     cl_resource_bytes = None\<rparr>"

theorem proxy_route_follows_router_witness:
  "let r = fst (resolved_tcp_route (\<lambda>_ _ _. Inr []) 0 0 px_demo_client ''git.example.com'' 443 []) in
   rr_decision r = PxManaged \<and> rr_connect_host r = ''git.example.com''"
proof -
  have "route_tcp px_demo_client ''git.example.com'' 443 = Managed \<lparr>app_id = ''a1'', node_group_id = ''g1''\<rparr>" by code_simp
  with proxy_route_follows_router [where lookup = "\<lambda>_ _ _. Inr []" and ?t0.0 = 0 and ?t1.0 = 0 and client = px_demo_client
      and host = "''git.example.com''" and port = 443 and cache = "[]"]
  show ?thesis by (auto simp: Let_def split: prod.splits)
qed

text \<open>
  The PAC file is served only with the token. A request to the proxy itself is answered
  with anything but \<open>404 Not Found\<close> only when a non-empty token is configured, the method is
  \<open>GET\<close> or \<open>HEAD\<close>, the path is \<open>/proxy.pac\<close> and a parameter of the query is exactly
  \<open>token=\<close> followed by that token.
\<close>

theorem pac_needs_token:
  "local_response js_string client config request = not_found_response \<or>
   (\<exists>token query pre post. pac_token config = Some token \<and> token \<noteq> [] \<and>
      (eq_ignore_ascii_case (hr_method request) ''GET'' \<or> eq_ignore_ascii_case (hr_method request) ''HEAD'') \<and>
      hr_target request = ''/proxy.pac?'' @ query \<and>
      split_char CHR ''&'' query = pre @ (''token='' @ token) # post)"
proof (cases "local_response js_string client config request = not_found_response")
  case False
  obtain path query where pq: "(case split_once CHR ''?'' (hr_target request) of Some pq \<Rightarrow> pq | None \<Rightarrow> (hr_target request, [])) = (path, query)"
    by fastforce
  with False have c: "eq_ignore_ascii_case (hr_method request) ''GET'' \<or> eq_ignore_ascii_case (hr_method request) ''HEAD''"
    "path = ''/proxy.pac''" "pac_token_matches config query"
    by (auto simp: local_response_def Let_def split: if_splits)
  from c(3) obtain token pair where token: "pac_token config = Some token" "token \<noteq> []"
    "pair \<in> set (split_char CHR ''&'' query)" "strip_prefix ''token='' pair = Some token"
    by (auto simp: pac_token_matches_def list_ex_iff split: option.splits)
  then have "pair = ''token='' @ token"
    by (auto simp: strip_prefix_def starts_with_iff split: if_splits)
  moreover have "query \<noteq> []" using token calculation by (auto simp: strip_prefix_def starts_with_def split: if_splits)
  then have "hr_target request = ''/proxy.pac?'' @ query"
    using pq c(2) by (auto simp: split_once_Some split: option.splits)
  ultimately show ?thesis using c(1) token split_list [OF token(3)] by blast
qed simp

section \<open>The SOCKS5 dialogue\<close>

text \<open>A stream that delivers bytes without failing or ending.\<close>

fun flowing :: "rx_event list \<Rightarrow> bool" where
  "flowing [] = True"
| "flowing (Chunk b # r) = (b \<noteq> [] \<and> flowing r)"
| "flowing (RxFail e # r) = False"

lemma append_read_flowing:
  assumes "flowing (rx c)" "rx_bytes (rx c) \<noteq> []"
  obtains b evs where "append_read buffer c = Some (Inr (buffer @ b), c\<lparr>rx := evs\<rparr>)" "b \<noteq> []" "flowing evs"
    "rx_bytes (rx c) = b @ rx_bytes evs"
proof -
  from assms obtain d r where r: "rx c = Chunk d # r" "d \<noteq> []" "flowing r"
    by (cases "rx c" rule: flowing.cases) auto
  let ?b = "take READ_BUF_SIZE d" and ?evs = "if length d \<le> READ_BUF_SIZE then r else Chunk (drop READ_BUF_SIZE d) # r"
  have "?b \<noteq> []" using r(2) by (simp add: READ_BUF_SIZE_def)
  with r show ?thesis
    by (intro that [of ?b ?evs])
      (auto simp: append_read_def read_some_def read_call_def io_bind_def io_return_def)
qed

lemma length_socks_encode: "socks_ok t \<Longrightarrow> length (socks_encode t port) \<le> 262"
  by (cases t) (auto simp: u16_to_be_bytes_def)

lemma socks_request_read:
  assumes "socks_ok t"
  shows "k < length (socks_encode t port) \<Longrightarrow> flowing (rx c) \<Longrightarrow> rx_bytes (rx c) = drop k (socks_encode t port) @ data \<Longrightarrow>
    \<exists>leftover evs. read_then_test parse_socks5_connect e (take k (socks_encode t port)) c =
        Some (Inr \<lparr>sr_host = socks_host t, sr_port = port, sr_leftover = leftover\<rparr>, c\<lparr>rx := evs\<rparr>) \<and>
      leftover @ rx_bytes evs = data \<and> flowing evs"
proof (induction "length (socks_encode t port) - k" arbitrary: k c rule: less_induct)
  case less
  let ?e = "socks_encode t port"
  obtain b evs where b: "append_read (take k ?e) c = Some (Inr (take k ?e @ b), c\<lparr>rx := evs\<rparr>)" "b \<noteq> []" "flowing evs"
    "drop k ?e @ data = b @ rx_bytes evs"
    using append_read_flowing [of c "take k ?e"] less.prems by auto
  show ?case
  proof (cases "k + length b < length ?e")
    case True
    let ?k = "k + length b"
    have "b = take (length b) (drop k ?e @ data)" using b(4) by simp
    also have "\<dots> = take (length b) (drop k ?e)" using True by simp
    finally have bb: "take k ?e @ b = take ?k ?e" by (metis take_add)
    have rest: "rx_bytes evs = drop ?k ?e @ data"
    proof -
      have "rx_bytes evs = drop (length b) (drop k ?e @ data)" using b(4) by simp
      also have "\<dots> = drop (length b) (drop k ?e) @ data" using True by simp
      finally show ?thesis by (simp add: add.commute)
    qed
    have small: "\<not> MAX_HEADER_SIZE < length ?e"
      using length_socks_encode [OF assms, of port] by (simp add: MAX_HEADER_SIZE_def)
    have "read_then_test parse_socks5_connect e (take k ?e) c = read_then_test parse_socks5_connect e (take ?k ?e) (c\<lparr>rx := evs\<rparr>)"
      using b(1) bb small by (subst read_then_test.simps) (simp add: socks_parse_prefix [OF assms True])
    moreover have "length ?e - ?k < length ?e - k" using True b(2) by (cases b) auto
    ultimately show ?thesis
      using less.hyps [of ?k "c\<lparr>rx := evs\<rparr>"] True b(3) rest by auto
  next
    case False
    define l where "l = drop (length ?e - k) b"
    have "drop k ?e = take (length ?e - k) (b @ rx_bytes evs)" using b(4) less.prems(1) by (metis append_eq_conv_conj length_drop)
    then have "drop k ?e = take (length ?e - k) b" using False less.prems(1) by simp
    then have split: "take k ?e @ b = ?e @ l"
      unfolding l_def by (metis append_assoc append_take_drop_id)
    have "data = drop (length ?e - k) (b @ rx_bytes evs)" using b(4) by (metis append_eq_conv_conj length_drop)
    then have "l @ rx_bytes evs = data" using False less.prems(1) by (simp add: l_def)
    moreover have "read_then_test parse_socks5_connect e (take k ?e) c =
        Some (Inr \<lparr>sr_host = socks_host t, sr_port = port, sr_leftover = l\<rparr>, c\<lparr>rx := evs\<rparr>)"
      using b(1) by (subst read_then_test.simps) (simp add: split socks_parse_complete [OF assms])
    ultimately show ?thesis using b(3) by blast
  qed
qed

text \<open>
  The SOCKS5 dialogue. A client that sends a greeting offering no authentication and, once
  answered, the request for a target in any segmentation, is answered \<open>05 00\<close>; the proxy
  opens exactly the requested host and port, and every byte the client sent behind the request
  is kept for the remote: first the leftover of the request, then what is still unread.
\<close>

theorem socks5_dialogue:
  assumes "socks_ok t" and "parse_socks5_greeting greeting = Some (Inr (Some n))" and "tx_script c = []"
    and "flowing (rx c)" and "rx_bytes (rx c) = socks_encode t port @ data"
  shows "\<exists>leftover evs. socks5_request greeting c =
      Some (Inr \<lparr>sr_host = socks_host t, sr_port = port, sr_leftover = leftover\<rparr>,
        c\<lparr>rx := evs, tx := tx c @ [0x05, 0x00]\<rparr>) \<and> leftover @ rx_bytes evs = data"
proof -
  let ?c = "c\<lparr>tx := tx c @ [0x05, 0x00]\<rparr>"
  have "0 < length (socks_encode t port)" by (cases t) simp_all
  with socks_request_read [OF assms(1), of 0 port ?c data socks5_request_too_large] assms(4,5)
  obtain leftover evs where r: "read_then_test parse_socks5_connect socks5_request_too_large [] ?c =
      Some (Inr \<lparr>sr_host = socks_host t, sr_port = port, sr_leftover = leftover\<rparr>, ?c\<lparr>rx := evs\<rparr>)"
    "leftover @ rx_bytes evs = data" by auto
  have g: "read_until parse_socks5_greeting socks5_greeting_too_large greeting c = Some (Inr (n, greeting), c)"
    by (subst read_until.simps) (simp add: assms(2))
  have "socks5_request greeting c = Some (Inr \<lparr>sr_host = socks_host t, sr_port = port, sr_leftover = leftover\<rparr>, ?c\<lparr>rx := evs\<rparr>)"
    using r(1) g assms(3) by (simp add: socks5_request_def io_bind_def write_all_def flush_def)
  with r(2) show ?thesis by (intro exI [of _ leftover] exI [of _ evs]) simp
qed

theorem socks5_dialogue_witness:
  "\<exists>leftover evs. socks5_request [0x05, 0x01, 0x00]
      (conn_of [Chunk [0x05, 0x01, 0x00, 0x01, 10], Chunk [1, 0, 4, 0, 80, 71], Chunk [69]]) =
     Some (Inr \<lparr>sr_host = show_ipv4 (ipv4_new 10 1 0 4), sr_port = 80, sr_leftover = leftover\<rparr>,
       (conn_of [])\<lparr>rx := evs, tx := [0x05, 0x00]\<rparr>) \<and> leftover @ rx_bytes evs = [71, 69]"
proof -
  let ?c = "conn_of [Chunk [0x05, 0x01, 0x00, 0x01, 10], Chunk [1, 0, 4, 0, 80, 71], Chunk [69]]"
  have "parse_socks5_greeting [0x05, 0x01, 0x00] = Some (Inr (Some 3))" by code_simp
  moreover have "u16_to_be_bytes 80 = [0, 80]" by code_simp
  ultimately show ?thesis
    using socks5_dialogue [of "SockV4 10 1 0 4" "[0x05, 0x01, 0x00]" 3 ?c 80 "[71, 69]"]
    by (auto simp: conn_of_def)
qed

text \<open>
  A client that does not wait for the answer to its greeting is cut off: when greeting and
  request arrive in one read, the request is dropped with the greeting, and the proxy waits for
  a request that never comes; at the end of the stream the connection fails.
\<close>

theorem socks5_pipelined_request_lost:
  "parse_socks5_greeting ([0x05, 0x01, 0x00] @ socks_encode (SockV4 10 1 0 4) 80) = Some (Inr (Some 3)) \<and>
   socks5_request ([0x05, 0x01, 0x00] @ socks_encode (SockV4 10 1 0 4) 80) (conn_of []) = None \<and>
   map_option fst (socks5_request ([0x05, 0x01, 0x00] @ socks_encode (SockV4 10 1 0 4) 80) (conn_of [Chunk []])) =
     Some (Inl (NetworkFailed ''connection closed''))"
  by (intro conjI) code_simp+

section \<open>Reading requests in pieces\<close>

text \<open>The authority form of a host and a port.\<close>

definition authority_form :: "string \<Rightarrow> u16 \<Rightarrow> string" where
  "authority_form host port = (if CHR '':'' \<in> set host then ''['' @ host @ '']'' else host) @ '':'' @ nat_str (unat port)"

lemma nat_str_ne: "nat_str n \<noteq> []"
  by (subst nat_str_def, subst nat_digits.simps) simp

lemma parse_u16_nat_str: "parse_u16 (nat_str (unat p)) = Some p"
proof -
  obtain c cs where c: "nat_str (unat p) = c # cs" using nat_str_ne by (cases "nat_str (unat p)") auto
  with nat_str_chars [of c "unat p"] have "c \<noteq> CHR ''+''" by (auto simp: ascii_digit_def)
  moreover have "list_all ascii_digit (nat_str (unat p))" by (simp add: list_all_iff nat_str_chars)
  moreover have "unat p < 65536" using unsigned_less [of p, where ?'a = nat] by simp
  ultimately have "parse_unsigned 65536 (nat_str (unat p)) = Some (unat p)"
    unfolding parse_unsigned_def Let_def c list.case by (simp add: dec_value_nat_str nat_str_ne c [symmetric])
  then show ?thesis by (simp add: parse_u16_def)
qed

lemma parse_authority_form:
  assumes "CHR ''['' \<notin> set host" "CHR '']'' \<notin> set host"
  shows "parse_host_port (authority_form host port) d = Inr (host, port)"
proof (cases "CHR '':'' \<in> set host")
  case True
  then have "authority_form host port = ''['' @ host @ CHR '']'' # '':'' @ nat_str (unat port)" by (simp add: authority_form_def)
  then show ?thesis using assms(2)
    by (simp add: parse_host_port_def strip_prefix_def starts_with_def parse_u16_nat_str)
next
  case False
  then have a: "authority_form host port = host @ CHR '':'' # nat_str (unat port)" by (simp add: authority_form_def)
  have "CHR ''['' \<noteq> hd (authority_form host port)" using assms(1) unfolding a by (cases host) auto
  then have "\<not> starts_with ''['' (authority_form host port)" by (auto simp: starts_with_iff)
  with a show ?thesis by (simp add: parse_host_port_def strip_prefix_def parse_u16_nat_str nat_str_punct)
qed

lemma read_some_flowing:
  assumes "rx c = evs1 @ evs2" "flowing evs1" "rx_bytes evs1 \<noteq> []"
  obtains b evs where "read_some c = Some (Inr b, c\<lparr>rx := evs @ evs2\<rparr>)" "b \<noteq> []" "flowing evs" "rx_bytes evs1 = b @ rx_bytes evs"
proof -
  from assms(2,3) obtain d r where r: "evs1 = Chunk d # r" "d \<noteq> []" "flowing r"
    by (cases evs1 rule: flowing.cases) auto
  let ?b = "take READ_BUF_SIZE d" and ?evs = "if length d \<le> READ_BUF_SIZE then r else Chunk (drop READ_BUF_SIZE d) # r"
  have "?b \<noteq> []" using r(2) by (simp add: READ_BUF_SIZE_def)
  with r assms(1) show ?thesis by (intro that [of ?b ?evs]) (auto simp: read_some_def read_call_def)
qed

lemma take_extend:
  assumes "drop m msg = b @ r" "m \<le> length msg"
  shows "take m msg @ b = take (m + length b) msg" "r = drop (m + length b) msg" "m + length b \<le> length msg"
proof -
  have l: "length b \<le> length msg - m" using arg_cong [OF assms(1), of length] by simp
  show "take m msg @ b = take (m + length b) msg" by (simp add: take_add assms(1))
  show "r = drop (m + length b) msg" using assms(1) by (metis append_eq_conv_conj drop_drop add.commute)
  show "m + length b \<le> length msg" using l assms(2) by simp
qed

lemma read_until_flowing:
  assumes "\<And>k. k < n \<Longrightarrow> test (take k msg) = Some (Inr None)"
    and "\<And>k. n \<le> k \<Longrightarrow> k \<le> length msg \<Longrightarrow> test (take k msg) = Some (Inr (Some a))"
    and "length msg \<le> MAX_HEADER_SIZE" "n \<le> length msg"
  shows "m \<le> length msg \<Longrightarrow> rx c = evs1 @ evs2 \<Longrightarrow> flowing evs1 \<Longrightarrow> rx_bytes evs1 = drop m msg \<Longrightarrow>
    \<exists>k evs. n \<le> k \<and> k \<le> length msg \<and> read_until test e (take m msg) c = Some (Inr (a, take k msg), c\<lparr>rx := evs @ evs2\<rparr>) \<and>
      flowing evs \<and> rx_bytes evs = drop k msg"
proof (induction "length msg - m" arbitrary: m c evs1 rule: less_induct)
  case less
  show ?case
  proof (cases "n \<le> m")
    case True
    with less.prems assms(2) [of m] show ?thesis
      by (intro exI [of _ m] exI [of _ evs1]) (subst read_until.simps, simp)
  next
    case False
    with less.prems assms(4) have "rx_bytes evs1 \<noteq> []" by simp
    from read_some_flowing [OF less.prems(2,3) this] obtain b evs where
      b: "read_some c = Some (Inr b, c\<lparr>rx := evs @ evs2\<rparr>)" "b \<noteq> []" "flowing evs" "rx_bytes evs1 = b @ rx_bytes evs" by blast
    have d: "drop m msg = b @ rx_bytes evs" using b(4) less.prems(4) by simp
    note ext = take_extend [OF d less.prems(1)]
    have "append_read (take m msg) c = Some (Inr (take (m + length b) msg), c\<lparr>rx := evs @ evs2\<rparr>)"
      using b(1,2) ext(1) by (simp add: append_read_def io_bind_def io_return_def)
    moreover have "\<not> MAX_HEADER_SIZE < length msg" using assms(3) by simp
    ultimately have "read_until test e (take m msg) c = read_until test e (take (m + length b) msg) (c\<lparr>rx := evs @ evs2\<rparr>)"
      using False assms(1) [of m] by (subst read_until.simps) simp
    moreover have "length msg - (m + length b) < length msg - m" using b(2) ext(3) by (cases b) auto
    ultimately show ?thesis
      using less.hyps [of "m + length b" "c\<lparr>rx := evs @ evs2\<rparr>" evs] ext(2,3) b(3) by simp
  qed
qed

text \<open>The first read of a connection and the loop that goes on from it, as one.\<close>

lemma first_read_until_flowing:
  assumes "\<And>k. k < n \<Longrightarrow> test (take k msg) = Some (Inr None)"
    and "\<And>k. n \<le> k \<Longrightarrow> k \<le> length msg \<Longrightarrow> test (take k msg) = Some (Inr (Some a))"
    and "length msg \<le> MAX_HEADER_SIZE" "n \<le> length msg" "msg \<noteq> []"
    and "rx c = evs1 @ evs2" "flowing evs1" "rx_bytes evs1 = msg"
  obtains m c1 k evs where "read_some c = Some (Inr (take m msg), c1)" "0 < m" "n \<le> k" "k \<le> length msg"
    "read_until test e (take m msg) c1 = Some (Inr (a, take k msg), c\<lparr>rx := evs @ evs2\<rparr>)"
    "flowing evs" "rx_bytes evs = drop k msg"
proof -
  from read_some_flowing [OF assms(6,7)] assms(5,8) obtain b evs where
    b: "read_some c = Some (Inr b, c\<lparr>rx := evs @ evs2\<rparr>)" "b \<noteq> []" "flowing evs" "rx_bytes evs1 = b @ rx_bytes evs" by blast
  have "drop 0 msg = b @ rx_bytes evs" using b(4) assms(8) by simp
  note ext = take_extend [OF this]
  then have m: "take (length b) msg = b" "rx_bytes evs = drop (length b) msg" "length b \<le> length msg" by simp_all
  from read_until_flowing [where test = test and msg = msg and n = n and a = a, OF assms(1-4) m(3), of "c\<lparr>rx := evs @ evs2\<rparr>" evs evs2 e] b(3) m(2)
  obtain k evs' where "n \<le> k" "k \<le> length msg" "flowing evs'" "rx_bytes evs' = drop k msg"
    "read_until test e (take (length b) msg) (c\<lparr>rx := evs @ evs2\<rparr>) = Some (Inr (a, take k msg), c\<lparr>rx := evs' @ evs2\<rparr>)" by auto
  with b m(1) that [of "length b" "c\<lparr>rx := evs @ evs2\<rparr>" k evs'] show thesis by simp
qed

lemma handle_connection_socks5:
  assumes "enable_socks5 config" "socks_ok t" "length methods \<le> 255" "0x00 \<in> set methods" "tx_script (pc_client pc) = []"
    and "rx (pc_client pc) = greeting @ request" "flowing greeting" "rx_bytes greeting = socks_greeting methods"
    and "flowing request" "rx_bytes request = socks_encode t port @ data"
    and "open_proxy_target env client config (socks_host t) port (pc_cache pc) = Some (Inr remote, cache)"
  obtains early evs where "early @ rx_bytes evs = data"
    "handle_connection (Inr ()) js_string env relay client config pc =
       accept_target relay (socks5_reply 0x00) early remote
         (pc\<lparr>pc_client := (pc_client pc)\<lparr>rx := evs, tx := tx (pc_client pc) @ [0x05, 0x00]\<rparr>, pc_cache := cache\<rparr>)"
proof -
  let ?g = "socks_greeting methods" and ?c = "pc_client pc"
  let ?test = parse_socks5_greeting
  have t: "?test (take k ?g) = Some (Inr None)" if "k < length ?g" for k using socks_greeting_parse(2) [OF assms(3,4) that] .
  have d: "?test (take k ?g) = Some (Inr (Some (length ?g)))" if "length ?g \<le> k" "k \<le> length ?g" for k
    using socks_greeting_parse(1) [OF assms(3,4)] that by simp
  have size: "length ?g \<le> MAX_HEADER_SIZE" "?g \<noteq> []" using assms(3) by (simp_all add: socks_greeting_def MAX_HEADER_SIZE_def)
  obtain m c1 k evs1 where r: "read_some ?c = Some (Inr (take m ?g), c1)" "0 < m" "length ?g \<le> k" "k \<le> length ?g"
    "read_until ?test socks5_greeting_too_large (take m ?g) c1 = Some (Inr (length ?g, take k ?g), ?c\<lparr>rx := evs1 @ request\<rparr>)"
    "flowing evs1" "rx_bytes evs1 = drop k ?g"
    by (rule first_read_until_flowing [where test = ?test and msg = ?g and n = "length ?g" and a = "length ?g" and e = socks5_greeting_too_large,
        OF t d size(1) order.refl size(2) assms(6-8)])
  have none: "evs1 = []" using r(3,6,7) by (cases evs1 rule: flowing.cases) auto
  let ?c2 = "?c\<lparr>rx := request, tx := tx ?c @ [0x05, 0x00]\<rparr>"
  have "0 < length (socks_encode t port)" by (cases t) simp_all
  with socks_request_read [OF assms(2), of 0 port ?c2 data socks5_request_too_large] assms(9,10)
  obtain early evs where q0: "read_then_test parse_socks5_connect socks5_request_too_large [] ?c2 =
      Some (Inr \<lparr>sr_host = socks_host t, sr_port = port, sr_leftover = early\<rparr>, ?c2\<lparr>rx := evs\<rparr>)" and q: "early @ rx_bytes evs = data" by auto
  have "?c2\<lparr>rx := evs\<rparr> = ?c\<lparr>rx := evs, tx := tx ?c @ [0x05, 0x00]\<rparr>" by simp
  note q0 = q0 [unfolded this]
  have req: "socks5_request (take m ?g) c1 =
      Some (Inr \<lparr>sr_host = socks_host t, sr_port = port, sr_leftover = early\<rparr>, ?c\<lparr>rx := evs, tx := tx ?c @ [0x05, 0x00]\<rparr>)"
    using r(5) q0 assms(5) none by (simp add: socks5_request_def io_bind_def write_all_def flush_def)
  have hd: "\<exists>rest. take m ?g = 0x05 # rest" using r(2) by (cases m) (simp_all add: socks_greeting_def)
  have "handle_connection (Inr ()) js_string env relay client config pc =
      handle_socks5 (open_proxy_target env client config) relay (take m ?g) (pc\<lparr>pc_client := c1\<rparr>)"
    using r(1) hd assms(1) by (auto simp: handle_connection_def)
  also have "\<dots> = accept_target relay (socks5_reply 0x00) early remote
      (pc\<lparr>pc_client := ?c\<lparr>rx := evs, tx := tx ?c @ [0x05, 0x00]\<rparr>, pc_cache := cache\<rparr>)"
    using req assms(11) by (simp add: handle_socks5_def)
  finally show thesis using that q by blast
qed

lemma handle_connection_http:
  assumes "enable_http config" "clean_request r" "length (http_text r) \<le> MAX_HEADER_SIZE"
    and "flowing (rx (pc_client pc))" "rx_bytes (rx (pc_client pc)) = http_text r"
  obtains early evs where "early @ rx_bytes evs = hr_body r"
    "handle_connection (Inr ()) js_string env relay client config pc =
       (let pc1 = pc\<lparr>pc_client := (pc_client pc)\<lparr>rx := evs\<rparr>\<rparr>; request = r\<lparr>hr_body := early\<rparr>; open_to = open_proxy_target env client config in
        if eq_ignore_ascii_case (hr_method r) ''CONNECT'' then handle_http_connect open_to relay request pc1
        else if starts_with ''/'' (hr_target r) then
          (case serve_local_http_request js_string client config request (pc_client pc1) of
             None \<Rightarrow> None
           | Some (res, c') \<Rightarrow> Some (res, pc1\<lparr>pc_client := c'\<rparr>))
        else handle_http_forward open_to relay request pc1)"
proof -
  let ?c = "pc_client pc" and ?h = "length (http_head r)" and ?e = "InvalidArgument ''http proxy header too large''"
  have t: "header_test (take k (http_text r)) = Some (Inr None)" if "k < ?h" for k
    using that by (simp add: header_test_def header_end_take [OF assms(2)])
  have d: "header_test (take k (http_text r)) = Some (Inr (Some (?h - 4)))" if "?h \<le> k" "k \<le> length (http_text r)" for k
    using that by (simp add: header_test_def header_end_take [OF assms(2)])
  have size: "?h \<le> length (http_text r)" "http_text r \<noteq> []" by (simp_all add: http_text_head) (simp add: http_head_def)
  have split: "rx ?c = rx ?c @ []" by simp
  obtain m c1 k evs where r: "read_some ?c = Some (Inr (take m (http_text r)), c1)" "0 < m" "?h \<le> k" "k \<le> length (http_text r)"
    "read_until header_test ?e (take m (http_text r)) c1 = Some (Inr (?h - 4, take k (http_text r)), ?c\<lparr>rx := evs @ []\<rparr>)"
    "flowing evs" "rx_bytes evs = drop k (http_text r)"
    by (rule first_read_until_flowing [where test = header_test and msg = "http_text r" and n = ?h and a = "?h - 4" and e = ?e,
        OF t d assms(3) size(1,2) split assms(4,5)])
  let ?early = "take (k - ?h) (hr_body r)"
  have "clean_request (r\<lparr>hr_body := ?early\<rparr>)" using assms(2) by (simp add: clean_request_def)
  then have parsed: "parse_http_proxy_request (take k (http_text r)) = Some (Inr (r\<lparr>hr_body := ?early\<rparr>))"
    unfolding http_text_take [OF r(3)] by (rule http_text_parses)
  obtain x xs where x: "hr_method r = x # xs" "printable x" using assms(2) by (cases "hr_method r") (auto simp: clean_request_def clean_word_def)
  have "word_of_nat (of_char x) \<noteq> (0x05 :: u8)"
  proof
    assume "word_of_nat (of_char x) = (0x05 :: u8)"
    then have "unat (word_of_nat (of_char x) :: u8) = 5" by simp
    with x(2) show False by (simp add: printable_def unat_of_nat)
  qed
  moreover obtain m' where "m = Suc m'" using r(2) by (cases m) auto
  ultimately have "\<exists>b rest. take m (http_text r) = b # rest \<and> b \<noteq> 0x05"
    using x(1) by (cases "hr_headers r") (simp_all add: http_text_def request_lines_def str_bytes_def)
  then have "handle_connection (Inr ()) js_string env relay client config pc =
      handle_http js_string (open_proxy_target env client config) relay client config (take m (http_text r)) (pc\<lparr>pc_client := c1\<rparr>)"
    using r(1) assms(1) by (auto simp: handle_connection_def)
  moreover have "?early @ rx_bytes evs = hr_body r" using r(3,7) by (simp add: http_text_head)
  ultimately show thesis
    using that [of ?early evs] r(5) parsed by (simp add: handle_http_def Let_def)
qed

end
