(* ===== verification/Proxy_Relay.thy ===== *)
theory Proxy_Relay
  imports Proxy_Conn "HOL-Library.Sublist"
begin

text \<open>
  The relay of the local proxy (proxy_service.rs): the three copy loops, and the managed relay
  as a step relation in which the two copying threads and the tunnel's worker take turns in any
  order. A copy loop that waits for input is \<open>None\<close>. At the end, the lines the relay logs.
\<close>

section \<open>Copy loops\<close>

definition interrupted :: "io_error \<Rightarrow> bool" where
  "interrupted e = (fst e = Interrupted)"

function copy_tcp_to_tcp :: "rx_event list \<Rightarrow> conn \<Rightarrow> ((AtrError + unit) \<times> rx_event list \<times> conn) option" where
  "copy_tcp_to_tcp reader writer =
     (case read_call READ_BUF_SIZE reader of
        None \<Rightarrow> None
      | Some (Inr b, reader') \<Rightarrow>
          if b = [] then Some (Inr (), reader', shutdown writer)
          else (case write_all b writer of
                  None \<Rightarrow> None
                | Some (Inl e, writer') \<Rightarrow> Some (Inl e, reader', writer')
                | Some (Inr _, writer') \<Rightarrow> copy_tcp_to_tcp reader' writer')
      | Some (Inl e, reader') \<Rightarrow>
          if interrupted e then copy_tcp_to_tcp reader' writer else Some (Inl (from_io_error e), reader', writer))"
  by pat_completeness auto
termination
  by (relation "measure (\<lambda>(reader, writer). rx_size reader)")
    (auto simp: READ_BUF_SIZE_def dest!: read_call_size [rotated])

lemmas [simp del] = copy_tcp_to_tcp.simps

text \<open>One turn of the loop of \<open>copy_tcp_to_tunnel\<close> and of \<open>copy_tunnel_to_tcp\<close>.\<close>

record relay_state =
  rl_client :: conn
  rl_tunnel :: TcpTunnel
  rl_up :: u64
  rl_down :: u64
  rl_up_res :: "(AtrError + unit) option"
  rl_down_res :: "(AtrError + unit) option"

definition close_tunnel :: "TcpTunnel \<Rightarrow> TcpTunnel" where
  "close_tunnel t = (case tunnel_close t of Some t' \<Rightarrow> t' | None \<Rightarrow> t)"

text \<open>The end of the upstream thread closes the tunnel, whatever the result.\<close>

definition finish_up :: "AtrError + unit \<Rightarrow> relay_state \<Rightarrow> relay_state" where
  "finish_up res s = s\<lparr>rl_tunnel := close_tunnel (rl_tunnel s), rl_up_res := Some res\<rparr>"

definition copy_tcp_to_tunnel_step :: "relay_state \<Rightarrow> relay_state option" where
  "copy_tcp_to_tunnel_step s =
     (case read_call READ_BUF_SIZE (rx (rl_client s)) of
        None \<Rightarrow> None
      | Some (Inr b, evs) \<Rightarrow>
          (let s1 = s\<lparr>rl_client := (rl_client s)\<lparr>rx := evs\<rparr>\<rparr> in
           if b = [] then Some (finish_up (Inr ()) (s1\<lparr>rl_tunnel := close_tunnel (rl_tunnel s1)\<rparr>))
           else case tunnel_write b (rl_tunnel s1) of
             None \<Rightarrow> None
           | Some (Inl e, t) \<Rightarrow> Some (finish_up (Inl e) (s1\<lparr>rl_tunnel := t\<rparr>))
           | Some (Inr written, t) \<Rightarrow> Some (s1\<lparr>rl_tunnel := t, rl_up := rl_up s1 + word_of_nat written\<rparr>))
      | Some (Inl e, evs) \<Rightarrow>
          (let s1 = s\<lparr>rl_client := (rl_client s)\<lparr>rx := evs\<rparr>\<rparr> in
           if interrupted e then Some s1 else Some (finish_up (Inl (from_io_error e)) s1)))"

text \<open>The end of the downstream thread shuts the client connection down and closes the tunnel.\<close>

definition finish_down :: "AtrError + unit \<Rightarrow> relay_state \<Rightarrow> relay_state" where
  "finish_down res s =
     s\<lparr>rl_client := shutdown (rl_client s), rl_tunnel := close_tunnel (rl_tunnel s), rl_down_res := Some res\<rparr>"

definition copy_tunnel_to_tcp_step :: "relay_state \<Rightarrow> relay_state option" where
  "copy_tunnel_to_tcp_step s =
     (case tunnel_read READ_BUF_SIZE (rl_tunnel s) of
        None \<Rightarrow> None
      | Some (Inl e, t) \<Rightarrow> Some (finish_down (Inl e) (s\<lparr>rl_tunnel := t\<rparr>))
      | Some (Inr b, t) \<Rightarrow>
          (let s1 = s\<lparr>rl_tunnel := t\<rparr> in
           if b = [] then Some (finish_down (Inr ()) (s1\<lparr>rl_client := shutdown (rl_client s1)\<rparr>))
           else case write_all b (rl_client s1) of
             None \<Rightarrow> None
           | Some (Inl e, c) \<Rightarrow> Some (finish_down (Inl e) (s1\<lparr>rl_client := c\<rparr>))
           | Some (Inr _, c) \<Rightarrow> Some (s1\<lparr>rl_client := c, rl_down := rl_down s1 + word_of_nat (length b)\<rparr>)))"

text \<open>
  The threads of a managed relay. Besides the two copying threads the worker of the tunnel
  handles its events, and the client may send.
\<close>

inductive relay_step :: "relay_state \<Rightarrow> relay_state \<Rightarrow> bool" where
  up: "rl_up_res s = None \<Longrightarrow> copy_tcp_to_tunnel_step s = Some s' \<Longrightarrow> relay_step s s'"
| down: "rl_down_res s = None \<Longrightarrow> copy_tunnel_to_tcp_step s = Some s' \<Longrightarrow> relay_step s s'"
| worker: "worker_event ev (tt_worker (rl_tunnel s)) = Some w \<Longrightarrow>
    relay_step s (s\<lparr>rl_tunnel := (rl_tunnel s)\<lparr>tt_worker := w\<rparr>\<rparr>)"
| client: "relay_step s (s\<lparr>rl_client := (rl_client s)\<lparr>rx := rx (rl_client s) @ evs\<rparr>\<rparr>)"

inductive_cases relay_stepE: "relay_step s s'"

text \<open>The result of \<open>relay\<close> once both threads have ended: \<open>up.and(down)\<close>.\<close>

definition relay_result :: "relay_state \<Rightarrow> (AtrError + unit) option" where
  "relay_result s =
     (case (rl_up_res s, rl_down_res s) of
        (Some up, Some down) \<Rightarrow> Some (bindR up (\<lambda>_. down))
      | _ \<Rightarrow> None)"

section \<open>Direct copies\<close>

fun ends_cleanly :: "rx_event list \<Rightarrow> bool" where
  "ends_cleanly [] = False"
| "ends_cleanly (Chunk b # r) = (b = [] \<or> ends_cleanly r)"
| "ends_cleanly (RxFail e # r) = (interrupted e \<and> ends_cleanly r)"

fun bytes_to_end :: "rx_event list \<Rightarrow> bytes" where
  "bytes_to_end [] = []"
| "bytes_to_end (Chunk b # r) = (if b = [] then [] else b @ bytes_to_end r)"
| "bytes_to_end (RxFail e # r) = bytes_to_end r"

text \<open>
  A direct relay copies the stream. When the reader's stream ends, in any segmentation and
  with interruptions, and the writer accepts, the loop returns success, every byte up to the
  end has been written in order, and the writer has been shut down.
\<close>

theorem copy_tcp_to_tcp_faithful:
  assumes "ends_cleanly reader" and "tx_script writer = []"
  shows "\<exists>reader'. copy_tcp_to_tcp reader writer =
     Some (Inr (), reader', writer\<lparr>tx := tx writer @ bytes_to_end reader, shut_down := True\<rparr>)"
  using assms
proof (induction reader writer rule: copy_tcp_to_tcp.induct)
  case (1 reader writer)
  show ?case
  proof (cases reader rule: ends_cleanly.cases)
    case (2 b r)
    show ?thesis
    proof (cases "b = []")
      case True
      with 2 show ?thesis by (subst copy_tcp_to_tcp.simps) (simp add: read_call_def shutdown_def)
    next
      case False
      let ?b = "take READ_BUF_SIZE b" and ?r = "if length b \<le> READ_BUF_SIZE then r else Chunk (drop READ_BUF_SIZE b) # r"
      have rc: "read_call READ_BUF_SIZE reader = Some (Inr ?b, ?r)" by (simp add: 2 read_call_def)
      have ne: "?b \<noteq> []" using False by (simp add: READ_BUF_SIZE_def)
      let ?w = "writer\<lparr>tx := tx writer @ ?b\<rparr>"
      have wr: "write_all ?b writer = Some (Inr (), ?w)" using "1.prems"(2) by (simp add: write_all_def)
      have "ends_cleanly ?r" "bytes_to_end reader = ?b @ bytes_to_end ?r"
        using 2 False "1.prems"(1) by auto
      with "1.IH"(2) [OF rc refl refl ne wr refl refl] "1.prems"(2) obtain reader' where
        "copy_tcp_to_tcp ?r ?w = Some (Inr (), reader', ?w\<lparr>tx := tx writer @ bytes_to_end reader, shut_down := True\<rparr>)"
        by auto
      then show ?thesis using rc ne wr by (subst copy_tcp_to_tcp.simps) simp
    qed
  next
    case (3 e r)
    then have rc: "read_call READ_BUF_SIZE reader = Some (Inl e, r)" "interrupted e" "ends_cleanly r"
      using "1.prems" by (simp_all add: read_call_def)
    from "1.IH"(1) [OF rc(1) refl refl rc(2,3)] "1.prems"(2) 3 rc show ?thesis
      by (subst copy_tcp_to_tcp.simps) simp
  qed (use "1.prems" in simp)
qed

theorem copy_tcp_to_tcp_faithful_witness:
  "\<exists>reader'. copy_tcp_to_tcp [Chunk [1, 2], RxFail (Interrupted, ''eintr''), Chunk [3], Chunk []] (conn_of []) =
     Some (Inr (), reader', (conn_of [])\<lparr>tx := tx (conn_of []) @
       bytes_to_end [Chunk [1, 2], RxFail (Interrupted, ''eintr''), Chunk [3], Chunk []], shut_down := True\<rparr>)"
  by (rule copy_tcp_to_tcp_faithful) (simp_all add: conn_of_def interrupted_def)

section \<open>The managed relay\<close>

lemma pending_grows:
  assumes "prefix (wk_incoming (tt_worker t)) (wk_incoming w)"
  shows "prefix (tunnel_pending t) (tunnel_pending (t\<lparr>tt_worker := w\<rparr>))"
proof -
  let ?P = "\<lambda>m. \<exists>d. m = Inr d"
  from assms obtain new where n: "wk_incoming w = wk_incoming (tt_worker t) @ new" by (auto simp: prefix_def)
  have "prefix (takeWhile ?P xs) (takeWhile ?P (xs @ ys))" for xs ys :: "(AtrError + bytes) list"
    by (induction xs) auto
  then obtain zs where "takeWhile ?P (wk_incoming w) = takeWhile ?P (wk_incoming (tt_worker t)) @ zs"
    unfolding n prefix_def by blast
  then show ?thesis by (simp add: tunnel_pending_def)
qed

lemma drain_frames_extends:
  "drain_frames_loop alive sent c = Some (ok, sent', c') \<Longrightarrow> prefix sent sent'"
proof (induction alive sent c rule: drain_frames_loop.induct)
  case (1 alive sent c)
  from "1.prems" obtain r c1 where rd: "read_tcp_frame c = Some (r, c1)"
    by (subst (asm) drain_frames_loop.simps) (auto split: option.splits)
  consider (err) e where "r = Inl e" | (idle) "r = Inr None" | (control) "r = Inr (Some Control)"
    | (data) d where "r = Inr (Some (FrameData d))"
    by (metis TcpFrameRead.exhaust option.exhaust sum.exhaust)
  then show ?case
  proof cases
    case err
    with "1.prems" rd show ?thesis by (subst (asm) drain_frames_loop.simps) (auto split: if_splits)
  next
    case idle
    with "1.prems" rd show ?thesis by (subst (asm) drain_frames_loop.simps) simp
  next
    case control
    with "1.prems" rd have "drain_frames_loop alive sent c1 = Some (ok, sent', c')"
      by (subst (asm) drain_frames_loop.simps) simp
    with "1.IH"(2) control rd show ?thesis by simp
  next
    case data
    show ?thesis
    proof (cases alive)
      case True
      with data "1.prems" rd have "drain_frames_loop alive (sent @ [Inr d]) c1 = Some (ok, sent', c')"
        by (subst (asm) drain_frames_loop.simps) simp
      with "1.IH"(1) data rd True have "prefix (sent @ [Inr d]) sent'" by simp
      then show ?thesis by (rule append_prefixD)
    next
      case False
      with data "1.prems" rd show ?thesis by (subst (asm) drain_frames_loop.simps) simp
    qed
  qed
qed

lemma worker_commands_incoming: "worker_commands w = Some w' \<Longrightarrow> wk_incoming w' = wk_incoming w"
  by (auto simp: worker_commands_def split: option.splits)

lemma worker_frames_incoming: "worker_frames w = Some w' \<Longrightarrow> prefix (wk_incoming w) (wk_incoming w')"
  by (auto simp: worker_frames_def drain_tcp_tunnel_frames_def split: option.splits dest: drain_frames_extends)

lemma worker_event_incoming:
  assumes "worker_event ev w = Some w'"
  shows "prefix (wk_incoming w) (wk_incoming w')"
proof (cases ev)
  case (WaitReady sock wake cmds evs)
  have "wk_incoming (worker_arrive cmds evs w) = wk_incoming w" by (simp add: worker_arrive_def)
  with assms WaitReady show ?thesis
    by (auto simp: worker_event_def split: option.splits if_splits
        dest!: worker_commands_incoming worker_frames_incoming)
qed (use assms in \<open>auto simp: worker_event_def\<close>)

lemma tunnel_write_pending: "tunnel_write b t = Some (res, t') \<Longrightarrow> tunnel_pending t' = tunnel_pending t"
  by (auto simp: tunnel_write_def tunnel_pending_def worker_arrive_def Let_def
      split: if_splits option.splits dest!: worker_commands_incoming)

lemma close_tunnel_pending: "tunnel_pending (close_tunnel t) = tunnel_pending t"
  by (auto simp: close_tunnel_def tunnel_close_def tunnel_pending_def worker_arrive_def
      split: if_splits option.splits dest!: worker_commands_incoming)

text \<open>What the client has received and what the tunnel still owes it.\<close>

definition download_ok :: "relay_state \<Rightarrow> relay_state \<Rightarrow> bool" where
  "download_ok s0 s \<longleftrightarrow> (\<exists>delivered. tx (rl_client s) = tx (rl_client s0) @ delivered \<and>
     rl_down s = rl_down s0 + word_of_nat (length delivered) \<and>
     prefix (tunnel_pending (rl_tunnel s0)) (delivered @ tunnel_pending (rl_tunnel s)))"

definition no_download_error :: "relay_state \<Rightarrow> bool" where
  "no_download_error s = (case rl_down_res s of Some (Inl e) \<Rightarrow> False | _ \<Rightarrow> True)"

lemma up_step_download:
  assumes "copy_tcp_to_tunnel_step s = Some s'"
  shows "tx (rl_client s') = tx (rl_client s) \<and> rl_down s' = rl_down s \<and>
    tunnel_pending (rl_tunnel s') = tunnel_pending (rl_tunnel s) \<and> rl_down_res s' = rl_down_res s"
  using assms
  by (auto simp: copy_tcp_to_tunnel_step_def finish_up_def Let_def close_tunnel_pending
      split: option.splits prod.splits sum.splits if_splits dest!: tunnel_write_pending)

lemma down_step_download:
  assumes "copy_tunnel_to_tcp_step s = Some s'" "no_download_error s'"
  obtains b where "tx (rl_client s') = tx (rl_client s) @ b" "rl_down s' = rl_down s + word_of_nat (length b)"
    "tunnel_pending (rl_tunnel s) = b @ tunnel_pending (rl_tunnel s')"
proof -
  from assms obtain b t where r: "tunnel_read READ_BUF_SIZE (rl_tunnel s) = Some (Inr b, t)"
    by (auto simp: copy_tunnel_to_tcp_step_def finish_down_def no_download_error_def
        split: option.splits prod.splits sum.splits)
  note p = tunnel_read_pending [OF r]
  show ?thesis
    by (rule that [of b])
      (use assms r p in \<open>auto simp: copy_tunnel_to_tcp_step_def finish_down_def no_download_error_def Let_def write_all_def
        shutdown_def close_tunnel_pending split: option.splits prod.splits sum.splits if_splits list.splits tx_event.splits\<close>)
qed

lemma relay_step_download:
  assumes "relay_step s s'" "no_download_error s'" "download_ok s0 s"
  shows "download_ok s0 s'"
proof -
  from assms(3) obtain delivered where d: "tx (rl_client s) = tx (rl_client s0) @ delivered"
    "rl_down s = rl_down s0 + word_of_nat (length delivered)"
    "prefix (tunnel_pending (rl_tunnel s0)) (delivered @ tunnel_pending (rl_tunnel s))"
    by (auto simp: download_ok_def)
  from assms(1) show ?thesis
  proof (cases rule: relay_step.cases)
    case up
    from up_step_download [OF up(2)] d show ?thesis by (auto simp: download_ok_def)
  next
    case down
    from down_step_download [OF down(2) assms(2)] obtain b where
      "tx (rl_client s') = tx (rl_client s) @ b" "rl_down s' = rl_down s + word_of_nat (length b)"
      "tunnel_pending (rl_tunnel s) = b @ tunnel_pending (rl_tunnel s')" .
    with d show ?thesis unfolding download_ok_def by (intro exI [of _ "delivered @ b"]) (simp add: add.assoc)
  next
    case (worker ev w)
    with pending_grows [OF worker_event_incoming [OF worker(2)]] d show ?thesis
      unfolding download_ok_def by (intro exI [of _ delivered]) (auto intro: prefix_order.trans)
  next
    case (client evs)
    with d show ?thesis by (auto simp: download_ok_def)
  qed
qed

text \<open>A failed download thread stays failed: no other step touches its result.\<close>

lemma relay_step_keeps_error:
  assumes "relay_step s s'" "no_download_error s'"
  shows "no_download_error s"
  using assms
proof (cases rule: relay_step.cases)
  case up
  from up_step_download [OF up(2)] assms(2) show ?thesis by (simp add: no_download_error_def)
next
  case down
  then show ?thesis by (simp add: no_download_error_def)
qed (use assms in \<open>simp_all add: no_download_error_def\<close>)

lemma relay_steps_download:
  assumes "relay_step\<^sup>*\<^sup>* s0 s" "no_download_error s"
  shows "download_ok s0 s"
  using assms
proof (induction rule: rtranclp_induct)
  case base
  show ?case unfolding download_ok_def by (intro exI [of _ "[]"]) simp
next
  case (step y z)
  from step relay_step_keeps_error [OF step(2)] relay_step_download show ?case by blast
qed

text \<open>
  C9. In a managed relay the client receives exactly what the tunnel owes it. Whatever the
  order in which the upstream thread, the downstream thread, the tunnel's worker and the client
  take their turns, and as long as the downstream thread has not failed, the bytes written to
  the client extend what was written before, every byte the tunnel held at the start is either
  delivered, in order, or still pending in the tunnel, and the download counter has grown by
  the number of bytes delivered (modulo the width of the counter).
\<close>

theorem relay_download_faithful:
  assumes "relay_step\<^sup>*\<^sup>* s0 s" and "no_download_error s"
  shows "\<exists>delivered. tx (rl_client s) = tx (rl_client s0) @ delivered \<and>
     rl_down s = rl_down s0 + word_of_nat (length delivered) \<and>
     prefix (tunnel_pending (rl_tunnel s0)) (delivered @ tunnel_pending (rl_tunnel s))"
  using relay_steps_download [OF assms] by (simp add: download_ok_def)

definition demo_relay :: "(AtrError + bytes) list \<Rightarrow> relay_state" where
  "demo_relay incoming =
     \<lparr>rl_client = conn_of [], rl_tunnel = \<lparr>tt_worker = (demo_worker [])\<lparr>wk_incoming := incoming\<rparr>, tt_read_buf = [],
        tt_closed = False\<rparr>, rl_up = 0, rl_down = 0, rl_up_res = None, rl_down_res = None\<rparr>"

theorem relay_download_faithful_witness:
  "let s = the (copy_tunnel_to_tcp_step (demo_relay [Inr [1, 2, 3], Inr [4]])) in
   tx (rl_client s) = [1, 2, 3] \<and> rl_down s = 3 \<and> tunnel_pending (rl_tunnel s) = [4] \<and>
   (\<exists>delivered. tx (rl_client s) = tx (rl_client (demo_relay [Inr [1, 2, 3], Inr [4]])) @ delivered \<and>
     rl_down s = rl_down (demo_relay [Inr [1, 2, 3], Inr [4]]) + word_of_nat (length delivered) \<and>
     prefix (tunnel_pending (rl_tunnel (demo_relay [Inr [1, 2, 3], Inr [4]]))) (delivered @ tunnel_pending (rl_tunnel s)))"
proof -
  let ?start = "demo_relay [Inr [1, 2, 3], Inr [4]]" and ?s = "the (copy_tunnel_to_tcp_step (demo_relay [Inr [1, 2, 3], Inr [4]]))"
  have "rl_down_res ?start = None" "copy_tunnel_to_tcp_step ?start = Some ?s" "no_download_error ?s"
    by code_simp+
  then have "relay_step\<^sup>*\<^sup>* ?start ?s" "no_download_error ?s" by (auto intro: relay_step.down)
  from relay_download_faithful [OF this]
  have "\<exists>delivered. tx (rl_client ?s) = tx (rl_client ?start) @ delivered \<and>
     rl_down ?s = rl_down ?start + word_of_nat (length delivered) \<and>
     prefix (tunnel_pending (rl_tunnel ?start)) (delivered @ tunnel_pending (rl_tunnel ?s))" .
  moreover have "tx (rl_client ?s) = [1, 2, 3]" "rl_down ?s = 3" by code_simp+
  moreover have "tunnel_pending (rl_tunnel ?s) = [4]" 
  proof -
    have "wk_incoming (tt_worker (rl_tunnel ?s)) = [Inr [4]]" "tt_read_buf (rl_tunnel ?s) = []" by code_simp+
    then show ?thesis by (simp add: tunnel_pending_def)
  qed
  ultimately show ?thesis by (simp only: Let_def simp_thms)
qed

section \<open>The stall log\<close>

definition INTERACTIVE_CHUNK_BYTES :: nat where
  "INTERACTIVE_CHUNK_BYTES = 512"

definition RELAY_STALL_LOG_THRESHOLD :: nat where
  "RELAY_STALL_LOG_THRESHOLD = 80"

text \<open>\<open>log_relay_gap\<close> at time \<open>now\<close>: the line to log, if any, and the new time of the last chunk.\<close>

definition log_relay_gap :: "string \<Rightarrow> nat \<Rightarrow> nat \<Rightarrow> nat option \<Rightarrow> string option \<times> nat option" where
  "log_relay_gap direction bytes now last_chunk_at =
     (case last_chunk_at of
        None \<Rightarrow> (None, Some now)
      | Some previous \<Rightarrow>
          (if RELAY_STALL_LOG_THRESHOLD \<le> now - previous
           then Some (''[libreatrust][proxy][relay] '' @ direction @ '' gap_ms='' @ nat_str (now - previous) @ '' before bytes='' @ nat_str bytes)
           else None, Some now))"

text \<open>The line that goes with a small chunk: the waits for reading and for writing it, from the three clock readings.\<close>

definition interactive_line :: "string \<Rightarrow> string \<Rightarrow> nat \<Rightarrow> nat \<Rightarrow> nat \<Rightarrow> nat \<Rightarrow> string option" where
  "interactive_line direction write_field n read_start write_start written_at =
     (if n \<le> INTERACTIVE_CHUNK_BYTES
      then Some (''[libreatrust][proxy][relay] '' @ direction @ '' bytes='' @ nat_str n @ '' wait_for_read_ms='' @ nat_str (write_start - read_start) @
        '' '' @ write_field @ ''='' @ nat_str (written_at - write_start))
      else None)"

text \<open>The gap lines of one direction of a relay, chunk by chunk: when it was read, and its length.\<close>

fun relay_gaps :: "string \<Rightarrow> (nat \<times> nat) list \<Rightarrow> nat option \<Rightarrow> string list" where
  "relay_gaps direction [] last_chunk_at = []"
| "relay_gaps direction ((now, bytes) # arrivals) last_chunk_at =
     (case log_relay_gap direction bytes now last_chunk_at of
        (None, last') \<Rightarrow> relay_gaps direction arrivals last'
      | (Some line, last') \<Rightarrow> line # relay_gaps direction arrivals last')"

text \<open>
  Every gap of at least the threshold is logged, however long the peer was simply idle, and the first chunk never is: a session
  with a key pressed every second logs a line for each key but the first.
\<close>

lemma relay_gaps_count:
  "length (relay_gaps direction arrivals last_chunk_at) =
     length (filter (\<lambda>(previous, now). RELAY_STALL_LOG_THRESHOLD \<le> now - previous)
       (case last_chunk_at of Some t \<Rightarrow> zip (t # map fst arrivals) (map fst arrivals) | None \<Rightarrow> zip (map fst arrivals) (tl (map fst arrivals))))"
proof (induction arrivals arbitrary: last_chunk_at)
  case (Cons a arrivals)
  show ?case
    using Cons [of "Some (fst a)"] by (cases a) (auto simp: log_relay_gap_def split: option.splits)
qed (simp split: option.split)

lemma idle_session_is_logged: "length (relay_gaps direction (map (\<lambda>k. (1000 * k, 1)) [0..<Suc n]) None) = n"
proof -
  let ?times = "map (\<lambda>k. 1000 * k) [0..<Suc n]"
  have times: "map fst (map (\<lambda>k. (1000 * k, 1 :: nat)) [0..<Suc n]) = ?times" by simp
  have "RELAY_STALL_LOG_THRESHOLD \<le> now - previous" if "(previous, now) \<in> set (zip ?times (tl ?times))" for previous now
    using that by (auto simp: in_set_zip nth_tl RELAY_STALL_LOG_THRESHOLD_def simp del: upt_Suc)
  then have "filter (\<lambda>(previous, now). RELAY_STALL_LOG_THRESHOLD \<le> now - previous) (zip ?times (tl ?times)) = zip ?times (tl ?times)"
    by (intro filter_True) auto
  then show ?thesis
    unfolding relay_gaps_count times by simp
qed


end
