(* ===== verification/Proxy_Service.thy ===== *)
theory Proxy_Service
  imports Proxy_Relay L3_Tunnel
begin

text \<open>
  The proxy service object (proxy_service.rs): starting, the listener thread, one thread per
  accepted connection, the event slots, and stopping, as a step relation in which the listener,
  the connection threads, the thread that calls \<open>stop\<close> and the readers of the statistics take
  turns in any order. A step is one access to the shared state (an atomic, a locked map or list);
  recording an error is one step. The result of a connection thread is any result the
  handler of a connection can return.
\<close>

section \<open>Events\<close>

datatype ProxyServiceStatus = ServiceRunning | ServiceStopped

datatype ProxyServiceEvent = SessionInvalidated string | ErrorEvent string

definition is_session_invalidated_error :: "string \<Rightarrow> bool" where
  "is_session_invalidated_error message \<longleftrightarrow>
     contains_str ''invalid SID'' message \<or>
     contains_str ''stored session is not logged in'' message \<or>
     contains_str ''not logged in'' message \<or>
     contains_str ''unauthorized'' message"

section \<open>State\<close>

text \<open>
  The listener's position: at the loop head, in \<open>accept\<close>, after it, and then one position per
  shared access on the way to the next turn. A connection is named by its number, its thread by
  its position in the list of threads started.
\<close>

datatype listener_pc =
    LTop
  | LAccept
  | LAccepted
  | LRegister u64
  | LCount u64
  | LSpawn u64
  | LPush nat
  | LUnregister u64
  | LDiscount
  | LDone

datatype conn_phase = Handling | Unregister | Discount | Exited

record conn_thread =
  ct_id :: u64
  ct_phase :: conn_phase
  ct_shut :: bool

text \<open>The position of a caller of \<open>stop\<close>; \<open>stop\<close> takes \<open>&self\<close>, so several threads may be in it at once.\<close>

datatype stop_pc = SShut | SWake | SJoinWorker | STake | SJoin "nat list" | SReturned

text \<open>
  The fields of \<open>ProxyService\<close>; a registered listener callback is a number, and the calls made
  on callbacks are kept, as are the tunnels closed and the positions of all calls of \<open>stop\<close> made so far.
\<close>

record ProxyService =
  sv_endpoint :: SocketAddr
  sv_config :: ProxyServiceConfig
  sv_stop :: bool
  sv_active :: u64
  sv_total :: u64
  sv_upload :: u64
  sv_download :: u64
  sv_last_error :: "string option"
  sv_last_event :: "ProxyServiceEvent option"
  sv_event_listener :: "nat option"
  sv_calls :: "(nat \<times> ProxyServiceEvent) list"
  sv_worker :: bool
  sv_connections :: "nat list"
  sv_sockets :: "(u64, unit) hmap"
  sv_keepalive :: "L3TunnelState option"
  sv_closed_tunnels :: "L3TunnelState list"
  sv_lpc :: listener_pc
  sv_threads :: "conn_thread list"
  sv_spc :: "stop_pc list"

text \<open>
  \<open>ProxyService::start\<close>: \<open>bind_to\<close> and \<open>local_addr\<close> are the outcomes of binding and of asking for
  the bound address, \<open>tunnel\<close> that of opening the keepalive tunnel, \<open>spawn\<close> that of starting the
  listener thread.
\<close>

definition service_start ::
  "ProxyServiceConfig \<Rightarrow> (string \<Rightarrow> io_error + unit) \<Rightarrow> io_error + SocketAddr \<Rightarrow> AtrError + L3TunnelState \<Rightarrow>
   string + unit \<Rightarrow> AtrError + ProxyService" where
  "service_start config bind_to local_addr tunnel spawn =
     (if \<not> enable_http config \<and> \<not> enable_socks5 config
      then Inl (InvalidArgument ''at least one proxy protocol must be enabled'')
      else case bind_to (listen_host config @ '':'' @ nat_str (unat (listen_port config))) of
        Inl e \<Rightarrow> Inl (from_io_error e)
      | Inr _ \<Rightarrow>
          (case local_addr of
             Inl e \<Rightarrow> Inl (from_io_error e)
           | Inr (ip, port) \<Rightarrow>
               (case spawn of
                  Inl e \<Rightarrow> Inl (Internal (''failed to start proxy listener: '' @ e))
                | Inr _ \<Rightarrow>
                    Inr \<lparr>sv_endpoint = (ip, port),
                      sv_config = config\<lparr>listen_host := show_ip ip, listen_port := port\<rparr>,
                      sv_stop = False, sv_active = 0, sv_total = 0, sv_upload = 0, sv_download = 0,
                      sv_last_error = None, sv_last_event = None, sv_event_listener = None, sv_calls = [],
                      sv_worker = True, sv_connections = [], sv_sockets = [],
                      sv_keepalive = (case tunnel of Inr t \<Rightarrow> Some t | Inl _ \<Rightarrow> None), sv_closed_tunnels = [],
                      sv_lpc = LTop, sv_threads = [], sv_spc = []\<rparr>)))"

section \<open>Operations\<close>

definition event_listener_set :: "nat option \<Rightarrow> ProxyService \<Rightarrow> ProxyService" where
  "event_listener_set listener s = s\<lparr>sv_event_listener := listener\<rparr>"

definition notify :: "ProxyServiceEvent \<Rightarrow> ProxyService \<Rightarrow> ProxyService" where
  "notify event s =
     (case sv_event_listener s of Some l \<Rightarrow> s\<lparr>sv_calls := sv_calls s @ [(l, event)]\<rparr> | None \<Rightarrow> s)"

definition event_of :: "string \<Rightarrow> ProxyServiceEvent" where
  "event_of message = (if is_session_invalidated_error message then SessionInvalidated message else ErrorEvent message)"

definition record_proxy_error :: "AtrError \<Rightarrow> ProxyService \<Rightarrow> ProxyService" where
  "record_proxy_error err s =
     (let message = error_display err; event = event_of message in
      notify event (s\<lparr>sv_last_error := Some message, sv_last_event := Some event\<rparr>))"

definition service_status :: "ProxyService \<Rightarrow> ProxyServiceStatus" where
  "service_status s = (if sv_stop s then ServiceStopped else ServiceRunning)"

record ProxyServiceStats =
  st_active_connections :: u64
  st_total_connections :: u64
  st_managed_upload_bytes :: u64
  st_managed_download_bytes :: u64
  st_last_error :: "string option"
  st_last_event :: "ProxyServiceEvent option"

definition service_stats :: "ProxyService \<Rightarrow> ProxyServiceStats" where
  "service_stats s =
     \<lparr>st_active_connections = sv_active s, st_total_connections = sv_total s,
      st_managed_upload_bytes = sv_upload s, st_managed_download_bytes = sv_download s,
      st_last_error = sv_last_error s, st_last_event = sv_last_event s\<rparr>"

definition take_event :: "ProxyService \<Rightarrow> ProxyServiceEvent option \<times> ProxyService" where
  "take_event s = (sv_last_event s, s\<lparr>sv_last_event := None\<rparr>)"

text \<open>Has the thread behind a join handle finished?\<close>

definition is_finished :: "ProxyService \<Rightarrow> nat \<Rightarrow> bool" where
  "is_finished s h \<longleftrightarrow> h < length (sv_threads s) \<and> ct_phase (sv_threads s ! h) = Exited"

definition HANDLE_PRUNE :: nat where
  "HANDLE_PRUNE = 256"

definition push_handle :: "nat \<Rightarrow> ProxyService \<Rightarrow> ProxyService" where
  "push_handle h s =
     (let kept = (if HANDLE_PRUNE \<le> length (sv_connections s) then filter (\<lambda>h. \<not> is_finished s h) (sv_connections s)
                  else sv_connections s)
      in s\<lparr>sv_connections := kept @ [h]\<rparr>)"

text \<open>\<open>stop\<close> shuts the sockets in the map down; a socket is the one of the threads with its number.\<close>

definition shut_registered :: "ProxyService \<Rightarrow> ProxyService" where
  "shut_registered s =
     s\<lparr>sv_threads := map (\<lambda>t. if ct_id t \<in> fst ` set (sv_sockets s) then t\<lparr>ct_shut := True\<rparr> else t) (sv_threads s)\<rparr>"

definition close_keepalive :: "ProxyService \<Rightarrow> ProxyService" where
  "close_keepalive s =
     (case sv_keepalive s of
        Some t \<Rightarrow> s\<lparr>sv_keepalive := None, sv_closed_tunnels := sv_closed_tunnels s @ [l3_close t]\<rparr>
      | None \<Rightarrow> s)"

definition set_phase :: "nat \<Rightarrow> conn_phase \<Rightarrow> ProxyService \<Rightarrow> ProxyService" where
  "set_phase h p s = s\<lparr>sv_threads := (sv_threads s)[h := (sv_threads s ! h)\<lparr>ct_phase := p\<rparr>]\<rparr>"

definition in_phase :: "conn_phase \<Rightarrow> nat \<Rightarrow> ProxyService \<Rightarrow> bool" where
  "in_phase p h s \<longleftrightarrow> h < length (sv_threads s) \<and> ct_phase (sv_threads s ! h) = p"

text \<open>The results a connection thread can end with.\<close>

definition connection_outcome :: "AtrError + unit \<Rightarrow> bool" where
  "connection_outcome res \<longleftrightarrow>
     (\<exists>setup js_string env relay client config pc pc'.
        handle_connection setup js_string env relay client config pc = Some (res, pc'))"

definition record_outcome :: "AtrError + unit \<Rightarrow> ProxyService \<Rightarrow> ProxyService" where
  "record_outcome res s = (case res of Inl e \<Rightarrow> record_proxy_error e s | Inr _ \<Rightarrow> s)"

section \<open>Steps\<close>

text \<open>The steps of \<open>run_listener\<close>.\<close>

inductive listener_step :: "ProxyService \<Rightarrow> ProxyService \<Rightarrow> bool" where
  top_stop: "sv_lpc s = LTop \<Longrightarrow> sv_stop s \<Longrightarrow> listener_step s (s\<lparr>sv_lpc := LDone\<rparr>)"
| top: "sv_lpc s = LTop \<Longrightarrow> \<not> sv_stop s \<Longrightarrow> listener_step s (s\<lparr>sv_lpc := LAccept\<rparr>)"
| accept: "sv_lpc s = LAccept \<Longrightarrow> listener_step s (s\<lparr>sv_lpc := LAccepted\<rparr>)"
| accept_interrupted: "sv_lpc s = LAccept \<Longrightarrow> listener_step s (s\<lparr>sv_lpc := LTop\<rparr>)"
| accept_failed_stop: "sv_lpc s = LAccept \<Longrightarrow> sv_stop s \<Longrightarrow> listener_step s (s\<lparr>sv_lpc := LDone\<rparr>)"
| accept_failed: "sv_lpc s = LAccept \<Longrightarrow> \<not> sv_stop s \<Longrightarrow> fst e \<noteq> Interrupted \<Longrightarrow>
    listener_step s (record_proxy_error (from_io_error e) (s\<lparr>sv_lpc := LTop\<rparr>))"
| accepted_stop: "sv_lpc s = LAccepted \<Longrightarrow> sv_stop s \<Longrightarrow> listener_step s (s\<lparr>sv_lpc := LDone\<rparr>)"
| number: "sv_lpc s = LAccepted \<Longrightarrow> \<not> sv_stop s \<Longrightarrow>
    listener_step s (s\<lparr>sv_total := sv_total s + 1, sv_lpc := LRegister (sv_total s + 1)\<rparr>)"
| register: "sv_lpc s = LRegister n \<Longrightarrow>
    listener_step s (s\<lparr>sv_sockets := (if cloned then hm_insert n () (sv_sockets s) else sv_sockets s), sv_lpc := LCount n\<rparr>)"
| count: "sv_lpc s = LCount n \<Longrightarrow> listener_step s (s\<lparr>sv_active := sv_active s + 1, sv_lpc := LSpawn n\<rparr>)"
| spawn: "sv_lpc s = LSpawn n \<Longrightarrow>
    listener_step s (s\<lparr>sv_threads := sv_threads s @ [\<lparr>ct_id = n, ct_phase = Handling, ct_shut = False\<rparr>],
      sv_lpc := LPush (length (sv_threads s))\<rparr>)"
| push: "sv_lpc s = LPush h \<Longrightarrow> listener_step s ((push_handle h s)\<lparr>sv_lpc := LTop\<rparr>)"
| spawn_failed: "sv_lpc s = LSpawn n \<Longrightarrow> listener_step s (s\<lparr>sv_lpc := LUnregister n\<rparr>)"
| unregister: "sv_lpc s = LUnregister n \<Longrightarrow>
    listener_step s (s\<lparr>sv_sockets := hm_remove n (sv_sockets s), sv_lpc := LDiscount\<rparr>)"
| discount: "sv_lpc s = LDiscount \<Longrightarrow> listener_step s (s\<lparr>sv_active := sv_active s - 1, sv_lpc := LTop\<rparr>)"

text \<open>The steps of a connection thread.\<close>

inductive conn_step :: "ProxyService \<Rightarrow> ProxyService \<Rightarrow> bool" where
  transfer: "in_phase Handling h s \<Longrightarrow>
    conn_step s (s\<lparr>sv_upload := sv_upload s + up, sv_download := sv_download s + down\<rparr>)"
| handled: "in_phase Handling h s \<Longrightarrow> connection_outcome res \<Longrightarrow>
    conn_step s (set_phase h Unregister (record_outcome res s))"
| unregister: "in_phase Unregister h s \<Longrightarrow>
    conn_step s ((set_phase h Discount s)\<lparr>sv_sockets := hm_remove (ct_id (sv_threads s ! h)) (sv_sockets s)\<rparr>)"
| discount: "in_phase Discount h s \<Longrightarrow> conn_step s ((set_phase h Exited s)\<lparr>sv_active := sv_active s - 1\<rparr>)"

text \<open>
  The steps of the callers of \<open>stop\<close>; dropping the service calls \<open>stop\<close> again. The lock on the listener's handle is held until
  the listener is joined, and the lock on the keepalive tunnel until it is closed, so each of the two is one step. The lock
  on the list of connections is held only to take the list: a caller that comes later finds it empty.
\<close>

definition stop_at :: "nat \<Rightarrow> stop_pc \<Rightarrow> ProxyService \<Rightarrow> bool" where
  "stop_at i pc s \<longleftrightarrow> i < length (sv_spc s) \<and> sv_spc s ! i = pc"

definition stop_to :: "nat \<Rightarrow> stop_pc \<Rightarrow> ProxyService \<Rightarrow> ProxyService" where
  "stop_to i pc s = s\<lparr>sv_spc := (sv_spc s)[i := pc]\<rparr>"

inductive stop_step :: "ProxyService \<Rightarrow> ProxyService \<Rightarrow> bool" where
  call: "stop_step s (s\<lparr>sv_stop := True, sv_spc := sv_spc s @ [SShut]\<rparr>)"
| shut: "stop_at i SShut s \<Longrightarrow> stop_step s (stop_to i SWake (shut_registered s))"
| wake: "stop_at i SWake s \<Longrightarrow> stop_step s (stop_to i SJoinWorker s)"
| join_worker: "stop_at i SJoinWorker s \<Longrightarrow> sv_worker s \<Longrightarrow> sv_lpc s = LDone \<Longrightarrow>
    stop_step s (stop_to i STake (s\<lparr>sv_worker := False\<rparr>))"
| no_worker: "stop_at i SJoinWorker s \<Longrightarrow> \<not> sv_worker s \<Longrightarrow> stop_step s (stop_to i STake s)"
| take: "stop_at i STake s \<Longrightarrow> stop_step s (stop_to i (SJoin (sv_connections s)) (s\<lparr>sv_connections := []\<rparr>))"
| join: "stop_at i (SJoin (h # hs)) s \<Longrightarrow> is_finished s h \<Longrightarrow> stop_step s (stop_to i (SJoin hs) s)"
| finish: "stop_at i (SJoin []) s \<Longrightarrow> stop_step s (stop_to i SReturned (close_keepalive s))"

inductive service_step :: "ProxyService \<Rightarrow> ProxyService \<Rightarrow> bool" where
  listener: "listener_step s s' \<Longrightarrow> service_step s s'"
| connection: "conn_step s s' \<Longrightarrow> service_step s s'"
| stopping: "stop_step s s' \<Longrightarrow> service_step s s'"
| taken: "service_step s (snd (take_event s))"
| set_listener: "service_step s (event_listener_set l s)"

definition service_started :: "ProxyService \<Rightarrow> bool" where
  "service_started s \<longleftrightarrow> (\<exists>config bind_to local_addr tunnel spawn. service_start config bind_to local_addr tunnel spawn = Inr s)"

section \<open>The service invariant\<close>

definition counted :: "conn_thread \<Rightarrow> bool" where
  "counted t \<longleftrightarrow> ct_phase t \<noteq> Exited"

definition served :: "ProxyService \<Rightarrow> nat" where
  "served s = length (filter counted (sv_threads s))"

fun listener_counts :: "listener_pc \<Rightarrow> nat" where
  "listener_counts (LSpawn n) = 1"
| "listener_counts (LUnregister n) = 1"
| "listener_counts LDiscount = 1"
| "listener_counts _ = 0"

fun listener_owns :: "listener_pc \<Rightarrow> u64 set" where
  "listener_owns (LCount n) = {n}"
| "listener_owns (LSpawn n) = {n}"
| "listener_owns (LUnregister n) = {n}"
| "listener_owns _ = {}"

definition registered_ids :: "ProxyService \<Rightarrow> u64 set" where
  "registered_ids s = ct_id ` {t \<in> set (sv_threads s). ct_phase t \<in> {Handling, Unregister}}"

text \<open>The counter of active connections.\<close>

definition active_inv :: "ProxyService \<Rightarrow> bool" where
  "active_inv s \<longleftrightarrow> sv_active s = word_of_nat (served s + listener_counts (sv_lpc s))"

text \<open>The socket map holds sockets of connections being served.\<close>

definition socket_ids :: "(u64, unit) hmap \<Rightarrow> u64 set" where
  "socket_ids m = fst ` set m"

definition sockets_inv :: "ProxyService \<Rightarrow> bool" where
  "sockets_inv s \<longleftrightarrow> socket_ids (sv_sockets s) \<subseteq> registered_ids s \<union> listener_owns (sv_lpc s)"

text \<open>Every thread that has not ended has a handle with the listener, in the list, or with a caller of \<open>stop\<close>.\<close>

fun joining :: "stop_pc \<Rightarrow> nat list" where
  "joining (SJoin hs) = hs"
| "joining _ = []"

definition joined_by :: "stop_pc list \<Rightarrow> nat set" where
  "joined_by pcs = (\<Union>pc \<in> set pcs. set (joining pc))"

definition handles_inv :: "ProxyService \<Rightarrow> bool" where
  "handles_inv s \<longleftrightarrow> (\<forall>h < length (sv_threads s). \<not> is_finished s h \<longrightarrow>
     h \<in> set (sv_connections s) \<or> h \<in> joined_by (sv_spc s) \<or> sv_lpc s = LPush h)"

fun past_join :: "stop_pc \<Rightarrow> bool" where
  "past_join STake = True"
| "past_join (SJoin hs) = True"
| "past_join SReturned = True"
| "past_join _ = False"

definition stop_inv :: "ProxyService \<Rightarrow> bool" where
  "stop_inv s \<longleftrightarrow>
     (sv_spc s \<noteq> [] \<longrightarrow> sv_stop s) \<and>
     (\<not> sv_worker s \<longrightarrow> sv_lpc s = LDone \<and> sv_stop s) \<and>
     (\<forall>pc \<in> set (sv_spc s).
        (past_join pc \<longrightarrow> \<not> sv_worker s) \<and> (past_join pc \<and> pc \<noteq> STake \<longrightarrow> sv_connections s = []) \<and>
        (pc = SReturned \<longrightarrow> sv_keepalive s = None))"

definition service_inv :: "ProxyService \<Rightarrow> bool" where
  "service_inv s \<longleftrightarrow> active_inv s \<and> sockets_inv s \<and> handles_inv s \<and> stop_inv s"

lemma socket_ids_update [simp]:
  "socket_ids (hm_insert n v m) = insert n (socket_ids m)" "socket_ids (hm_remove n m) = socket_ids m - {n}"
  by (auto simp: socket_ids_def hm_insert_def hm_remove_def dom_update AList.delete_eq)

lemma registered_ids_filter:
  "registered_ids s = set (map ct_id (filter (\<lambda>t. ct_phase t \<in> {Handling, Unregister}) (sv_threads s)))"
  by (simp add: registered_ids_def)

lemma registered_snoc:
  "registered_ids (s\<lparr>sv_threads := sv_threads s @ [\<lparr>ct_id = n, ct_phase = Handling, ct_shut = b\<rparr>], sv_lpc := l\<rparr>) =
     insert n (registered_ids s)"
  by (force simp: registered_ids_def)

subsection \<open>Recording errors leaves the rest alone\<close>

lemma record_proxy_error_frame [simp]:
  "sv_stop (record_proxy_error e s) = sv_stop s" "sv_active (record_proxy_error e s) = sv_active s"
  "sv_worker (record_proxy_error e s) = sv_worker s" "sv_connections (record_proxy_error e s) = sv_connections s"
  "sv_sockets (record_proxy_error e s) = sv_sockets s" "sv_keepalive (record_proxy_error e s) = sv_keepalive s"
  "sv_lpc (record_proxy_error e s) = sv_lpc s" "sv_threads (record_proxy_error e s) = sv_threads s"
  "sv_spc (record_proxy_error e s) = sv_spc s"
  by (simp_all add: record_proxy_error_def notify_def Let_def split: option.split)

lemma record_outcome_frame [simp]:
  "sv_stop (record_outcome r s) = sv_stop s" "sv_active (record_outcome r s) = sv_active s"
  "sv_worker (record_outcome r s) = sv_worker s" "sv_connections (record_outcome r s) = sv_connections s"
  "sv_sockets (record_outcome r s) = sv_sockets s" "sv_keepalive (record_outcome r s) = sv_keepalive s"
  "sv_lpc (record_outcome r s) = sv_lpc s" "sv_threads (record_outcome r s) = sv_threads s"
  "sv_spc (record_outcome r s) = sv_spc s"
  by (simp_all add: record_outcome_def split: sum.split)

text \<open>The invariant reads only these fields.\<close>

lemma service_inv_cong:
  assumes "sv_stop s' = sv_stop s" "sv_active s' = sv_active s" "sv_worker s' = sv_worker s"
    "sv_connections s' = sv_connections s" "sv_sockets s' = sv_sockets s" "sv_keepalive s' = sv_keepalive s"
    "sv_lpc s' = sv_lpc s" "sv_threads s' = sv_threads s" "sv_spc s' = sv_spc s"
  shows "service_inv s' = service_inv s"
  using assms
  by (simp add: service_inv_def active_inv_def sockets_inv_def handles_inv_def stop_inv_def served_def
      registered_ids_def is_finished_def)

subsection \<open>Threads changing phase\<close>

lemma served_update:
  assumes "h < length ts" "counted (ts ! h)"
  shows "length (filter counted (ts[h := t])) + 1 = length (filter counted ts) + (if counted t then 1 else 0)"
proof -
  obtain xs y ys where ts: "ts = xs @ y # ys" "h = length xs"
    using id_take_nth_drop [OF assms(1)] assms(1) by (metis length_take less_imp_le min.absorb2)
  with assms(2) show ?thesis by simp
qed

lemma is_finished_set_phase:
  "h < length (sv_threads s) \<Longrightarrow> is_finished (set_phase h p s) k \<longleftrightarrow> (if k = h then p = Exited else is_finished s k)"
  by (auto simp: is_finished_def set_phase_def)

lemma set_phase_frame [simp]:
  "sv_stop (set_phase h p s) = sv_stop s" "sv_active (set_phase h p s) = sv_active s"
  "sv_worker (set_phase h p s) = sv_worker s" "sv_connections (set_phase h p s) = sv_connections s"
  "sv_sockets (set_phase h p s) = sv_sockets s" "sv_keepalive (set_phase h p s) = sv_keepalive s"
  "sv_lpc (set_phase h p s) = sv_lpc s" "sv_spc (set_phase h p s) = sv_spc s"
  "length (sv_threads (set_phase h p s)) = length (sv_threads s)"
  by (simp_all add: set_phase_def)

lemma served_set_phase:
  assumes "h < length (sv_threads s)" "ct_phase (sv_threads s ! h) \<noteq> Exited"
  shows "served (set_phase h p s) + 1 = served s + (if p = Exited then 0 else 1)"
  using served_update [of h "sv_threads s" "(sv_threads s ! h)\<lparr>ct_phase := p\<rparr>"] assms
  by (simp add: served_def set_phase_def counted_def)

lemma registered_set_phase:
  assumes "h < length (sv_threads s)"
  shows "registered_ids s - (if p \<in> {Handling, Unregister} \<or> ct_phase (sv_threads s ! h) = Discount then {} else {ct_id (sv_threads s ! h)})
    \<subseteq> registered_ids (set_phase h p s)"
proof
  fix n
  assume n: "n \<in> registered_ids s - (if p \<in> {Handling, Unregister} \<or> ct_phase (sv_threads s ! h) = Discount then {} else {ct_id (sv_threads s ! h)})"
  then obtain k where k: "k < length (sv_threads s)" "n = ct_id (sv_threads s ! k)"
    "ct_phase (sv_threads s ! k) \<in> {Handling, Unregister}"
    by (auto simp: registered_ids_def in_set_conv_nth)
  let ?ts = "sv_threads (set_phase h p s)"
  have "?ts ! k \<in> set ?ts" using k(1) by simp
  moreover have "ct_id (?ts ! k) = n" "ct_phase (?ts ! k) \<in> {Handling, Unregister}"
    using n k assms by (auto simp: set_phase_def nth_list_update split: if_splits)
  ultimately show "n \<in> registered_ids (set_phase h p s)" by (force simp: registered_ids_def)
qed

lemma in_phaseD: "in_phase p h s \<Longrightarrow> h < length (sv_threads s)" "in_phase p h s \<Longrightarrow> ct_phase (sv_threads s ! h) = p"
  by (simp_all add: in_phase_def)

subsection \<open>The steps keep the invariant\<close>

lemma listener_step_inv:
  assumes "listener_step s s'" "service_inv s"
  shows "service_inv s'"
proof -
  have inv: "active_inv s" "sockets_inv s" "handles_inv s" "stop_inv s" using assms(2) by (simp_all add: service_inv_def)
  have worker: "sv_worker s" if "sv_lpc s \<noteq> LDone" using inv(4) that by (auto simp: stop_inv_def)
  from assms(1) show ?thesis
  proof cases
    case (accept_failed e)
    then have "service_inv (s\<lparr>sv_lpc := LTop\<rparr>)"
      using inv by (auto simp: service_inv_def active_inv_def sockets_inv_def handles_inv_def stop_inv_def served_def
          registered_ids_def is_finished_def)
    then show ?thesis using service_inv_cong [of s' "s\<lparr>sv_lpc := LTop\<rparr>"] accept_failed by simp
  next
    case (push h)
    have "set (sv_connections s) - {k. is_finished s k} \<union> {h} \<subseteq> set (sv_connections (push_handle h s))"
      by (auto simp: push_handle_def Let_def)
    then have "handles_inv s'" using inv(3) push by (auto simp: handles_inv_def is_finished_def push_handle_def Let_def)
    then show ?thesis using push inv worker
      by (auto simp: service_inv_def active_inv_def sockets_inv_def stop_inv_def served_def registered_ids_def push_handle_def Let_def)
  next
    case (spawn n)
    then have "sockets_inv s'" using inv(2) by (auto simp: sockets_inv_def registered_snoc)
    moreover have "handles_inv s'" using inv(3) spawn
      by (auto simp: handles_inv_def is_finished_def nth_append less_Suc_eq)
    moreover have "active_inv s'" "stop_inv s'" using inv(1,4) spawn worker
      by (auto simp: active_inv_def served_def counted_def stop_inv_def)
    ultimately show ?thesis by (simp add: service_inv_def)
  next
    case (register n cloned)
    then show ?thesis using inv worker
      by (auto simp: service_inv_def active_inv_def sockets_inv_def handles_inv_def stop_inv_def served_def registered_ids_def
          is_finished_def)
  next
    case (unregister n)
    then show ?thesis using inv worker
      by (auto simp: service_inv_def active_inv_def sockets_inv_def handles_inv_def stop_inv_def served_def registered_ids_def
          is_finished_def)
  qed (use inv worker in \<open>auto simp: service_inv_def active_inv_def sockets_inv_def handles_inv_def stop_inv_def served_def
      registered_ids_def is_finished_def\<close>)
qed

text \<open>What a change of phase does to the parts of the invariant.\<close>

lemma set_phase_handles:
  "\<lbrakk>handles_inv s; h < length (sv_threads s); \<not> is_finished s h\<rbrakk> \<Longrightarrow> handles_inv (set_phase h p s)"
  by (auto simp: handles_inv_def is_finished_set_phase split: if_splits)

lemma set_phase_stop [simp]: "stop_inv (set_phase h p s) = stop_inv s"
  by (simp add: stop_inv_def)

lemma conn_step_inv:
  assumes "conn_step s s'" "service_inv s"
  shows "service_inv s'"
proof -
  have inv: "active_inv s" "sockets_inv s" "handles_inv s" "stop_inv s" using assms(2) by (simp_all add: service_inv_def)
  from assms(1) show ?thesis
  proof cases
    case (transfer h up down)
    then show ?thesis using assms(2) service_inv_cong [of s' s] by simp
  next
    case (handled h res)
    note p = in_phaseD [OF handled(2)]
    have "service_inv (set_phase h Unregister s)"
      using inv p served_set_phase [of h s Unregister] registered_set_phase [of h s Unregister] set_phase_handles [of s h Unregister]
      by (auto simp: service_inv_def active_inv_def sockets_inv_def is_finished_def)
    then show ?thesis using service_inv_cong [of s' "set_phase h Unregister s"] handled by (simp add: set_phase_def)
  next
    case (unregister h)
    note p = in_phaseD [OF unregister(2)]
    let ?s = "set_phase h Discount s"
    have "active_inv ?s" "handles_inv ?s" "stop_inv ?s"
      using inv p served_set_phase [of h s Discount] set_phase_handles [of s h Discount]
      by (simp_all add: active_inv_def is_finished_def)
    then have "active_inv s'" "handles_inv s'" "stop_inv s'"
      unfolding unregister(1) by (simp_all add: active_inv_def handles_inv_def stop_inv_def served_def is_finished_def)
    moreover have "registered_ids s' = registered_ids ?s" unfolding unregister(1) by (simp add: registered_ids_def)
    then have "sockets_inv s'" using inv(2) p registered_set_phase [of h s Discount] unfolding unregister(1) sockets_inv_def
      by auto
    ultimately show ?thesis by (simp add: service_inv_def)
  next
    case (discount h)
    note p = in_phaseD [OF discount(2)]
    let ?s = "set_phase h Exited s"
    have "handles_inv s'" "stop_inv s'" using set_phase_handles [of s h Exited] inv p unfolding discount(1)
      by (simp_all add: handles_inv_def stop_inv_def is_finished_def)
    moreover have "served s' + 1 = served s" using served_set_phase [of h s Exited] p unfolding discount(1) by (simp add: served_def)
    then have "sv_active s - 1 = word_of_nat (served s' + listener_counts (sv_lpc s))"
      using inv(1) by (simp add: active_inv_def flip: \<open>served s' + 1 = served s\<close>)
    then have "active_inv s'" unfolding active_inv_def by (simp add: discount(1))
    moreover have "registered_ids s \<subseteq> registered_ids s'"
      unfolding discount(1) using registered_set_phase [OF p(1), of Exited] p(2) by (simp add: registered_ids_def)
    then have "sockets_inv s'" using inv(2) unfolding discount(1) sockets_inv_def by auto
    ultimately show ?thesis by (simp add: service_inv_def)
  qed
qed

lemma joined_by_update:
  assumes "i < length pcs"
  shows "joined_by pcs - set (joining (pcs ! i)) \<subseteq> joined_by (pcs[i := pc])" "set (joining pc) \<subseteq> joined_by (pcs[i := pc])"
proof
  fix h
  assume "h \<in> joined_by pcs - set (joining (pcs ! i))"
  then obtain k where k: "k < length pcs" "h \<in> set (joining (pcs ! k))" "k \<noteq> i"
    unfolding joined_by_def by (metis DiffE UN_E in_set_conv_nth)
  then have "pcs[i := pc] ! k = pcs ! k" by simp
  moreover have "pcs[i := pc] ! k \<in> set (pcs[i := pc])" using k(1) by (intro nth_mem) simp
  ultimately show "h \<in> joined_by (pcs[i := pc])" using k(2) unfolding joined_by_def by auto
next
  have "pc \<in> set (pcs[i := pc])" using assms by (simp add: set_update_memI)
  then show "set (joining pc) \<subseteq> joined_by (pcs[i := pc])" unfolding joined_by_def by blast
qed

text \<open>Moving one caller keeps the invariant when its new position does.\<close>

lemma stop_to_inv:
  assumes "service_inv s" "i < length (sv_spc s)"
    and "\<forall>h \<in> set (joining (sv_spc s ! i)) - set (joining pc). is_finished s h"
    and "past_join pc \<longrightarrow> \<not> sv_worker s" "past_join pc \<and> pc \<noteq> STake \<longrightarrow> sv_connections s = []" "pc = SReturned \<longrightarrow> sv_keepalive s = None"
  shows "service_inv (stop_to i pc s)"
proof -
  have inv: "active_inv s" "sockets_inv s" "handles_inv s" "stop_inv s" using assms(1) by (simp_all add: service_inv_def)
  have "handles_inv (stop_to i pc s)"
    using inv(3) assms(3) joined_by_update [OF assms(2), of pc] by (auto simp: handles_inv_def stop_to_def is_finished_def)
  moreover have "stop_inv (stop_to i pc s)"
    using inv(4) assms(2,4-) set_update_subset_insert [of "sv_spc s" i pc] by (auto simp: stop_inv_def stop_to_def)
  ultimately show ?thesis using inv(1,2)
    by (simp add: service_inv_def active_inv_def sockets_inv_def served_def registered_ids_def stop_to_def)
qed

lemma shut_registered_inv: "service_inv s \<Longrightarrow> service_inv (shut_registered s)"
proof -
  assume "service_inv s"
  then have inv: "active_inv s" "sockets_inv s" "handles_inv s" "stop_inv s" by (simp_all add: service_inv_def)
  have "served (shut_registered s) = served s"
    by (simp add: served_def shut_registered_def filter_map comp_def counted_def [abs_def] if_distrib [of ct_phase] cong: if_cong)
  moreover have "registered_ids (shut_registered s) = registered_ids s"
    by (simp add: registered_ids_filter shut_registered_def filter_map comp_def if_distrib [of ct_phase]
        if_distrib [of ct_id] cong: if_cong)
  moreover have "is_finished (shut_registered s) h = is_finished s h" for h
    by (auto simp: is_finished_def shut_registered_def split: if_splits)
  ultimately show ?thesis using inv
    by (auto simp: service_inv_def active_inv_def sockets_inv_def handles_inv_def stop_inv_def shut_registered_def
        served_def registered_ids_def is_finished_def)
qed

lemma close_keepalive_inv: "service_inv s \<Longrightarrow> service_inv (close_keepalive s)"
  by (auto simp: close_keepalive_def service_inv_def active_inv_def sockets_inv_def handles_inv_def stop_inv_def served_def
      registered_ids_def is_finished_def split: option.split)

lemma stop_step_inv:
  assumes "stop_step s s'" "service_inv s"
  shows "service_inv s'"
proof -
  have inv: "active_inv s" "sockets_inv s" "handles_inv s" "stop_inv s" using assms(2) by (simp_all add: service_inv_def)
  from assms(1) show ?thesis
  proof cases
    case call
    then show ?thesis using inv
      by (auto simp: service_inv_def active_inv_def sockets_inv_def handles_inv_def stop_inv_def served_def registered_ids_def
          is_finished_def joined_by_def)
  next
    case (shut i)
    then show ?thesis unfolding shut(1)
      by (intro stop_to_inv shut_registered_inv assms(2)) (simp_all add: stop_at_def shut_registered_def)
  next
    case (wake i)
    then show ?thesis unfolding wake(1) by (intro stop_to_inv assms(2)) (simp_all add: stop_at_def)
  next
    case (join_worker i)
    have "service_inv (s\<lparr>sv_worker := False\<rparr>)"
      using inv join_worker(2,4) by (auto simp: service_inv_def active_inv_def sockets_inv_def handles_inv_def stop_inv_def
          served_def registered_ids_def is_finished_def stop_at_def)
    then show ?thesis unfolding join_worker(1) using join_worker(2) by (intro stop_to_inv) (simp_all add: stop_at_def)
  next
    case (no_worker i)
    then show ?thesis unfolding no_worker(1) by (intro stop_to_inv assms(2)) (simp_all add: stop_at_def)
  next
    case (take i)
    let ?s = "stop_to i (SJoin (sv_connections s)) s" and ?hs = "sv_connections s"
    have mem: "STake \<in> set (sv_spc s)" "i < length (sv_spc s)" using take(2) by (auto simp: stop_at_def in_set_conv_nth)
    then have gone: "\<not> sv_worker s" using inv(4) by (auto simp: stop_inv_def)
    have "handles_inv s'"
      using inv(3) take joined_by_update [OF mem(2), of "SJoin ?hs"]
      by (auto simp: handles_inv_def stop_to_def is_finished_def stop_at_def)
    moreover have "stop_inv s'"
      using inv(4) gone set_update_subset_insert [of "sv_spc s" i "SJoin ?hs"] unfolding take(1) by (auto simp: stop_inv_def stop_to_def)
    ultimately show ?thesis using inv(1,2) unfolding take(1)
      by (simp add: service_inv_def active_inv_def sockets_inv_def served_def registered_ids_def stop_to_def)
  next
    case (join i h hs)
    then have "SJoin (h # hs) \<in> set (sv_spc s)" by (auto simp: stop_at_def in_set_conv_nth)
    then have "\<not> sv_worker s" "sv_connections s = []" using inv(4) by (auto simp: stop_inv_def)
    then show ?thesis unfolding join(1) using join by (intro stop_to_inv assms(2)) (auto simp: stop_at_def)
  next
    case (finish i)
    then have "SJoin [] \<in> set (sv_spc s)" by (auto simp: stop_at_def in_set_conv_nth)
    then have "\<not> sv_worker s" "sv_connections s = []" using inv(4) by (auto simp: stop_inv_def)
    then show ?thesis unfolding finish(1) using finish
      by (intro stop_to_inv close_keepalive_inv assms(2)) (auto simp: stop_at_def close_keepalive_def split: option.split)
  qed
qed

lemma service_step_inv: "service_step s s' \<Longrightarrow> service_inv s \<Longrightarrow> service_inv s'"
proof (induction rule: service_step.induct)
  case (taken s)
  then show ?case using service_inv_cong [of "snd (take_event s)" s] by (simp add: take_event_def)
next
  case (set_listener s l)
  then show ?case using service_inv_cong [of "event_listener_set l s" s] by (simp add: event_listener_set_def)
qed (auto intro: listener_step_inv conn_step_inv stop_step_inv)

lemma service_started_inv: "service_started s \<Longrightarrow> service_inv s"
  by (auto simp: service_started_def service_start_def service_inv_def active_inv_def sockets_inv_def handles_inv_def
      stop_inv_def served_def socket_ids_def split: if_splits sum.splits)

lemma service_reachable_inv:
  assumes "service_started s0" "service_step\<^sup>*\<^sup>* s0 s"
  shows "service_inv s"
  using assms(2) by (induction rule: rtranclp_induct) (auto intro: service_started_inv [OF assms(1)] service_step_inv)

subsection \<open>A run\<close>

text \<open>The states of a service started with a keepalive tunnel, by the fields that change.\<close>

definition demo_keepalive :: L3TunnelState where
  "demo_keepalive = l3_new px_demo_client"

definition demo_service ::
  "bool \<Rightarrow> u64 \<Rightarrow> u64 \<Rightarrow> bool \<Rightarrow> nat list \<Rightarrow> (u64, unit) hmap \<Rightarrow> bool \<Rightarrow> listener_pc \<Rightarrow> conn_thread list \<Rightarrow> stop_pc list \<Rightarrow> ProxyService" where
  "demo_service stp act tot wk conns socks alive lpc ts spc =
     \<lparr>sv_endpoint = (V4 0x7F000001, 1080), sv_config = default_proxy_config\<lparr>listen_host := show_ip (V4 0x7F000001)\<rparr>,
      sv_stop = stp, sv_active = act, sv_total = tot, sv_upload = 0, sv_download = 0, sv_last_error = None,
      sv_last_event = None, sv_event_listener = None, sv_calls = [], sv_worker = wk, sv_connections = conns,
      sv_sockets = socks, sv_keepalive = (if alive then Some demo_keepalive else None),
      sv_closed_tunnels = (if alive then [] else [l3_close demo_keepalive]), sv_lpc = lpc, sv_threads = ts, sv_spc = spc\<rparr>"

definition demo_start :: ProxyService where
  "demo_start = demo_service False 0 0 True [] [] True LTop [] []"

definition demo_thread :: "conn_phase \<Rightarrow> conn_thread" where
  "demo_thread p = \<lparr>ct_id = 1, ct_phase = p, ct_shut = False\<rparr>"

lemma demo_started: "service_started demo_start"
proof -
  have "service_start default_proxy_config (\<lambda>_. Inr ()) (Inr (V4 0x7F000001, 1080)) (Inr demo_keepalive) (Inr ()) = Inr demo_start"
    by (simp add: service_start_def demo_start_def demo_service_def default_proxy_config_def)
  then show ?thesis unfolding service_started_def by blast
qed

lemma reach_step:
  "service_step\<^sup>*\<^sup>* s0 s \<Longrightarrow> listener_step s t \<Longrightarrow> t = s' \<Longrightarrow> service_step\<^sup>*\<^sup>* s0 s'"
  "service_step\<^sup>*\<^sup>* s0 s \<Longrightarrow> conn_step s t \<Longrightarrow> t = s' \<Longrightarrow> service_step\<^sup>*\<^sup>* s0 s'"
  "service_step\<^sup>*\<^sup>* s0 s \<Longrightarrow> stop_step s t \<Longrightarrow> t = s' \<Longrightarrow> service_step\<^sup>*\<^sup>* s0 s'"
  by (auto intro: rtranclp.rtrancl_into_rtrancl service_step.intros)

lemma outcome_ok: "connection_outcome (Inr ())"
proof -
  have "handle_connection (Inr ()) js_string env relay client config
      \<lparr>pc_client = conn_of [Chunk []], pc_cache = [], pc_up = 0, pc_down = 0\<rparr> =
    Some (Inr (), \<lparr>pc_client = conn_of [], pc_cache = [], pc_up = 0, pc_down = 0\<rparr>)" for js_string env relay client config
    by (simp add: handle_connection_def read_some_def read_call_def conn_of_def)
  then show ?thesis unfolding connection_outcome_def by blast
qed

text \<open>
  A connection is accepted and numbered, \<open>stop\<close> is called and shuts the (empty) map down,
  and only then is the connection registered and started.
\<close>

lemma demo_race: "service_step\<^sup>*\<^sup>* demo_start (demo_service True 1 1 False [] [(1, ())] True LDone [demo_thread Handling] [SJoin [0]])"
proof -
  note d = demo_service_def demo_thread_def stop_at_def stop_to_def push_handle_def HANDLE_PRUNE_def shut_registered_def hm_insert_def
  let ?R = "service_step\<^sup>*\<^sup>* demo_start"
  have "?R (demo_service False 0 0 True [] [] True LTop [] [])" by (simp add: demo_start_def)
  then have "?R (demo_service False 0 0 True [] [] True LAccept [] [])"
    by (rule reach_step(1) [OF _ listener_step.top]) (simp_all add: d)
  then have "?R (demo_service False 0 0 True [] [] True LAccepted [] [])"
    by (rule reach_step(1) [OF _ listener_step.accept]) (simp_all add: d)
  then have "?R (demo_service False 0 1 True [] [] True (LRegister 1) [] [])"
    by (rule reach_step(1) [OF _ listener_step.number]) (simp_all add: d)
  then have "?R (demo_service True 0 1 True [] [] True (LRegister 1) [] [SShut])"
    by (rule reach_step(3) [OF _ stop_step.call]) (simp_all add: d)
  then have "?R (demo_service True 0 1 True [] [] True (LRegister 1) [] [SWake])"
    by (rule reach_step(3) [OF _ stop_step.shut [where i = 0]]) (simp_all add: d)
  then have "?R (demo_service True 0 1 True [] [] True (LRegister 1) [] [SJoinWorker])"
    by (rule reach_step(3) [OF _ stop_step.wake [where i = 0]]) (simp_all add: d)
  then have "?R (demo_service True 0 1 True [] [(1, ())] True (LCount 1) [] [SJoinWorker])"
    by (rule reach_step(1) [OF _ listener_step.register [where cloned = True]]) (simp_all add: d)
  then have "?R (demo_service True 1 1 True [] [(1, ())] True (LSpawn 1) [] [SJoinWorker])"
    by (rule reach_step(1) [OF _ listener_step.count]) (simp_all add: d)
  then have "?R (demo_service True 1 1 True [] [(1, ())] True (LPush 0) [demo_thread Handling] [SJoinWorker])"
    by (rule reach_step(1) [OF _ listener_step.spawn]) (simp_all add: d)
  then have "?R (demo_service True 1 1 True [0] [(1, ())] True LTop [demo_thread Handling] [SJoinWorker])"
    by (rule reach_step(1) [OF _ listener_step.push]) (simp_all add: d)
  then have "?R (demo_service True 1 1 True [0] [(1, ())] True LDone [demo_thread Handling] [SJoinWorker])"
    by (rule reach_step(1) [OF _ listener_step.top_stop]) (simp_all add: d)
  then have "?R (demo_service True 1 1 False [0] [(1, ())] True LDone [demo_thread Handling] [STake])"
    by (rule reach_step(3) [OF _ stop_step.join_worker [where i = 0]]) (simp_all add: d)
  then show ?thesis
    by (rule reach_step(3) [OF _ stop_step.take [where i = 0]]) (simp_all add: d)
qed

lemma demo_end: "service_step\<^sup>*\<^sup>* demo_start (demo_service True 0 1 False [] [] False LDone [demo_thread Exited] [SReturned])"
proof -
  note d = demo_service_def demo_thread_def stop_at_def stop_to_def in_phase_def set_phase_def record_outcome_def is_finished_def close_keepalive_def
    hm_remove_def
  let ?R = "service_step\<^sup>*\<^sup>* demo_start"
  from demo_race have "?R (demo_service True 1 1 False [] [(1, ())] True LDone [demo_thread Unregister] [SJoin [0]])"
    by (rule reach_step(2) [OF _ conn_step.handled [where h = 0, OF _ outcome_ok]]) (simp_all add: d)
  then have "?R (demo_service True 1 1 False [] [] True LDone [demo_thread Discount] [SJoin [0]])"
    by (rule reach_step(2) [OF _ conn_step.unregister [where h = 0]]) (simp_all add: d)
  then have "?R (demo_service True 0 1 False [] [] True LDone [demo_thread Exited] [SJoin [0]])"
    by (rule reach_step(2) [OF _ conn_step.discount [where h = 0]]) (simp_all add: d)
  then have "?R (demo_service True 0 1 False [] [] True LDone [demo_thread Exited] [SJoin []])"
    by (rule reach_step(3) [OF _ stop_step.join [where i = 0 and h = 0]]) (simp_all add: d)
  then show ?thesis
    by (rule reach_step(3) [OF _ stop_step.finish [where i = 0]]) (simp_all add: d)
qed

section \<open>Properties\<close>

text \<open>
  C10. The bookkeeping of the proxy service. In every state a started service can reach, whatever
  the listener, the connection threads and any number of callers of \<open>stop\<close> do in whatever order,
  the counter of active connections is the number of connection threads that have not ended plus
  the one the listener is about to start (or has failed to start), the socket map holds sockets of
  such connections only, and every thread that has not ended can still be joined: its
  handle is in the list, with the listener, or with a caller of \<open>stop\<close>, although
  the list is pruned when it grows.
\<close>

theorem service_accounting:
  assumes "service_started s0" and "service_step\<^sup>*\<^sup>* s0 s"
  shows "sv_active s = word_of_nat (length (filter counted (sv_threads s)) + listener_counts (sv_lpc s)) \<and>
    fst ` set (sv_sockets s) \<subseteq> registered_ids s \<union> listener_owns (sv_lpc s) \<and>
    (\<forall>h < length (sv_threads s). \<not> is_finished s h \<longrightarrow>
       h \<in> set (sv_connections s) \<or> (\<exists>pc \<in> set (sv_spc s). h \<in> set (joining pc)) \<or> sv_lpc s = LPush h)"
  using service_reachable_inv [OF assms]
  by (simp add: service_inv_def active_inv_def sockets_inv_def handles_inv_def served_def socket_ids_def joined_by_def)

theorem service_accounting_witness:
  "let s = demo_service True 1 1 False [] [(1, ())] True LDone [demo_thread Handling] [SJoin [0]] in
   sv_active s = word_of_nat (length (filter counted (sv_threads s)) + listener_counts (sv_lpc s)) \<and>
    fst ` set (sv_sockets s) \<subseteq> registered_ids s \<union> listener_owns (sv_lpc s) \<and>
    (\<forall>h < length (sv_threads s). \<not> is_finished s h \<longrightarrow>
       h \<in> set (sv_connections s) \<or> (\<exists>pc \<in> set (sv_spc s). h \<in> set (joining pc)) \<or> sv_lpc s = LPush h)"
  unfolding Let_def by (rule service_accounting [OF demo_started demo_race])

text \<open>The tunnels closed so far and the one still held are, closed, the tunnel the service was started with.\<close>

definition held :: "'a option \<Rightarrow> 'a list" where
  "held x = (case x of Some t \<Rightarrow> [t] | None \<Rightarrow> [])"

lemma service_step_tunnels:
  "service_step s s' \<Longrightarrow> sv_closed_tunnels s' @ map l3_close (held (sv_keepalive s')) =
     sv_closed_tunnels s @ map l3_close (held (sv_keepalive s))"
  by (auto simp: held_def close_keepalive_def shut_registered_def stop_to_def set_phase_def push_handle_def record_outcome_def
      record_proxy_error_def notify_def take_event_def event_listener_set_def Let_def
      elim!: service_step.cases listener_step.cases conn_step.cases stop_step.cases split: option.splits sum.splits)

lemma service_tunnels:
  assumes "service_started s0" "service_step\<^sup>*\<^sup>* s0 s"
  shows "sv_closed_tunnels s @ map l3_close (held (sv_keepalive s)) = map l3_close (held (sv_keepalive s0))"
  using assms(2)
proof (induction rule: rtranclp_induct)
  case base
  from assms(1) have "sv_closed_tunnels s0 = []"
    by (auto simp: service_started_def service_start_def split: if_splits sum.splits)
  then show ?case by simp
qed (simp add: service_step_tunnels)

text \<open>
  C11. \<open>stop\<close> leaves nothing behind, however many threads call it. When one of the calls has returned, the listener thread has
  ended, the status is stopped, no join handle is left in the list, and the keepalive tunnel the service was started with, if any, has been closed, once;
  every connection thread that still runs is one that another call of \<open>stop\<close> is waiting for. When no
  call is waiting for connections any more, all connection threads have ended, no connection is counted as active and the socket map is
  empty.
\<close>

theorem stop_leaves_nothing:
  assumes "service_started s0" and "service_step\<^sup>*\<^sup>* s0 s" and "SReturned \<in> set (sv_spc s)"
  shows "sv_lpc s = LDone \<and> service_status s = ServiceStopped \<and> sv_connections s = [] \<and>
    sv_keepalive s = None \<and> list_all l3_closed (sv_closed_tunnels s) \<and>
    sv_closed_tunnels s = (case sv_keepalive s0 of Some t \<Rightarrow> [l3_close t] | None \<Rightarrow> []) \<and>
    (\<forall>h < length (sv_threads s). ct_phase (sv_threads s ! h) = Exited \<or> (\<exists>hs. SJoin hs \<in> set (sv_spc s) \<and> h \<in> set hs)) \<and>
    ((\<forall>hs. SJoin hs \<notin> set (sv_spc s)) \<longrightarrow>
       (\<forall>t \<in> set (sv_threads s). ct_phase t = Exited) \<and> sv_active s = 0 \<and> sv_sockets s = [])"
proof -
  from service_reachable_inv [OF assms(1,2)]
  have inv: "active_inv s" "sockets_inv s" "handles_inv s" "stop_inv s" by (simp_all add: service_inv_def)
  from inv(4) assms(3) have d: "sv_lpc s = LDone" "sv_stop s" "sv_connections s = []" "sv_keepalive s = None"
    by (force simp: stop_inv_def)+
  have closed: "sv_closed_tunnels s = (case sv_keepalive s0 of Some t \<Rightarrow> [l3_close t] | None \<Rightarrow> [])"
    using service_tunnels [OF assms(1,2)] d(4) by (simp add: held_def split: option.splits)
  have "h \<in> set (joining pc) \<longleftrightarrow> (\<exists>hs. pc = SJoin hs \<and> h \<in> set hs)" for h pc by (cases pc) auto
  then have waits: "\<forall>h < length (sv_threads s). ct_phase (sv_threads s ! h) = Exited \<or> (\<exists>hs. SJoin hs \<in> set (sv_spc s) \<and> h \<in> set hs)"
    using inv(3) d by (fastforce simp: handles_inv_def is_finished_def joined_by_def)
  have "(\<forall>t \<in> set (sv_threads s). ct_phase t = Exited) \<and> sv_active s = 0 \<and> sv_sockets s = []"
    if none: "\<forall>hs. SJoin hs \<notin> set (sv_spc s)"
  proof -
    have ex: "\<forall>t \<in> set (sv_threads s). ct_phase t = Exited" using waits none by (fastforce simp: in_set_conv_nth)
    then have "filter counted (sv_threads s) = []" "registered_ids s = {}"
      by (auto simp: counted_def filter_empty_conv registered_ids_def)
    with inv(1,2) d ex show ?thesis by (simp add: active_inv_def served_def sockets_inv_def socket_ids_def)
  qed
  moreover have "list_all l3_closed (sv_closed_tunnels s)" unfolding closed by (simp add: l3_close_def split: option.split)
  ultimately show ?thesis using d closed waits by (simp add: service_status_def)
qed

theorem stop_leaves_nothing_witness:
  "let s = demo_service True 0 1 False [] [] False LDone [demo_thread Exited] [SReturned] in
   (\<forall>t \<in> set (sv_threads s). ct_phase t = Exited) \<and> sv_active s = 0 \<and> sv_sockets s = [] \<and>
   sv_closed_tunnels s = [demo_keepalive\<lparr>l3_closed := True, l3_remotes := []\<rparr>] \<and> service_status s = ServiceStopped"
proof -
  let ?s = "demo_service True 0 1 False [] [] False LDone [demo_thread Exited] [SReturned]"
  have "SReturned \<in> set (sv_spc ?s)" "\<forall>hs. SJoin hs \<notin> set (sv_spc ?s)" "sv_keepalive demo_start = Some demo_keepalive"
    "l3_close demo_keepalive = demo_keepalive\<lparr>l3_closed := True, l3_remotes := []\<rparr>"
    by (simp_all add: demo_service_def demo_start_def l3_close_def demo_keepalive_def l3_new_def)
  with stop_leaves_nothing [OF demo_started demo_end] show ?thesis unfolding Let_def by simp
qed

text \<open>
  A second call of \<open>stop\<close> may return early. It finds the list of connections taken by the first call, closes the keepalive
  tunnel and returns, while the thread the first call waits for still serves its client.
\<close>

theorem concurrent_stop_returns_early:
  "\<exists>s0 s h. service_started s0 \<and> service_step\<^sup>*\<^sup>* s0 s \<and> sv_spc s = [SJoin [h], SReturned] \<and> in_phase Handling h s \<and> sv_active s = 1"
proof -
  note d = demo_service_def demo_thread_def stop_at_def stop_to_def shut_registered_def close_keepalive_def
  let ?R = "service_step\<^sup>*\<^sup>* demo_start" and ?t = "[(demo_thread Handling)\<lparr>ct_shut := True\<rparr>]"
  have "?R (demo_service True 1 1 False [] [(1, ())] True LDone [demo_thread Handling] [SJoin [0], SShut])"
    by (rule reach_step(3) [OF demo_race stop_step.call]) (simp_all add: d)
  then have "?R (demo_service True 1 1 False [] [(1, ())] True LDone ?t [SJoin [0], SWake])"
    by (rule reach_step(3) [OF _ stop_step.shut [where i = 1]]) (simp_all add: d)
  then have "?R (demo_service True 1 1 False [] [(1, ())] True LDone ?t [SJoin [0], SJoinWorker])"
    by (rule reach_step(3) [OF _ stop_step.wake [where i = 1]]) (simp_all add: d)
  then have "?R (demo_service True 1 1 False [] [(1, ())] True LDone ?t [SJoin [0], STake])"
    by (rule reach_step(3) [OF _ stop_step.no_worker [where i = 1]]) (simp_all add: d)
  then have "?R (demo_service True 1 1 False [] [(1, ())] True LDone ?t [SJoin [0], SJoin []])"
    by (rule reach_step(3) [OF _ stop_step.take [where i = 1]]) (simp_all add: d)
  then have "?R (demo_service True 1 1 False [] [(1, ())] False LDone ?t [SJoin [0], SReturned])"
    by (rule reach_step(3) [OF _ stop_step.finish [where i = 1]]) (simp_all add: d)
  moreover have "sv_spc (demo_service True 1 1 False [] [(1, ())] False LDone ?t [SJoin [0], SReturned]) = [SJoin [0], SReturned]"
    "in_phase Handling 0 (demo_service True 1 1 False [] [(1, ())] False LDone ?t [SJoin [0], SReturned])"
    "sv_active (demo_service True 1 1 False [] [(1, ())] False LDone ?t [SJoin [0], SReturned]) = 1"
    by (simp_all add: d in_phase_def)
  ultimately show ?thesis using demo_started by blast
qed

text \<open>
  \<open>stop\<close> can wait for a client it never shut down. A connection accepted just before
  \<open>stop\<close> raises its flag may be entered in the socket map only after \<open>stop\<close> has gone through the
  map: a started service reaches a state in which \<open>stop\<close> waits for the thread of that connection,
  the thread still serves its client, and the client's socket has not been shut down.
\<close>

theorem stop_misses_late_connection:
  "\<exists>s0 s h. service_started s0 \<and> service_step\<^sup>*\<^sup>* s0 s \<and> sv_spc s = [SJoin [h]] \<and>
     in_phase Handling h s \<and> \<not> ct_shut (sv_threads s ! h) \<and> sv_lpc s = LDone"
proof -
  let ?s = "demo_service True 1 1 False [] [(1, ())] True LDone [demo_thread Handling] [SJoin [0]]"
  have "sv_spc ?s = [SJoin [0]] \<and> in_phase Handling 0 ?s \<and> \<not> ct_shut (sv_threads ?s ! 0) \<and> sv_lpc ?s = LDone"
    by (simp add: demo_service_def demo_thread_def in_phase_def)
  with demo_started demo_race show ?thesis by blast
qed

text \<open>
  How an error is reported. Recording an error stores its text and exactly one event, hands
  that event to the registered callback (and to no other), and changes nothing else; the event
  says that the session is invalid for every \<open>Unauthorized\<close> error, and otherwise
  exactly when the text mentions an invalid SID or a user not logged in.
\<close>

theorem record_proxy_error_reports:
  "sv_last_error (record_proxy_error err s) = Some (error_display err) \<and>
   sv_last_event (record_proxy_error err s) = Some (event_of (error_display err)) \<and>
   sv_calls (record_proxy_error err s) =
     sv_calls s @ map (\<lambda>l. (l, event_of (error_display err))) (case sv_event_listener s of None \<Rightarrow> [] | Some l \<Rightarrow> [l]) \<and>
   fst (take_event (record_proxy_error err s)) = Some (event_of (error_display err)) \<and>
   sv_active (record_proxy_error err s) = sv_active s \<and> sv_stop (record_proxy_error err s) = sv_stop s \<and>
   (event_of (error_display err) = SessionInvalidated (error_display err) \<longleftrightarrow>
      code err = CodeUnauthorized \<or> (\<exists>a b. error_display err = a @ ''invalid SID'' @ b) \<or>
      (\<exists>a b. error_display err = a @ ''not logged in'' @ b) \<or> (\<exists>a b. error_display err = a @ ''unauthorized'' @ b))"
proof -
  have u: "(\<exists>a b. error_display err = a @ ''unauthorized'' @ b)" if "code err = CodeUnauthorized"
    using that by (cases err) (auto intro: exI [of _ "[]"])
  have n: "(\<exists>a b. m = a @ ''not logged in'' @ b)" if "\<exists>a b. m = a @ ''stored session is not logged in'' @ b" for m
  proof -
    from that obtain a b where "m = (a @ ''stored session is '') @ ''not logged in'' @ b" by auto
    then show ?thesis by blast
  qed
  have "is_session_invalidated_error (error_display err) \<longleftrightarrow>
      code err = CodeUnauthorized \<or> (\<exists>a b. error_display err = a @ ''invalid SID'' @ b) \<or>
      (\<exists>a b. error_display err = a @ ''not logged in'' @ b) \<or> (\<exists>a b. error_display err = a @ ''unauthorized'' @ b)"
    unfolding is_session_invalidated_error_def contains_str_iff using u n by blast
  then show ?thesis
    by (simp add: record_proxy_error_def notify_def take_event_def event_of_def Let_def split: option.split)
qed

end
