(* ===== verification/Auth.thy ===== *)
theory Auth
  imports Types "HOL-Library.Multiset"
begin

text \<open>
  Logging in (auth.rs): the session object, the requests of every authentication step and what
  their answers do to it, and the public operations. What the crates do is a parameter, a field of
  \<open>auth_lib\<close>: the HTTP client (the outcome of a request may depend on all requests sent
  so far), URLs, JSON decoding, base64, MD5, hexadecimal decoding and RSA. A request is kept with its URL, the
  query pairs appended, headers and body; a JSON body is kept as a value.
\<close>

section \<open>Data\<close>

text \<open>\<open>serde_json::Value\<close>; a number that is not an \<open>i64\<close> keeps its text.\<close>

datatype json =
    JNull
  | JBool bool
  | JInt int
  | JNumber string
  | JString string
  | JArray "json list"
  | JObject "(string \<times> json) list"

fun json_get :: "string \<Rightarrow> json \<Rightarrow> json option" where
  "json_get k (JObject kvs) = map_of kvs k"
| "json_get k _ = None"

fun as_i64 :: "json \<Rightarrow> int option" where
  "as_i64 (JInt i) = Some i"
| "as_i64 _ = None"

fun as_str :: "json \<Rightarrow> string option" where
  "as_str (JString t) = Some t"
| "as_str _ = None"

fun as_bool :: "json \<Rightarrow> bool option" where
  "as_bool (JBool b) = Some b"
| "as_bool _ = None"

datatype SmsMode = WithAuthId | WithoutAuthId | CustomSms

record AuthStep =
  as_service :: string
  as_auth_id :: string
  as_sms_mode :: "SmsMode option"

datatype PendingFlow =
    PendingPassword PasswordLoginInput
  | PendingStep AuthStep
  | PendingSmsLogin SmsLoginInput
  | PendingSmsVerify string string string

record AuthConfigData =
  cd_methods :: "AuthMethodInfo list"
  cd_is_login :: int
  cd_csrf_token :: string
  cd_pub_key :: string
  cd_pub_key_exp :: string
  cd_anti_replay_rand :: string
  cd_security_csrf :: "string option"

record CodeResponse =
  cr_code :: int
  cr_message :: string

record PasswordResponse = CodeResponse +
  pr_ticket :: string
  pr_graph_check_code_enable :: int

record AuthIdItem =
  ai_auth_id :: string
  ai_auth_type :: string

record AuthStepData =
  sd_next_service :: string
  sd_next_service_list :: "AuthIdItem list"

record AuthStepResponse = CodeResponse +
  sr_data :: AuthStepData

text \<open>
  \<open>SmsResponse\<close> has the fields of \<open>PasswordResponse\<close>, \<open>AuthCheckResponse\<close> those of \<open>AuthStepResponse\<close>;
  of \<open>CustomSmsResponse\<close> the code and message are used.
\<close>

type_synonym SmsResponse = PasswordResponse
type_synonym AuthCheckResponse = AuthStepResponse

datatype Method = GET | POST

datatype Body = NoBody | JsonBody json | FormBody "(string \<times> string) list"

record Request =
  rq_method :: Method
  rq_url :: string
  rq_query :: "(string \<times> string) list"
  rq_headers :: "(string \<times> string) list"
  rq_body :: Body

record Response =
  rs_status :: nat
  rs_set_cookie :: "bytes list"
  rs_location :: "bytes option"
  rs_text :: "string + string"
  rs_bytes :: "string + bytes"

record auth_lib =
  al_http :: "Request list \<Rightarrow> string + Response"
  al_parse_url :: "string \<Rightarrow> string + string"
  al_join :: "string \<Rightarrow> string \<Rightarrow> string + string"
  al_query_pairs :: "string \<Rightarrow> (string \<times> string) list"
  al_config :: "string \<Rightarrow> string + AuthConfigData"
  al_code :: "string \<Rightarrow> string + CodeResponse"
  al_password :: "string \<Rightarrow> string + PasswordResponse"
  al_step :: "string \<Rightarrow> string + AuthStepResponse"
  al_check :: "string \<Rightarrow> string + AuthCheckResponse"
  al_sms :: "string \<Rightarrow> string + SmsResponse"
  al_custom :: "string \<Rightarrow> string + CodeResponse"
  al_online :: "string \<Rightarrow> string + string"
  al_value :: "bytes \<Rightarrow> string + json"
  al_to_string :: "json \<Rightarrow> string"
  al_base64 :: "bytes \<Rightarrow> string"
  al_md5 :: "bytes \<Rightarrow> string"
  al_hex_decode :: "string \<Rightarrow> string + bytes"
  al_u32_error :: "string \<Rightarrow> string"
  al_rsa :: "nat \<Rightarrow> bytes \<Rightarrow> u32 \<Rightarrow> bytes \<Rightarrow> string + bytes"
  al_millis :: "nat \<Rightarrow> nat"
  al_order :: "CookieRecord list \<Rightarrow> CookieRecord list"

text \<open>
  The session. \<open>au_jar\<close> is what was added to the cookie jar, \<open>au_sent\<close> the requests sent. The order in which
  the hash map of cookies is iterated is unspecified and may differ from one map to another: \<open>au_order\<close> is the order of this
  object's map (\<open>al_order\<close> for a new object), a function of the values in the order they were inserted.
\<close>

record AuthSession =
  au_config :: AuthConfig
  au_base_url :: string
  au_base_host :: string
  au_csrf_token :: string
  au_pub_key :: string
  au_pub_key_exp :: string
  au_anti_replay_rand :: string
  au_device_id :: string
  au_sign_key_hex :: string
  au_connection_id :: string
  au_env :: string
  au_ticket :: string
  au_sid :: string
  au_username :: string
  au_client_resource_bytes :: "bytes option"
  au_cookies :: "(string, CookieRecord) hmap"
  au_pending :: "PendingFlow option"
  au_jar :: "(string \<times> string) list"
  au_sent :: "Request list"
  au_order :: "CookieRecord list \<Rightarrow> CookieRecord list"

section \<open>Steps on a session\<close>

type_synonym 'a auth = "AuthSession \<Rightarrow> (AtrError + 'a) \<times> AuthSession"

definition retA :: "'a \<Rightarrow> 'a auth" where
  "retA v s = (Inr v, s)"

definition liftA :: "AtrError + 'a \<Rightarrow> 'a auth" where
  "liftA r s = (r, s)"

definition modA :: "(AuthSession \<Rightarrow> AuthSession) \<Rightarrow> unit auth" where
  "modA f s = (Inr (), f s)"

definition bindA :: "'a auth \<Rightarrow> ('a \<Rightarrow> 'b auth) \<Rightarrow> 'b auth" where
  "bindA m f s = (case m s of (Inl e, s') \<Rightarrow> (Inl e, s') | (Inr v, s') \<Rightarrow> f v s')"

definition withA :: "(AuthSession \<Rightarrow> 'a auth) \<Rightarrow> 'a auth" where
  "withA f s = f s s"

section \<open>Small functions\<close>

text \<open>\<open>HeaderValue::to_str\<close> accepts visible ASCII and tabs.\<close>

definition header_to_str :: "bytes \<Rightarrow> string option" where
  "header_to_str bs =
     (if \<forall>b \<in> set bs. (32 \<le> unat b \<and> unat b < 127) \<or> unat b = 9 then Some (bytes_str bs) else None)"

definition parse_set_cookie :: "bytes \<Rightarrow> string \<Rightarrow> AtrError + CookieRecord" where
  "parse_set_cookie value host =
     bindR (ok_or (ParseFailed ''failed to convert header to a str'') (header_to_str value)) (\<lambda>raw.
     bindR (case split_char (CHR '';'') raw of
              [] \<Rightarrow> Inl (ParseFailed ''set-cookie missing cookie pair'')
            | first # _ \<Rightarrow> Inr first) (\<lambda>first.
     bindR (ok_or (ParseFailed ''invalid set-cookie'') (split_once (CHR ''='') first)) (\<lambda>(name, v).
     Inr \<lparr>ck_host = host, ck_scheme = ''https'', ck_name = trim name, ck_value = trim v\<rparr>)))"

definition auth_step_from_data :: "AuthStepData \<Rightarrow> AuthStep" where
  "auth_step_from_data data =
     (let given = sd_next_service data;
          items = sd_next_service_list data;
          selected = (case List.find (\<lambda>item. given \<noteq> [] \<and> ai_auth_type item = given) items of
                        Some item \<Rightarrow> Some item
                      | None \<Rightarrow> (case items of [] \<Rightarrow> None | item # _ \<Rightarrow> Some item));
          auth_id = (case selected of Some item \<Rightarrow> ai_auth_id item | None \<Rightarrow> []);
          service1 = (if given = [] then (case selected of Some item \<Rightarrow> ai_auth_type item | None \<Rightarrow> []) else given);
          service = (if service1 = [] \<and> auth_id \<noteq> [] then ''auth/sms'' else service1);
          sms_mode = (if service = ''auth/sms'' then Some (if auth_id = [] then WithoutAuthId else WithAuthId)
                      else if service = ''auth/customSms'' then Some CustomSms
                      else None)
      in \<lparr>as_service = service, as_auth_id = auth_id, as_sms_mode = sms_mode\<rparr>)"

text \<open>The first \<open>n\<close> characters of a text, and how many it has: bytes that do not continue a character.\<close>

definition continues :: "char \<Rightarrow> bool" where
  "continues c = utf8_cont (of_char c)"

fun take_chars :: "nat \<Rightarrow> string \<Rightarrow> string" where
  "take_chars n [] = []"
| "take_chars n (c # cs) =
     (if continues c then c # take_chars n cs
      else case n of 0 \<Rightarrow> [] | Suc m \<Rightarrow> c # take_chars m cs)"

definition count_chars :: "string \<Rightarrow> nat" where
  "count_chars t = length (filter (\<lambda>c. \<not> continues c) t)"

definition short_response_body :: "bytes \<Rightarrow> string" where
  "short_response_body body =
     (let text = trim (map (\<lambda>c. if c \<in> set [CHR 0x0D, CHR 0x0A, CHR 0x09] then CHR '' '' else c) (from_utf8_lossy body))
      in if text = [] then ''<empty body>''
         else if count_chars text \<le> 512 then text
         else take_chars 512 text @ ''...'')"

fun find_map_opt :: "('a \<Rightarrow> 'b option) \<Rightarrow> 'a list \<Rightarrow> 'b option" where
  "find_map_opt f [] = None"
| "find_map_opt f (x # xs) = (case f x of Some y \<Rightarrow> Some y | None \<Rightarrow> find_map_opt f xs)"

text \<open>\<open>i64::from_str\<close>.\<close>

definition parse_i64 :: "string \<Rightarrow> int option" where
  "parse_i64 t =
     (let (neg, ds) = (case t of CHR ''-'' # r \<Rightarrow> (True, r) | CHR ''+'' # r \<Rightarrow> (False, r) | _ \<Rightarrow> (False, t));
          n = int (dec_value ds)
      in if ds = [] \<or> \<not> list_all ascii_digit ds then None
         else if neg then (if n \<le> 2 ^ 63 then Some (- n) else None)
         else if n < 2 ^ 63 then Some n else None)"

definition json_i64 :: "json \<Rightarrow> string list \<Rightarrow> int option" where
  "json_i64 payload keys =
     find_map_opt (\<lambda>key. case json_get key payload of
         None \<Rightarrow> None
       | Some v \<Rightarrow> (case as_i64 v of
                      Some i \<Rightarrow> Some i
                    | None \<Rightarrow> (case as_str v of None \<Rightarrow> None | Some t \<Rightarrow> parse_i64 t))) keys"

definition json_str :: "json \<Rightarrow> string list \<Rightarrow> string option" where
  "json_str payload keys =
     find_map_opt (\<lambda>key. case json_get key payload of None \<Rightarrow> None | Some v \<Rightarrow> as_str v) keys"

definition validate_client_resource_response :: "auth_lib \<Rightarrow> nat \<Rightarrow> bytes \<Rightarrow> AtrError + unit" where
  "validate_client_resource_response lib status body =
     (if \<not> (200 \<le> status \<and> status < 300)
      then let text = ''clientResource http status '' @ nat_str status @ '': '' @ short_response_body body
           in if status = 401 \<or> status = 403 then Inl (Unauthorized text) else Inl (NetworkFailed text)
      else case al_value lib body of
        Inl _ \<Rightarrow> Inr ()
      | Inr payload \<Rightarrow>
          if json_get ''data'' payload \<noteq> None then Inr ()
          else
            let result = json_i64 payload [''code'', ''Code'', ''errCode'', ''errorCode''];
                message = (case json_str payload [''message'', ''Message'', ''msg'', ''error'', ''errorMessage''] of
                             Some m \<Rightarrow> m
                           | None \<Rightarrow> ''empty error message'')
            in case result of
                 Some c \<Rightarrow>
                   if c \<noteq> 0 then Inl (Unauthorized (''clientResource failed: code '' @ int_str c @ '': '' @ message))
                   else Inr ()
               | None \<Rightarrow>
                   if (case json_get ''success'' payload of None \<Rightarrow> None | Some v \<Rightarrow> as_bool v) = Some False
                   then Inl (Unauthorized (''clientResource failed: '' @ message))
                   else Inr ())"

text \<open>\<open>fill\<close> is what the random generator puts into a buffer of the given size.\<close>

definition random_hex :: "(nat \<Rightarrow> bytes) \<Rightarrow> nat \<Rightarrow> string" where
  "random_hex fill n = take n (concat (map hex2 (fill ((n + 1) div 2))))"

section \<open>Cookies\<close>

definition install_cookie :: "auth_lib \<Rightarrow> CookieRecord \<Rightarrow> AuthSession \<Rightarrow> AuthSession" where
  "install_cookie lib cookie s =
     (let host = (if ck_host cookie = [] then au_base_host s else ck_host cookie);
          scheme = (if ck_scheme cookie = [] then ''https'' else ck_scheme cookie)
      in case al_parse_url lib (scheme @ ''://'' @ host) of
           Inl _ \<Rightarrow> s
         | Inr url \<Rightarrow> s\<lparr>au_jar := au_jar s @ [(url, ck_name cookie @ ''='' @ ck_value cookie)]\<rparr>)"

definition keep_cookie :: "auth_lib \<Rightarrow> CookieRecord \<Rightarrow> AuthSession \<Rightarrow> AuthSession" where
  "keep_cookie lib cookie s =
     (let s1 = install_cookie lib cookie s in s1\<lparr>au_cookies := hm_insert (ck_name cookie) cookie (au_cookies s1)\<rparr>)"

definition capture_cookies :: "auth_lib \<Rightarrow> Response \<Rightarrow> AuthSession \<Rightarrow> AuthSession" where
  "capture_cookies lib resp s =
     fold (\<lambda>value s. case parse_set_cookie value (au_base_host s) of Inl _ \<Rightarrow> s | Inr cookie \<Rightarrow> keep_cookie lib cookie s)
       (rs_set_cookie resp) s"

definition collect_cookies :: "AuthSession \<Rightarrow> CookieRecord list" where
  "collect_cookies s = au_order s (hm_values (au_cookies s))"

definition sync_sid_from_cookies :: "AuthSession \<Rightarrow> AuthSession" where
  "sync_sid_from_cookies s =
     (case hm_get (au_cookies s) ''sid'' of Some cookie \<Rightarrow> s\<lparr>au_sid := ck_value cookie\<rparr> | None \<Rightarrow> s)"

section \<open>Requests\<close>

definition shared_params :: "AuthSession \<Rightarrow> (string \<times> string) list" where
  "shared_params s =
     [(''clientType'', ac_client_type (au_config s)), (''platform'', ac_platform (au_config s)), (''lang'', ''en-US'')]"

definition build_env :: "auth_lib \<Rightarrow> string \<Rightarrow> string" where
  "build_env lib device_id =
     al_base64 lib (str_bytes (al_to_string lib (JObject [(''deviceId'', JString device_id)])))"

definition build_connection_id :: "auth_lib \<Rightarrow> nat \<Rightarrow> string \<Rightarrow> string" where
  "build_connection_id lib micros device_id = al_md5 lib (str_bytes device_id) @ ''-'' @ nat_str micros"

definition base64_rid :: "auth_lib \<Rightarrow> AuthSession \<Rightarrow> string" where
  "base64_rid lib s = al_base64 lib (str_bytes (au_base_host s))"

definition millis :: "auth_lib \<Rightarrow> AuthSession \<Rightarrow> nat" where
  "millis lib s = al_millis lib (length (au_sent s))"

definition trace_id :: "auth_lib \<Rightarrow> AuthSession \<Rightarrow> string" where
  "trace_id lib s = hex_str (millis lib s)"

text \<open>The headers of a request; \<open>extra\<close> are those between the CSRF token and the trace id.\<close>

definition auth_headers :: "auth_lib \<Rightarrow> string option \<Rightarrow> (string \<times> string) list \<Rightarrow> AuthSession \<Rightarrow> (string \<times> string) list" where
  "auth_headers lib ctype extra s =
     (''User-Agent'', ac_user_agent (au_config s)) #
     (case ctype of Some t \<Rightarrow> [(''Content-Type'', t)] | None \<Rightarrow> []) @
     (''x-csrf-token'', au_csrf_token s) # extra @ [(''x-sdp-traceid'', trace_id lib s)]"

definition json_type :: "string option" where
  "json_type = Some ''application/json;charset=utf-8''"

definition form_type :: "string option" where
  "form_type = Some ''application/x-www-form-urlencoded''"

text \<open>Send a request and keep the cookies of the answer.\<close>

definition exchange :: "auth_lib \<Rightarrow> Request \<Rightarrow> Response auth" where
  "exchange lib req s =
     (let s1 = s\<lparr>au_sent := au_sent s @ [req]\<rparr> in
      case al_http lib (au_sent s1) of
        Inl e \<Rightarrow> (Inl (from_reqwest_error e), s1)
      | Inr resp \<Rightarrow> (Inr resp, capture_cookies lib resp s1))"

definition call ::
  "auth_lib \<Rightarrow> Method \<Rightarrow> string \<Rightarrow> (string \<times> string) list \<Rightarrow>
   (AuthSession \<Rightarrow> (string \<times> string) list) \<Rightarrow> Body \<Rightarrow> Response auth" where
  "call lib meth path query hdrs body s =
     (case al_join lib (au_base_url s) path of
        Inl e \<Rightarrow> (Inl (from_url_error e), s)
      | Inr url \<Rightarrow>
          exchange lib \<lparr>rq_method = meth, rq_url = url, rq_query = shared_params s @ query, rq_headers = hdrs s,
            rq_body = body\<rparr> s)"

definition decode_text :: "(string \<Rightarrow> string + 'a) \<Rightarrow> Response \<Rightarrow> AtrError + 'a" where
  "decode_text dec resp =
     (case rs_text resp of
        Inl e \<Rightarrow> Inl (from_reqwest_error e)
      | Inr body \<Rightarrow> (case dec body of Inl e \<Rightarrow> Inl (from_serde_error e) | Inr v \<Rightarrow> Inr v))"

definition body_bytes :: "Response \<Rightarrow> AtrError + bytes" where
  "body_bytes resp = (case rs_bytes resp of Inl e \<Rightarrow> Inl (from_reqwest_error e) | Inr bs \<Rightarrow> Inr bs)"

text \<open>Call and decode the text of the answer.\<close>

definition ask ::
  "auth_lib \<Rightarrow> (string \<Rightarrow> string + 'a) \<Rightarrow> Method \<Rightarrow> string \<Rightarrow> (string \<times> string) list \<Rightarrow>
   (AuthSession \<Rightarrow> (string \<times> string) list) \<Rightarrow> Body \<Rightarrow> 'a auth" where
  "ask lib dec meth path query hdrs body =
     bindA (call lib meth path query hdrs body) (\<lambda>resp. liftA (decode_text dec resp))"

definition refuse_unless :: "bool \<Rightarrow> string \<Rightarrow> 'a \<Rightarrow> 'a auth" where
  "refuse_unless ok message v = liftA (if ok then Inr v else Inl (Unauthorized message))"

definition store_config :: "AuthConfigData \<Rightarrow> AuthSession \<Rightarrow> AuthSession" where
  "store_config data s =
     s\<lparr>au_csrf_token := (if cd_csrf_token data = []
                          then (case cd_security_csrf data of Some t \<Rightarrow> t | None \<Rightarrow> [])
                          else cd_csrf_token data),
       au_pub_key := cd_pub_key data, au_pub_key_exp := cd_pub_key_exp data,
       au_anti_replay_rand := cd_anti_replay_rand data\<rparr>"

definition auth_config_impl :: "auth_lib \<Rightarrow> (string \<times> string) list \<Rightarrow> (bool \<times> AuthMethodInfo list) auth" where
  "auth_config_impl lib extra =
     bindA (ask lib (al_config lib) GET ''/passport/v1/public/authConfig'' extra
       (\<lambda>s. auth_headers lib None [(''x-sdp-rid'', base64_rid lib s)] s) NoBody) (\<lambda>data.
     bindA (modA (store_config data)) (\<lambda>_.
     retA (cd_is_login data = 1, cd_methods data)))"

definition auth_config_init :: "auth_lib \<Rightarrow> (bool \<times> AuthMethodInfo list) auth" where
  "auth_config_init lib = auth_config_impl lib [(''needTicket'', ''1'')]"

definition auth_config_mod :: "auth_lib \<Rightarrow> (bool \<times> AuthMethodInfo list) auth" where
  "auth_config_mod lib = auth_config_impl lib [(''mod'', ''1'')]"

definition auth_config_refresh :: "auth_lib \<Rightarrow> (bool \<times> AuthMethodInfo list) auth" where
  "auth_config_refresh lib = auth_config_impl lib [(''mod'', ''1''), (''needTicket'', ''1'')]"

text \<open>The encrypted password: the text \<open>password_rand\<close> under the server's public key.\<close>

definition password_payload :: "auth_lib \<Rightarrow> PasswordLoginInput \<Rightarrow> string \<Rightarrow> AuthSession \<Rightarrow> AtrError + json" where
  "password_payload lib input captcha s =
     bindR (case al_hex_decode lib (au_pub_key s) of Inl e \<Rightarrow> Inl (CryptoFailed e) | Inr bs \<Rightarrow> Inr bs) (\<lambda>key_bytes.
     bindR (ok_or (ParseFailed (al_u32_error lib (au_pub_key_exp s))) (parse_u32 (au_pub_key_exp s))) (\<lambda>ex.
     bindR (case al_rsa lib (length (au_sent s)) key_bytes ex
                (str_bytes (pl_password input @ ''_'' @ au_anti_replay_rand s)) of
              Inl e \<Rightarrow> Inl (from_rsa_error e)
            | Inr cipher \<Rightarrow> Inr cipher) (\<lambda>cipher.
     Inr (JObject
       ([(''username'', JString (pl_username input @ ''@'' @ pl_login_domain input)),
         (''password'', JString (concat (map hex2 cipher))),
         (''rememberPwd'', JString ''0'')] @
        (if captcha = [] then [] else [(''graphCheckCode'', JString captcha)]))))))"

definition post_password :: "auth_lib \<Rightarrow> PasswordLoginInput \<Rightarrow> string \<Rightarrow> PasswordResponse auth" where
  "post_password lib input captcha =
     bindA (withA (\<lambda>s. liftA (password_payload lib input captcha s))) (\<lambda>body.
     bindA (ask lib (al_password lib) POST ''/passport/v1/auth/psw'' []
       (\<lambda>s. auth_headers lib json_type [(''x-sdp-env'', au_env s)] s) (JsonBody body)) (\<lambda>response.
     refuse_unless (\<not> (cr_code response \<noteq> 0 \<and> \<not> pr_graph_check_code_enable response \<noteq> 0))
       (if cr_message response = [] then ''password authentication failed with code '' @ int_str (cr_code response)
        else cr_message response) response))"

text \<open>The result code for which a text message has been sent already.\<close>

definition sms_accepted :: "int \<Rightarrow> bool" where
  "sms_accepted c \<longleftrightarrow> c = 0 \<or> c = 75500401"

definition send_sms :: "auth_lib \<Rightarrow> SmsLoginInput \<Rightarrow> string \<Rightarrow> int auth" where
  "send_sms lib input captcha =
     bindA (ask lib (al_sms lib) POST ''/passport/v1/public/sendSms'' []
       (\<lambda>s. auth_headers lib json_type [(''x-sdp-env'', au_env s)] s)
       (JsonBody (JObject [(''phone'', JString (sl_phone input @ ''@'' @ sl_login_domain input)),
          (''graphCheckCode'', JString captcha)]))) (\<lambda>parsed.
     refuse_unless (sms_accepted (cr_code parsed)) (''sendSms failed: '' @ cr_message parsed)
       (pr_graph_check_code_enable parsed))"

definition post_sms_verify :: "auth_lib \<Rightarrow> string \<Rightarrow> string \<Rightarrow> string \<Rightarrow> string \<Rightarrow> SmsResponse auth" where
  "post_sms_verify lib phone login_domain sms_code captcha =
     ask lib (al_sms lib) POST ''/passport/v1/auth/smsCheckCode'' []
       (\<lambda>s. auth_headers lib json_type [(''x-sdp-env'', au_env s)] s)
       (JsonBody (JObject ([(''code'', JString sms_code), (''phone'', JString (phone @ ''@'' @ login_domain))] @
          (if captcha = [] then [] else [(''graphCheckCode'', JString captcha)]))))"

text \<open>The numbers found are only counted in the log; a failure is ignored.\<close>

definition log_phone_number :: "auth_lib \<Rightarrow> string \<Rightarrow> unit auth" where
  "log_phone_number lib auth_id s =
     (Inr (), snd (call lib GET ''/passport/v1/public/phoneNumber''
        (if auth_id = [] then [] else [(''authId'', auth_id)]) (auth_headers lib None []) NoBody s))"

definition trigger_password_sms_step :: "auth_lib \<Rightarrow> AuthStep \<Rightarrow> unit auth" where
  "trigger_password_sms_step lib step =
     bindA (ask lib (al_sms lib) GET ''/passport/v1/auth/sms''
       ((''action'', ''sendsms'') #
        (if as_sms_mode step = Some WithAuthId
         then [(''isPrevEffect'', ''0''), (''taskId'', []), (''authId'', as_auth_id step)] else []))
       (auth_headers lib None []) NoBody) (\<lambda>parsed.
     refuse_unless (sms_accepted (cr_code parsed)) (''authSms failed: '' @ cr_message parsed) ())"

definition failed_with :: "string \<Rightarrow> 'b CodeResponse_scheme \<Rightarrow> string" where
  "failed_with what parsed = what @ '' failed: '' @ int_str (cr_code parsed) @ '' '' @ cr_message parsed"

definition skip_text :: "bool \<Rightarrow> string" where
  "skip_text skip = (if skip then ''1'' else ''0'')"

definition password_sms_check :: "auth_lib \<Rightarrow> AuthStep \<Rightarrow> string \<Rightarrow> bool \<Rightarrow> AuthStep auth" where
  "password_sms_check lib step sms_code skip =
     bindA (let form = as_sms_mode step = Some WithoutAuthId in
       ask lib (al_step lib) POST ''/passport/v1/auth/sms'' [(''action'', ''checkcode'')]
         (auth_headers lib (if form then form_type else json_type) [])
         (if form then FormBody [(''code'', sms_code), (''skipSecondaryAuth'', skip_text skip)]
          else JsonBody (JObject [(''isPrevEffect'', JBool False), (''code'', JString sms_code),
            (''skipSecondaryAuth'', JString (skip_text skip)), (''taskId'', JString []),
            (''authId'', JString (as_auth_id step))]))) (\<lambda>parsed.
     refuse_unless (cr_code parsed = 0) (failed_with ''smsCheckCode'' parsed) (auth_step_from_data (sr_data parsed)))"

definition send_custom_sms :: "auth_lib \<Rightarrow> unit auth" where
  "send_custom_sms lib =
     bindA (ask lib (al_custom lib) POST ''/passport/v1/auth/customSms'' [(''action'', ''sendcustomsms'')]
       (auth_headers lib json_type [])
       (JsonBody (JObject [(''isPrevEffect'', JString ''0''), (''taskId'', JString [])]))) (\<lambda>parsed.
     refuse_unless (cr_code parsed = 0) (failed_with ''sendCustomSMS'' parsed) ())"

definition custom_sms_check_code :: "auth_lib \<Rightarrow> string \<Rightarrow> bool \<Rightarrow> AuthStep auth" where
  "custom_sms_check_code lib sms_code skip =
     bindA (ask lib (al_step lib) POST ''/passport/v1/auth/customSms'' [(''action'', ''checkcustomcode'')]
       (auth_headers lib json_type [])
       (JsonBody (JObject [(''isPrevEffect'', JBool False), (''customCode'', JString sms_code),
          (''skipSecondaryAuth'', JString (skip_text skip)), (''taskId'', JString [])]))) (\<lambda>parsed.
     refuse_unless (cr_code parsed = 0) (failed_with ''customSMSCheckCode'' parsed) (auth_step_from_data (sr_data parsed)))"

definition auth_check :: "auth_lib \<Rightarrow> AuthStep auth" where
  "auth_check lib =
     bindA (ask lib (al_check lib) GET ''/passport/v1/auth/authCheck'' [] (auth_headers lib None []) NoBody) (\<lambda>parsed.
     refuse_unless (cr_code parsed = 0) (failed_with ''authCheck'' parsed) (auth_step_from_data (sr_data parsed)))"

definition report_env :: "auth_lib \<Rightarrow> unit auth" where
  "report_env lib = withA (\<lambda>s.
     if au_ticket s = [] then liftA (Inl (InvalidState ''ticket is empty''))
     else bindA (ask lib (al_code lib) POST ''/controller/v1/public/reportEnv'' [] (auth_headers lib json_type [])
       (JsonBody (JObject [(''ticket'', JString (au_ticket s)), (''deviceId'', JString (au_device_id s)),
          (''env'', JObject [(''endpoint'', JObject [(''device_id'', JString (au_device_id s)),
             (''device'', JObject [(''type'', JString ''browser'')])])])]))) (\<lambda>parsed.
       refuse_unless (cr_code parsed = 0) (''reportEnv failed: '' @ cr_message parsed) ()))"

definition online_info :: "auth_lib \<Rightarrow> string auth" where
  "online_info lib = ask lib (al_online lib) GET ''/passport/v1/user/onlineInfo'' [] (auth_headers lib None []) NoBody"

definition fetch_captcha :: "auth_lib \<Rightarrow> bytes auth" where
  "fetch_captcha lib = withA (\<lambda>s.
     bindA (call lib GET ''/passport/v1/public/checkCode'' [(''rnd'', nat_str (millis lib s))]
       (\<lambda>s. [(''User-Agent'', ac_user_agent (au_config s)), (''Accept'', ''image/webp,image/apng,image/*,*/*;q=0.8'')]) NoBody)
       (\<lambda>resp. liftA (body_bytes resp)))"

section \<open>Flows\<close>

text \<open>\<open>AuthSession::new\<close>: \<open>built\<close> is the outcome of building the HTTP client.\<close>

definition auth_new :: "auth_lib \<Rightarrow> string + unit \<Rightarrow> (nat \<Rightarrow> bytes) \<Rightarrow> AuthConfig \<Rightarrow> AtrError + AuthSession" where
  "auth_new lib built fill config =
     (if ac_server_host config = [] then Inl (InvalidArgument ''server_host is empty'')
      else
        let base_host = (if ac_server_port config = 443 then ac_server_host config
                         else ac_server_host config @ '':'' @ nat_str (unat (ac_server_port config)))
        in case al_parse_url lib (''https://'' @ base_host) of
             Inl e \<Rightarrow> Inl (from_url_error e)
           | Inr base_url \<Rightarrow>
               (case built of
                  Inl e \<Rightarrow> Inl (from_reqwest_error e)
                | Inr _ \<Rightarrow>
                    Inr \<lparr>au_config = config, au_base_url = base_url, au_base_host = base_host, au_csrf_token = [],
                      au_pub_key = [], au_pub_key_exp = [], au_anti_replay_rand = [], au_device_id = [],
                      au_sign_key_hex = random_hex fill 64, au_connection_id = [], au_env = [], au_ticket = [],
                      au_sid = [], au_username = [], au_client_resource_bytes = None, au_cookies = [],
                      au_pending = None, au_jar = [], au_sent = [], au_order = al_order lib\<rparr>))"

definition available_methods :: "auth_lib \<Rightarrow> AuthMethodInfo list auth" where
  "available_methods lib = bindA (auth_config_init lib) (\<lambda>(_, methods). retA methods)"

definition resolve_login_url :: "auth_lib \<Rightarrow> string \<Rightarrow> AuthSession \<Rightarrow> AtrError + string" where
  "resolve_login_url lib login_url s =
     (case al_join lib (au_base_url s) login_url of Inl e \<Rightarrow> Inl (from_url_error e) | Inr url \<Rightarrow> Inr url)"

text \<open>\<open>fill\<close> and \<open>micros\<close> are the random bytes and the clock at the call.\<close>

definition reset_identity :: "auth_lib \<Rightarrow> (nat \<Rightarrow> bytes) \<Rightarrow> nat \<Rightarrow> string \<Rightarrow> AuthSession \<Rightarrow> AuthSession" where
  "reset_identity lib fill micros device_id s =
     s\<lparr>au_device_id := device_id, au_connection_id := build_connection_id lib micros device_id,
       au_sign_key_hex := random_hex fill 64, au_env := build_env lib device_id, au_ticket := [], au_sid := [],
       au_username := [], au_pending := None\<rparr>"

definition set_pending :: "PendingFlow \<Rightarrow> unit auth" where
  "set_pending p = modA (\<lambda>s. s\<lparr>au_pending := Some p\<rparr>)"

definition session_material :: "AuthSession \<Rightarrow> SessionMaterial" where
  "session_material s =
     \<lparr>sm_username = au_username s, sm_sid = au_sid s, sm_device_id = au_device_id s,
      sm_connection_id = au_connection_id s, sm_sign_key_hex = au_sign_key_hex s, sm_cookies = collect_cookies s\<rparr>"

definition complete_login :: "auth_lib \<Rightarrow> AuthChallenge auth" where
  "complete_login lib =
     bindA (modA (\<lambda>s. s\<lparr>au_pending := None\<rparr>)) (\<lambda>_.
     bindA (online_info lib) (\<lambda>username.
     bindA (modA (\<lambda>s. sync_sid_from_cookies (s\<lparr>au_username := username\<rparr>))) (\<lambda>_.
     withA (\<lambda>s. retA (ChallengeDone
       \<lparr>sm_username = username, sm_sid = au_sid s, sm_device_id = au_device_id s,
        sm_connection_id = au_connection_id s, sm_sign_key_hex = au_sign_key_hex s, sm_cookies = collect_cookies s\<rparr>)))))"

definition begin_sms :: "auth_lib \<Rightarrow> AuthStep \<Rightarrow> AuthChallenge auth" where
  "begin_sms lib step =
     bindA (liftA (ok_or (InvalidState ''missing SMS authentication mode'') (as_sms_mode step))) (\<lambda>mode.
     bindA (if mode = WithAuthId then bindA (auth_config_refresh lib) (\<lambda>_. retA ()) else retA ()) (\<lambda>_.
     bindA (log_phone_number lib (as_auth_id step)) (\<lambda>_.
     bindA (trigger_password_sms_step lib step) (\<lambda>_.
     bindA (if mode = WithoutAuthId then bindA (auth_config_refresh lib) (\<lambda>_. retA ()) else retA ()) (\<lambda>_.
     bindA (set_pending (PendingStep step)) (\<lambda>_.
     retA (NeedSmsCode (as_auth_id step))))))))"

definition begin_custom_sms :: "auth_lib \<Rightarrow> AuthChallenge auth" where
  "begin_custom_sms lib =
     bindA (send_custom_sms lib) (\<lambda>_.
     bindA (set_pending (PendingStep
       \<lparr>as_service = ''auth/customSms'', as_auth_id = [], as_sms_mode = Some CustomSms\<rparr>)) (\<lambda>_.
     retA (NeedSmsCode [])))"

text \<open>The loop of \<open>continue_auth\<close> with the number of turns left.\<close>

primrec continue_auth_loop :: "auth_lib \<Rightarrow> nat \<Rightarrow> AuthStep \<Rightarrow> AuthChallenge auth" where
  "continue_auth_loop lib 0 step = liftA (Inl (Unauthorized ''authentication chain exceeded 8 steps''))"
| "continue_auth_loop lib (Suc n) step =
     (if as_service step = [] then complete_login lib
      else if as_service step = ''auth/authCheck'' then bindA (auth_check lib) (\<lambda>next_step. continue_auth_loop lib n next_step)
      else if as_service step = ''auth/sms'' then begin_sms lib step
      else if as_service step = ''auth/customSms'' then begin_custom_sms lib
      else liftA (Inl (Unsupported (''unsupported next authentication service: '' @ as_service step))))"

definition continue_auth :: "auth_lib \<Rightarrow> AuthStep \<Rightarrow> AuthChallenge auth" where
  "continue_auth lib step = continue_auth_loop lib 8 step"

definition finish_login :: "auth_lib \<Rightarrow> bool \<Rightarrow> AuthChallenge auth" where
  "finish_login lib update_mod =
     bindA (if update_mod then bindA (auth_config_mod lib) (\<lambda>_. retA ()) else retA ()) (\<lambda>_.
     bindA (report_env lib) (\<lambda>_.
     bindA (auth_check lib) (\<lambda>step.
     continue_auth lib step)))"

definition take_ticket :: "string \<Rightarrow> unit auth" where
  "take_ticket ticket = modA (\<lambda>s. sync_sid_from_cookies (s\<lparr>au_ticket := ticket\<rparr>))"

definition need_captcha :: "auth_lib \<Rightarrow> PendingFlow \<Rightarrow> AuthChallenge auth" where
  "need_captcha lib pending =
     bindA (fetch_captcha lib) (\<lambda>image. bindA (set_pending pending) (\<lambda>_. retA (NeedCaptcha image)))"

definition run_password :: "auth_lib \<Rightarrow> PasswordLoginInput \<Rightarrow> string \<Rightarrow> AuthChallenge auth" where
  "run_password lib input captcha =
     bindA (auth_config_init lib) (\<lambda>_.
     bindA (post_password lib input captcha) (\<lambda>response.
     if pr_graph_check_code_enable response \<noteq> 0 then need_captcha lib (PendingPassword input)
     else bindA (take_ticket (pr_ticket response)) (\<lambda>_. finish_login lib False)))"

definition run_sms_send :: "auth_lib \<Rightarrow> SmsLoginInput \<Rightarrow> string \<Rightarrow> AuthChallenge auth" where
  "run_sms_send lib input captcha =
     bindA (auth_config_init lib) (\<lambda>_.
     bindA (send_sms lib input captcha) (\<lambda>captcha_enabled.
     if captcha_enabled \<noteq> 0 \<and> captcha = [] then need_captcha lib (PendingSmsLogin input)
     else bindA (auth_check lib) (\<lambda>step. continue_auth lib step)))"

definition run_sms_verify :: "auth_lib \<Rightarrow> string \<Rightarrow> string \<Rightarrow> string \<Rightarrow> string \<Rightarrow> AuthChallenge auth" where
  "run_sms_verify lib phone login_domain sms_code captcha =
     bindA (post_sms_verify lib phone login_domain sms_code captcha) (\<lambda>response.
     if pr_graph_check_code_enable response \<noteq> 0 \<and> captcha = []
     then need_captcha lib (PendingSmsVerify phone login_domain sms_code)
     else bindA (take_ticket (pr_ticket response)) (\<lambda>_. finish_login lib False))"

definition login_with_password ::
  "auth_lib \<Rightarrow> (nat \<Rightarrow> bytes) \<Rightarrow> nat \<Rightarrow> PasswordLoginInput \<Rightarrow> string \<Rightarrow> AuthChallenge auth" where
  "login_with_password lib fill micros input device_id =
     bindA (modA (reset_identity lib fill micros device_id)) (\<lambda>_.
     bindA (set_pending (PendingPassword input)) (\<lambda>_.
     run_password lib input []))"

definition login_with_sms ::
  "auth_lib \<Rightarrow> (nat \<Rightarrow> bytes) \<Rightarrow> nat \<Rightarrow> SmsLoginInput \<Rightarrow> string \<Rightarrow> AuthChallenge auth" where
  "login_with_sms lib fill micros input device_id =
     bindA (modA (reset_identity lib fill micros device_id)) (\<lambda>_.
     bindA (set_pending (PendingSmsLogin input)) (\<lambda>_.
     run_sms_send lib input []))"

definition submit_captcha :: "auth_lib \<Rightarrow> string \<Rightarrow> AuthChallenge auth" where
  "submit_captcha lib captcha = withA (\<lambda>s.
     case au_pending s of
       None \<Rightarrow> liftA (Inl (InvalidState ''no pending challenge''))
     | Some (PendingPassword input) \<Rightarrow> run_password lib input captcha
     | Some (PendingSmsLogin input) \<Rightarrow> run_sms_send lib input captcha
     | Some (PendingSmsVerify phone login_domain sms_code) \<Rightarrow> run_sms_verify lib phone login_domain sms_code captcha
     | Some (PendingStep _) \<Rightarrow> liftA (Inl (InvalidState ''captcha is not expected here'')))"

definition complete_auth_step :: "auth_lib \<Rightarrow> AuthStep \<Rightarrow> string \<Rightarrow> bool \<Rightarrow> AuthStep auth" where
  "complete_auth_step lib step sms_code skip =
     (case as_sms_mode step of
        Some CustomSms \<Rightarrow> custom_sms_check_code lib sms_code skip
      | Some WithAuthId \<Rightarrow> password_sms_check lib step sms_code skip
      | Some WithoutAuthId \<Rightarrow> password_sms_check lib step sms_code skip
      | None \<Rightarrow> liftA (Inl (InvalidState ''invalid authentication step'')))"

text \<open>A leading dollar sign asks to skip the second factor in future.\<close>

definition split_skip :: "string \<Rightarrow> string \<times> bool" where
  "split_skip sms_code = (case strip_prefix ''$'' sms_code of Some rest \<Rightarrow> (rest, True) | None \<Rightarrow> (sms_code, False))"

definition submit_sms_code :: "auth_lib \<Rightarrow> string \<Rightarrow> AuthChallenge auth" where
  "submit_sms_code lib sms_code = withA (\<lambda>s.
     case au_pending s of
       None \<Rightarrow> liftA (Inl (InvalidState ''no pending sms flow''))
     | Some (PendingStep step) \<Rightarrow>
         (case split_skip sms_code of (digits, skip) \<Rightarrow>
            bindA (complete_auth_step lib step digits skip) (\<lambda>next_step. continue_auth lib next_step))
     | Some (PendingSmsLogin input) \<Rightarrow>
         bindA (set_pending (PendingSmsVerify (sl_phone input) (sl_login_domain input) sms_code)) (\<lambda>_.
           run_sms_verify lib (sl_phone input) (sl_login_domain input) sms_code [])
     | Some (PendingSmsVerify phone login_domain _) \<Rightarrow> run_sms_verify lib phone login_domain sms_code []
     | Some (PendingPassword _) \<Rightarrow> liftA (Inl (InvalidState ''pending password flow, not sms'')))"

definition find_param :: "string \<Rightarrow> (string \<times> string) list \<Rightarrow> string option" where
  "find_param k pairs = map_option snd (List.find (\<lambda>(key, _). key = k) pairs)"

definition extract_ticket_from_redirect :: "auth_lib \<Rightarrow> string \<Rightarrow> AtrError + string option" where
  "extract_ticket_from_redirect lib location =
     (case al_parse_url lib location of
        Inl e \<Rightarrow> Inl (from_url_error e)
      | Inr url \<Rightarrow>
          (case find_param ''ticket'' (al_query_pairs lib url) of
             Some ticket \<Rightarrow> Inr (Some ticket)
           | None \<Rightarrow>
               (case find_param ''data'' (al_query_pairs lib url) of
                  None \<Rightarrow> Inr None
                | Some data \<Rightarrow>
                    (case al_value lib (str_bytes data) of
                       Inl e \<Rightarrow> Inl (from_serde_error e)
                     | Inr payload \<Rightarrow>
                         Inr (case json_get ''ticket'' payload of None \<Rightarrow> None | Some v \<Rightarrow> as_str v)))))"

definition is_redirection :: "nat \<Rightarrow> bool" where
  "is_redirection status \<longleftrightarrow> 300 \<le> status \<and> status < 400"

definition extract_ticket_from_callback :: "auth_lib \<Rightarrow> string \<Rightarrow> string auth" where
  "extract_ticket_from_callback lib callback =
     bindA (withA (\<lambda>s. exchange lib \<lparr>rq_method = GET, rq_url = callback, rq_query = [],
        rq_headers = auth_headers lib None [] s, rq_body = NoBody\<rparr>)) (\<lambda>response.
     bindA (case rs_location response of
              Some location \<Rightarrow>
                if is_redirection (rs_status response)
                then liftA (extract_ticket_from_redirect lib
                       (case header_to_str location of Some t \<Rightarrow> t | None \<Rightarrow> []))
                else retA None
            | None \<Rightarrow> retA None) (\<lambda>found.
     liftA (case found of
        Some ticket \<Rightarrow> Inr ticket
      | None \<Rightarrow> ok_or (ParseFailed ''ticket missing'') (find_param ''ticket'' (al_query_pairs lib callback)))))"

definition complete_callback :: "auth_lib \<Rightarrow> CallbackTarget \<Rightarrow> AuthChallenge auth" where
  "complete_callback lib target =
     bindA (liftA (case al_parse_url lib (callback_url target) of Inl e \<Rightarrow> Inl (from_url_error e) | Inr url \<Rightarrow> Inr url)) (\<lambda>callback.
     bindA (extract_ticket_from_callback lib callback) (\<lambda>ticket.
     bindA (modA (\<lambda>s. s\<lparr>au_ticket := ticket\<rparr>)) (\<lambda>_.
     finish_login lib True)))"

definition complete_callback_with_device ::
  "auth_lib \<Rightarrow> (nat \<Rightarrow> bytes) \<Rightarrow> nat \<Rightarrow> CallbackTarget \<Rightarrow> string \<Rightarrow> AuthChallenge auth" where
  "complete_callback_with_device lib fill micros target device_id =
     bindA (modA (reset_identity lib fill micros device_id)) (\<lambda>_. complete_callback lib target)"

definition prepare_callback_login :: "auth_lib \<Rightarrow> (nat \<Rightarrow> bytes) \<Rightarrow> nat \<Rightarrow> string \<Rightarrow> AuthSession \<Rightarrow> AuthSession" where
  "prepare_callback_login lib fill micros device_id = reset_identity lib fill micros device_id"

definition import_session :: "auth_lib \<Rightarrow> (nat \<Rightarrow> bytes) \<Rightarrow> nat \<Rightarrow> SessionMaterial \<Rightarrow> AuthSession \<Rightarrow> AuthSession" where
  "import_session lib fill micros session s =
     (let s1 = s\<lparr>au_device_id := sm_device_id session,
                 au_connection_id := build_connection_id lib micros (sm_device_id session),
                 au_sign_key_hex := random_hex fill 64, au_username := sm_username session, au_ticket := [],
                 au_sid := sm_sid session, au_cookies := []\<rparr>;
          s2 = fold (keep_cookie lib) (sm_cookies session) s1
      in s2\<lparr>au_env := build_env lib (au_device_id s2)\<rparr>)"

definition not_logged_in :: AtrError where
  "not_logged_in = Unauthorized ''stored session is not logged in''"

definition resume_session :: "auth_lib \<Rightarrow> (nat \<Rightarrow> bytes) \<Rightarrow> nat \<Rightarrow> SessionMaterial \<Rightarrow> SessionMaterial auth" where
  "resume_session lib fill micros session =
     bindA (modA (import_session lib fill micros session)) (\<lambda>_.
     bindA (auth_config_init lib) (\<lambda>(is_login, _).
     if \<not> is_login then liftA (Inl not_logged_in)
     else bindA (online_info lib) (\<lambda>username.
       bindA (modA (\<lambda>s. sync_sid_from_cookies (s\<lparr>au_username := username\<rparr>))) (\<lambda>_.
       withA (\<lambda>s. retA (session_material s))))))"

definition client_resource_payload :: json where
  "client_resource_payload = JObject [(''resourceType'', JObject
     [(''sdpPolicy'', JObject []), (''appList'', JObject []), (''favoriteAppList'', JObject []),
      (''featureCenter'', JObject []),
      (''uemSpace'', JObject [(''params'', JObject [(''action'', JString ''login'')])])])]"

definition fetch_client_resource :: "auth_lib \<Rightarrow> bytes auth" where
  "fetch_client_resource lib =
     bindA (withA (\<lambda>s. if au_ticket s = []
        then bindA (auth_config_init lib) (\<lambda>(is_login, _). if is_login then retA () else liftA (Inl not_logged_in))
        else retA ())) (\<lambda>_.
     bindA (call lib POST ''/controller/v1/user/clientResource'' [] (auth_headers lib json_type [])
       (JsonBody client_resource_payload)) (\<lambda>resp.
     bindA (liftA (body_bytes resp)) (\<lambda>bs.
     bindA (liftA (validate_client_resource_response lib (rs_status resp) bs)) (\<lambda>_.
     retA bs))))"

definition client_resource_bytes :: "auth_lib \<Rightarrow> bytes auth" where
  "client_resource_bytes lib = withA (\<lambda>s.
     case au_client_resource_bytes s of
       Some bs \<Rightarrow> retA bs
     | None \<Rightarrow> bindA (fetch_client_resource lib) (\<lambda>bs.
         bindA (modA (\<lambda>s. s\<lparr>au_client_resource_bytes := Some bs\<rparr>)) (\<lambda>_. retA bs)))"

section \<open>Public calls\<close>

text \<open>The calls that move a login forward, each with the random bytes and the clock it reads.\<close>

datatype login_call =
    LoginPassword "nat \<Rightarrow> bytes" nat PasswordLoginInput string
  | LoginSms "nat \<Rightarrow> bytes" nat SmsLoginInput string
  | SubmitCaptcha string
  | SubmitSmsCode string
  | CompleteCallback CallbackTarget
  | CompleteCallbackWithDevice "nat \<Rightarrow> bytes" nat CallbackTarget string

fun perform :: "auth_lib \<Rightarrow> login_call \<Rightarrow> AuthChallenge auth" where
  "perform lib (LoginPassword fill micros input device_id) = login_with_password lib fill micros input device_id"
| "perform lib (LoginSms fill micros input device_id) = login_with_sms lib fill micros input device_id"
| "perform lib (SubmitCaptcha captcha) = submit_captcha lib captcha"
| "perform lib (SubmitSmsCode sms_code) = submit_sms_code lib sms_code"
| "perform lib (CompleteCallback target) = complete_callback lib target"
| "perform lib (CompleteCallbackWithDevice fill micros target device_id) =
     complete_callback_with_device lib fill micros target device_id"

section \<open>What every step keeps\<close>

text \<open>A step adheres to a relation when it relates the session before and after, however it ends.\<close>

definition adheres :: "(AuthSession \<Rightarrow> AuthSession \<Rightarrow> bool) \<Rightarrow> 'a auth \<Rightarrow> bool" where
  "adheres R m \<longleftrightarrow> (\<forall>s. R s (snd (m s)))"


lemma adheres_with: "(\<And>s0. adheres R (f s0)) \<Longrightarrow> adheres R (withA f)"
  by (simp add: adheres_def withA_def)

text \<open>
  A relation that requests adhere to: one that holds when a request is sent, a cookie is kept or a
  configuration stored. All request functions of the session adhere to it.
\<close>

locale session_relation =
  fixes R :: "AuthSession \<Rightarrow> AuthSession \<Rightarrow> bool"
  assumes refl: "R s s"
    and trans: "R s t \<Longrightarrow> R t u \<Longrightarrow> R s u"
    and sending: "R s (s\<lparr>au_sent := au_sent s @ [req]\<rparr>)"
    and keeping: "R s (keep_cookie lib cookie s)"
    and configuring: "R s (store_config data s)"
begin

lemma bind: "adheres R m \<Longrightarrow> (\<And>v. adheres R (f v)) \<Longrightarrow> adheres R (bindA m f)"
  unfolding adheres_def bindA_def by (auto split: prod.split sum.split intro: trans) (metis snd_conv trans)

lemma lift: "adheres R (liftA r)" "adheres R (retA v)"
  by (simp_all add: adheres_def liftA_def retA_def refl)

lemma capture: "R s (capture_cookies lib resp s)"
proof -
  let ?f = "\<lambda>value s. case parse_set_cookie value (au_base_host s) of Inl _ \<Rightarrow> s | Inr cookie \<Rightarrow> keep_cookie lib cookie s"
  have "R s (fold ?f vs s)" for vs
    by (induction vs arbitrary: s) (auto split: sum.split intro: refl trans keeping)
  then show ?thesis by (simp add: capture_cookies_def)
qed

lemma exchange: "adheres R (exchange lib req)"
  by (auto simp: adheres_def exchange_def Let_def sending split: sum.split intro: trans [OF sending capture])

lemma call: "adheres R (call lib meth path query hdrs body)"
  using exchange by (auto simp: adheres_def call_def refl split: sum.split)

lemma ask: "adheres R (ask lib dec meth path query hdrs body)"
  unfolding ask_def by (intro bind call lift)

lemma refuse: "adheres R (refuse_unless ok message v)"
  unfolding refuse_unless_def by (rule lift)

lemma auth_config:
  "adheres R (auth_config_impl lib extra)" "adheres R (auth_config_init lib)" "adheres R (auth_config_mod lib)"
  "adheres R (auth_config_refresh lib)"
proof -
  have "adheres R (modA (store_config data))" for data by (simp add: adheres_def modA_def configuring)
  then have "adheres R (auth_config_impl lib extra)" for extra
    unfolding auth_config_impl_def by (intro bind ask lift)
  then show "adheres R (auth_config_impl lib extra)" "adheres R (auth_config_init lib)" "adheres R (auth_config_mod lib)"
    "adheres R (auth_config_refresh lib)"
    by (simp_all add: auth_config_init_def auth_config_mod_def auth_config_refresh_def)
qed

lemma requests:
  "adheres R (post_password lib input captcha)" "adheres R (send_sms lib sms captcha)"
  "adheres R (post_sms_verify lib phone domain sms_code captcha)"
  "adheres R (trigger_password_sms_step lib step)" "adheres R (password_sms_check lib step sms_code skip)"
  "adheres R (send_custom_sms lib)" "adheres R (custom_sms_check_code lib sms_code skip)" "adheres R (auth_check lib)"
  "adheres R (report_env lib)" "adheres R (online_info lib)" "adheres R (fetch_captcha lib)"
  unfolding post_password_def send_sms_def post_sms_verify_def trigger_password_sms_step_def password_sms_check_def
    send_custom_sms_def custom_sms_check_code_def auth_check_def report_env_def online_info_def fetch_captcha_def Let_def
  by (auto intro!: bind ask call lift refuse adheres_with)

lemma log_phone: "adheres R (log_phone_number lib auth_id)"
  using call by (simp add: adheres_def log_phone_number_def)

lemma ticket_of_callback: "adheres R (extract_ticket_from_callback lib callback)"
  unfolding extract_ticket_from_callback_def by (auto intro!: bind exchange lift adheres_with split: option.split)

lemma fetch_resource: "adheres R (fetch_client_resource lib)"
  unfolding fetch_client_resource_def by (auto intro!: bind call auth_config lift adheres_with split: prod.split)

end

text \<open>
  A relation that logging in adheres: moreover the pending flow, the ticket, the session id
  and the user name may change.
\<close>

locale login_relation = session_relation +
  assumes pending: "R s (s\<lparr>au_pending := p\<rparr>)"
    and ticket: "R s (s\<lparr>au_ticket := t\<rparr>)"
    and sid: "R s (s\<lparr>au_sid := i\<rparr>)"
    and username: "R s (s\<lparr>au_username := u\<rparr>)"
begin

lemma sync: "R s (sync_sid_from_cookies s)"
  by (auto simp: sync_sid_from_cookies_def refl sid split: option.split)

lemma updates:
  "adheres R (set_pending p)" "adheres R (take_ticket t)" "adheres R (modA (\<lambda>s. s\<lparr>au_pending := q\<rparr>))"
  "adheres R (modA (\<lambda>s. s\<lparr>au_ticket := t\<rparr>))" "adheres R (modA (\<lambda>s. sync_sid_from_cookies (s\<lparr>au_username := u\<rparr>)))"
  by (auto simp: adheres_def set_pending_def take_ticket_def modA_def pending ticket
      intro: trans [OF ticket sync] trans [OF username sync])

lemma login: "adheres R (complete_login lib)"
  unfolding complete_login_def by (intro bind updates requests lift adheres_with)

lemma sms: "adheres R (begin_sms lib step)" "adheres R (begin_custom_sms lib)"
  unfolding begin_sms_def begin_custom_sms_def by (auto intro!: bind updates requests auth_config log_phone lift)

lemma continue: "adheres R (continue_auth lib step)"
proof -
  have "adheres R (continue_auth_loop lib n step)" for n
    by (induction n arbitrary: step) (auto intro!: bind requests lift login sms)
  then show ?thesis by (simp add: continue_auth_def)
qed

lemma finish: "adheres R (finish_login lib update_mod)"
  unfolding finish_login_def by (auto intro!: bind auth_config requests continue lift)

lemma captcha: "adheres R (need_captcha lib flow)"
  unfolding need_captcha_def by (intro bind requests updates lift)

lemma runs:
  "adheres R (run_password lib input c)" "adheres R (run_sms_send lib sms c)"
  "adheres R (run_sms_verify lib phone domain sms_code c)"
  unfolding run_password_def run_sms_send_def run_sms_verify_def
  by (auto intro!: bind auth_config requests captcha updates finish continue)

lemma submits: "adheres R (submit_captcha lib c)" "adheres R (submit_sms_code lib sms_code)"
  unfolding submit_captcha_def submit_sms_code_def complete_auth_step_def
  by (auto intro!: adheres_with bind runs lift requests continue updates
      split: option.split PendingFlow.split prod.split SmsMode.split)

lemma callback: "adheres R (complete_callback lib target)"
  unfolding complete_callback_def by (intro bind lift ticket_of_callback updates finish)

lemma performing:
  assumes "\<And>s fill micros device_id. R s (reset_identity lib fill micros device_id s)"
  shows "adheres R (perform lib c)"
proof -
  have reset: "adheres R (modA (reset_identity lib fill micros device_id))" for fill micros device_id
    by (simp add: adheres_def modA_def assms)
  show ?thesis
    by (cases c) (auto simp: login_with_password_def login_with_sms_def complete_callback_with_device_def
        intro!: bind reset updates runs submits callback)
qed

end

section \<open>What a login keeps\<close>

definition identity_of :: "AuthSession \<Rightarrow> AuthConfig \<times> string \<times> string \<times> string \<times> string \<times> string" where
  "identity_of s = (au_config s, au_base_url s, au_device_id s, au_connection_id s, au_sign_key_hex s, au_env s)"

definition cookies_wf :: "(string, CookieRecord) hmap \<Rightarrow> bool" where
  "cookies_wf m \<longleftrightarrow> hm_wf m \<and> (\<forall>(k, cookie) \<in> set m. k = ck_name cookie)"

lemma install_cookie_frame [simp]:
  "identity_of (install_cookie lib cookie s) = identity_of s" "au_sent (install_cookie lib cookie s) = au_sent s"
  "au_cookies (install_cookie lib cookie s) = au_cookies s" "au_username (install_cookie lib cookie s) = au_username s"
  "au_sid (install_cookie lib cookie s) = au_sid s" "au_pending (install_cookie lib cookie s) = au_pending s"
  "au_client_resource_bytes (install_cookie lib cookie s) = au_client_resource_bytes s"
  "au_base_host (install_cookie lib cookie s) = au_base_host s" "au_order (install_cookie lib cookie s) = au_order s"
  by (simp_all add: install_cookie_def identity_of_def Let_def split: sum.split)

lemma keep_cookie_frame [simp]:
  "identity_of (keep_cookie lib cookie s) = identity_of s" "au_sent (keep_cookie lib cookie s) = au_sent s"
  "au_cookies (keep_cookie lib cookie s) = hm_insert (ck_name cookie) cookie (au_cookies s)"
  "au_username (keep_cookie lib cookie s) = au_username s" "au_sid (keep_cookie lib cookie s) = au_sid s"
  "au_pending (keep_cookie lib cookie s) = au_pending s"
  "au_client_resource_bytes (keep_cookie lib cookie s) = au_client_resource_bytes s" "au_order (keep_cookie lib cookie s) = au_order s"
  using install_cookie_frame [of lib cookie s] by (simp_all add: keep_cookie_def identity_of_def Let_def)

lemma cookies_wf_insert: "cookies_wf m \<Longrightarrow> cookies_wf (hm_insert (ck_name c) c m)"
proof -
  assume wf: "cookies_wf m"
  have "\<forall>(k, cookie) \<in> set m. k = ck_name cookie \<Longrightarrow> \<forall>(k, cookie) \<in> set (AList.update (ck_name c) c m). k = ck_name cookie" for m
    by (induction m) auto
  with wf show ?thesis by (auto simp: cookies_wf_def hm_wf_def hm_insert_def distinct_update)
qed

interpretation identity: login_relation "\<lambda>s t. identity_of t = identity_of s"
  by unfold_locales (auto simp: identity_of_def store_config_def keep_cookie_frame [unfolded identity_of_def])

interpretation history: login_relation "\<lambda>s t. \<exists>new. au_sent t = au_sent s @ new"
  by unfold_locales (auto simp: store_config_def)

interpretation resource: login_relation "\<lambda>s t. au_client_resource_bytes t = au_client_resource_bytes s"
  by unfold_locales (auto simp: store_config_def)

interpretation cookies: login_relation "\<lambda>s t. au_order t = au_order s \<and> (cookies_wf (au_cookies s) \<longrightarrow> cookies_wf (au_cookies t))"
  by unfold_locales (auto simp: store_config_def cookies_wf_insert)

text \<open>The number of requests a step sends.\<close>

definition costs :: "nat \<Rightarrow> 'a auth \<Rightarrow> bool" where
  "costs n m \<longleftrightarrow> (\<forall>s. length (au_sent (snd (m s))) \<le> length (au_sent s) + n)"

lemma costs_le: "costs n m \<Longrightarrow> n \<le> k \<Longrightarrow> costs k m"
  unfolding costs_def by (meson add_left_mono le_trans)

lemma costs_bind:
  assumes "costs n m" "\<And>v. costs k (f v)"
  shows "costs (n + k) (bindA m f)"
  unfolding costs_def
proof
  fix s
  obtain r s1 where m: "m s = (r, s1)" by fastforce
  with assms(1) have "length (au_sent s1) \<le> length (au_sent s) + n" unfolding costs_def by (metis snd_conv)
  moreover have "length (au_sent (snd (f v s1))) \<le> length (au_sent s1) + k" for v using assms(2) by (simp add: costs_def)
  ultimately show "length (au_sent (snd (bindA m f s))) \<le> length (au_sent s) + (n + k)"
    using m by (cases r) (simp_all add: bindA_def order_trans [of _ "length (au_sent s1) + k"])
qed

lemma costs_pure: "costs 0 (liftA r)" "costs 0 (retA v)" "costs 0 (set_pending p)" "costs 0 (take_ticket t)"
  "(\<And>s. au_sent (f s) = au_sent s) \<Longrightarrow> costs 0 (modA f)"
  by (simp_all add: costs_def liftA_def retA_def set_pending_def take_ticket_def modA_def sync_sid_from_cookies_def
      split: option.split)

lemma costs_if: "costs n a \<Longrightarrow> costs n b \<Longrightarrow> costs n (if c then a else b)"
  by simp

lemma costs_with: "(\<And>s. costs n (f s)) \<Longrightarrow> costs n (withA f)"
  by (simp add: costs_def withA_def)

lemma capture_sent: "au_sent (capture_cookies lib resp s) = au_sent s"
proof -
  let ?f = "\<lambda>value s. case parse_set_cookie value (au_base_host s) of Inl _ \<Rightarrow> s | Inr cookie \<Rightarrow> keep_cookie lib cookie s"
  have "au_sent (fold ?f vs s) = au_sent s" for vs
    by (induction vs arbitrary: s) (auto split: sum.split)
  then show ?thesis by (simp add: capture_cookies_def)
qed

lemma costs_exchange: "costs 1 (exchange lib req)"
  by (auto simp: costs_def exchange_def Let_def capture_sent split: sum.split)

lemma costs_call: "costs 1 (call lib meth path query hdrs body)"
  using costs_exchange by (auto simp: costs_def call_def split: sum.split)

lemma costs_bind_pure: "costs n m \<Longrightarrow> (\<And>v. costs 0 (f v)) \<Longrightarrow> costs n (bindA m f)"
  using costs_bind [of n m 0 f] by simp

lemma costs_ask: "costs 1 (ask lib dec meth path query hdrs body)"
  unfolding ask_def by (intro costs_bind_pure costs_call costs_pure)

lemma costs_requests:
  "costs 1 (auth_config_impl lib extra)" "costs 1 (auth_config_init lib)" "costs 1 (auth_config_mod lib)"
  "costs 1 (auth_config_refresh lib)" "costs 1 (post_password lib input captcha)" "costs 1 (send_sms lib sms captcha)"
  "costs 1 (post_sms_verify lib phone domain sms_code captcha)"
  "costs 1 (trigger_password_sms_step lib step)" "costs 1 (password_sms_check lib step sms_code skip)"
  "costs 1 (send_custom_sms lib)" "costs 1 (custom_sms_check_code lib sms_code skip)" "costs 1 (auth_check lib)"
  "costs 1 (report_env lib)" "costs 1 (online_info lib)" "costs 1 (fetch_captcha lib)"
  "costs 1 (log_phone_number lib auth_id)" "costs 1 (extract_ticket_from_callback lib callback)"
proof -
  have cfg: "costs 1 (auth_config_impl lib extra)" for extra
    unfolding auth_config_impl_def by (intro costs_bind_pure costs_ask costs_pure) (simp add: store_config_def)
  show "costs 1 (auth_config_impl lib extra)" "costs 1 (auth_config_init lib)" "costs 1 (auth_config_mod lib)"
    "costs 1 (auth_config_refresh lib)"
    using cfg by (simp_all add: auth_config_init_def auth_config_mod_def auth_config_refresh_def)
  have pw: "costs (0 + 1) (post_password lib input captcha)"
    unfolding post_password_def refuse_unless_def by (intro costs_bind costs_bind_pure costs_ask costs_pure costs_with)
  then show "costs 1 (post_password lib input captcha)" by simp
  show "costs 1 (log_phone_number lib auth_id)" using costs_call by (simp add: costs_def log_phone_number_def)
  show "costs 1 (report_env lib)" unfolding report_env_def refuse_unless_def
    by (intro costs_with costs_if costs_bind_pure costs_ask costs_pure costs_le [OF costs_pure(1)]) simp
  show "costs 1 (extract_ticket_from_callback lib callback)" unfolding extract_ticket_from_callback_def
    by (auto simp del: One_nat_def intro!: costs_with costs_bind_pure costs_exchange costs_pure split: option.split)
  show "costs 1 (fetch_captcha lib)" unfolding fetch_captcha_def by (intro costs_with costs_bind_pure costs_call costs_pure)
  show "costs 1 (send_sms lib sms captcha)" "costs 1 (post_sms_verify lib phone domain sms_code captcha)"
    "costs 1 (trigger_password_sms_step lib step)" "costs 1 (password_sms_check lib step sms_code skip)"
    "costs 1 (send_custom_sms lib)" "costs 1 (custom_sms_check_code lib sms_code skip)" "costs 1 (auth_check lib)"
    "costs 1 (online_info lib)"
    unfolding send_sms_def post_sms_verify_def trigger_password_sms_step_def password_sms_check_def Let_def
      send_custom_sms_def custom_sms_check_code_def auth_check_def online_info_def refuse_unless_def
    by (intro costs_bind_pure costs_ask costs_pure)+
qed

lemma costs_login: "costs 1 (complete_login lib)"
proof -
  have "costs (0 + (1 + (0 + 0))) (complete_login lib)" unfolding complete_login_def
    by (intro costs_bind costs_pure costs_requests costs_with) (simp_all add: sync_sid_from_cookies_def split: option.split)
  then show ?thesis by simp
qed

lemma costs_sms: "costs 3 (begin_sms lib step)" "costs 1 (begin_custom_sms lib)"
proof -
  have "costs (1 + 0) (begin_custom_sms lib)" unfolding begin_custom_sms_def
    by (intro costs_bind costs_bind_pure costs_pure costs_requests)
  then show "costs 1 (begin_custom_sms lib)" by simp
  let ?refresh = "bindA (auth_config_refresh lib) (\<lambda>_. retA ())"
  have refresh: "costs 1 ?refresh" by (intro costs_bind_pure costs_requests costs_pure)
  let ?rest = "\<lambda>mode. bindA (if mode = WithAuthId then ?refresh else retA ()) (\<lambda>_.
     bindA (log_phone_number lib (as_auth_id step)) (\<lambda>_.
     bindA (trigger_password_sms_step lib step) (\<lambda>_.
     bindA (if mode = WithoutAuthId then ?refresh else retA ()) (\<lambda>_.
     bindA (set_pending (PendingStep step)) (\<lambda>_.
     retA (NeedSmsCode (as_auth_id step)))))))"
  have "costs 3 (?rest mode)" for mode
  proof -
    have "costs ((if mode = WithAuthId then 1 else 0) + (1 + (1 + ((if mode = WithoutAuthId then 1 else 0) + (0 + 0))))) (?rest mode)"
      by (intro costs_bind costs_pure costs_requests) (simp_all add: costs_pure refresh [simplified])
    then show ?thesis by (rule costs_le) simp
  qed
  then have "costs (0 + 3) (begin_sms lib step)" unfolding begin_sms_def by (intro costs_bind costs_pure)
  then show "costs 3 (begin_sms lib step)" by simp
qed

lemma costs_turn:
  assumes "costs k (bindA (auth_check lib) (continue_auth_loop lib n))" "k \<le> m" "3 \<le> m"
  shows "costs m (continue_auth_loop lib (Suc n) step)"
proof -
  have "costs m (complete_login lib)" "costs m (begin_sms lib step)" "costs m (begin_custom_sms lib)"
    "costs m (bindA (auth_check lib) (continue_auth_loop lib n))"
    using costs_le [OF costs_login] costs_le [OF costs_sms(1)] costs_le [OF costs_sms(2)] costs_le [OF assms(1,2)] assms(3)
    by auto
  then show ?thesis
    by (simp only: continue_auth_loop.simps(2)) (intro costs_if costs_le [OF costs_pure(1)] le0; assumption)
qed

lemma costs_continue: "costs 10 (continue_auth lib step)"
proof -
  have "costs (n + 3) (continue_auth_loop lib (Suc n) step)" for n
  proof (induction n arbitrary: step)
    case 0
    have "costs 1 (bindA (auth_check lib) (continue_auth_loop lib 0))"
      by (intro costs_bind_pure costs_requests) (simp add: costs_pure)
    then show ?case by (rule costs_turn) simp_all
  next
    case (Suc n)
    have "costs (1 + (n + 3)) (bindA (auth_check lib) (continue_auth_loop lib (Suc n)))"
      by (intro costs_bind costs_requests Suc)
    then show ?case by (rule costs_turn) simp_all
  qed
  from this [of 7] show ?thesis by (simp add: continue_auth_def eval_nat_numeral del: continue_auth_loop.simps)
qed

lemma costs_finish: "costs 12 (finish_login lib False)" "costs 13 (finish_login lib True)"
proof -
  have "costs (0 + (1 + (1 + 10))) (finish_login lib False)" "costs (1 + (1 + (1 + 10))) (finish_login lib True)"
    unfolding finish_login_def if_True if_False
    by (intro costs_bind costs_bind_pure costs_requests costs_continue costs_pure)+
  then show "costs 12 (finish_login lib False)" "costs 13 (finish_login lib True)" by simp_all
qed

lemma costs_runs:
  "costs 14 (run_password lib input c)" "costs 13 (run_sms_send lib sms c)"
  "costs 13 (run_sms_verify lib phone domain sms_code c)"
proof -
  have cap: "costs 1 (need_captcha lib flow)" for flow unfolding need_captcha_def
    by (intro costs_bind_pure costs_requests costs_pure)
  have fin: "costs (0 + 12) (bindA (take_ticket t) (\<lambda>_. finish_login lib False))" for t
    by (intro costs_bind costs_pure costs_finish)
  have chk: "costs (1 + 10) (bindA (auth_check lib) (\<lambda>step. continue_auth lib step))"
    by (intro costs_bind costs_requests costs_continue)
  have "costs (1 + (1 + 12)) (run_password lib input c)" "costs (1 + (1 + 11)) (run_sms_send lib sms c)"
    "costs (1 + 12) (run_sms_verify lib phone domain sms_code c)"
    unfolding run_password_def run_sms_send_def run_sms_verify_def
    by (intro costs_bind costs_requests costs_if costs_le [OF cap] costs_le [OF fin] costs_le [OF chk]; simp)+
  then show "costs 14 (run_password lib input c)" "costs 13 (run_sms_send lib sms c)"
    "costs 13 (run_sms_verify lib phone domain sms_code c)" by simp_all
qed

lemma costs_perform: "costs 14 (perform lib c)"
proof -
  have reset: "costs 0 (modA (reset_identity lib fill micros device_id))" for fill micros device_id
    by (simp add: costs_pure reset_identity_def)
  have "costs (0 + (1 + (0 + 13))) (complete_callback lib target)" for target
    unfolding complete_callback_def by (intro costs_bind costs_requests costs_finish costs_pure) simp
  then have cb: "costs 14 (complete_callback lib target)" for target by simp
  have step: "costs 1 (complete_auth_step lib step sms_code skip)" for step sms_code skip
    unfolding complete_auth_step_def
    by (auto simp del: One_nat_def intro: costs_requests costs_le [OF costs_pure(1)] split: option.split SmsMode.split)
  show ?thesis
  proof (cases c)
    case (LoginPassword fill micros input device_id)
    have "costs (0 + (0 + 14)) (login_with_password lib fill micros input device_id)"
      unfolding login_with_password_def by (intro costs_bind reset costs_pure costs_runs)
    with LoginPassword show ?thesis by simp
  next
    case (LoginSms fill micros input device_id)
    have "costs (0 + (0 + 13)) (login_with_sms lib fill micros input device_id)"
      unfolding login_with_sms_def by (intro costs_bind reset costs_pure costs_runs)
    with LoginSms show ?thesis by (simp add: costs_le)
  next
    case (SubmitCaptcha captcha)
    then show ?thesis
      by (auto simp: submit_captcha_def intro!: costs_with costs_runs(1) costs_le [OF costs_pure(1), of 14]
          costs_le [OF costs_runs(2), of 14] costs_le [OF costs_runs(3), of 14] split: option.split PendingFlow.split)
  next
    case (SubmitSmsCode sms_code)
    have st: "costs (1 + 10) (bindA (complete_auth_step lib step d b) (\<lambda>n. continue_auth lib n))" for step d b
      by (intro costs_bind step costs_continue)
    have vf: "costs (0 + 13) (bindA (set_pending p) (\<lambda>_. run_sms_verify lib ph dm cd []))" for p ph dm cd
      by (intro costs_bind costs_pure costs_runs)
    show ?thesis unfolding SubmitSmsCode perform.simps submit_sms_code_def
      by (auto intro!: costs_with costs_le [OF st] costs_le [OF vf] costs_le [OF costs_runs(3)] costs_le [OF costs_pure(1)]
          split: option.split PendingFlow.split prod.split)
  next
    case (CompleteCallback target)
    with cb show ?thesis by simp
  next
    case (CompleteCallbackWithDevice fill micros target device_id)
    have "costs (0 + 14) (complete_callback_with_device lib fill micros target device_id)"
      unfolding complete_callback_with_device_def by (intro costs_bind reset cb)
    with CompleteCallbackWithDevice show ?thesis by simp
  qed
qed

text \<open>
  C23. A login call is bounded. Whatever the server answers, each call that moves a login forward
  returns after at most 14 requests, the requests sent before stay as they were, and the loop over the
  authentication chain ends after at most eight turns.
\<close>

theorem login_requests_bounded:
  "\<exists>new. au_sent (snd (perform lib c s)) = au_sent s @ new \<and> length new \<le> 14"
proof -
  have "adheres (\<lambda>s t. \<exists>new. au_sent t = au_sent s @ new) (perform lib c)"
    by (rule history.performing) (simp add: reset_identity_def)
  then obtain new where "au_sent (snd (perform lib c s)) = au_sent s @ new" unfolding adheres_def by blast
  moreover from this costs_perform [of lib c] have "length new \<le> 14" by (simp add: costs_def) (metis add_le_cancel_left length_append)
  ultimately show ?thesis by blast
qed

section \<open>The challenge machine\<close>

text \<open>What the caller may do next, by the challenge returned and the flow the session remembers.\<close>

fun challenge_fits :: "AuthChallenge \<Rightarrow> AuthSession \<Rightarrow> bool" where
  "challenge_fits (NeedCaptcha _) s =
     (case au_pending s of
        Some (PendingPassword _) \<Rightarrow> True
      | Some (PendingSmsLogin _) \<Rightarrow> True
      | Some (PendingSmsVerify _ _ _) \<Rightarrow> True
      | _ \<Rightarrow> False)"
| "challenge_fits (NeedSmsCode auth_id) s =
     (case au_pending s of
        Some (PendingStep step) \<Rightarrow> as_sms_mode step \<noteq> None \<and> as_auth_id step = auth_id
      | _ \<Rightarrow> False)"
| "challenge_fits (NeedCallbackUrl _ _) s = False"
| "challenge_fits (ChallengeDone material) s = (au_pending s = None \<and> material = session_material s)"

definition ends_in :: "('a \<Rightarrow> AuthSession \<Rightarrow> bool) \<Rightarrow> 'a auth \<Rightarrow> bool" where
  "ends_in Q m \<longleftrightarrow> (\<forall>s v s'. m s = (Inr v, s') \<longrightarrow> Q v s')"

lemma ends_in_bind: "(\<And>v. ends_in Q (f v)) \<Longrightarrow> ends_in Q (bindA m f)"
  unfolding ends_in_def bindA_def by (auto split: prod.splits sum.splits)

lemma ends_in_with: "(\<And>s0. ends_in Q (f s0)) \<Longrightarrow> ends_in Q (withA f)"
  by (simp add: ends_in_def withA_def)

lemma ends_in_err: "ends_in Q (liftA (Inl e))"
  by (simp add: ends_in_def liftA_def)

lemma ends_in_if: "(c \<Longrightarrow> ends_in Q a) \<Longrightarrow> (\<not> c \<Longrightarrow> ends_in Q b) \<Longrightarrow> ends_in Q (if c then a else b)"
  by simp

lemma ends_in_pending:
  "(\<And>s. Q v (s\<lparr>au_pending := Some p\<rparr>)) \<Longrightarrow> ends_in Q (bindA (set_pending p) (\<lambda>_. retA v))"
  by (simp add: ends_in_def bindA_def set_pending_def modA_def retA_def)

lemma ends_in_login: "ends_in challenge_fits (complete_login lib)"
proof -
  have frame: "au_pending (snd (online_info lib s)) = au_pending s" for s
  proof -
    have "adheres (\<lambda>s t. au_pending t = au_pending s) (online_info lib)"
      by (rule session_relation.requests, unfold_locales) (auto simp: store_config_def)
    then show ?thesis by (simp add: adheres_def)
  qed
  show ?thesis unfolding ends_in_def
  proof (intro allI impI)
    fix s v s'
    assume "complete_login lib s = (Inr v, s')"
    moreover obtain r s1 where o: "online_info lib (s\<lparr>au_pending := None\<rparr>) = (r, s1)" by fastforce
    moreover have "au_pending s1 = None" using frame [of "s\<lparr>au_pending := None\<rparr>"] o by simp
    ultimately show "challenge_fits v s'"
      by (auto simp: complete_login_def bindA_def modA_def withA_def retA_def sync_sid_from_cookies_def session_material_def
          split: sum.splits option.splits)
  qed
qed

lemma ends_in_sms: "ends_in challenge_fits (begin_sms lib step)" "ends_in challenge_fits (begin_custom_sms lib)"
proof -
  show "ends_in challenge_fits (begin_custom_sms lib)"
    unfolding begin_custom_sms_def by (intro ends_in_bind ends_in_pending) simp
  show "ends_in challenge_fits (begin_sms lib step)"
  proof (cases "as_sms_mode step")
    case None
    then show ?thesis by (simp add: ends_in_def begin_sms_def bindA_def liftA_def ok_or_def)
  next
    case (Some mode)
    then show ?thesis unfolding begin_sms_def
      by (intro ends_in_bind ends_in_pending) simp
  qed
qed

lemma ends_in_continue: "ends_in challenge_fits (continue_auth lib step)"
proof -
  have "ends_in challenge_fits (continue_auth_loop lib n step)" for n
    by (induction n arbitrary: step) (auto simp: ends_in_err ends_in_login ends_in_sms intro!: ends_in_bind)
  then show ?thesis by (simp add: continue_auth_def)
qed

lemma ends_in_finish: "ends_in challenge_fits (finish_login lib update_mod)"
  unfolding finish_login_def by (intro ends_in_bind ends_in_continue)

lemma ends_in_runs:
  "ends_in challenge_fits (run_password lib input c)" "ends_in challenge_fits (run_sms_send lib sms c)"
  "ends_in challenge_fits (run_sms_verify lib phone domain sms_code c)"
  unfolding run_password_def run_sms_send_def run_sms_verify_def need_captcha_def
  by (intro ends_in_bind ends_in_if ends_in_pending ends_in_finish ends_in_continue; simp)+

lemma ends_in_perform: "ends_in challenge_fits (perform lib c)"
proof -
  have cb: "ends_in challenge_fits (complete_callback lib target)" for target
    unfolding complete_callback_def by (intro ends_in_bind ends_in_finish)
  show ?thesis
    by (cases c) (auto simp: login_with_password_def login_with_sms_def submit_captcha_def submit_sms_code_def
        complete_callback_with_device_def ends_in_err
        intro!: ends_in_bind ends_in_with ends_in_runs ends_in_continue cb
        split: option.split PendingFlow.split prod.split)
qed

text \<open>
  C12. The challenge returned fits the flow remembered. When a call that moves a login forward
  succeeds: if it asks for a captcha, the pending flow is one that \<open>submit_captcha\<close> goes on
  with; if it asks for a code, the pending flow is the step whose id it reports, with a known
  mode, so that \<open>submit_sms_code\<close> goes on with it; and if it reports the session, nothing is
  pending and the session reported is the one \<open>session_material\<close> returns. It never asks for a callback URL.
\<close>

theorem challenge_fits_pending:
  assumes "perform lib c s = (Inr challenge, s')"
  shows "challenge_fits challenge s'"
  using ends_in_perform [of lib c] assms by (simp add: ends_in_def)

text \<open>A server that asks for a captcha before it checks a code, for concrete runs.\<close>

definition demo_lib :: auth_lib where
  "demo_lib =
     \<lparr>al_http = (\<lambda>_. Inr \<lparr>rs_status = 200, rs_set_cookie = [], rs_location = None, rs_text = Inr [], rs_bytes = Inr [9]\<rparr>),
      al_parse_url = Inr, al_join = (\<lambda>base path. Inr (base @ path)), al_query_pairs = (\<lambda>_. [(''ticket'', ''T'')]),
      al_config = (\<lambda>_. Inl ''none''), al_code = (\<lambda>_. Inr \<lparr>cr_code = 0, cr_message = []\<rparr>), al_password = (\<lambda>_. Inl ''none''),
      al_step = (\<lambda>_. Inl ''none''), al_check = (\<lambda>_. Inl ''none''),
      al_sms = (\<lambda>_. Inr \<lparr>cr_code = 0, cr_message = [], pr_ticket = ''T'', pr_graph_check_code_enable = 1\<rparr>),
      al_custom = (\<lambda>_. Inl ''none''), al_online = (\<lambda>_. Inr ''alice''), al_value = (\<lambda>_. Inr JNull),
      al_to_string = (\<lambda>_. []), al_base64 = (\<lambda>_. []), al_md5 = (\<lambda>_. ''D41D''), al_hex_decode = (\<lambda>_. Inr [1]),
      al_u32_error = (\<lambda>_. []), al_rsa = (\<lambda>_ _ _ _. Inr [7]), al_millis = (\<lambda>n. n), al_order = rev\<rparr>"

definition demo_config :: AuthConfig where
  "demo_config = (default_auth_config ''linux'')\<lparr>ac_server_host := ''vpn''\<rparr>"

definition demo_session :: AuthSession where
  "demo_session =
     \<lparr>au_config = demo_config, au_base_url = ''https://vpn'', au_base_host = ''vpn'', au_csrf_token = [],
      au_pub_key = [], au_pub_key_exp = [], au_anti_replay_rand = [], au_device_id = [],
      au_sign_key_hex = random_hex (\<lambda>n. replicate n 0) 64, au_connection_id = [], au_env = [], au_ticket = [],
      au_sid = [], au_username = [], au_client_resource_bytes = None, au_cookies = [],
      au_pending = None, au_jar = [], au_sent = [], au_order = rev\<rparr>"

lemma demo_session_new: "auth_new demo_lib (Inr ()) (\<lambda>n. replicate n 0) demo_config = Inr demo_session"
  by (simp add: auth_new_def demo_config_def demo_lib_def demo_session_def default_auth_config_def Let_def)

theorem challenge_fits_pending_witness:
  "let s = demo_session\<lparr>au_pending := Some (PendingSmsVerify ''555'' ''local'' ''1'')\<rparr>;
       r = perform demo_lib (SubmitSmsCode ''123456'') s in
   fst r = Inr (NeedCaptcha [9]) \<and> challenge_fits (NeedCaptcha [9]) (snd r)"
proof -
  let ?s = "demo_session\<lparr>au_pending := Some (PendingSmsVerify ''555'' ''local'' ''1'')\<rparr>"
  let ?r = "perform demo_lib (SubmitSmsCode ''123456'') ?s"
  have f: "fst ?r = Inr (NeedCaptcha [9])"
    by (simp add: submit_sms_code_def withA_def run_sms_verify_def post_sms_verify_def need_captcha_def fetch_captcha_def
        bindA_def ask_def call_def exchange_def capture_cookies_def decode_text_def body_bytes_def liftA_def retA_def
        set_pending_def modA_def demo_lib_def Let_def)
  then have "perform demo_lib (SubmitSmsCode ''123456'') ?s = (Inr (NeedCaptcha [9]), snd ?r)"
    by (metis prod.collapse)
  from challenge_fits_pending [OF this] f show ?thesis by (simp only: Let_def simp_thms)
qed

text \<open>
  C34. A login has one identity. Starting a login with a password, a phone number or a callback sets, whatever the outcome, the
  device id to the one given, the connection id to its digest and the clock of that call, the signing key to the hexadecimal
  digits of 32 random bytes of that call, and the environment header to the encoded object that holds the device id, and leaves
  configuration and server as they are; answering a captcha, a code or a callback changes none of them.
\<close>

theorem login_identity:
  "list_all (\<lambda>c. let t = snd (perform lib c s) in
       au_device_id t = device_id \<and>
       au_connection_id t = al_md5 lib (str_bytes device_id) @ ''-'' @ nat_str micros \<and>
       au_sign_key_hex t = take 64 (concat (map hex2 (fill 32))) \<and>
       au_env t = al_base64 lib (str_bytes (al_to_string lib (JObject [(''deviceId'', JString device_id)]))) \<and>
       au_config t = au_config s \<and> au_base_url t = au_base_url s)
     [LoginPassword fill micros input device_id, LoginSms fill micros sms device_id, CompleteCallbackWithDevice fill micros target device_id] \<and>
   list_all (\<lambda>c. let t = snd (perform lib c s) in
       au_device_id t = au_device_id s \<and> au_connection_id t = au_connection_id s \<and> au_sign_key_hex t = au_sign_key_hex s \<and>
       au_env t = au_env s \<and> au_config t = au_config s \<and> au_base_url t = au_base_url s)
     [SubmitCaptcha captcha, SubmitSmsCode sms_code, CompleteCallback target]"
proof -
  let ?given = "identity_of (reset_identity lib fill micros device_id s)"
  have starts: "identity_of (snd (perform lib (LoginPassword fill micros input device_id) s)) = ?given"
    "identity_of (snd (perform lib (LoginSms fill micros sms device_id) s)) = ?given"
    "identity_of (snd (perform lib (CompleteCallbackWithDevice fill micros target device_id) s)) = ?given"
    using identity.runs identity.callback
    by (simp_all add: adheres_def login_with_password_def login_with_sms_def complete_callback_with_device_def bindA_def modA_def
        set_pending_def) (simp_all add: identity_of_def)
  have answers: "identity_of (snd (perform lib (SubmitCaptcha captcha) s)) = identity_of s"
    "identity_of (snd (perform lib (SubmitSmsCode sms_code) s)) = identity_of s"
    "identity_of (snd (perform lib (CompleteCallback target) s)) = identity_of s"
    using identity.submits identity.callback by (simp_all add: adheres_def)
  have "random_hex fill 64 = take 64 (concat (map hex2 (fill 32)))" by (simp add: random_hex_def)
  with starts answers show ?thesis
    by (simp add: Let_def identity_of_def reset_identity_def build_connection_id_def build_env_def)
qed

text \<open>
  Resources of the previous login survive. Once the resource list has been fetched, it is returned
  without asking the server again after every further call, also after a login as another user and after
  the import of another session, and the cookies of the previous login are still there when a new login
  starts, so that a session id the server does not replace is reported for the new user.
\<close>

theorem login_keeps_old_resources:
  assumes "au_client_resource_bytes s = Some bs" and "hm_get (au_cookies s) ''sid'' = Some cookie"
  shows "client_resource_bytes lib (snd (perform lib c s)) = (Inr bs, snd (perform lib c s)) \<and>
    client_resource_bytes lib (import_session lib fill micros session s) = (Inr bs, import_session lib fill micros session s) \<and>
    au_sid (sync_sid_from_cookies (reset_identity lib fill micros device_id s)) = ck_value cookie"
proof -
  have "adheres (\<lambda>s t. au_client_resource_bytes t = au_client_resource_bytes s) (perform lib c)"
    by (rule resource.performing) (simp add: reset_identity_def)
  then have "au_client_resource_bytes (snd (perform lib c s)) = Some bs" using assms(1) by (simp add: adheres_def)
  moreover have "au_client_resource_bytes (fold (keep_cookie lib) cs t) = au_client_resource_bytes t" for cs t
    by (induction cs arbitrary: t) simp_all
  then have "au_client_resource_bytes (import_session lib fill micros session s) = Some bs"
    using assms(1) by (simp add: import_session_def Let_def)
  moreover have "au_sid (sync_sid_from_cookies (reset_identity lib fill micros device_id s)) = ck_value cookie"
    using assms(2) by (simp add: sync_sid_from_cookies_def reset_identity_def)
  ultimately show ?thesis by (simp add: client_resource_bytes_def withA_def retA_def)
qed

definition demo_cookie :: CookieRecord where
  "demo_cookie = \<lparr>ck_host = ''vpn'', ck_scheme = ''https'', ck_name = ''sid'', ck_value = ''old''\<rparr>"

definition demo_used :: AuthSession where
  "demo_used = demo_session\<lparr>au_client_resource_bytes := Some [1], au_cookies := [(''sid'', demo_cookie)]\<rparr>"

theorem login_keeps_old_resources_witness:
  "let c = LoginPassword (\<lambda>n. replicate n 1) 42 \<lparr>pl_username = ''bob'', pl_password = ''pw'', pl_login_domain = ''local''\<rparr> ''dev'';
       fill = (\<lambda>n. []); m = session_material demo_session in
   client_resource_bytes demo_lib (snd (perform demo_lib c demo_used)) = (Inr [1], snd (perform demo_lib c demo_used)) \<and>
   client_resource_bytes demo_lib (import_session demo_lib fill 0 m demo_used) = (Inr [1], import_session demo_lib fill 0 m demo_used) \<and>
   au_sid (sync_sid_from_cookies (reset_identity demo_lib fill 0 ''dev'' demo_used)) = ck_value demo_cookie"
  unfolding Let_def by (rule login_keeps_old_resources) (simp_all add: demo_used_def hm_get_def)

section \<open>Stored sessions\<close>

lemma fold_keep_cookie:
  assumes "cookies_wf (au_cookies s @ map (\<lambda>c. (ck_name c, c)) cs)"
  shows "au_cookies (fold (keep_cookie lib) cs s) = au_cookies s @ map (\<lambda>c. (ck_name c, c)) cs"
  using assms
proof (induction cs arbitrary: s)
  case Nil
  then show ?case by simp
next
  case (Cons c cs)
  have upd: "k \<notin> fst ` set m \<Longrightarrow> AList.update k v m = m @ [(k, v)]" for k v and m :: "(string \<times> CookieRecord) list"
    by (induction m) auto
  from Cons.prems have "ck_name c \<notin> fst ` set (au_cookies s)" by (auto simp: cookies_wf_def hm_wf_def)
  with upd have k: "hm_insert (ck_name c) c (au_cookies s) = au_cookies s @ [(ck_name c, c)]" by (simp add: hm_insert_def)
  from Cons.IH [of "keep_cookie lib c s"] Cons.prems show ?case by (simp add: k)
qed

lemma keep_cookies_frame:
  "au_username (fold (keep_cookie lib) cs s) = au_username s" "au_sid (fold (keep_cookie lib) cs s) = au_sid s"
  "au_order (fold (keep_cookie lib) cs s) = au_order s"
  "identity_of (fold (keep_cookie lib) cs s) = identity_of s"
  by (induction cs arbitrary: s) simp_all

lemma cookies_of_wf: "cookies_wf m \<Longrightarrow> map (\<lambda>c. (ck_name c, c)) (hm_values m) = m"
  by (induction m) (auto simp: cookies_wf_def hm_wf_def hm_values_def)

lemma performs_cookies:
  assumes "cookies_wf (au_cookies s)"
  shows "cookies_wf (au_cookies (fold (\<lambda>c s. snd (perform lib c s)) cs s)) \<and>
    au_order (fold (\<lambda>c s. snd (perform lib c s)) cs s) = au_order s"
  using assms
proof (induction cs arbitrary: s)
  case (Cons c cs)
  have "adheres (\<lambda>s t. au_order t = au_order s \<and> (cookies_wf (au_cookies s) \<longrightarrow> cookies_wf (au_cookies t))) (perform lib c)"
    by (rule cookies.performing) (simp add: reset_identity_def)
  then have "au_order (snd (perform lib c s)) = au_order s" "cookies_wf (au_cookies (snd (perform lib c s)))"
    using Cons.prems by (simp_all add: adheres_def)
  with Cons.IH [of "snd (perform lib c s)"] show ?case by simp
qed simp

text \<open>Whatever the order of iteration, importing the collected cookies keeps them all: their names are distinct.\<close>

lemma collected_cookies_wf:
  assumes "cookies_wf (au_cookies s)" "mset (au_order s (hm_values (au_cookies s))) = mset (hm_values (au_cookies s))"
  shows "cookies_wf (map (\<lambda>c. (ck_name c, c)) (collect_cookies s))"
proof -
  have "mset (map ck_name (collect_cookies s)) = mset (map ck_name (hm_values (au_cookies s)))"
    using assms(2) by (simp add: collect_cookies_def)
  moreover have "distinct (map ck_name (hm_values (au_cookies s)))"
    using arg_cong [OF cookies_of_wf [OF assms(1)], of "map fst"] assms(1) by (simp add: comp_def cookies_wf_def hm_wf_def)
  ultimately have "distinct (map ck_name (collect_cookies s))" by (rule mset_eq_imp_distinct_iff [THEN iffD2])
  then show ?thesis by (auto simp: cookies_wf_def hm_wf_def comp_def)
qed

text \<open>
  C24. A stored session is restored. The session of any sequence of login calls on a new
  object, exported and imported into another object, is exported again with the same user
  name, session id, device id and cookies, each as often as before and in no particular order, since both objects iterate
  their hash maps in an order of their own; only the connection id and the signing
  key are new, and they are the ones of the import.
\<close>

theorem session_roundtrip:
  assumes "auth_new lib built fill config = Inr s0" and "s = fold (\<lambda>c s. snd (perform lib c s)) cs s0"
    and "\<And>cookies. mset (al_order lib cookies) = mset cookies" and "\<And>cookies. mset (au_order other cookies) = mset cookies"
  shows "let m = session_material s; m' = session_material (import_session lib fill' micros m other) in
    sm_username m' = sm_username m \<and> sm_sid m' = sm_sid m \<and> sm_device_id m' = sm_device_id m \<and>
    mset (sm_cookies m') = mset (sm_cookies m) \<and>
    sm_connection_id m' = build_connection_id lib micros (sm_device_id m) \<and> sm_sign_key_hex m' = random_hex fill' 64"
proof -
  have new: "cookies_wf (au_cookies s0)" "au_order s0 = al_order lib"
    using assms(1) by (auto simp: auth_new_def Let_def cookies_wf_def hm_wf_def split: if_splits sum.splits)
  have s: "cookies_wf (au_cookies s)" "au_order s = al_order lib"
    unfolding assms(2) using performs_cookies [OF new(1)] new(2) by simp_all
  let ?s1 = "other\<lparr>au_device_id := au_device_id s, au_connection_id := build_connection_id lib micros (au_device_id s),
     au_sign_key_hex := random_hex fill' 64, au_username := au_username s, au_ticket := [], au_sid := au_sid s, au_cookies := []\<rparr>"
  let ?s2 = "fold (keep_cookie lib) (collect_cookies s) ?s1"
  have "cookies_wf (map (\<lambda>c. (ck_name c, c)) (collect_cookies s))"
    by (rule collected_cookies_wf [OF s(1)]) (simp add: s(2) assms(3))
  then have "au_cookies ?s2 = map (\<lambda>c. (ck_name c, c)) (collect_cookies s)"
    using fold_keep_cookie [of ?s1 "collect_cookies s" lib] by simp
  then have "mset (collect_cookies ?s2) = mset (collect_cookies s)"
    by (simp add: collect_cookies_def [of ?s2] keep_cookies_frame assms(4) hm_values_def comp_def)
  moreover have "au_username ?s2 = au_username s" "au_sid ?s2 = au_sid s" "identity_of ?s2 = identity_of ?s1"
    by (simp_all add: keep_cookies_frame)
  ultimately show ?thesis
    by (simp add: import_session_def session_material_def Let_def identity_of_def collect_cookies_def)
qed

theorem session_roundtrip_witness:
  "let s = fold (\<lambda>c s. snd (perform demo_lib c s)) [SubmitCaptcha ''x'', SubmitSmsCode ''1''] demo_session;
       m = session_material s;
       m' = session_material (import_session demo_lib (\<lambda>n. replicate n 2) 7 m (demo_session\<lparr>au_order := id\<rparr>)) in
   sm_username m' = sm_username m \<and> mset (sm_cookies m') = mset (sm_cookies m)"
proof -
  have "mset (al_order demo_lib cookies) = mset cookies" "mset (au_order (demo_session\<lparr>au_order := id\<rparr>) cookies) = mset cookies" for cookies
    by (simp_all add: demo_lib_def)
  from session_roundtrip [OF demo_session_new refl this, where fill' = "\<lambda>n. replicate n 2" and micros = 7]
  show ?thesis unfolding Let_def by blast
qed

section \<open>Resource responses\<close>

text \<open>
  Which answers to the resource request are accepted. A response is accepted exactly when its status is a
  success and its body is not JSON, has a \<open>data\<close> member, carries the code zero, or carries no code
  and does not say \<open>success: false\<close>; a status of 401 or 403 and a refusal in the body count as unauthorized, any
  other status as a network failure.
\<close>

theorem client_resource_response_accepted:
  "(validate_client_resource_response lib status body = Inr () \<longleftrightarrow>
     status div 100 = 2 \<and>
     (case al_value lib body of
        Inl _ \<Rightarrow> True
      | Inr v \<Rightarrow> json_get ''data'' v \<noteq> None \<or>
          (case json_i64 v [''code'', ''Code'', ''errCode'', ''errorCode''] of
             Some n \<Rightarrow> n = 0
           | None \<Rightarrow> json_get ''success'' v \<noteq> Some (JBool False)))) \<and>
   (\<exists>m. validate_client_resource_response lib status body =
      (if is_ok (validate_client_resource_response lib status body) then Inr ()
       else if status div 100 = 2 \<or> status = 401 \<or> status = 403 then Inl (Unauthorized m) else Inl (NetworkFailed m)))"
proof -
  have b: "(case json_get ''success'' v of None \<Rightarrow> None | Some v \<Rightarrow> as_bool v) = Some False \<longleftrightarrow>
      json_get ''success'' v = Some (JBool False)" for v
    by (auto split: option.split elim: as_bool.elims)
  have d: "(200 \<le> status \<and> status < 300) = (status div 100 = 2)" by auto
  have "validate_client_resource_response lib status body = Inr () \<longleftrightarrow>
     status div 100 = 2 \<and>
     (case al_value lib body of
        Inl _ \<Rightarrow> True
      | Inr v \<Rightarrow> json_get ''data'' v \<noteq> None \<or>
          (case json_i64 v [''code'', ''Code'', ''errCode'', ''errorCode''] of
             Some n \<Rightarrow> n = 0
           | None \<Rightarrow> json_get ''success'' v \<noteq> Some (JBool False)))"
    by (auto simp: validate_client_resource_response_def Let_def b d split: sum.split option.split)
  moreover have "\<exists>m. validate_client_resource_response lib status body =
      (if is_ok (validate_client_resource_response lib status body) then Inr ()
       else if status div 100 = 2 \<or> status = 401 \<or> status = 403 then Inl (Unauthorized m) else Inl (NetworkFailed m))"
    unfolding validate_client_resource_response_def Let_def b d
    by (auto simp: is_ok_def split: sum.splits option.splits)
  ultimately show ?thesis by (rule conjI)
qed

end
