(* ===== verification/Log.thy ===== *)
theory Log
  imports Rust_Str
begin

text \<open>
  The diagnostic log (log.rs): the process-wide switch, the directory override, the open sink,
  appending with rotation, and the timestamp. The file system is a map from paths to contents.
  The outcomes of the system calls of one \<open>append_line\<close> are a record, so every failure the
  code tolerates is a value. Sizes are natural numbers: files stay far below \<open>2^64\<close> bytes.
\<close>

section \<open>Files\<close>

type_synonym files = "string \<Rightarrow> string option"

record log_io =
  io_open1 :: bool
  io_meta1 :: bool
  io_rename :: bool
  io_open2 :: bool
  io_meta2 :: bool
  io_write :: "nat option"

text \<open>\<open>io_write\<close> is \<open>None\<close> when the write succeeds, \<open>Some k\<close> when it fails after \<open>k\<close> bytes.\<close>

record Sink =
  sk_path :: string
  sk_size :: nat

definition content :: "files \<Rightarrow> string \<Rightarrow> string" where
  "content fs path = (case fs path of None \<Rightarrow> [] | Some s \<Rightarrow> s)"

definition open_sink :: "bool \<Rightarrow> bool \<Rightarrow> string \<Rightarrow> files \<Rightarrow> Sink option \<times> files" where
  "open_sink opens meta path fs =
     (if \<not> opens then (None, fs)
      else (Some \<lparr>sk_path = path, sk_size = (if meta then length (content fs path) else 0)\<rparr>,
            fs(path \<mapsto> content fs path)))"

definition rename :: "bool \<Rightarrow> string \<Rightarrow> string \<Rightarrow> files \<Rightarrow> files" where
  "rename ok source dest fs =
     (if \<not> ok then fs
      else case fs source of None \<Rightarrow> fs | Some s \<Rightarrow> (fs(dest \<mapsto> s))(source := None))"

definition write_sink :: "nat option \<Rightarrow> string \<Rightarrow> Sink option \<Rightarrow> files \<Rightarrow> Sink option \<times> files" where
  "write_sink result line slot fs =
     (case slot of
        None \<Rightarrow> (None, fs)
      | Some sink \<Rightarrow>
          (case result of
             None \<Rightarrow> (Some (sink\<lparr>sk_size := sk_size sink + length line\<rparr>),
                      fs(sk_path sink \<mapsto> content fs (sk_path sink) @ line))
           | Some k \<Rightarrow> (Some sink, fs(sk_path sink \<mapsto> content fs (sk_path sink) @ take k line))))"

definition append_line ::
  "log_io \<Rightarrow> string \<Rightarrow> string \<Rightarrow> nat \<Rightarrow> Sink option \<Rightarrow> files \<Rightarrow> Sink option \<times> files" where
  "append_line io path line max_bytes slot0 fs0 =
     (case (if slot0 = None then open_sink (io_open1 io) (io_meta1 io) path fs0 else (slot0, fs0)) of
        (None, fs1) \<Rightarrow> (None, fs1)
      | (Some sink, fs1) \<Rightarrow>
          if 0 < sk_size sink \<and> max_bytes < sk_size sink + length line then
            (case open_sink (io_open2 io) (io_meta2 io) path (rename (io_rename io) path (path @ ''.1'') fs1) of
               (slot2, fs2) \<Rightarrow> write_sink (io_write io) line slot2 fs2)
          else write_sink (io_write io) line (Some sink) fs1)"

section \<open>The process-wide log\<close>

definition MAX_LOG_BYTES :: nat where
  "MAX_LOG_BYTES = 5 * 1024 * 1024"

record LogState =
  enabled :: bool
  sink :: "Sink option"
  directory_override :: "string option"

definition set_verbose_logging :: "bool \<Rightarrow> LogState \<Rightarrow> LogState" where
  "set_verbose_logging on st = (if on then st\<lparr>enabled := True\<rparr> else st\<lparr>enabled := False, sink := None\<rparr>)"

definition set_log_directory :: "string \<Rightarrow> LogState \<Rightarrow> LogState" where
  "set_log_directory directory st = st\<lparr>directory_override := Some directory, sink := None\<rparr>"

text \<open>\<open>Path::join\<close> of a relative component.\<close>

definition path_join :: "string \<Rightarrow> string \<Rightarrow> string" where
  "path_join base name = (if base = [] \<or> ends_with ''/'' base then base @ name else base @ ''/'' @ name)"

text \<open>\<open>log_file_path\<close> of the non-Windows build; \<open>home\<close> is the environment variable.\<close>

definition log_file_path :: "string option \<Rightarrow> LogState \<Rightarrow> string" where
  "log_file_path home st =
     (case directory_override st of
        Some directory \<Rightarrow> path_join directory ''NulConnect.log''
      | None \<Rightarrow>
          (case home of
             Some h \<Rightarrow>
               if h \<noteq> ''/var/root'' then path_join h ''Library/Application Support/NulConnect/NulConnect.log''
               else ''/Library/Application Support/NulConnect/nulconnect-helper.log''
           | None \<Rightarrow> ''/Library/Application Support/NulConnect/nulconnect-helper.log''))"

section \<open>Timestamps\<close>

text \<open>The civil date (year, month, day) of a day number counted from 1970-01-01.\<close>

definition civil_from_days :: "int \<Rightarrow> int \<times> int \<times> int" where
  "civil_from_days days =
     (let z = days + 719468;
          era = z div 146097;
          doe = z mod 146097;
          yoe = (doe - doe div 1460 + doe div 36524 - doe div 146096) div 365;
          doy = doe - (365 * yoe + yoe div 4 - yoe div 100);
          mp = (5 * doy + 2) div 153;
          day = doy - (153 * mp + 2) div 5 + 1;
          month = (if mp < 10 then mp + 3 else mp - 9);
          year = yoe + era * 400 + (if month \<le> 2 then 1 else 0)
      in (year, month, day))"

definition int_pad :: "nat \<Rightarrow> int \<Rightarrow> string" where
  "int_pad w i = (if i < 0 then CHR ''-'' # nat_str_pad (w - 1) (nat (- i)) else nat_str_pad w (nat i))"

definition timestamp :: "u64 \<Rightarrow> nat \<Rightarrow> string" where
  "timestamp as_secs subsec_millis =
     (let secs = sint as_secs;
          days = secs div 86400;
          rem = secs mod 86400
      in case civil_from_days days of
           (year, month, day) \<Rightarrow>
             int_pad 4 year @ ''-'' @ int_pad 2 month @ ''-'' @ int_pad 2 day @ ''T'' @
             int_pad 2 (rem div 3600) @ '':'' @ int_pad 2 (rem mod 3600 div 60) @ '':'' @
             int_pad 2 (rem mod 60) @ ''.'' @ nat_str_pad 3 subsec_millis @ ''Z'')"

text \<open>\<open>log_write\<close>; \<open>now\<close> is the clock and the line is also written to standard error.\<close>

definition log_line :: "u64 \<times> nat \<Rightarrow> string \<Rightarrow> string" where
  "log_line now message = ''['' @ timestamp (fst now) (snd now) @ ''] '' @ message @ [CHR 0x0A]"

definition log_write ::
  "log_io \<Rightarrow> string option \<Rightarrow> u64 \<times> nat \<Rightarrow> string \<Rightarrow> LogState \<times> files \<Rightarrow> LogState \<times> files" where
  "log_write io home now message = (\<lambda>(st, fs).
     if \<not> enabled st then (st, fs)
     else case append_line io (log_file_path home st) (log_line now message) MAX_LOG_BYTES (sink st) fs of
       (slot, fs') \<Rightarrow> (st\<lparr>sink := slot\<rparr>, fs'))"

section \<open>Rotation\<close>

text \<open>The invariant of one log file: the sink, when open, knows the size of the file at \<open>path\<close>.\<close>

definition log_inv :: "nat \<Rightarrow> string \<Rightarrow> Sink option \<Rightarrow> files \<Rightarrow> bool" where
  "log_inv max_bytes path slot fs \<longleftrightarrow>
     length (content fs path) \<le> max_bytes \<and> length (content fs (path @ ''.1'')) \<le> max_bytes \<and>
     (case slot of None \<Rightarrow> True | Some s \<Rightarrow> sk_path s = path \<and> sk_size s = length (content fs path))"

definition io_good :: "log_io \<Rightarrow> bool" where
  "io_good io \<longleftrightarrow> io_meta1 io \<and> io_rename io \<and> io_meta2 io \<and> io_write io = None"

lemma content_upd [simp]: "content (fs(p \<mapsto> s)) q = (if q = p then s else content fs q)"
  by (simp add: content_def)

lemma content_del [simp]: "content (fs(p := None)) q = (if q = p then [] else content fs q)"
  by (simp add: content_def)

lemma content_None: "fs p = None \<Longrightarrow> content fs p = []"
  by (simp add: content_def)

lemma content_rename:
  "content (rename True path dest fs) q =
     (if fs path = None then content fs q else if q = path then [] else if q = dest then content fs path else content fs q)"
  by (auto simp: rename_def content_def split: option.splits)

lemmas append_line_defs = append_line_def open_sink_def write_sink_def log_inv_def io_good_def content_rename content_None

definition log_text :: "string \<Rightarrow> files \<Rightarrow> string" where
  "log_text path fs = content fs (path @ ''.1'') @ content fs path"

lemma append_line_inv:
  assumes "log_inv max_bytes path slot fs" "io_good io" "length line \<le> max_bytes"
    and "append_line io path line max_bytes slot fs = (slot', fs')"
  shows "log_inv max_bytes path slot' fs'"
  using assms by (auto simp: append_line_defs split: if_splits option.splits prod.splits)

lemma append_line_text:
  assumes "log_inv max_bytes path slot fs" "io_good io" "io_open1 io" "io_open2 io"
    and "append_line io path line max_bytes slot fs = (slot', fs')"
  shows "\<exists>old. log_text path fs @ line = old @ log_text path fs' \<and> (old = [] \<or> max_bytes < length (log_text path fs'))"
proof -
  have "log_text path fs' = log_text path fs @ line \<or>
      log_text path fs' = content fs path @ line \<and> max_bytes < length (log_text path fs')"
    using assms by (auto simp: append_line_defs log_text_def split: if_splits option.splits prod.splits)
  then show ?thesis by (auto simp: log_text_def)
qed

text \<open>A run of the process that logs messages, one system-call record and clock reading each.\<close>

fun log_session :: "string option \<Rightarrow> (log_io \<times> (u64 \<times> nat) \<times> string) list \<Rightarrow> LogState \<times> files \<Rightarrow> LogState \<times> files" where
  "log_session home [] s = s"
| "log_session home ((io, now, message) # es) s = log_session home es (log_write io home now message s)"

definition good_entry :: "log_io \<times> (u64 \<times> nat) \<times> string \<Rightarrow> bool" where
  "good_entry = (\<lambda>(io, now, message). io_good io \<and> io_open1 io \<and> io_open2 io \<and> length (log_line now message) \<le> MAX_LOG_BYTES)"

definition session_text :: "(log_io \<times> (u64 \<times> nat) \<times> string) list \<Rightarrow> string" where
  "session_text es = concat (map (\<lambda>(io, now, message). log_line now message) es)"

lemma log_write_step:
  assumes "enabled st" "log_inv MAX_LOG_BYTES (log_file_path home st) (sink st) fs" "good_entry (io, now, message)"
    and "log_write io home now message (st, fs) = (st', fs')"
  shows "enabled st' \<and> log_file_path home st' = log_file_path home st \<and>
         log_inv MAX_LOG_BYTES (log_file_path home st') (sink st') fs' \<and>
         (\<exists>old. log_text (log_file_path home st) fs @ log_line now message = old @ log_text (log_file_path home st) fs' \<and>
            (old = [] \<or> MAX_LOG_BYTES < length (log_text (log_file_path home st) fs')))"
proof -
  obtain slot where a: "append_line io (log_file_path home st) (log_line now message) MAX_LOG_BYTES (sink st) fs = (slot, fs')"
    and st': "st' = st\<lparr>sink := slot\<rparr>"
    using assms(1,4) by (auto simp: log_write_def split: prod.splits)
  have p: "log_file_path home st' = log_file_path home st" by (simp add: st' log_file_path_def)
  show ?thesis
    using append_line_inv [OF assms(2) _ _ a] append_line_text [OF assms(2) _ _ _ a] assms(1,3) p
    by (simp add: good_entry_def st')
qed

lemma log_session_kept:
  assumes "enabled st" "log_inv MAX_LOG_BYTES (log_file_path home st) (sink st) fs" "list_all good_entry es"
    and "log_session home es (st, fs) = (st', fs')" "path = log_file_path home st"
  shows "log_inv MAX_LOG_BYTES path (sink st') fs' \<and>
         (\<exists>old. log_text path fs @ session_text es = old @ log_text path fs' \<and>
            (old = [] \<or> MAX_LOG_BYTES < length (log_text path fs')))"
  using assms
proof (induction es arbitrary: st fs)
  case Nil
  then show ?case by (simp add: session_text_def)
next
  case (Cons e es)
  obtain io now message where e: "e = (io, now, message)" by (cases e)
  obtain st1 fs1 where w: "log_write io home now message (st, fs) = (st1, fs1)" by fastforce
  from Cons.prems e have "good_entry (io, now, message)" by simp
  from log_write_step [OF Cons.prems(1,2) this w] obtain old1 where
    1: "enabled st1" "log_file_path home st1 = path" "log_inv MAX_LOG_BYTES (log_file_path home st1) (sink st1) fs1"
      "log_text path fs @ log_line now message = old1 @ log_text path fs1"
      "old1 = [] \<or> MAX_LOG_BYTES < length (log_text path fs1)" using Cons.prems(5) by auto
  from Cons.IH [OF 1(1,3) _ _ 1(2) [symmetric]] Cons.prems(3,4) e w obtain old where
    2: "log_inv MAX_LOG_BYTES path (sink st') fs'" "log_text path fs1 @ session_text es = old @ log_text path fs'"
      "old = [] \<or> MAX_LOG_BYTES < length (log_text path fs')" by auto
  have "log_text path fs @ session_text (e # es) = (old1 @ old) @ log_text path fs'"
    using 1(4) 2(2) e by (simp add: session_text_def) (metis append_assoc)
  moreover have "old1 @ old = [] \<or> MAX_LOG_BYTES < length (log_text path fs')"
    using 1(5) 2(2,3) by (metis append_Nil append_Nil2 le_add1 length_append order_less_le_trans)
  ultimately show ?case using 2(1) by blast
qed

text \<open>
  C38. Logging cannot fill the disk and keeps the most recent lines. When the system calls
  succeed and no line is longer than the limit, the log file and its backup both stay within
  the limit after any number of messages; together they are the end of everything logged, and
  text is dropped from the front only when they hold more than the limit.
\<close>

theorem log_bounded_and_recent:
  assumes "enabled st" "log_inv MAX_LOG_BYTES (log_file_path home st) (sink st) fs" "list_all good_entry es"
    and "log_session home es (st, fs) = (st', fs')"
  shows "length (content fs' (log_file_path home st)) \<le> MAX_LOG_BYTES \<and>
         length (content fs' (log_file_path home st @ ''.1'')) \<le> MAX_LOG_BYTES \<and>
         (\<exists>old. log_text (log_file_path home st) fs @ session_text es = old @ log_text (log_file_path home st) fs' \<and>
            (old = [] \<or> MAX_LOG_BYTES < length (log_text (log_file_path home st) fs')))"
  using log_session_kept [OF assms refl] by (auto simp: log_inv_def)

definition demo_log_io :: log_io where
  "demo_log_io = \<lparr>io_open1 = True, io_meta1 = True, io_rename = True, io_open2 = True, io_meta2 = True, io_write = None\<rparr>"

theorem log_bounded_and_recent_witness:
  "\<exists>st' fs'. log_session None [(demo_log_io, (1752969600, 7), ''hello'')]
      (\<lparr>enabled = True, sink = None, directory_override = Some ''/tmp''\<rparr>, \<lambda>_. None) = (st', fs') \<and>
    length (content fs' ''/tmp/NulConnect.log'') \<le> MAX_LOG_BYTES \<and>
    content fs' ''/tmp/NulConnect.log'' = ''[2025-07-20T00:00:00.007Z] hello'' @ [CHR 0x0A]"
proof -
  let ?st = "\<lparr>enabled = True, sink = None, directory_override = Some ''/tmp''\<rparr>"
  let ?es = "[(demo_log_io, (1752969600, 7), ''hello'')] :: (log_io \<times> (u64 \<times> nat) \<times> string) list"
  have path: "log_file_path None ?st = ''/tmp/NulConnect.log''" by code_simp
  have good: "list_all good_entry ?es"
    by (simp add: good_entry_def, intro conjI) code_simp+
  have inv: "log_inv MAX_LOG_BYTES (log_file_path None ?st) (sink ?st) (\<lambda>_. None)"
    by (simp add: log_inv_def content_def)
  obtain st' fs' where run: "log_session None ?es (?st, \<lambda>_. None) = (st', fs')" by fastforce
  have "content (snd (log_session None ?es (?st, \<lambda>_. None))) ''/tmp/NulConnect.log'' =
      ''[2025-07-20T00:00:00.007Z] hello'' @ [CHR 0x0A]" by code_simp
  with run log_bounded_and_recent [OF _ inv good run] path show ?thesis by auto
qed

section \<open>The calendar\<close>

text \<open>The Gregorian calendar by its day-by-day rule, independent of the closed formula.\<close>

definition leap_year :: "int \<Rightarrow> bool" where
  "leap_year y \<longleftrightarrow> y mod 4 = 0 \<and> (y mod 100 \<noteq> 0 \<or> y mod 400 = 0)"

definition month_days :: "int \<Rightarrow> int \<Rightarrow> int" where
  "month_days y m =
     (if m = 2 then (if leap_year y then 29 else 28) else if m \<in> {4, 6, 9, 11} then 30 else 31)"

definition next_day :: "int \<times> int \<times> int \<Rightarrow> int \<times> int \<times> int" where
  "next_day = (\<lambda>(y, m, d).
     if d < month_days y m then (y, m, d + 1) else if m < 12 then (y, m + 1, 1) else (y + 1, 1, 1))"

text \<open>
  The formula counts years of an era from March: \<open>year_start y\<close> is the first day of year
  \<open>y\<close>, whose February belongs to the civil year \<open>y + 1\<close>; \<open>month_start k\<close> is the first day
  of its \<open>k\<close>-th month.
\<close>

definition year_start :: "int \<Rightarrow> int" where
  "year_start y = 365 * y + y div 4 - y div 100"

definition year_len :: "int \<Rightarrow> int" where
  "year_len y = (if leap_year (y + 1) then 366 else 365)"

definition era_days :: "int \<Rightarrow> int" where
  "era_days doe = doe - doe div 1460 + doe div 36524 - doe div 146096"

definition month_start :: "int \<Rightarrow> int" where
  "month_start k = (153 * k + 2) div 5"

definition month_day :: "int \<Rightarrow> int \<times> int" where
  "month_day doy =
     (let mp = (5 * doy + 2) div 153 in (if mp < 10 then mp + 3 else mp - 9, doy - month_start mp + 1))"

lemma year_coordinates:
  assumes "0 \<le> y" "y < 400"
  obtains c q s where "y = 100 * c + 4 * q + s" "0 \<le> c" "c \<le> 3" "0 \<le> q" "q \<le> 24" "0 \<le> s" "s \<le> 3"
    "year_start y = 36524 * c + 1461 * q + 365 * s" "year_len y = (if s = 3 \<and> (q = 24 \<longrightarrow> c = 3) then 366 else 365)"
proof -
  define c q s where "c = y div 100" and "q = y mod 100 div 4" and "s = y mod 100 mod 4"
  have b: "0 \<le> c" "c \<le> 3" "0 \<le> q" "q \<le> 24" "0 \<le> s" "s \<le> 3"
    using assms by (auto simp: c_def q_def s_def)
  have y: "y = 100 * c + 4 * q + s" by (simp add: c_def q_def s_def)
  have "y div 4 = 25 * c + q" "y div 100 = c"
    using b y by (auto intro: int_div_pos_eq [where r = s] int_div_pos_eq [where r = "4 * q + s"])
  then have start: "year_start y = 36524 * c + 1461 * q + 365 * s" by (simp add: year_start_def y)
  have m4: "(y + 1) mod 4 = (if s = 3 then 0 else s + 1)"
    using b y by (auto intro: int_mod_pos_eq [where q = "25 * c + q"] int_mod_pos_eq [where q = "25 * c + q + 1"])
  have m100: "(y + 1) mod 100 = (if s = 3 \<and> q = 24 then 0 else 4 * q + s + 1)"
    using b y by (auto intro: int_mod_pos_eq [where q = c] int_mod_pos_eq [where q = "c + 1"])
  have m400: "(y + 1) mod 400 = (if s = 3 \<and> q = 24 \<and> c = 3 then 0 else y + 1)"
    using b y by auto
  have "year_len y = (if s = 3 \<and> (q = 24 \<longrightarrow> c = 3) then 366 else 365)"
    unfolding year_len_def leap_year_def m4 m100 m400 using b y by auto
  with that b y start show ?thesis by blast
qed

lemma year_unique:
  assumes "0 \<le> y" "y < 400" "0 \<le> doy" "doy < year_len y"
  shows "era_days (year_start y + doy) div 365 = y" "0 \<le> year_start y" "year_start y + doy < 146097"
proof -
  obtain c q s where y: "y = 100 * c + 4 * q + s" and b: "0 \<le> c" "c \<le> 3" "0 \<le> q" "q \<le> 24" "0 \<le> s" "s \<le> 3"
    and st: "year_start y = 36524 * c + 1461 * q + 365 * s"
    and ln: "year_len y = (if s = 3 \<and> (q = 24 \<longrightarrow> c = 3) then 366 else 365)"
    using year_coordinates [OF assms(1,2)] by metis
  let ?d = "year_start y + doy"
  show "0 \<le> year_start y" "?d < 146097"
    using b assms ln by (auto simp: st split: if_splits)
  show "era_days ?d div 365 = y"
  proof (cases "?d = 146096")
    case True
    then have "era_days ?d div 365 = 399" by (simp add: era_days_def)
    moreover have "y = 399"
      using True [unfolded st] b assms(3) assms(4) [unfolded ln] unfolding y by (auto split: if_splits)
    ultimately show ?thesis by simp
  next
    case False
    have hi: "?d < 36524 * (c + 1)" using False b assms ln by (auto simp: st split: if_splits)
    have "?d div 36524 = c"
      using hi b assms by (intro int_div_pos_eq [where r = "1461 * q + 365 * s + doy"]) (auto simp: st)
    moreover have "?d div 146096 = 0" using hi b assms by (auto simp: st)
    moreover obtain e where e: "?d div 1460 = 25 * c + q + e" "0 \<le> doy - e" "doy - e < 365"
    proof (cases "1460 \<le> 24 * c + q + 365 * s + doy")
      case True
      have "?d div 1460 = 25 * c + q + 1"
        using True b assms ln
        by (intro int_div_pos_eq [where r = "24 * c + q + 365 * s + doy - 1460"]) (auto simp: st split: if_splits)
      with True b assms ln show ?thesis by (intro that [of 1]) (auto split: if_splits)
    next
      case False
      have "?d div 1460 = 25 * c + q"
        using False b assms by (intro int_div_pos_eq [where r = "24 * c + q + 365 * s + doy"]) (auto simp: st)
      with False b assms ln show ?thesis by (intro that [of 0]) (auto split: if_splits)
    qed
    ultimately show ?thesis
      unfolding era_days_def
      by (intro int_div_pos_eq [where r = "doy - e"]) (simp_all add: st, simp add: y)
  qed
qed

lemma div_next: "0 < k \<Longrightarrow> (y + 1) div k = y div k + (if (y + 1) mod k = 0 then 1 else 0)" for y k :: int
proof -
  assume k: "0 < k"
  have y: "y = k * (y div k) + y mod k" and r: "0 \<le> y mod k" "y mod k < k" using k by simp_all
  show ?thesis
  proof (cases "y mod k + 1 = k")
    case True
    have "y + 1 = k * (y div k) + k" using y True by linarith
    then have e: "y + 1 = k * (y div k + 1)" by (simp add: distrib_left)
    then have "(y + 1) div k = y div k + 1" "(y + 1) mod k = 0" using k by (simp_all only: e) simp_all
    then show ?thesis by simp
  next
    case False
    with r have r': "0 \<le> y mod k + 1" "y mod k + 1 < k" by simp_all
    from y have e: "y + 1 = k * (y div k) + (y mod k + 1)" by simp
    from int_div_pos_eq [OF e r'] int_mod_pos_eq [OF e r'] r show ?thesis by simp
  qed
qed

lemma year_next:
  assumes "0 \<le> y" "y < 400"
  shows "year_start y + year_len y = (if y = 399 then 146097 else year_start (y + 1))"
proof (cases "y = 399")
  case True
  then show ?thesis by (simp add: year_start_def year_len_def leap_year_def)
next
  case False
  let ?A = "(y + 1) mod 4 = 0" and ?B = "(y + 1) mod 100 = 0"
  from False assms have "(y + 1) mod 400 \<noteq> 0" by simp
  then have leap: "leap_year (y + 1) \<longleftrightarrow> ?A \<and> \<not> ?B" unfolding leap_year_def by metis
  have "?B \<longrightarrow> ?A" using dvd_trans [of 4 100 "y + 1"] by (simp only: dvd_eq_mod_eq_0) simp
  then have gen: "365 * y + u - v + (if ?A \<and> \<not> ?B then 366 else 365) =
      365 * (y + 1) + (u + (if ?A then 1 else 0)) - (v + (if ?B then 1 else 0))" for u v :: int
    by (cases ?A; cases ?B) (simp_all only: simp_thms if_True if_False, simp_all)
  have next_div: "(y + 1) div 4 = y div 4 + (if ?A then 1 else 0)" "(y + 1) div 100 = y div 100 + (if ?B then 1 else 0)"
    by (rule div_next; simp)+
  show ?thesis
    unfolding year_start_def year_len_def leap next_div if_not_P [OF False] by (rule gen)
qed

text \<open>Every day number is an era, a year of it and a day of that year.\<close>

lemma civil_decomposed:
  assumes "0 \<le> y" "y < 400" "0 \<le> doy" "doy < year_len y"
  shows "civil_from_days (era * 146097 + (year_start y + doy) - 719468) =
     (case month_day doy of (m, d) \<Rightarrow> (y + era * 400 + (if m \<le> 2 then 1 else 0), m, d))"
proof -
  note f = year_unique [OF assms]
  define doe where "doe = year_start y + doy"
  have doe: "0 \<le> doe" "doe < 146097" "era_days doe div 365 = y" using f assms by (simp_all add: doe_def)
  have z: "(era * 146097 + doe - 719468) + 719468 = era * 146097 + doe" by simp
  have "(era * 146097 + doe) div 146097 = era" "(era * 146097 + doe) mod 146097 = doe"
    using doe by simp_all
  moreover have "doe - year_start y = doy" by (simp add: doe_def)
  ultimately show ?thesis
    using doe(3) by (simp only: civil_from_days_def z Let_def era_days_def [symmetric] year_start_def [symmetric]
        month_start_def [symmetric] month_day_def prod.case doe_def [symmetric])
qed

lemma year_exists:
  assumes "0 \<le> doe" "doe < 146097"
  obtains y doy where "0 \<le> y" "y < 400" "0 \<le> doy" "doy < year_len y" "doe = year_start y + doy"
proof -
  have "\<exists>y doy. 0 \<le> y \<and> y < 400 \<and> 0 \<le> doy \<and> doy < year_len y \<and> doe = year_start y + doy"
  proof (rule ccontr)
    assume none: "\<not> ?thesis"
    have above: "year_start y + year_len y \<le> doe" if "0 \<le> y" "y < 400" "year_start y \<le> doe" for y
      using none that by (metis diff_ge_0_iff_ge diff_less_eq add.commute diff_add_cancel not_le)
    have "year_start (int n) \<le> doe" if "n \<le> 399" for n
      using that
    proof (induction n)
      case 0
      then show ?case using assms by (simp add: year_start_def)
    next
      case (Suc n)
      then show ?case
        using above [of "int n"] year_next [of "int n"] by (simp add: add.commute)
    qed
    from above [of 399] this [of 399] year_next [of 399] assms show False by simp
  qed
  then show ?thesis using that by blast
qed

lemma month_exists:
  assumes "0 \<le> doy" "doy < 366"
  obtains k where "0 \<le> k" "k \<le> 11" "month_start k \<le> doy" "doy < month_start (k + 1)"
    "month_day doy = (if k < 10 then k + 3 else k - 9, doy - month_start k + 1)"
proof -
  define k where "k = (5 * doy + 2) div 153"
  have k: "0 \<le> k" "k \<le> 11" using assms by (auto simp: k_def)
  have "153 * k \<le> 5 * doy + 2" "5 * doy + 2 < 153 * (k + 1)" unfolding k_def by simp_all
  then have "month_start k \<le> doy" "doy < month_start (k + 1)"
    unfolding month_start_def by simp_all
  with k that show ?thesis by (simp add: month_day_def k_def Let_def)
qed

lemma month_lengths:
  assumes "0 \<le> k" "k \<le> 10"
  shows "month_days y (if k < 10 then k + 3 else k - 9) = month_start (k + 1) - month_start k"
proof -
  have "k = 0 \<or> k = 1 \<or> k = 2 \<or> k = 3 \<or> k = 4 \<or> k = 5 \<or> k = 6 \<or> k = 7 \<or> k = 8 \<or> k = 9 \<or> k = 10"
    using assms by arith
  then show ?thesis by (elim disjE) (simp_all add: month_days_def month_start_def)
qed

lemma month_day_start:
  assumes "0 \<le> k" "k \<le> 11" "0 \<le> j" "month_start k + j < month_start (k + 1)"
  shows "month_day (month_start k + j) = (if k < 10 then k + 3 else k - 9, j + 1)"
proof -
  have "5 * (month_start k + j) + 2 < 153 * (k + 1)" "153 * k \<le> 5 * (month_start k + j) + 2"
    using assms unfolding month_start_def by simp_all
  then have "(5 * (month_start k + j) + 2) div 153 = k"
    by (intro int_div_pos_eq [where r = "5 * (month_start k + j) + 2 - 153 * k"]) simp_all
  then show ?thesis by (simp add: month_day_def Let_def)
qed

lemma leap_year_era: "leap_year (y + a * 400 + 1) \<longleftrightarrow> leap_year (y + 1)"
proof -
  have "y + a * 400 + 1 = y + 1 + (100 * a) * 4" "y + a * 400 + 1 = y + 1 + (4 * a) * 100"
    "y + a * 400 + 1 = y + 1 + a * 400" by simp_all
  then have "(y + a * 400 + 1) mod 4 = (y + 1) mod 4" "(y + a * 400 + 1) mod 100 = (y + 1) mod 100"
    "(y + a * 400 + 1) mod 400 = (y + 1) mod 400"
    by (metis mod_mult_self1)+
  then show ?thesis by (simp only: leap_year_def)
qed

lemma next_day_within_year:
  assumes "0 \<le> doy" "doy < year_len y" "month_day doy = (m, d)"
  shows "next_day (y + a * 400 + (if m \<le> 2 then 1 else 0), m, d) =
     (if doy + 1 < year_len y
      then (case month_day (doy + 1) of (m', d') \<Rightarrow> (y + a * 400 + (if m' \<le> 2 then 1 else 0), m', d'))
      else (y + a * 400 + 1, 3, 1))"
proof -
  have "doy < 366" using assms(2) by (simp add: year_len_def split: if_splits)
  then obtain k where k: "0 \<le> k" "k \<le> 11" "month_start k \<le> doy" "doy < month_start (k + 1)"
    and md: "month_day doy = (if k < 10 then k + 3 else k - 9, doy - month_start k + 1)"
    using month_exists [OF assms(1)] by metis
  have m: "m = (if k < 10 then k + 3 else k - 9)" "d = doy - month_start k + 1" using md assms(3) by simp_all
  have leap: "leap_year (y + a * 400 + 1) \<longleftrightarrow> year_len y = 366"
    by (simp only: leap_year_era year_len_def) simp
  show ?thesis
  proof (cases "k = 11")
    case True
    have ms: "month_start 11 = 337" "month_start 12 = 367" by (simp_all add: month_start_def)
    define w where "w = month_day (doy + 1)"
    have "w = (2, d + 1)" if "doy + 1 < year_len y"
      using month_day_start [of 11 "d"] that True k m ms \<open>doy < 366\<close>
      by (simp add: w_def year_len_def add.commute [of doy 1] split: if_splits)
    then show ?thesis
      unfolding w_def [symmetric] using True m leap assms(2) ms
      by (auto simp: next_day_def month_days_def year_len_def add.commute split: if_splits)
  next
    case False
    then have "k \<le> 10" using k by simp
    have "month_start (k + 1) \<le> 337" using k \<open>k \<le> 10\<close> by (simp add: month_start_def)
    then have in_year: "doy + 1 < year_len y" using k by (simp add: year_len_def)
    note len = month_lengths [OF k(1) \<open>k \<le> 10\<close>, of "y + a * 400 + (if m \<le> 2 then 1 else 0)", folded m(1)]
    show ?thesis
    proof (cases "doy + 1 < month_start (k + 1)")
      case True
      have "month_day (doy + 1) = (m, d + 1)"
        using month_day_start [of k d] True k m by simp
      with True in_year len m show ?thesis by (simp add: next_day_def)
    next
      case False
      with k have e: "doy + 1 = month_start (k + 1)" by simp
      have "month_start (k + 1) < month_start (k + 1 + 1)" by (simp add: month_start_def)
      with e month_day_start [of "k + 1" 0] k \<open>k \<le> 10\<close> have "month_day (doy + 1) = (if k + 1 < 10 then k + 4 else k - 8, 1)"
        by simp
      with e in_year len m k \<open>k \<le> 10\<close> show ?thesis by (auto simp: next_day_def)
    qed
  qed
qed

text \<open>
  C39. Timestamps carry the right date. Day 0 is 1 January 1970, and the date of every next
  day is the next date of the Gregorian calendar, for every day before and after the epoch.
\<close>

theorem civil_from_days_correct:
  "civil_from_days 0 = (1970, 1, 1) \<and> civil_from_days (days + 1) = next_day (civil_from_days days)"
proof
  show "civil_from_days 0 = (1970, 1, 1)" by code_simp
  let ?z = "days + 719468"
  define a where "a = ?z div 146097"
  have b: "0 \<le> ?z mod 146097" "?z mod 146097 < 146097" by simp_all
  obtain y doy where y: "0 \<le> y" "y < 400" "0 \<le> doy" "doy < year_len y" and z: "?z mod 146097 = year_start y + doy"
    by (rule year_exists [OF b])
  have days: "days = a * 146097 + (year_start y + doy) - 719468"
    using div_mult_mod_eq [of ?z 146097] unfolding z a_def [symmetric] by linarith
  obtain m d where md: "month_day doy = (m, d)" by fastforce
  have now: "civil_from_days days = (y + a * 400 + (if m \<le> 2 then 1 else 0), m, d)"
    using civil_decomposed [OF y, of a] by (simp add: days md)
  show "civil_from_days (days + 1) = next_day (civil_from_days days)"
  proof (cases "doy + 1 < year_len y")
    case True
    from civil_decomposed [OF y(1,2) _ True, of a] y(3)
    have "civil_from_days (days + 1) =
        (case month_day (doy + 1) of (m', d') \<Rightarrow> (y + a * 400 + (if m' \<le> 2 then 1 else 0), m', d'))"
      by (simp add: days algebra_simps)
    with next_day_within_year [OF y(3,4) md, of a] True now show ?thesis by simp
  next
    case False
    with y(4) have doy: "doy + 1 = year_len y" by simp
    have first: "month_day 0 = (3, 1)" by (simp add: month_day_def month_start_def)
    have pos: "0 < year_len y'" for y' by (simp add: year_len_def)
    have after: "days + 1 = a * 146097 + (year_start y + year_len y) - 719468" using days doy by linarith
    have "civil_from_days (days + 1) = (y + a * 400 + 1, 3, 1)"
      unfolding after year_next [OF y(1,2)]
      using civil_decomposed [of "y + 1" 0 a] civil_decomposed [of 0 0 "a + 1"] pos y(1,2)
      by (cases "y = 399") (simp_all add: first year_start_def [of 0] algebra_simps)
    with next_day_within_year [OF y(3,4) md, of a] False now show ?thesis by simp
  qed
qed

end
