(* ===== verification/Ffi_Input.thy ===== *)
theory Ffi_Input
  imports Ffi_Heap Proxy_Service Auth Log
begin

text \<open>
  The state behind the C interface (src/src/ffi.rs) and the conversion of what C callers pass in. The state
  is the heap of \<open>Ffi_Heap\<close>, the last error of the calling thread, and one table per kind of boxed object; the address of
  a box is never reused. Strings and arrays that the caller owns are cells of the same heap; a string cell holds
  the bytes before the terminating NUL. A structure the caller passes by address is an option, \<open>None\<close> the null pointer.
  A call returns, does not return (it waits for data, or panics, which aborts at the C boundary), or is
  undefined, because it followed a pointer to nothing.
\<close>

section \<open>State\<close>

datatype 'a outcome = Ret 'a | Stuck | Undef

record ffi =
  ff_heap :: heap
  ff_last_error :: "string option"
  ff_clients :: "ptr \<Rightarrow> AtrClient option"
  ff_auths :: "ptr \<Rightarrow> AuthSession option"
  ff_tcps :: "ptr \<Rightarrow> TcpTunnel option"
  ff_udps :: "ptr \<Rightarrow> UdpTunnel option"
  ff_l3s :: "ptr \<Rightarrow> L3TunnelState option"
  ff_proxies :: "ptr \<Rightarrow> ProxyService option"

definition ffi_start :: ffi where
  "ffi_start = \<lparr>ff_heap = heap_start, ff_last_error = None, ff_clients = (\<lambda>_. None), ff_auths = (\<lambda>_. None),
     ff_tcps = (\<lambda>_. None), ff_udps = (\<lambda>_. None), ff_l3s = (\<lambda>_. None), ff_proxies = (\<lambda>_. None)\<rparr>"

section \<open>The closures of the calls\<close>

text \<open>The closure of a call: a result with \<open>?\<close> after every step.\<close>

type_synonym 'a body = "ffi \<Rightarrow> ((AtrError + 'a) \<times> ffi) outcome"

definition retB :: "'a \<Rightarrow> 'a body" where
  "retB v s = Ret (Inr v, s)"

definition liftB :: "AtrError + 'a \<Rightarrow> 'a body" where
  "liftB r s = Ret (r, s)"

definition bindB :: "'a body \<Rightarrow> ('a \<Rightarrow> 'b body) \<Rightarrow> 'b body" where
  "bindB m f s =
     (case m s of
        Ret (Inl e, s') \<Rightarrow> Ret (Inl e, s')
      | Ret (Inr v, s') \<Rightarrow> f v s'
      | Stuck \<Rightarrow> Stuck
      | Undef \<Rightarrow> Undef)"

text \<open>Copying into the heap, and reading from it.\<close>

definition heapB :: "'a heapm \<Rightarrow> 'a body" where
  "heapB m s = (case m (ff_heap s) of (r, h) \<Rightarrow> Ret (r, s\<lparr>ff_heap := h\<rparr>))"

definition readB :: "(heap \<Rightarrow> 'a option) \<Rightarrow> 'a body" where
  "readB f s = (case f (ff_heap s) of None \<Rightarrow> Undef | Some v \<Rightarrow> Ret (Inr v, s))"

text \<open>\<open>Box::into_raw\<close>, a shared or exclusive borrow of a boxed object, and \<open>Box::from_raw\<close>.\<close>

definition box ::
  "(((ptr \<Rightarrow> 'o option) \<Rightarrow> ptr \<Rightarrow> 'o option) \<Rightarrow> ffi \<Rightarrow> ffi) \<Rightarrow> 'o \<Rightarrow> ptr body" where
  "box upd x s =
     (let p = hp_next (ff_heap s)
      in Ret (Inr p, upd (\<lambda>t. t(p \<mapsto> x)) (s\<lparr>ff_heap := (ff_heap s)\<lparr>hp_next := p + 1\<rparr>\<rparr>)))"

definition deref :: "(ffi \<Rightarrow> ptr \<Rightarrow> 'o option) \<Rightarrow> ptr \<Rightarrow> 'o body" where
  "deref tbl p s = (case tbl s p of None \<Rightarrow> Undef | Some x \<Rightarrow> Ret (Inr x, s))"

definition on_obj ::
  "(ffi \<Rightarrow> ptr \<Rightarrow> 'o option) \<Rightarrow> (((ptr \<Rightarrow> 'o option) \<Rightarrow> ptr \<Rightarrow> 'o option) \<Rightarrow> ffi \<Rightarrow> ffi) \<Rightarrow> ptr \<Rightarrow>
   ('o \<Rightarrow> ((AtrError + 'a) \<times> 'o) option) \<Rightarrow> 'a body" where
  "on_obj tbl upd p f s =
     (case tbl s p of
        None \<Rightarrow> Undef
      | Some x \<Rightarrow> (case f x of None \<Rightarrow> Stuck | Some (r, x') \<Rightarrow> Ret (r, upd (\<lambda>t. t(p \<mapsto> x')) s)))"

definition unbox ::
  "(ffi \<Rightarrow> ptr \<Rightarrow> 'o option) \<Rightarrow> (((ptr \<Rightarrow> 'o option) \<Rightarrow> ptr \<Rightarrow> 'o option) \<Rightarrow> ffi \<Rightarrow> ffi) \<Rightarrow> ptr \<Rightarrow>
   ffi \<Rightarrow> ('o option \<times> ffi) outcome" where
  "unbox tbl upd p s =
     (if p = 0 then Ret (None, s)
      else case tbl s p of None \<Rightarrow> Undef | Some x \<Rightarrow> Ret (Some x, upd (\<lambda>t. t(p := None)) s))"

section \<open>Errors\<close>

definition store_error :: "AtrError \<Rightarrow> ffi \<Rightarrow> ErrorCode \<times> ffi" where
  "store_error err s =
     (code err, s\<lparr>ff_last_error := Some (if CHR 0x00 \<in> set (error_display err) then ''error'' else error_display err)\<rparr>)"

definition atr_last_error_message :: "ffi \<Rightarrow> string option" where
  "atr_last_error_message s = ff_last_error s"

text \<open>
  The frame of a call: null arguments are refused at once; otherwise the closure runs and its result becomes the
  returned code, with what it wrote through the out pointers.
\<close>

definition ffi_result :: "'a body \<Rightarrow> ffi \<Rightarrow> ((int \<times> 'a option) \<times> ffi) outcome" where
  "ffi_result body s =
     (case body s of
        Ret (Inr v, s') \<Rightarrow> Ret ((error_code_i32 CodeOk, Some v), s')
      | Ret (Inl e, s') \<Rightarrow> (case store_error e s' of (c, s'') \<Rightarrow> Ret ((error_code_i32 c, None), s''))
      | Stuck \<Rightarrow> Stuck
      | Undef \<Rightarrow> Undef)"

definition ffi_call :: "bool \<Rightarrow> 'a body \<Rightarrow> ffi \<Rightarrow> ((int \<times> 'a option) \<times> ffi) outcome" where
  "ffi_call null_argument body s =
     (if null_argument then Ret ((error_code_i32 CodeInvalidArgument, None), s) else ffi_result body s)"

section \<open>Input\<close>

definition read_cstr :: "ptr \<Rightarrow> string body" where
  "read_cstr p = readB (\<lambda>h. case hp_cells h p of Some (CStr v) \<Rightarrow> Some v | _ \<Rightarrow> None)"

text \<open>\<open>CStr::from_ptr(p).to_str()\<close> with the error mapped.\<close>

definition to_str :: "ptr \<Rightarrow> string body" where
  "to_str p = bindB (read_cstr p) (\<lambda>v. liftB (str_from_utf8 (str_bytes v)))"

definition cstr_to_string :: "ptr \<Rightarrow> string \<Rightarrow> string body" where
  "cstr_to_string p field =
     (if p = 0 then liftB (Inl (InvalidArgument (field @ '' is null''))) else to_str p)"

text \<open>\<open>slice::from_raw_parts\<close>; an empty slice may start anywhere but at null.\<close>

definition read_slice :: "(cell \<Rightarrow> 'a list option) \<Rightarrow> ptr \<Rightarrow> nat \<Rightarrow> 'a list body" where
  "read_slice unwrap p len = readB (\<lambda>h.
     if len = 0 then Some []
     else case hp_cells h p of
       None \<Rightarrow> None
     | Some c \<Rightarrow> (case unwrap c of None \<Rightarrow> None | Some xs \<Rightarrow> if len \<le> length xs then Some (take len xs) else None))"

definition opt_string :: "ptr \<Rightarrow> string \<Rightarrow> string option body" where
  "opt_string p field = (if p = 0 then retB None else bindB (cstr_to_string p field) (\<lambda>v. retB (Some v)))"

record atr_client_config_t =
  fc_server_host :: ptr
  fc_server_port :: u16
  fc_user_agent :: ptr
  fc_connect_timeout_ms :: u64
  fc_io_timeout_ms :: u64
  fc_node_probe_timeout_ms :: u64
  fc_allow_insecure_tls :: bool
  fc_bind_interface :: ptr
  fc_auto_detect_interface :: bool

definition client_config_from_ffi :: "atr_client_config_t \<Rightarrow> ClientConfig body" where
  "client_config_from_ffi cfg =
     bindB (cstr_to_string (fc_server_host cfg) ''server_host'') (\<lambda>host.
     bindB (cstr_to_string (fc_user_agent cfg) ''user_agent'') (\<lambda>agent.
     bindB (opt_string (fc_bind_interface cfg) ''bind_interface'') (\<lambda>interface.
     retB \<lparr>server_host = host, server_port = fc_server_port cfg, user_agent = agent,
       connect_timeout_ms = fc_connect_timeout_ms cfg, io_timeout_ms = fc_io_timeout_ms cfg,
       node_probe_timeout_ms = fc_node_probe_timeout_ms cfg, allow_insecure_tls = fc_allow_insecure_tls cfg,
       bind_interface = interface, auto_detect_interface = fc_auto_detect_interface cfg\<rparr>)))"

record atr_auth_config_t =
  fa_server_host :: ptr
  fa_server_port :: u16
  fa_user_agent :: ptr
  fa_client_type :: ptr
  fa_platform :: ptr
  fa_login_domain :: ptr
  fa_preferred_auth_type :: ptr
  fa_io_timeout_ms :: u64
  fa_allow_insecure_tls :: bool

definition auth_config_from_ffi :: "atr_auth_config_t \<Rightarrow> AuthConfig body" where
  "auth_config_from_ffi cfg =
     bindB (cstr_to_string (fa_server_host cfg) ''server_host'') (\<lambda>host.
     bindB (cstr_to_string (fa_user_agent cfg) ''user_agent'') (\<lambda>agent.
     bindB (cstr_to_string (fa_client_type cfg) ''client_type'') (\<lambda>client_type.
     bindB (cstr_to_string (fa_platform cfg) ''platform'') (\<lambda>platform.
     bindB (cstr_to_string (fa_login_domain cfg) ''login_domain'') (\<lambda>login_domain.
     bindB (opt_string (fa_preferred_auth_type cfg) ''preferred_auth_type'') (\<lambda>preferred.
     retB \<lparr>ac_server_host = host, ac_server_port = fa_server_port cfg, ac_user_agent = agent,
       ac_client_type = client_type, ac_platform = platform, ac_login_domain = login_domain,
       ac_preferred_auth_type = preferred, ac_io_timeout_ms = fa_io_timeout_ms cfg,
       ac_allow_insecure_tls = fa_allow_insecure_tls cfg\<rparr>))))))"

record atr_password_login_input_t =
  fp_username :: ptr
  fp_password :: ptr
  fp_login_domain :: ptr

definition password_input_from_ffi :: "atr_password_login_input_t \<Rightarrow> PasswordLoginInput body" where
  "password_input_from_ffi input =
     bindB (cstr_to_string (fp_username input) ''username'') (\<lambda>username.
     bindB (cstr_to_string (fp_password input) ''password'') (\<lambda>password.
     bindB (cstr_to_string (fp_login_domain input) ''login_domain'') (\<lambda>login_domain.
     retB \<lparr>pl_username = username, pl_password = password, pl_login_domain = login_domain\<rparr>)))"

record atr_sms_login_input_t =
  fm_phone :: ptr
  fm_login_domain :: ptr

definition sms_input_from_ffi :: "atr_sms_login_input_t \<Rightarrow> SmsLoginInput body" where
  "sms_input_from_ffi input =
     bindB (cstr_to_string (fm_phone input) ''phone'') (\<lambda>phone.
     bindB (cstr_to_string (fm_login_domain input) ''login_domain'') (\<lambda>login_domain.
     retB \<lparr>sl_phone = phone, sl_login_domain = login_domain\<rparr>))"

record atr_callback_target_t =
  ft_callback_url :: ptr

definition callback_target_from_ffi :: "atr_callback_target_t \<Rightarrow> CallbackTarget body" where
  "callback_target_from_ffi input =
     bindB (cstr_to_string (ft_callback_url input) ''callback_url'') (\<lambda>url. retB \<lparr>callback_url = url\<rparr>)"

text \<open>The input structures of a session have the fields and the layout of the output ones.\<close>

type_synonym atr_cookie_input_t = atr_cookie_record_t
type_synonym atr_session_material_input_t = atr_session_material_t

definition cookie_from_ffi :: "atr_cookie_input_t \<Rightarrow> CookieRecord body" where
  "cookie_from_ffi item =
     bindB (cstr_to_string (cc_host item) ''cookie.host'') (\<lambda>host.
     bindB (cstr_to_string (cc_scheme item) ''cookie.scheme'') (\<lambda>scheme.
     bindB (cstr_to_string (cc_name item) ''cookie.name'') (\<lambda>name.
     bindB (cstr_to_string (cc_value item) ''cookie.value'') (\<lambda>value.
     retB \<lparr>ck_host = host, ck_scheme = scheme, ck_name = name, ck_value = value\<rparr>))))"

fun each_from_ffi :: "('c \<Rightarrow> 'v body) \<Rightarrow> 'c list \<Rightarrow> 'v list body" where
  "each_from_ffi conv [] = retB []"
| "each_from_ffi conv (c # cs) = bindB (conv c) (\<lambda>v. bindB (each_from_ffi conv cs) (\<lambda>vs. retB (v # vs)))"

definition session_material_from_ffi :: "atr_session_material_input_t \<Rightarrow> SessionMaterial body" where
  "session_material_from_ffi input =
     bindB (if cl_items (cs_cookies input) = 0 then retB []
            else bindB (read_slice (\<lambda>c. case c of CCookies cs \<Rightarrow> Some cs | _ \<Rightarrow> None)
                   (cl_items (cs_cookies input)) (cl_len (cs_cookies input))) (each_from_ffi cookie_from_ffi)) (\<lambda>cookies.
     bindB (cstr_to_string (cs_username input) ''username'') (\<lambda>username.
     bindB (cstr_to_string (cs_sid input) ''sid'') (\<lambda>sid.
     bindB (cstr_to_string (cs_device_id input) ''device_id'') (\<lambda>device_id.
     bindB (cstr_to_string (cs_connection_id input) ''connection_id'') (\<lambda>connection_id.
     bindB (cstr_to_string (cs_sign_key_hex input) ''sign_key_hex'') (\<lambda>sign_key_hex.
     retB \<lparr>sm_username = username, sm_sid = sid, sm_device_id = device_id, sm_connection_id = connection_id,
       sm_sign_key_hex = sign_key_hex, sm_cookies = cookies\<rparr>))))))"

record atr_proxy_service_config_t =
  fx_listen_host :: ptr
  fx_listen_port :: u16
  fx_connect_timeout_ms :: u64
  fx_idle_timeout_ms :: u64
  fx_enable_http :: bool
  fx_enable_socks5 :: bool
  fx_pac_token :: ptr

definition proxy_service_config_from_ffi :: "atr_proxy_service_config_t \<Rightarrow> ProxyServiceConfig body" where
  "proxy_service_config_from_ffi input =
     bindB (cstr_to_string (fx_listen_host input) ''listen_host'') (\<lambda>host.
     bindB (opt_string (fx_pac_token input) ''pac_token'') (\<lambda>token.
     retB (default_proxy_config\<lparr>listen_host := host, listen_port := fx_listen_port input,
       px_connect_timeout_ms := (if fx_connect_timeout_ms input = 0 then px_connect_timeout_ms default_proxy_config
                                 else fx_connect_timeout_ms input),
       px_idle_timeout_ms := fx_idle_timeout_ms input, enable_http := fx_enable_http input,
       enable_socks5 := fx_enable_socks5 input,
       pac_token := (case token of Some t \<Rightarrow> if t = [] then None else Some t | None \<Rightarrow> None)\<rparr>)))"

end
