(* ===== verification/Ffi.thy ===== *)
theory Ffi
  imports Ffi_Input
begin

text \<open>
  The calls of the C interface (src/src/ffi.rs). A call takes addresses of boxed objects and of the caller's strings and
  buffers, optional structures, and one truth value per out pointer (is it null?); it gives the returned code
  together with what was written through the out pointers. What the outside world answers during a call
  is a record of type \<open>ffi_env\<close>. The functions of the last section release structures; what the caller's structure
  holds afterwards is their result.
\<close>

section \<open>The outside world\<close>

text \<open>
  \<open>fe_stop\<close> is the service when \<open>stop\<close> has returned, \<open>None\<close> when it does not return; \<open>fe_spawn\<close>
  the outcome of starting the keep-alive thread of a layer-3 tunnel, \<open>fe_start\<close> of starting the worker of
  a TCP tunnel, \<open>fe_listener\<close> of starting the listener thread.
\<close>

record ffi_env =
  fe_lib :: auth_lib
  fe_built :: "string + unit"
  fe_fill :: "nat \<Rightarrow> bytes"
  fe_micros :: nat
  fe_from_slice :: "bytes \<Rightarrow> string + ClientResourceResponse"
  fe_parse_net :: "string \<Rightarrow> (Ipv4Addr \<times> Ipv4Addr) option"
  fe_tls :: "string \<Rightarrow> ClientConfig \<Rightarrow> AtrError + conn"
  fe_start :: "AtrError + unit"
  fe_sha256 :: "bytes \<Rightarrow> bytes"
  fe_hex_decode :: "string \<Rightarrow> string + bytes"
  fe_hmac :: "bytes \<Rightarrow> bytes \<Rightarrow> bytes"
  fe_encode_upper :: "bytes \<Rightarrow> string"
  fe_windows :: bool
  fe_os :: string
  fe_lookup :: "string \<Rightarrow> string + SocketAddr list"
  fe_spawn :: "AtrError + unit"
  fe_connect :: connect_remote
  fe_build :: "PacketMeta \<Rightarrow> Conntrack \<Rightarrow> AtrError + bytes"
  fe_meanwhile :: "L3Remote \<Rightarrow> L3Remote"
  fe_bind :: "string \<Rightarrow> io_error + unit"
  fe_local_addr :: "io_error + SocketAddr"
  fe_listener :: "string + unit"
  fe_stop :: "ProxyService \<Rightarrow> ProxyService option"

section \<open>Writing through out pointers\<close>

definition set_out :: "bool \<Rightarrow> 'c heapm \<Rightarrow> 'c body" where
  "set_out out_null copy = (if out_null then liftB (Inl (InvalidArgument ''out is null'')) else heapB copy)"

definition set_string_out :: "bool \<Rightarrow> string \<Rightarrow> ptr body" where
  "set_string_out out_null value = set_out out_null (c_string value)"

definition set_blob_out :: "bool \<Rightarrow> bytes \<Rightarrow> atr_blob_t body" where
  "set_blob_out out_null data = set_out out_null (copy_blob data)"

definition set_string_list_out :: "bool \<Rightarrow> string list \<Rightarrow> atr_string_list_t body" where
  "set_string_list_out out_null values = set_out out_null (copy_string_list values)"

definition set_ipaddr_string_list :: "bool \<Rightarrow> Ipv4Addr list \<Rightarrow> atr_string_list_t body" where
  "set_ipaddr_string_list out_null values = set_string_list_out out_null (map show_ipv4 values)"

section \<open>Clients\<close>

type_synonym 'a ffi_fn = "ffi \<Rightarrow> ((int \<times> 'a option) \<times> ffi) outcome"

definition atr_client_new :: "atr_client_config_t option \<Rightarrow> bool \<Rightarrow> ptr ffi_fn" where
  "atr_client_new config out_null =
     ffi_call (config = None \<or> out_null)
       (bindB (client_config_from_ffi (the config)) (\<lambda>cfg.
        bindB (liftB (client_new cfg)) (\<lambda>client.
        box ff_clients_update client)))"

definition atr_client_free :: "ptr \<Rightarrow> ffi \<Rightarrow> (AtrClient option \<times> ffi) outcome" where
  "atr_client_free client = unbox ff_clients ff_clients_update client"

definition on_client :: "ptr \<Rightarrow> (AtrClient \<Rightarrow> AtrClient) \<Rightarrow> unit body" where
  "on_client p f = on_obj ff_clients ff_clients_update p (\<lambda>c. Some (Inr (), f c))"

definition atr_client_set_session :: "ptr \<Rightarrow> atr_session_material_input_t option \<Rightarrow> unit ffi_fn" where
  "atr_client_set_session client session =
     ffi_call (client = 0 \<or> session = None)
       (bindB (session_material_from_ffi (the session)) (\<lambda>material.
        on_client client (set_session material)))"

definition byte_slice :: "ptr \<Rightarrow> nat \<Rightarrow> bytes body" where
  "byte_slice = read_slice (\<lambda>c. case c of CBytes bs \<Rightarrow> Some bs | _ \<Rightarrow> None)"

definition atr_client_set_resource :: "ffi_env \<Rightarrow> ptr \<Rightarrow> ptr \<Rightarrow> nat \<Rightarrow> ptr \<Rightarrow> unit ffi_fn" where
  "atr_client_set_resource env client resource_bytes resource_len service_host =
     ffi_call (client = 0 \<or> resource_bytes = 0 \<or> service_host = 0)
       (bindB (byte_slice resource_bytes resource_len) (\<lambda>resource.
        bindB (to_str service_host) (\<lambda>host.
        bindB (liftB (parse_resource_bytes (fe_from_slice env) (fe_parse_net env) resource host)) (\<lambda>snapshot.
        on_client client (\<lambda>c. set_resource_bytes resource (set_resource snapshot c))))))"

definition managed_decision :: "RouteDecision \<Rightarrow> bool" where
  "managed_decision decision = (case decision of Managed _ \<Rightarrow> True | Direct \<Rightarrow> False)"

text \<open>\<open>*managed = false\<close> is written before anything can fail.\<close>

definition ffi_route :: "ptr \<Rightarrow> ptr \<Rightarrow> u16 \<Rightarrow> bool \<Rightarrow> ProtocolKind \<Rightarrow> bool ffi_fn" where
  "ffi_route client host port managed_null kind s =
     (if client = 0 \<or> host = 0 \<or> managed_null then Ret ((error_code_i32 CodeInvalidArgument, None), s)
      else case ffi_result
             (bindB (to_str host) (\<lambda>host.
              bindB (deref ff_clients client) (\<lambda>c.
              retB (managed_decision (case kind of
                Tcp \<Rightarrow> route_tcp c host port | Udp \<Rightarrow> route_udp c host port | Icmp \<Rightarrow> route_icmp c host))))) s of
        Ret ((c, written), s') \<Rightarrow> Ret ((c, Some (written = Some True)), s')
      | Stuck \<Rightarrow> Stuck
      | Undef \<Rightarrow> Undef)"

definition atr_client_route_tcp :: "ptr \<Rightarrow> ptr \<Rightarrow> u16 \<Rightarrow> bool \<Rightarrow> bool ffi_fn" where
  "atr_client_route_tcp client host port managed_null = ffi_route client host port managed_null Tcp"

definition atr_client_route_udp :: "ptr \<Rightarrow> ptr \<Rightarrow> u16 \<Rightarrow> bool \<Rightarrow> bool ffi_fn" where
  "atr_client_route_udp client host port managed_null = ffi_route client host port managed_null Udp"

definition atr_client_route_icmp :: "ptr \<Rightarrow> ptr \<Rightarrow> bool \<Rightarrow> bool ffi_fn" where
  "atr_client_route_icmp client host managed_null = ffi_route client host 0 managed_null Icmp"

definition atr_client_get_resource_bytes :: "ptr \<Rightarrow> bool \<Rightarrow> atr_blob_t ffi_fn" where
  "atr_client_get_resource_bytes client out_null =
     ffi_call (client = 0 \<or> out_null)
       (bindB (deref ff_clients client) (\<lambda>c.
        bindB (liftB (ok_or (InvalidState ''resource bytes not set'') (cl_resource_bytes c))) (\<lambda>bs.
        heapB (copy_blob bs))))"

definition atr_client_get_dns_server :: "ptr \<Rightarrow> bool \<Rightarrow> ptr ffi_fn" where
  "atr_client_get_dns_server client out_null =
     ffi_call (client = 0 \<or> out_null)
       (bindB (deref ff_clients client) (\<lambda>c.
        bindB (liftB (ok_or (InvalidState ''dns server not set'') (Option.bind (cl_resource c) dns_server))) (\<lambda>dns.
        set_string_out out_null dns)))"

definition atr_client_get_major_node_group :: "ptr \<Rightarrow> bool \<Rightarrow> ptr ffi_fn" where
  "atr_client_get_major_node_group client out_null =
     ffi_call (client = 0 \<or> out_null)
       (bindB (deref ff_clients client) (\<lambda>c.
        bindB (liftB (ok_or (InvalidState ''resource not set'') (map_option major_node_group (cl_resource c)))) (\<lambda>major.
        set_string_out out_null major)))"

definition atr_client_get_resource_snapshot :: "ptr \<Rightarrow> bool \<Rightarrow> atr_resource_snapshot_t ffi_fn" where
  "atr_client_get_resource_snapshot client out_null =
     ffi_call (client = 0 \<or> out_null)
       (bindB (deref ff_clients client) (\<lambda>c.
        bindB (liftB (ok_or (InvalidState ''resource not set'') (cl_resource c))) (\<lambda>snapshot.
        heapB (copy_resource_snapshot snapshot (cl_resource_bytes c)))))"

section \<open>Login\<close>

definition atr_auth_session_new :: "ffi_env \<Rightarrow> atr_auth_config_t option \<Rightarrow> bool \<Rightarrow> ptr ffi_fn" where
  "atr_auth_session_new env config out_null =
     ffi_call (config = None \<or> out_null)
       (bindB (auth_config_from_ffi (the config)) (\<lambda>cfg.
        bindB (liftB (auth_new (fe_lib env) (fe_built env) (fe_fill env) cfg)) (\<lambda>session.
        box ff_auths_update session)))"

definition atr_auth_session_free :: "ptr \<Rightarrow> ffi \<Rightarrow> (AuthSession option \<times> ffi) outcome" where
  "atr_auth_session_free session = unbox ff_auths ff_auths_update session"

definition on_auth :: "ptr \<Rightarrow> 'a auth \<Rightarrow> 'a body" where
  "on_auth p f = on_obj ff_auths ff_auths_update p (\<lambda>x. Some (f x))"

definition atr_auth_session_available_methods :: "ffi_env \<Rightarrow> ptr \<Rightarrow> bool \<Rightarrow> atr_auth_method_list_t ffi_fn" where
  "atr_auth_session_available_methods env session out_null =
     ffi_call (session = 0 \<or> out_null)
       (bindB (on_auth session (available_methods (fe_lib env))) (\<lambda>methods.
        heapB (copy_list copy_auth_method CMethods methods)))"

definition atr_auth_session_resolve_login_url :: "ffi_env \<Rightarrow> ptr \<Rightarrow> ptr \<Rightarrow> bool \<Rightarrow> ptr ffi_fn" where
  "atr_auth_session_resolve_login_url env session login_url out_null =
     ffi_call (session = 0 \<or> login_url = 0 \<or> out_null)
       (bindB (to_str login_url) (\<lambda>url.
        bindB (deref ff_auths session) (\<lambda>a.
        bindB (liftB (resolve_login_url (fe_lib env) url a)) (\<lambda>resolved.
        set_string_out out_null resolved))))"

definition atr_auth_session_login_password ::
  "ffi_env \<Rightarrow> ptr \<Rightarrow> atr_password_login_input_t option \<Rightarrow> ptr \<Rightarrow> bool \<Rightarrow> atr_auth_challenge_t ffi_fn" where
  "atr_auth_session_login_password env session input device_id out_null =
     ffi_call (session = 0 \<or> input = None \<or> device_id = 0 \<or> out_null)
       (bindB (password_input_from_ffi (the input)) (\<lambda>input.
        bindB (to_str device_id) (\<lambda>device_id.
        bindB (on_auth session (login_with_password (fe_lib env) (fe_fill env) (fe_micros env) input device_id)) (\<lambda>challenge.
        heapB (challenge_to_ffi challenge)))))"

definition atr_auth_session_login_sms ::
  "ffi_env \<Rightarrow> ptr \<Rightarrow> atr_sms_login_input_t option \<Rightarrow> ptr \<Rightarrow> bool \<Rightarrow> atr_auth_challenge_t ffi_fn" where
  "atr_auth_session_login_sms env session input device_id out_null =
     ffi_call (session = 0 \<or> input = None \<or> device_id = 0 \<or> out_null)
       (bindB (sms_input_from_ffi (the input)) (\<lambda>input.
        bindB (to_str device_id) (\<lambda>device_id.
        bindB (on_auth session (login_with_sms (fe_lib env) (fe_fill env) (fe_micros env) input device_id)) (\<lambda>challenge.
        heapB (challenge_to_ffi challenge)))))"

definition atr_auth_session_submit_captcha :: "ffi_env \<Rightarrow> ptr \<Rightarrow> ptr \<Rightarrow> bool \<Rightarrow> atr_auth_challenge_t ffi_fn" where
  "atr_auth_session_submit_captcha env session captcha out_null =
     ffi_call (session = 0 \<or> captcha = 0 \<or> out_null)
       (bindB (to_str captcha) (\<lambda>captcha.
        bindB (on_auth session (submit_captcha (fe_lib env) captcha)) (\<lambda>challenge.
        heapB (challenge_to_ffi challenge))))"

definition atr_auth_session_submit_sms_code :: "ffi_env \<Rightarrow> ptr \<Rightarrow> ptr \<Rightarrow> bool \<Rightarrow> atr_auth_challenge_t ffi_fn" where
  "atr_auth_session_submit_sms_code env session sms_code out_null =
     ffi_call (session = 0 \<or> sms_code = 0 \<or> out_null)
       (bindB (to_str sms_code) (\<lambda>sms_code.
        bindB (on_auth session (submit_sms_code (fe_lib env) sms_code)) (\<lambda>challenge.
        heapB (challenge_to_ffi challenge))))"

definition atr_auth_session_complete_callback ::
  "ffi_env \<Rightarrow> ptr \<Rightarrow> atr_callback_target_t option \<Rightarrow> bool \<Rightarrow> atr_auth_challenge_t ffi_fn" where
  "atr_auth_session_complete_callback env session target out_null =
     ffi_call (session = 0 \<or> target = None \<or> out_null)
       (bindB (callback_target_from_ffi (the target)) (\<lambda>target.
        bindB (on_auth session (complete_callback (fe_lib env) target)) (\<lambda>challenge.
        heapB (challenge_to_ffi challenge))))"

definition atr_auth_session_prepare_callback_login :: "ffi_env \<Rightarrow> ptr \<Rightarrow> ptr \<Rightarrow> unit ffi_fn" where
  "atr_auth_session_prepare_callback_login env session device_id =
     ffi_call (session = 0 \<or> device_id = 0)
       (bindB (to_str device_id) (\<lambda>device_id.
        on_auth session (modA (prepare_callback_login (fe_lib env) (fe_fill env) (fe_micros env) device_id))))"

definition atr_auth_session_complete_callback_with_device ::
  "ffi_env \<Rightarrow> ptr \<Rightarrow> atr_callback_target_t option \<Rightarrow> ptr \<Rightarrow> bool \<Rightarrow> atr_auth_challenge_t ffi_fn" where
  "atr_auth_session_complete_callback_with_device env session target device_id out_null =
     ffi_call (session = 0 \<or> target = None \<or> device_id = 0 \<or> out_null)
       (bindB (callback_target_from_ffi (the target)) (\<lambda>target.
        bindB (to_str device_id) (\<lambda>device_id.
        bindB (on_auth session (complete_callback_with_device (fe_lib env) (fe_fill env) (fe_micros env) target device_id)) (\<lambda>challenge.
        heapB (challenge_to_ffi challenge)))))"

definition atr_auth_session_fetch_client_resource :: "ffi_env \<Rightarrow> ptr \<Rightarrow> bool \<Rightarrow> atr_blob_t ffi_fn" where
  "atr_auth_session_fetch_client_resource env session out_null =
     ffi_call (session = 0 \<or> out_null)
       (bindB (on_auth session (client_resource_bytes (fe_lib env))) (\<lambda>bs.
        set_blob_out out_null bs))"

definition atr_auth_session_get_client_resource :: "ffi_env \<Rightarrow> ptr \<Rightarrow> bool \<Rightarrow> atr_blob_t ffi_fn" where
  "atr_auth_session_get_client_resource env session out_null = atr_auth_session_fetch_client_resource env session out_null"

definition atr_auth_session_import_session ::
  "ffi_env \<Rightarrow> ptr \<Rightarrow> atr_session_material_input_t option \<Rightarrow> unit ffi_fn" where
  "atr_auth_session_import_session env session material =
     ffi_call (session = 0 \<or> material = None)
       (bindB (session_material_from_ffi (the material)) (\<lambda>material.
        on_auth session (modA (import_session (fe_lib env) (fe_fill env) (fe_micros env) material))))"

definition atr_auth_session_resume_session ::
  "ffi_env \<Rightarrow> ptr \<Rightarrow> atr_session_material_input_t option \<Rightarrow> bool \<Rightarrow> atr_session_material_t ffi_fn" where
  "atr_auth_session_resume_session env session material out_null =
     ffi_call (session = 0 \<or> material = None \<or> out_null)
       (bindB (session_material_from_ffi (the material)) (\<lambda>material.
        bindB (on_auth session (resume_session (fe_lib env) (fe_fill env) (fe_micros env) material)) (\<lambda>refreshed.
        heapB (copy_session_material refreshed))))"

definition atr_auth_session_export_session :: "ptr \<Rightarrow> bool \<Rightarrow> atr_session_material_t ffi_fn" where
  "atr_auth_session_export_session session out_null =
     ffi_call (session = 0 \<or> out_null)
       (bindB (deref ff_auths session) (\<lambda>a.
        heapB (copy_session_material (session_material a))))"

section \<open>Tunnels\<close>

definition atr_client_open_tcp :: "ffi_env \<Rightarrow> ptr \<Rightarrow> ptr \<Rightarrow> u16 \<Rightarrow> bool \<Rightarrow> ptr ffi_fn" where
  "atr_client_open_tcp env client host port out_null =
     ffi_call (client = 0 \<or> host = 0 \<or> out_null)
       (bindB (to_str host) (\<lambda>host.
        bindB (deref ff_clients client) (\<lambda>c.
        case tunnel_connect (fe_tls env) (fe_start env) (fe_sha256 env) (fe_hex_decode env) (fe_hmac env)
               (fe_encode_upper env) (fe_windows env) (fe_os env) c host port of
          None \<Rightarrow> (\<lambda>s. Stuck)
        | Some r \<Rightarrow> bindB (liftB r) (box ff_tcps_update))))"

definition atr_client_open_udp :: "ffi_env \<Rightarrow> ptr \<Rightarrow> ptr \<Rightarrow> u16 \<Rightarrow> bool \<Rightarrow> ptr ffi_fn" where
  "atr_client_open_udp env client host port out_null =
     ffi_call (client = 0 \<or> host = 0 \<or> out_null)
       (bindB (to_str host) (\<lambda>host.
        bindB (deref ff_clients client) (\<lambda>c.
        case udp_connect (fe_lookup env) c host port of
          None \<Rightarrow> (\<lambda>s. Stuck)
        | Some r \<Rightarrow> bindB (liftB r) (box ff_udps_update))))"

text \<open>Dropping a tunnel closes it: the result is the tunnel its worker is left with.\<close>

definition dropped :: "('o \<Rightarrow> 'o option) \<Rightarrow> ('o option \<times> ffi) outcome \<Rightarrow> ('o option \<times> ffi) outcome" where
  "dropped drop_obj r =
     (case r of
        Ret (Some x, s) \<Rightarrow> (case drop_obj x of None \<Rightarrow> Stuck | Some x' \<Rightarrow> Ret (Some x', s))
      | _ \<Rightarrow> r)"

definition atr_tcp_tunnel_free :: "ptr \<Rightarrow> ffi \<Rightarrow> (TcpTunnel option \<times> ffi) outcome" where
  "atr_tcp_tunnel_free tunnel s = dropped tunnel_close (unbox ff_tcps ff_tcps_update tunnel s)"

definition atr_tcp_tunnel_close :: "ptr \<Rightarrow> unit ffi_fn" where
  "atr_tcp_tunnel_close tunnel =
     ffi_call (tunnel = 0) (on_obj ff_tcps ff_tcps_update tunnel (\<lambda>t. map_option (Pair (Inr ())) (tunnel_close t)))"

text \<open>The caller's buffer takes the bytes; \<open>*out_len\<close> is their number.\<close>

definition write_buf :: "ptr \<Rightarrow> bytes \<Rightarrow> nat body" where
  "write_buf buf data s =
     (if data = [] then Ret (Inr 0, s)
      else case hp_cells (ff_heap s) buf of
        Some (CBytes bs) \<Rightarrow>
          Ret (Inr (length data),
            s\<lparr>ff_heap := (ff_heap s)\<lparr>hp_cells := (hp_cells (ff_heap s))(buf \<mapsto> CBytes (overwrite bs 0 data))\<rparr>\<rparr>)
      | _ \<Rightarrow> Undef)"

definition atr_tcp_tunnel_read :: "ptr \<Rightarrow> ptr \<Rightarrow> nat \<Rightarrow> bool \<Rightarrow> nat ffi_fn" where
  "atr_tcp_tunnel_read tunnel buf len out_null =
     ffi_call (tunnel = 0 \<or> buf = 0 \<or> out_null)
       (bindB (byte_slice buf len) (\<lambda>slice.
        bindB (on_obj ff_tcps ff_tcps_update tunnel (tunnel_read (length slice))) (write_buf buf)))"

definition atr_tcp_tunnel_write :: "ptr \<Rightarrow> ptr \<Rightarrow> nat \<Rightarrow> bool \<Rightarrow> nat ffi_fn" where
  "atr_tcp_tunnel_write tunnel buf len out_null =
     ffi_call (tunnel = 0 \<or> buf = 0 \<or> out_null)
       (bindB (byte_slice buf len) (\<lambda>slice.
        on_obj ff_tcps ff_tcps_update tunnel (tunnel_write slice)))"

definition atr_udp_tunnel_free :: "ptr \<Rightarrow> ffi \<Rightarrow> (UdpTunnel option \<times> ffi) outcome" where
  "atr_udp_tunnel_free tunnel s = dropped (\<lambda>t. Some (udp_close t)) (unbox ff_udps ff_udps_update tunnel s)"

definition atr_udp_tunnel_close :: "ptr \<Rightarrow> unit ffi_fn" where
  "atr_udp_tunnel_close tunnel =
     ffi_call (tunnel = 0) (on_obj ff_udps ff_udps_update tunnel (\<lambda>t. Some (Inr (), udp_close t)))"

definition atr_udp_tunnel_read :: "ptr \<Rightarrow> ptr \<Rightarrow> nat \<Rightarrow> bool \<Rightarrow> nat ffi_fn" where
  "atr_udp_tunnel_read tunnel buf len out_null =
     ffi_call (tunnel = 0 \<or> buf = 0 \<or> out_null)
       (bindB (byte_slice buf len) (\<lambda>slice.
        bindB (on_obj ff_udps ff_udps_update tunnel (udp_read (length slice))) (write_buf buf)))"

definition atr_udp_tunnel_write :: "ffi_env \<Rightarrow> ptr \<Rightarrow> ptr \<Rightarrow> nat \<Rightarrow> bool \<Rightarrow> nat ffi_fn" where
  "atr_udp_tunnel_write env tunnel buf len out_null =
     ffi_call (tunnel = 0 \<or> buf = 0 \<or> out_null)
       (bindB (byte_slice buf len) (\<lambda>slice.
        on_obj ff_udps ff_udps_update tunnel (udp_write (fe_connect env) (fe_build env) (fe_meanwhile env) slice)))"

definition atr_client_open_l3 :: "ffi_env \<Rightarrow> ptr \<Rightarrow> bool \<Rightarrow> ptr ffi_fn" where
  "atr_client_open_l3 env client out_null =
     ffi_call (client = 0 \<or> out_null)
       (bindB (deref ff_clients client) (\<lambda>c.
        bindB (liftB (fe_spawn env)) (\<lambda>_.
        box ff_l3s_update (l3_new c))))"

definition atr_l3_tunnel_free :: "ptr \<Rightarrow> ffi \<Rightarrow> (L3TunnelState option \<times> ffi) outcome" where
  "atr_l3_tunnel_free tunnel s = dropped (\<lambda>t. Some (l3_close t)) (unbox ff_l3s ff_l3s_update tunnel s)"

definition atr_l3_tunnel_close :: "ptr \<Rightarrow> unit ffi_fn" where
  "atr_l3_tunnel_close tunnel =
     ffi_call (tunnel = 0) (on_obj ff_l3s ff_l3s_update tunnel (\<lambda>t. Some (Inr (), l3_close t)))"

definition atr_l3_tunnel_send_heartbeat :: "ffi_env \<Rightarrow> ptr \<Rightarrow> unit ffi_fn" where
  "atr_l3_tunnel_send_heartbeat env tunnel =
     ffi_call (tunnel = 0) (on_obj ff_l3s ff_l3s_update tunnel (\<lambda>t. Some (l3_send_heartbeat (fe_connect env) t)))"

definition atr_l3_tunnel_read_packet :: "ptr \<Rightarrow> ptr \<Rightarrow> nat \<Rightarrow> bool \<Rightarrow> nat ffi_fn" where
  "atr_l3_tunnel_read_packet tunnel buf len out_null =
     ffi_call (tunnel = 0 \<or> buf = 0 \<or> out_null)
       (bindB (byte_slice buf len) (\<lambda>slice.
        bindB (on_obj ff_l3s ff_l3s_update tunnel l3_read_packet) (\<lambda>packet.
        if length slice < length packet then liftB (Inl (InvalidArgument ''buffer too small for packet''))
        else write_buf buf packet)))"

definition atr_l3_tunnel_write_packet :: "ffi_env \<Rightarrow> ptr \<Rightarrow> ptr \<Rightarrow> nat \<Rightarrow> bool \<Rightarrow> nat ffi_fn" where
  "atr_l3_tunnel_write_packet env tunnel buf len out_null =
     ffi_call (tunnel = 0 \<or> buf = 0 \<or> out_null)
       (bindB (byte_slice buf len) (\<lambda>slice.
        on_obj ff_l3s ff_l3s_update tunnel (l3_write_packet (fe_connect env) (fe_build env) (fe_meanwhile env) slice)))"

definition atr_l3_tunnel_get_virtual_ips :: "ptr \<Rightarrow> bool \<Rightarrow> atr_string_list_t ffi_fn" where
  "atr_l3_tunnel_get_virtual_ips tunnel out_null =
     ffi_call (tunnel = 0 \<or> out_null)
       (bindB (deref ff_l3s tunnel) (\<lambda>t. set_ipaddr_string_list out_null (l3_vips t)))"

section \<open>The proxy service\<close>

definition atr_client_start_proxy_service ::
  "ffi_env \<Rightarrow> ptr \<Rightarrow> atr_proxy_service_config_t option \<Rightarrow> bool \<Rightarrow> ptr ffi_fn" where
  "atr_client_start_proxy_service env client config out_null =
     ffi_call (client = 0 \<or> config = None \<or> out_null)
       (bindB (proxy_service_config_from_ffi (the config)) (\<lambda>config.
        bindB (deref ff_clients client) (\<lambda>c.
        bindB (liftB (service_start config (fe_bind env) (fe_local_addr env) (mapR (\<lambda>_. l3_new c) (fe_spawn env))
          (fe_listener env))) (box ff_proxies_update))))"

definition atr_proxy_service_stop :: "ffi_env \<Rightarrow> ptr \<Rightarrow> unit ffi_fn" where
  "atr_proxy_service_stop env service =
     ffi_call (service = 0)
       (on_obj ff_proxies ff_proxies_update service (\<lambda>v. map_option (Pair (Inr ())) (fe_stop env v)))"

datatype atr_proxy_service_status_t = ATR_PROXY_SERVICE_RUNNING | ATR_PROXY_SERVICE_STOPPED

fun proxy_service_status_to_ffi :: "ProxyServiceStatus \<Rightarrow> atr_proxy_service_status_t" where
  "proxy_service_status_to_ffi ServiceRunning = ATR_PROXY_SERVICE_RUNNING"
| "proxy_service_status_to_ffi ServiceStopped = ATR_PROXY_SERVICE_STOPPED"

definition atr_proxy_service_status :: "ptr \<Rightarrow> bool \<Rightarrow> atr_proxy_service_status_t ffi_fn" where
  "atr_proxy_service_status service out_null =
     ffi_call (service = 0 \<or> out_null)
       (bindB (deref ff_proxies service) (\<lambda>v. retB (proxy_service_status_to_ffi (service_status v))))"

record atr_proxy_service_endpoint_t =
  pe_host :: ptr
  pe_port :: u16

definition atr_proxy_service_get_endpoint :: "ptr \<Rightarrow> bool \<Rightarrow> atr_proxy_service_endpoint_t ffi_fn" where
  "atr_proxy_service_get_endpoint service out_null =
     ffi_call (service = 0 \<or> out_null)
       (bindB (deref ff_proxies service) (\<lambda>v.
        bindB (heapB (c_string (show_ip (fst (sv_endpoint v))))) (\<lambda>host.
        retB \<lparr>pe_host = host, pe_port = snd (sv_endpoint v)\<rparr>)))"

datatype atr_proxy_service_event_kind_t =
    ATR_PROXY_SERVICE_EVENT_NONE
  | ATR_PROXY_SERVICE_EVENT_ERROR
  | ATR_PROXY_SERVICE_EVENT_SESSION_INVALIDATED

fun proxy_service_event_to_ffi :: "ProxyServiceEvent option \<Rightarrow> (atr_proxy_service_event_kind_t \<times> ptr) heapm" where
  "proxy_service_event_to_ffi (Some (SessionInvalidated message)) =
     bindH (c_string message) (\<lambda>p. retH (ATR_PROXY_SERVICE_EVENT_SESSION_INVALIDATED, p))"
| "proxy_service_event_to_ffi (Some (ErrorEvent message)) =
     bindH (c_string message) (\<lambda>p. retH (ATR_PROXY_SERVICE_EVENT_ERROR, p))"
| "proxy_service_event_to_ffi None = retH (ATR_PROXY_SERVICE_EVENT_NONE, 0)"

record atr_proxy_service_stats_t =
  ps_active_connections :: u64
  ps_total_connections :: u64
  ps_last_error :: ptr
  ps_last_event_kind :: atr_proxy_service_event_kind_t
  ps_last_event_message :: ptr

definition copy_stats :: "ProxyServiceStats \<Rightarrow> atr_proxy_service_stats_t heapm" where
  "copy_stats stats =
     bindH (proxy_service_event_to_ffi (st_last_event stats)) (\<lambda>(kind, message).
     bindH (copy_opt c_string 0 (st_last_error stats)) (\<lambda>err.
     retH \<lparr>ps_active_connections = st_active_connections stats, ps_total_connections = st_total_connections stats,
       ps_last_error = err, ps_last_event_kind = kind, ps_last_event_message = message\<rparr>))"

definition atr_proxy_service_get_stats :: "ptr \<Rightarrow> bool \<Rightarrow> atr_proxy_service_stats_t ffi_fn" where
  "atr_proxy_service_get_stats service out_null =
     ffi_call (service = 0 \<or> out_null)
       (bindB (deref ff_proxies service) (\<lambda>v. heapB (copy_stats (service_stats v))))"

record atr_proxy_service_traffic_stats_t =
  pt_managed_upload_bytes :: u64
  pt_managed_download_bytes :: u64

definition atr_proxy_service_get_traffic_stats :: "ptr \<Rightarrow> bool \<Rightarrow> atr_proxy_service_traffic_stats_t ffi_fn" where
  "atr_proxy_service_get_traffic_stats service out_null =
     ffi_call (service = 0 \<or> out_null)
       (bindB (deref ff_proxies service) (\<lambda>v.
        retB \<lparr>pt_managed_upload_bytes = st_managed_upload_bytes (service_stats v),
          pt_managed_download_bytes = st_managed_download_bytes (service_stats v)\<rparr>))"

definition atr_proxy_service_take_event :: "ptr \<Rightarrow> bool \<Rightarrow> bool \<Rightarrow> (atr_proxy_service_event_kind_t \<times> ptr) ffi_fn" where
  "atr_proxy_service_take_event service kind_null message_null =
     ffi_call (service = 0 \<or> kind_null \<or> message_null)
       (bindB (on_obj ff_proxies ff_proxies_update service (\<lambda>v. Some (apfst Inr (take_event v)))) (\<lambda>event.
        heapB (proxy_service_event_to_ffi event)))"

text \<open>A callback is a number; these are the arguments it is called with when an event is recorded.\<close>

fun event_callback_args :: "ProxyServiceEvent \<Rightarrow> atr_proxy_service_event_kind_t \<times> string" where
  "event_callback_args (SessionInvalidated message) =
     (ATR_PROXY_SERVICE_EVENT_SESSION_INVALIDATED, map (\<lambda>c. if c = CHR 0x00 then CHR '' '' else c) message)"
| "event_callback_args (ErrorEvent message) =
     (ATR_PROXY_SERVICE_EVENT_ERROR, map (\<lambda>c. if c = CHR 0x00 then CHR '' '' else c) message)"

definition atr_proxy_service_set_event_callback :: "ptr \<Rightarrow> nat option \<Rightarrow> unit ffi_fn" where
  "atr_proxy_service_set_event_callback service callback =
     ffi_call (service = 0)
       (on_obj ff_proxies ff_proxies_update service (\<lambda>v. Some (Inr (), event_listener_set callback v)))"

definition atr_proxy_service_free :: "ffi_env \<Rightarrow> ptr \<Rightarrow> ffi \<Rightarrow> (ProxyService option \<times> ffi) outcome" where
  "atr_proxy_service_free env service s = dropped (fe_stop env) (unbox ff_proxies ff_proxies_update service s)"

section \<open>Releasing structures\<close>

text \<open>
  \<open>free\<close> is what a function releases, \<open>clear\<close> its assignments to the fields of the caller's structure, which come after, or
  between, the releases and read nothing that was released.
\<close>

definition free_struct :: "('c \<Rightarrow> freem) \<Rightarrow> ('c \<Rightarrow> 'c) \<Rightarrow> 'c option \<Rightarrow> ffi \<Rightarrow> ('c option \<times> ffi) outcome" where
  "free_struct free clear p s =
     (case p of
        None \<Rightarrow> Ret (None, s)
      | Some c \<Rightarrow>
          (case free c (ff_heap s) of None \<Rightarrow> Undef | Some h \<Rightarrow> Ret (Some (clear c), s\<lparr>ff_heap := h\<rparr>)))"

definition clear_slice :: "c_slice \<Rightarrow> c_slice" where
  "clear_slice l = l\<lparr>cl_items := 0, cl_len := 0\<rparr>"

definition clear_material :: "atr_session_material_t \<Rightarrow> atr_session_material_t" where
  "clear_material session =
     session\<lparr>cs_cookies := clear_slice (cs_cookies session), cs_username := 0, cs_sid := 0, cs_device_id := 0, cs_connection_id := 0,
       cs_sign_key_hex := 0\<rparr>"

definition clear_challenge :: "atr_auth_challenge_t \<Rightarrow> atr_auth_challenge_t" where
  "clear_challenge challenge =
     challenge\<lparr>ch_image := clear_slice (ch_image challenge), ch_session := clear_material (ch_session challenge),
       ch_kind := CHALLENGE_DONE, ch_callback_kind := CHALLENGE_DONE, ch_auth_id := 0, ch_auth_url := 0\<rparr>"

definition clear_snapshot :: "atr_resource_snapshot_t \<Rightarrow> atr_resource_snapshot_t" where
  "clear_snapshot c =
     c\<lparr>cr_resource_bytes := clear_slice (cr_resource_bytes c), cr_ip_resources := clear_slice (cr_ip_resources c),
       cr_domain_resources := clear_slice (cr_domain_resources c), cr_dns_resources := clear_slice (cr_dns_resources c),
       cr_node_groups := clear_slice (cr_node_groups c), cr_excluded_ips := clear_slice (cr_excluded_ips c),
       cr_dns_server := 0, cr_major_node_group := 0\<rparr>"

definition clear_endpoint :: "atr_proxy_service_endpoint_t \<Rightarrow> atr_proxy_service_endpoint_t" where
  "clear_endpoint e = e\<lparr>pe_host := 0, pe_port := 0\<rparr>"

definition clear_stats :: "atr_proxy_service_stats_t \<Rightarrow> atr_proxy_service_stats_t" where
  "clear_stats st =
     st\<lparr>ps_last_error := 0, ps_last_event_message := 0, ps_last_event_kind := ATR_PROXY_SERVICE_EVENT_NONE,
       ps_active_connections := 0, ps_total_connections := 0\<rparr>"

definition atr_string_free :: "ptr \<Rightarrow> ffi \<Rightarrow> ffi outcome" where
  "atr_string_free p s = (case free_c_string p (ff_heap s) of None \<Rightarrow> Undef | Some h \<Rightarrow> Ret (s\<lparr>ff_heap := h\<rparr>))"

definition atr_resource_snapshot_free ::
  "atr_resource_snapshot_t option \<Rightarrow> ffi \<Rightarrow> (atr_resource_snapshot_t option \<times> ffi) outcome" where
  "atr_resource_snapshot_free = free_struct free_resource_snapshot clear_snapshot"

definition free_proxy_service_endpoint :: "atr_proxy_service_endpoint_t \<Rightarrow> freem" where
  "free_proxy_service_endpoint e = free_c_string (pe_host e)"

definition atr_proxy_service_endpoint_free ::
  "atr_proxy_service_endpoint_t option \<Rightarrow> ffi \<Rightarrow> (atr_proxy_service_endpoint_t option \<times> ffi) outcome" where
  "atr_proxy_service_endpoint_free = free_struct free_proxy_service_endpoint clear_endpoint"

definition free_proxy_service_stats :: "atr_proxy_service_stats_t \<Rightarrow> freem" where
  "free_proxy_service_stats st = thenF (free_c_string (ps_last_error st)) (free_c_string (ps_last_event_message st))"

definition atr_proxy_service_stats_free ::
  "atr_proxy_service_stats_t option \<Rightarrow> ffi \<Rightarrow> (atr_proxy_service_stats_t option \<times> ffi) outcome" where
  "atr_proxy_service_stats_free = free_struct free_proxy_service_stats clear_stats"

definition atr_blob_free :: "atr_blob_t option \<Rightarrow> ffi \<Rightarrow> (atr_blob_t option \<times> ffi) outcome" where
  "atr_blob_free = free_struct free_blob clear_slice"

definition atr_string_list_free :: "atr_string_list_t option \<Rightarrow> ffi \<Rightarrow> (atr_string_list_t option \<times> ffi) outcome" where
  "atr_string_list_free = free_struct free_string_list clear_slice"

definition atr_auth_method_list_free ::
  "atr_auth_method_list_t option \<Rightarrow> ffi \<Rightarrow> (atr_auth_method_list_t option \<times> ffi) outcome" where
  "atr_auth_method_list_free = free_struct auth_method_list_free clear_slice"

definition atr_session_material_free ::
  "atr_session_material_t option \<Rightarrow> ffi \<Rightarrow> (atr_session_material_t option \<times> ffi) outcome" where
  "atr_session_material_free = free_struct free_session_material clear_material"

definition atr_auth_challenge_free ::
  "atr_auth_challenge_t option \<Rightarrow> ffi \<Rightarrow> (atr_auth_challenge_t option \<times> ffi) outcome" where
  "atr_auth_challenge_free = free_struct free_challenge clear_challenge"

section \<open>Logging\<close>

definition atr_set_verbose_logging :: "bool \<Rightarrow> LogState \<times> files \<Rightarrow> LogState \<times> files" where
  "atr_set_verbose_logging on = apfst (set_verbose_logging on)"

definition atr_verbose_logging_enabled :: "LogState \<times> files \<Rightarrow> bool" where
  "atr_verbose_logging_enabled lg = enabled (fst lg)"

definition atr_log_write ::
  "log_io \<Rightarrow> string option \<Rightarrow> u64 \<times> nat \<Rightarrow> ptr \<Rightarrow> heap \<Rightarrow> LogState \<times> files \<Rightarrow> (LogState \<times> files) outcome" where
  "atr_log_write io home now message h lg =
     (if message = 0 \<or> \<not> atr_verbose_logging_enabled lg then Ret lg
      else case hp_cells h message of
        Some (CStr v) \<Rightarrow> Ret (log_write io home now (from_utf8_lossy (str_bytes v)) lg)
      | _ \<Rightarrow> Undef)"

section \<open>Cleared structures\<close>

text \<open>A structure with nothing in it; releasing leaves every structure like this.\<close>

definition no_snapshot :: atr_resource_snapshot_t where
  "no_snapshot = \<lparr>cr_resource_bytes = no_slice, cr_dns_server = 0, cr_major_node_group = 0, cr_ip_resources = no_slice,
     cr_domain_resources = no_slice, cr_dns_resources = no_slice, cr_node_groups = no_slice, cr_excluded_ips = no_slice\<rparr>"

definition no_stats :: atr_proxy_service_stats_t where
  "no_stats = \<lparr>ps_active_connections = 0, ps_total_connections = 0, ps_last_error = 0,
     ps_last_event_kind = ATR_PROXY_SERVICE_EVENT_NONE, ps_last_event_message = 0\<rparr>"

definition no_endpoint :: atr_proxy_service_endpoint_t where
  "no_endpoint = \<lparr>pe_host = 0, pe_port = 0\<rparr>"

lemma clears_all:
  "clear_slice l = no_slice" "clear_material session = no_session" "clear_challenge challenge = no_challenge"
  "clear_snapshot snap = no_snapshot" "clear_endpoint ep = no_endpoint" "clear_stats st = no_stats"
  by (simp_all add: clear_slice_def no_slice_def clear_material_def no_session_def clear_challenge_def no_challenge_def
      clear_snapshot_def no_snapshot_def clear_endpoint_def no_endpoint_def clear_stats_def no_stats_def)

end
