(* ===== verification/Ffi_Safety.thy ===== *)
theory Ffi_Safety
  imports Ffi
begin

text \<open>
  What holds of every call of the C interface: memory stays typed and failures are reported. The contract of
  a table of boxed objects is the locale \<open>obj_table\<close>, interpreted on the six tables; the calls a C program makes
  are the step relation \<open>c_step\<close>.
\<close>

section \<open>Typed memory\<close>

text \<open>What lives at an address: a cell of the heap, or a boxed object of one of the six kinds.\<close>

datatype mem_kind = KCell | KClient | KAuth | KTcp | KUdp | KL3 | KProxy

fun has :: "ffi \<Rightarrow> mem_kind \<Rightarrow> ptr \<Rightarrow> bool" where
  "has s KCell p = (hp_cells (ff_heap s) p \<noteq> None)"
| "has s KClient p = (ff_clients s p \<noteq> None)"
| "has s KAuth p = (ff_auths s p \<noteq> None)"
| "has s KTcp p = (ff_tcps s p \<noteq> None)"
| "has s KUdp p = (ff_udps s p \<noteq> None)"
| "has s KL3 p = (ff_l3s s p \<noteq> None)"
| "has s KProxy p = (ff_proxies s p \<noteq> None)"

definition ffi_wf :: "ffi \<Rightarrow> bool" where
  "ffi_wf s \<longleftrightarrow> heap_wf (ff_heap s) \<and>
     (\<forall>k p. has s k p \<longrightarrow> 2 \<le> p \<and> p < hp_next (ff_heap s) \<and> (\<forall>k'. has s k' p \<longrightarrow> k' = k))"

text \<open>A change that puts nothing new below the old frontier, and things of one kind above it.\<close>

definition grows :: "mem_kind \<Rightarrow> ffi \<Rightarrow> ffi \<Rightarrow> bool" where
  "grows new s s' \<longleftrightarrow> heap_wf (ff_heap s') \<and> hp_next (ff_heap s) \<le> hp_next (ff_heap s') \<and>
     (\<forall>k p. has s' k p \<longrightarrow> has s k p \<or> k = new \<and> hp_next (ff_heap s) \<le> p \<and> p < hp_next (ff_heap s'))"

lemma grows_wf:
  assumes "ffi_wf s" "grows new s s'"
  shows "ffi_wf s'"
  unfolding ffi_wf_def
proof (intro conjI allI impI)
  show "heap_wf (ff_heap s')" using assms(2) by (simp add: grows_def)
  fix k p
  assume "has s' k p"
  with assms(2) have k: "has s k p \<or> k = new \<and> hp_next (ff_heap s) \<le> p \<and> p < hp_next (ff_heap s')" by (simp add: grows_def)
  from assms have "2 \<le> hp_next (ff_heap s)" "hp_next (ff_heap s) \<le> hp_next (ff_heap s')"
    by (simp_all add: ffi_wf_def grows_def heap_wf_def)
  moreover have "has s k p \<Longrightarrow> 2 \<le> p \<and> p < hp_next (ff_heap s)" using assms(1) by (simp add: ffi_wf_def)
  ultimately show "2 \<le> p" "p < hp_next (ff_heap s')" using k by auto
  fix k'
  assume "has s' k' p"
  with assms(2) have "has s k' p \<or> k' = new \<and> hp_next (ff_heap s) \<le> p" by (auto simp: grows_def)
  with k assms(1) show "k' = k" unfolding ffi_wf_def by (metis linorder_not_less)
qed

lemma wf_beyond: "ffi_wf s \<Longrightarrow> hp_next (ff_heap s) \<le> p \<Longrightarrow> \<not> has s k p"
  unfolding ffi_wf_def using linorder_not_less by blast

lemma has_heap: "has (s\<lparr>ff_heap := h\<rparr>) k p \<longleftrightarrow> (if k = KCell then hp_cells h p \<noteq> None else has s k p)"
  by (cases k) auto

section \<open>Calls that keep memory typed\<close>

text \<open>
  A step of a call: it keeps memory typed, does not touch the last error, and no boxed object but those named disappears.
\<close>

definition keeps :: "(mem_kind \<times> ptr) set \<Rightarrow> (ffi \<Rightarrow> ('a \<times> ffi) outcome) \<Rightarrow> bool" where
  "keeps gone m \<longleftrightarrow> (\<forall>s r s'. ffi_wf s \<longrightarrow> m s = Ret (r, s') \<longrightarrow> ffi_wf s' \<and> ff_last_error s' = ff_last_error s \<and>
     (\<forall>k p. k \<noteq> KCell \<longrightarrow> has s k p \<longrightarrow> (k, p) \<notin> gone \<longrightarrow> has s' k p))"

named_theorems keeps_intros "steps that keep memory typed"

lemma keepsD:
  "keeps gone m \<Longrightarrow> ffi_wf s \<Longrightarrow> m s = Ret (r, s') \<Longrightarrow> ffi_wf s' \<and> ff_last_error s' = ff_last_error s"
  "keeps gone m \<Longrightarrow> ffi_wf s \<Longrightarrow> m s = Ret (r, s') \<Longrightarrow> k \<noteq> KCell \<Longrightarrow> has s k p \<Longrightarrow> (k, p) \<notin> gone \<Longrightarrow> has s' k p"
  unfolding keeps_def by blast+

lemma keeps_pure [keeps_intros]: "keeps {} (retB v)" "keeps {} (liftB r)" "keeps {} (readB f)" "keeps {} (deref tbl p)"
  by (auto simp: keeps_def retB_def liftB_def readB_def deref_def split: option.splits)

lemma keeps_stuck [keeps_intros]: "keeps {} (\<lambda>s. Stuck)"
  by (simp add: keeps_def)

lemma bindB_Ret:
  assumes "bindB m f s = Ret (r, s')"
  shows "(\<exists>e. m s = Ret (Inl e, s') \<and> r = Inl e) \<or> (\<exists>v s1. m s = Ret (Inr v, s1) \<and> f v s1 = Ret (r, s'))"
  using assms by (auto simp: bindB_def split: outcome.splits prod.splits sum.splits)

lemma keeps_bind [keeps_intros]:
  assumes "keeps {} m" "\<And>v. keeps {} (f v)"
  shows "keeps {} (bindB m f)"
  unfolding keeps_def
proof (intro allI impI)
  fix s r s'
  assume "ffi_wf s" "bindB m f s = Ret (r, s')"
  then show "ffi_wf s' \<and> ff_last_error s' = ff_last_error s \<and>
      (\<forall>k p. k \<noteq> KCell \<longrightarrow> has s k p \<longrightarrow> (k, p) \<notin> {} \<longrightarrow> has s' k p)"
  proof (elim bindB_Ret [THEN disjE] exE conjE)
    fix e
    assume "m s = Ret (Inl e, s')"
    then show ?thesis using assms(1) \<open>ffi_wf s\<close> unfolding keeps_def by blast
  next
    fix v s1
    assume 1: "m s = Ret (Inr v, s1)" and 2: "f v s1 = Ret (r, s')"
    note first = keepsD [OF assms(1) \<open>ffi_wf s\<close> 1]
    then have wf: "ffi_wf s1" by blast
    show ?thesis using first keepsD [OF assms(2) wf 2] by auto
  qed
qed

lemma keeps_if [keeps_intros]: "(b \<Longrightarrow> keeps {} m) \<Longrightarrow> (\<not> b \<Longrightarrow> keeps {} m') \<Longrightarrow> keeps {} (if b then m else m')"
  by simp

lemma keeps_case: "(r = None \<Longrightarrow> keeps {} m) \<Longrightarrow> (\<And>v. keeps {} (f v)) \<Longrightarrow> keeps {} (case r of None \<Rightarrow> m | Some v \<Rightarrow> f v)"
  by (cases r) simp_all

lemma keeps_each [keeps_intros]: "(\<And>c. keeps {} (f c)) \<Longrightarrow> keeps {} (each_from_ffi f cs)"
  by (induction cs) (simp_all add: keeps_intros)

lemma keeps_heap:
  assumes "copies m Q"
  shows "keeps {} (heapB m)"
  unfolding keeps_def
proof (intro allI impI)
  fix s r s'
  assume wf: "ffi_wf s" and run: "heapB m s = Ret (r, s')"
  then obtain h where h: "m (ff_heap s) = (r, h)" "s' = s\<lparr>ff_heap := h\<rparr>"
    by (auto simp: heapB_def split: prod.splits)
  from wf have hw: "heap_wf (ff_heap s)" by (simp add: ffi_wf_def)
  from copiesD [OF assms hw h(1)] have 1: "heap_wf h" "extends (ff_heap s) h" by blast+
  then have "grows KCell s s'"
    by (auto simp: grows_def h(2) extends_def heap_wf_def has_heap linorder_not_less)
  with wf h(2) show "ffi_wf s' \<and> ff_last_error s' = ff_last_error s \<and>
      (\<forall>k p. k \<noteq> KCell \<longrightarrow> has s k p \<longrightarrow> (k, p) \<notin> {} \<longrightarrow> has s' k p)" by (auto simp: has_heap intro: grows_wf)
qed

section \<open>Tables of boxed objects\<close>

text \<open>A table holds the objects of one kind, and changing it changes nothing else.\<close>

locale obj_table =
  fixes tbl :: "ffi \<Rightarrow> ptr \<Rightarrow> 'o option"
    and upd :: "((ptr \<Rightarrow> 'o option) \<Rightarrow> ptr \<Rightarrow> 'o option) \<Rightarrow> ffi \<Rightarrow> ffi"
    and kind :: mem_kind
  assumes tbl_upd: "tbl (upd f s) = f (tbl s)"
    and heap_upd: "ff_heap (upd f s) = ff_heap s"
    and error_upd: "ff_last_error (upd f s) = ff_last_error s"
    and tbl_heap: "tbl (s\<lparr>ff_heap := h\<rparr>) = tbl s"
    and tbl_has: "has s kind p \<longleftrightarrow> tbl s p \<noteq> None"
    and other_has: "k \<noteq> kind \<Longrightarrow> has (upd f s) k p \<longleftrightarrow> has s k p"
    and not_cell: "kind \<noteq> KCell"
begin

lemma keeps_upd:
  assumes "ffi_wf s" "\<And>p. f (tbl s) p \<noteq> None \<Longrightarrow> tbl s p \<noteq> None"
  shows "ffi_wf (upd f s)"
proof (rule grows_wf [OF assms(1), of kind])
  have "has (upd f s) k p \<Longrightarrow> has s k p" for k p
    using assms(2) [of p] tbl_has other_has by (cases "k = kind") (auto simp: tbl_upd)
  with assms(1) show "grows kind s (upd f s)" by (auto simp: grows_def ffi_wf_def heap_upd)
qed

lemma keeps_box: "keeps {} (box upd x)"
  unfolding keeps_def
proof (intro allI impI)
  fix s r s'
  assume wf: "ffi_wf s" and run: "box upd x s = Ret (r, s')"
  let ?p = "hp_next (ff_heap s)"
  let ?t = "s\<lparr>ff_heap := (ff_heap s)\<lparr>hp_next := ?p + 1\<rparr>\<rparr>"
  from run have s': "s' = upd (\<lambda>t. t(?p \<mapsto> x)) ?t" by (simp add: box_def Let_def)
  have "has ?t k p \<longleftrightarrow> has s k p" for k p by (simp add: has_heap)
  then have "has s' k p \<Longrightarrow> has s k p \<or> k = kind \<and> p = ?p" for k p
    using tbl_has other_has by (cases "k = kind") (auto simp: s' tbl_upd tbl_heap split: if_splits)
  moreover have "heap_wf (ff_heap s')" "hp_next (ff_heap s') = ?p + 1"
    using wf by (auto simp: s' heap_upd ffi_wf_def heap_wf_def)
  ultimately have "grows kind s s'" by (fastforce simp: grows_def)
  moreover have "has s' k p" if "has s k p" for k p
    using that \<open>\<And>k p. has ?t k p \<longleftrightarrow> has s k p\<close> tbl_has other_has by (cases "k = kind") (auto simp: s' tbl_upd tbl_heap)
  moreover have "ff_last_error s' = ff_last_error s" by (simp add: s' error_upd)
  ultimately show "ffi_wf s' \<and> ff_last_error s' = ff_last_error s \<and>
      (\<forall>k p. k \<noteq> KCell \<longrightarrow> has s k p \<longrightarrow> (k, p) \<notin> {} \<longrightarrow> has s' k p)" using wf grows_wf by blast
qed

lemma has_upd: "has (upd f s) k p \<longleftrightarrow> (if k = kind then f (tbl s) p \<noteq> None else has s k p)"
  using tbl_has [of "upd f s" p] other_has [of k f s p] by (simp add: tbl_upd)

lemma keeps_obj: "keeps {} (on_obj tbl upd p f)"
  unfolding keeps_def on_obj_def
  by (auto simp: error_upd has_upd tbl_has split: option.splits prod.splits if_splits intro!: keeps_upd)

lemma keeps_unbox: "keeps {(kind, p)} (unbox tbl upd p)"
  unfolding keeps_def unbox_def
  by (auto simp: error_upd has_upd tbl_has split: option.splits prod.splits if_splits intro!: keeps_upd)

text \<open>A new box has an address of its own.\<close>

lemma boxed:
  assumes "ffi_wf s" "box upd x s = Ret (Inr p, s1)"
  shows "p \<noteq> 0" "\<not> has s k p"
  using assms wf_beyond [OF assms(1), of p k] by (auto simp: box_def Let_def ffi_wf_def heap_wf_def)

end

interpretation clients: obj_table ff_clients ff_clients_update KClient
  by unfold_locales (auto elim: has.elims)

interpretation auths: obj_table ff_auths ff_auths_update KAuth
  by unfold_locales (auto elim: has.elims)

interpretation tcps: obj_table ff_tcps ff_tcps_update KTcp
  by unfold_locales (auto elim: has.elims)

interpretation udps: obj_table ff_udps ff_udps_update KUdp
  by unfold_locales (auto elim: has.elims)

interpretation l3s: obj_table ff_l3s ff_l3s_update KL3
  by unfold_locales (auto elim: has.elims)

interpretation proxies: obj_table ff_proxies ff_proxies_update KProxy
  by unfold_locales (auto elim: has.elims)

lemmas [keeps_intros] = clients.keeps_box auths.keeps_box tcps.keeps_box udps.keeps_box l3s.keeps_box proxies.keeps_box
lemmas [keeps_intros] = clients.keeps_obj auths.keeps_obj tcps.keeps_obj udps.keeps_obj l3s.keeps_obj proxies.keeps_obj
lemmas [keeps_intros] = clients.keeps_unbox auths.keeps_unbox tcps.keeps_unbox udps.keeps_unbox l3s.keeps_unbox proxies.keeps_unbox

section \<open>The parts of the calls\<close>

lemma keeps_input [keeps_intros]:
  "keeps {} (read_cstr p)" "keeps {} (to_str p)" "keeps {} (cstr_to_string p field)" "keeps {} (read_slice unwrap p len)"
  "keeps {} (byte_slice p len)" "keeps {} (opt_string p field)"
  by (simp_all add: read_cstr_def to_str_def cstr_to_string_def read_slice_def byte_slice_def opt_string_def keeps_intros)

lemma keeps_from_ffi [keeps_intros]:
  "keeps {} (client_config_from_ffi cc)" "keeps {} (auth_config_from_ffi ac)" "keeps {} (password_input_from_ffi pw)"
  "keeps {} (sms_input_from_ffi sm)" "keeps {} (callback_target_from_ffi ct)" "keeps {} (session_material_from_ffi ss)"
  "keeps {} (proxy_service_config_from_ffi px)"
  unfolding client_config_from_ffi_def auth_config_from_ffi_def password_input_from_ffi_def sms_input_from_ffi_def
    callback_target_from_ffi_def session_material_from_ffi_def proxy_service_config_from_ffi_def cookie_from_ffi_def
  by (intro keeps_intros)+

lemma keeps_on [keeps_intros]: "keeps {} (on_client p f)" "keeps {} (on_auth p g)"
  by (simp_all add: on_client_def on_auth_def keeps_intros)

lemma keeps_write_buf [keeps_intros]: "keeps {} (write_buf buf data)"
  unfolding keeps_def
proof (intro allI impI)
  fix s r s'
  assume wf: "ffi_wf s" and run: "write_buf buf data s = Ret (r, s')"
  then have "grows KCell s s' \<and> ff_last_error s' = ff_last_error s"
    by (auto simp: write_buf_def grows_def ffi_wf_def heap_wf_def has_heap
        split: if_splits option.splits cell.splits)
  moreover have "has s k p \<Longrightarrow> k \<noteq> KCell \<Longrightarrow> has s' k p" for k p
    using run by (auto simp: write_buf_def has_heap split: if_splits option.splits cell.splits)
  ultimately show "ffi_wf s' \<and> ff_last_error s' = ff_last_error s \<and>
      (\<forall>k p. k \<noteq> KCell \<longrightarrow> has s k p \<longrightarrow> (k, p) \<notin> {} \<longrightarrow> has s' k p)" using wf grows_wf by blast
qed

text \<open>Releasing only takes cells away.\<close>

definition releases :: "freem \<Rightarrow> bool" where
  "releases f \<longleftrightarrow> (\<forall>h h'. f h = Some h' \<longrightarrow> (\<exists>S. h' = release S h))"

named_theorems releases_intros "functions that only release"

lemma releases_string [releases_intros]: "releases (free_c_string p)"
proof -
  have "\<exists>S. h = release S h" for h by (rule exI [of _ "{}"]) simp
  then show ?thesis by (auto simp: releases_def free_c_string_def split: if_splits option.splits cell.splits)
qed

lemma releases_slice [releases_intros]: "releases (free_boxed_slice unwrap sl)"
proof -
  have "\<exists>S. h = release S h" for h by (rule exI [of _ "{}"]) simp
  then show ?thesis by (auto simp: releases_def free_boxed_slice_def split: if_splits option.splits)
qed

lemma releases_then [releases_intros]: "releases f \<Longrightarrow> releases g \<Longrightarrow> releases (thenF f g)"
  unfolding releases_def thenF_def by (auto simp: bind_eq_Some_conv) (blast intro: release_release)

lemma releases_each [releases_intros]: "(\<And>c. releases (free c)) \<Longrightarrow> releases (free_each free cs)"
proof (induction cs)
  case Nil
  show ?case unfolding releases_def by (metis free_each.simps(1) option.inject release_empty)
qed (simp add: releases_intros)

lemma releases_items [releases_intros]:
  assumes "\<And>c. releases (free c)"
  shows "releases (free_items free unwrap sl)"
  unfolding releases_def
proof (intro allI impI)
  fix h h'
  assume run: "free_items free unwrap sl h = Some h'"
  show "\<exists>S. h' = release S h"
  proof (cases "cl_items sl \<noteq> 0 \<and> 0 < cl_len sl")
    case True
    with run obtain cs where "thenF (free_each free cs) (free_boxed_slice unwrap sl) h = Some h'"
      by (auto simp: free_items_def split: option.splits)
    moreover have "releases (thenF (free_each free cs) (free_boxed_slice unwrap sl))"
      by (intro releases_intros assms)
    ultimately show ?thesis by (simp add: releases_def)
  next
    case False
    with run show ?thesis by (auto simp: free_items_def intro: exI [of _ "{}"])
  qed
qed

lemma releases_structs [releases_intros]:
  "releases (free_blob b)" "releases (free_string_list l)" "releases (free_session_material m)" "releases (free_challenge ch)"
  "releases (free_resource_snapshot rs)" "releases (auth_method_list_free ml)" "releases (free_proxy_service_endpoint e)"
  "releases (free_proxy_service_stats st)"
  unfolding free_blob_def free_string_list_def free_session_material_def free_cookie_list_def free_cookie_record_def
    free_challenge_def free_resource_snapshot_def auth_method_list_free_def free_auth_method_def free_ip_resource_list_def
    free_ip_resource_def free_domain_resource_list_def free_domain_resource_def free_dns_resource_list_def
    free_dns_resource_def free_node_group_list_def free_node_group_def free_proxy_service_endpoint_def free_proxy_service_stats_def
  by (intro releases_intros)+

lemma release_wf:
  assumes "ffi_wf s"
  shows "ffi_wf (s\<lparr>ff_heap := release S (ff_heap s)\<rparr>)"
proof (rule grows_wf [OF assms, of KCell])
  show "grows KCell s (s\<lparr>ff_heap := release S (ff_heap s)\<rparr>)"
    using assms by (auto simp: grows_def ffi_wf_def heap_wf_def has_heap release_def split: if_splits)
qed

lemma keeps_free_struct [keeps_intros]:
  assumes "\<And>c. releases (free c)"
  shows "keeps {} (free_struct free clear p)"
  unfolding keeps_def
proof (intro allI impI)
  fix s r s'
  assume wf: "ffi_wf s" and run: "free_struct free clear p s = Ret (r, s')"
  have "\<exists>S. s' = s\<lparr>ff_heap := release S (ff_heap s)\<rparr>"
  proof (cases p)
    case None
    with run show ?thesis by (auto simp: free_struct_def intro: exI [of _ "{}"])
  next
    case (Some c)
    with run obtain h where "free c (ff_heap s) = Some h" "s' = s\<lparr>ff_heap := h\<rparr>" by (auto simp: free_struct_def split: option.splits)
    with assms [of c] show ?thesis unfolding releases_def by blast
  qed
  with wf show "ffi_wf s' \<and> ff_last_error s' = ff_last_error s \<and>
      (\<forall>k p. k \<noteq> KCell \<longrightarrow> has s k p \<longrightarrow> (k, p) \<notin> {} \<longrightarrow> has s' k p)" by (auto simp: has_heap intro: release_wf)
qed

section \<open>Events, statistics and endpoints as structures\<close>

definition event_at :: "atr_proxy_service_event_kind_t \<times> ptr \<Rightarrow> ProxyServiceEvent option \<Rightarrow> assn" where
  "event_at c v = (\<lambda>h S. fst c = (case v of None \<Rightarrow> ATR_PROXY_SERVICE_EVENT_NONE | Some ev \<Rightarrow> fst (event_callback_args ev)) \<and>
     opt_at str_at 0 (snd c) (map_option (\<lambda>ev. case ev of SessionInvalidated m \<Rightarrow> m | ErrorEvent m \<Rightarrow> m) v) h S)"

lemma footed_event [footed_intros]: "footed (event_at c v)"
  unfolding event_at_def by (intro footed_intros)

lemma copies_event [copies_intros]: "copies (proxy_service_event_to_ffi v) (\<lambda>c. event_at c v)"
  by (cases v rule: proxy_service_event_to_ffi.cases; simp only: proxy_service_event_to_ffi.simps; rule copies_weaken,
      (rule copies_intros footed_intros)+) (auto simp: event_at_def opt_at_def star_ex star_pure)

definition stats_at :: "atr_proxy_service_stats_t \<Rightarrow> ProxyServiceStats \<Rightarrow> assn" where
  "stats_at c v = (\<lambda>h S. (ps_active_connections c = st_active_connections v \<and> ps_total_connections c = st_total_connections v) \<and>
     star (opt_at str_at 0 (ps_last_error c) (st_last_error v))
       (event_at (ps_last_event_kind c, ps_last_event_message c) (st_last_event v)) h S)"

lemma frees_event: "frees (free_c_string p) (event_at (kind, p) v)"
  unfolding event_at_def snd_conv by (intro frees_pure opt_str.opt.free_at)

interpretation stats: ffi_optional copy_stats stats_at free_proxy_service_stats no_stats
proof
  show "footed (stats_at c v)" for c v unfolding stats_at_def by (intro footed_intros)
  show "copies (copy_stats v) (\<lambda>c. stats_at c v)" for v unfolding copy_stats_def case_prod_beta
    by (rule copies_weaken, (rule copies_intros footed_intros)+) (auto simp: stats_at_def star_ex star_pure star_commute)
  show "frees (free_proxy_service_stats c) (stats_at c v)" for c v unfolding free_proxy_service_stats_def stats_at_def
    by (intro frees_pure frees_then opt_str.opt.free_at frees_event footed_intros)
  show "free_proxy_service_stats no_stats h = Some h" for h
    by (simp add: free_proxy_service_stats_def no_stats_def thenF_def free_c_string_def)
qed

lemma copies_snapshot: "copies (copy_resource_snapshot snap bs) (\<lambda>c. snapshot_at c (snap, bs))"
  using snapshot.copy_at [of "(snap, bs)"] by simp

lemmas [keeps_intros] = copies_c_string [THEN keeps_heap] blob.copy_at [THEN keeps_heap] session.copy_at [THEN keeps_heap]
  challenge.copy_at [THEN keeps_heap] copies_snapshot [THEN keeps_heap] auth_method.list.copy_at [THEN keeps_heap]
  c_str.list.copy_at [THEN keeps_heap] copies_event [THEN keeps_heap] stats.copy_at [THEN keeps_heap]

lemma keeps_out [keeps_intros]:
  "keeps {} (set_string_out n v)" "keeps {} (set_blob_out n bs)" "keeps {} (set_ipaddr_string_list n vs)"
  unfolding set_string_out_def set_blob_out_def set_ipaddr_string_list_def set_string_list_out_def set_out_def copy_string_list_def
  by (intro keeps_intros)+

section \<open>Reports\<close>

text \<open>
  What a call reports. With a null argument it returns 1 at once and changes nothing at all. Otherwise success leaves the message
  of an earlier failure in place, and every failure leaves its message.
\<close>

definition error_text :: "AtrError \<Rightarrow> string" where
  "error_text e = (if CHR 0x00 \<in> set (error_display e) then ''error'' else error_display e)"

definition report :: "int \<Rightarrow> ffi \<Rightarrow> ffi \<Rightarrow> bool" where
  "report c s s' \<longleftrightarrow>
     (c = error_code_i32 CodeOk \<and> atr_last_error_message s' = atr_last_error_message s) \<or>
     (\<exists>e. c = error_code_i32 (code e) \<and> atr_last_error_message s' = Some (error_text e))"

definition reports :: "bool \<Rightarrow> (ffi \<Rightarrow> ((int \<times> 'a option) \<times> ffi) outcome) \<Rightarrow> bool" where
  "reports null m \<longleftrightarrow> (null \<longrightarrow> (\<forall>s. m s = Ret ((1, None), s))) \<and>
     (\<not> null \<longrightarrow> (\<forall>s c out s'. ffi_wf s \<longrightarrow> m s = Ret ((c, out), s') \<longrightarrow> ffi_wf s' \<and> report c s s' \<and>
        (\<forall>k p. k \<noteq> KCell \<longrightarrow> has s k p \<longrightarrow> has s' k p)))"

lemma error_wf: "ffi_wf s \<Longrightarrow> ffi_wf (s\<lparr>ff_last_error := m\<rparr>)"
proof -
  have "has (s\<lparr>ff_last_error := m\<rparr>) k p = has s k p" for k p by (cases k) auto
  then show "ffi_wf s \<Longrightarrow> ffi_wf (s\<lparr>ff_last_error := m\<rparr>)" by (simp add: ffi_wf_def)
qed

lemma reports_result:
  assumes "keeps {} body"
  shows "reports False (ffi_result body)"
proof -
  have "ffi_wf s' \<and> report c s s' \<and> (\<forall>k p. k \<noteq> KCell \<longrightarrow> has s k p \<longrightarrow> has s' k p)"
    if wf: "ffi_wf s" and run: "ffi_result body s = Ret ((c, out), s')" for s c out s'
  proof -
    from run obtain r s1 where b: "body s = Ret (r, s1)" by (auto simp: ffi_result_def split: outcome.splits)
    note k = keepsD(1) [OF assms wf b] keepsD(2) [OF assms wf b, simplified]
    have e: "has (s1\<lparr>ff_last_error := m\<rparr>) k p = has s1 k p" for m k p by (cases k) auto
    show ?thesis
    proof (cases r)
      case (Inl e)
      with run b have "c = error_code_i32 (code e)" "s' = s1\<lparr>ff_last_error := Some (error_text e)\<rparr>"
        by (auto simp: ffi_result_def store_error_def error_text_def)
      with k e show ?thesis by (auto simp: report_def atr_last_error_message_def intro: error_wf)
    next
      case (Inr v)
      with run b k show ?thesis by (auto simp: ffi_result_def report_def atr_last_error_message_def)
    qed
  qed
  then show ?thesis by (simp add: reports_def)
qed

lemma reports_call: "keeps {} body \<Longrightarrow> reports n (ffi_call n body)"
  using reports_result [of body] by (cases n) (simp_all add: reports_def ffi_call_def)

lemma reports_route: "reports (p = 0 \<or> q = 0 \<or> n) (ffi_route p q port n kind)"
proof -
  let ?b = "bindB (to_str q) (\<lambda>host. bindB (deref ff_clients p) (\<lambda>c. retB (managed_decision (case kind of
      Tcp \<Rightarrow> route_tcp c host port | Udp \<Rightarrow> route_udp c host port | Icmp \<Rightarrow> route_icmp c host))))"
  have "reports False (ffi_result ?b)" by (intro reports_result keeps_intros)
  then show ?thesis
    unfolding reports_def ffi_route_def by (cases "p = 0 \<or> q = 0 \<or> n") (auto split: outcome.splits)
qed

lemma client_calls:
  "reports (cfg = None \<or> n) (atr_client_new cfg n)"
  "reports (p = 0 \<or> mat = None) (atr_client_set_session p mat)"
  "reports (p = 0 \<or> buf = 0 \<or> q = 0) (atr_client_set_resource env p buf len q)"
  "reports (p = 0 \<or> n) (atr_client_get_resource_bytes p n)"
  "reports (p = 0 \<or> n) (atr_client_get_dns_server p n)"
  "reports (p = 0 \<or> n) (atr_client_get_major_node_group p n)"
  "reports (p = 0 \<or> n) (atr_client_get_resource_snapshot p n)"
  unfolding atr_client_new_def atr_client_set_session_def atr_client_set_resource_def
    atr_client_get_resource_bytes_def atr_client_get_dns_server_def atr_client_get_major_node_group_def
    atr_client_get_resource_snapshot_def
  by (intro reports_call keeps_intros)+

lemma auth_calls:
  "reports (acfg = None \<or> n) (atr_auth_session_new env acfg n)"
  "reports (p = 0 \<or> n) (atr_auth_session_available_methods env p n)"
  "reports (p = 0 \<or> q = 0 \<or> n) (atr_auth_session_resolve_login_url env p q n)"
  "reports (p = 0 \<or> pw = None \<or> q = 0 \<or> n) (atr_auth_session_login_password env p pw q n)"
  "reports (p = 0 \<or> sms = None \<or> q = 0 \<or> n) (atr_auth_session_login_sms env p sms q n)"
  "reports (p = 0 \<or> q = 0 \<or> n) (atr_auth_session_submit_captcha env p q n)"
  "reports (p = 0 \<or> q = 0 \<or> n) (atr_auth_session_submit_sms_code env p q n)"
  "reports (p = 0 \<or> target = None \<or> n) (atr_auth_session_complete_callback env p target n)"
  "reports (p = 0 \<or> q = 0) (atr_auth_session_prepare_callback_login env p q)"
  "reports (p = 0 \<or> target = None \<or> q = 0 \<or> n) (atr_auth_session_complete_callback_with_device env p target q n)"
  "reports (p = 0 \<or> n) (atr_auth_session_fetch_client_resource env p n)"
  "reports (p = 0 \<or> n) (atr_auth_session_get_client_resource env p n)"
  "reports (p = 0 \<or> mat = None) (atr_auth_session_import_session env p mat)"
  "reports (p = 0 \<or> mat = None \<or> n) (atr_auth_session_resume_session env p mat n)"
  "reports (p = 0 \<or> n) (atr_auth_session_export_session p n)"
  unfolding atr_auth_session_new_def atr_auth_session_available_methods_def
    atr_auth_session_resolve_login_url_def atr_auth_session_login_password_def
    atr_auth_session_login_sms_def atr_auth_session_submit_captcha_def
    atr_auth_session_submit_sms_code_def atr_auth_session_complete_callback_def
    atr_auth_session_prepare_callback_login_def atr_auth_session_complete_callback_with_device_def
    atr_auth_session_fetch_client_resource_def atr_auth_session_get_client_resource_def
    atr_auth_session_import_session_def atr_auth_session_resume_session_def
    atr_auth_session_export_session_def
  by (intro reports_call keeps_intros)+

lemma tunnel_and_proxy_calls:
  "reports (p = 0 \<or> q = 0 \<or> n) (atr_client_open_tcp env p q port n)"
  "reports (p = 0 \<or> q = 0 \<or> n) (atr_client_open_udp env p q port n)"
  "reports (p = 0) (atr_tcp_tunnel_close p)"
  "reports (p = 0 \<or> buf = 0 \<or> n) (atr_tcp_tunnel_read p buf len n)"
  "reports (p = 0 \<or> buf = 0 \<or> n) (atr_tcp_tunnel_write p buf len n)"
  "reports (p = 0) (atr_udp_tunnel_close p)"
  "reports (p = 0 \<or> buf = 0 \<or> n) (atr_udp_tunnel_read p buf len n)"
  "reports (p = 0 \<or> buf = 0 \<or> n) (atr_udp_tunnel_write env p buf len n)"
  "reports (p = 0 \<or> n) (atr_client_open_l3 env p n)"
  "reports (p = 0) (atr_l3_tunnel_close p)"
  "reports (p = 0) (atr_l3_tunnel_send_heartbeat env p)"
  "reports (p = 0 \<or> buf = 0 \<or> n) (atr_l3_tunnel_read_packet p buf len n)"
  "reports (p = 0 \<or> buf = 0 \<or> n) (atr_l3_tunnel_write_packet env p buf len n)"
  "reports (p = 0 \<or> n) (atr_l3_tunnel_get_virtual_ips p n)"
  "reports (p = 0 \<or> pcfg = None \<or> n) (atr_client_start_proxy_service env p pcfg n)"
  "reports (p = 0) (atr_proxy_service_stop env p)"
  "reports (p = 0 \<or> n) (atr_proxy_service_status p n)"
  "reports (p = 0 \<or> n) (atr_proxy_service_get_endpoint p n)"
  "reports (p = 0 \<or> n) (atr_proxy_service_get_stats p n)"
  "reports (p = 0 \<or> n) (atr_proxy_service_get_traffic_stats p n)"
  "reports (p = 0 \<or> n \<or> n2) (atr_proxy_service_take_event p n n2)"
  "reports (p = 0) (atr_proxy_service_set_event_callback p cb)"
  unfolding atr_client_open_tcp_def atr_client_open_udp_def atr_tcp_tunnel_close_def atr_tcp_tunnel_read_def
    atr_tcp_tunnel_write_def atr_udp_tunnel_close_def atr_udp_tunnel_read_def atr_udp_tunnel_write_def
    atr_client_open_l3_def atr_l3_tunnel_close_def atr_l3_tunnel_send_heartbeat_def
    atr_l3_tunnel_read_packet_def atr_l3_tunnel_write_packet_def atr_l3_tunnel_get_virtual_ips_def
    atr_client_start_proxy_service_def atr_proxy_service_stop_def atr_proxy_service_status_def
    atr_proxy_service_get_endpoint_def atr_proxy_service_get_stats_def
    atr_proxy_service_get_traffic_stats_def atr_proxy_service_take_event_def
    atr_proxy_service_set_event_callback_def
  by (intro reports_call keeps_intros keeps_case)+

lemma route_calls:
  "reports (p = 0 \<or> q = 0 \<or> n) (atr_client_route_tcp p q port n)" "reports (p = 0 \<or> q = 0 \<or> n) (atr_client_route_udp p q port n)" "reports (p = 0 \<or> q = 0 \<or> n) (atr_client_route_icmp p q n)"
  unfolding atr_client_route_tcp_def atr_client_route_udp_def atr_client_route_icmp_def
  by (rule reports_route)+

lemma keeps_dropped [keeps_intros]:
  assumes "keeps gone m"
  shows "keeps gone (\<lambda>s. dropped f (m s))"
proof -
  have "\<exists>r'. m s = Ret (r', s')" if "dropped f (m s) = Ret (r, s')" for s r s'
    using that by (auto simp: dropped_def split: outcome.splits prod.splits option.splits)
  with assms show ?thesis unfolding keeps_def by blast
qed

lemma free_calls:
  "keeps {(KClient, p)} (atr_client_free p)"
  "keeps {(KAuth, p)} (atr_auth_session_free p)"
  "keeps {(KTcp, p)} (atr_tcp_tunnel_free p)"
  "keeps {(KUdp, p)} (atr_udp_tunnel_free p)"
  "keeps {(KL3, p)} (atr_l3_tunnel_free p)"
  "keeps {(KProxy, p)} (atr_proxy_service_free env p)"
  "keeps {} (atr_resource_snapshot_free rs)"
  "keeps {} (atr_proxy_service_endpoint_free ep)"
  "keeps {} (atr_proxy_service_stats_free st)"
  "keeps {} (atr_blob_free sl)"
  "keeps {} (atr_string_list_free sl)"
  "keeps {} (atr_auth_method_list_free sl)"
  "keeps {} (atr_session_material_free sm)"
  "keeps {} (atr_auth_challenge_free ch)"
  unfolding atr_client_free_def atr_auth_session_free_def atr_tcp_tunnel_free_def atr_udp_tunnel_free_def
    atr_l3_tunnel_free_def atr_proxy_service_free_def atr_resource_snapshot_free_def
    atr_proxy_service_endpoint_free_def atr_proxy_service_stats_free_def atr_blob_free_def
    atr_string_list_free_def atr_auth_method_list_free_def atr_session_material_free_def
    atr_auth_challenge_free_def
  by (intro keeps_intros releases_intros)+

section \<open>Programs that call the interface\<close>

text \<open>
  The calls that return a code, each with the condition that a pointer it needs is null: a handle, a string or a buffer (0), a
  structure (\<open>None\<close>) or an out pointer (a truth value). \<open>coded\<close> keeps the code of a call and the state it leaves.
\<close>

definition coded :: "(ffi \<Rightarrow> ((int \<times> 'a option) \<times> ffi) outcome) \<Rightarrow> ffi \<Rightarrow> (int \<times> ffi) outcome" where
  "coded m s = (case m s of Ret ((c, out), s') \<Rightarrow> Ret (c, s') | Stuck \<Rightarrow> Stuck | Undef \<Rightarrow> Undef)"

inductive c_call :: "bool \<Rightarrow> (ffi \<Rightarrow> (int \<times> ffi) outcome) \<Rightarrow> bool" where
  client_new: "c_call (cfg = None \<or> n) (coded (atr_client_new cfg n))"
| set_session: "c_call (p = 0 \<or> mat = None) (coded (atr_client_set_session p mat))"
| set_resource: "c_call (p = 0 \<or> buf = 0 \<or> q = 0) (coded (atr_client_set_resource env p buf len q))"
| get_resource_bytes: "c_call (p = 0 \<or> n) (coded (atr_client_get_resource_bytes p n))"
| get_dns_server: "c_call (p = 0 \<or> n) (coded (atr_client_get_dns_server p n))"
| get_major_node_group: "c_call (p = 0 \<or> n) (coded (atr_client_get_major_node_group p n))"
| get_resource_snapshot: "c_call (p = 0 \<or> n) (coded (atr_client_get_resource_snapshot p n))"
| auth_new: "c_call (acfg = None \<or> n) (coded (atr_auth_session_new env acfg n))"
| available_methods: "c_call (p = 0 \<or> n) (coded (atr_auth_session_available_methods env p n))"
| resolve_login_url: "c_call (p = 0 \<or> q = 0 \<or> n) (coded (atr_auth_session_resolve_login_url env p q n))"
| login_password: "c_call (p = 0 \<or> pw = None \<or> q = 0 \<or> n) (coded (atr_auth_session_login_password env p pw q n))"
| login_sms: "c_call (p = 0 \<or> sms = None \<or> q = 0 \<or> n) (coded (atr_auth_session_login_sms env p sms q n))"
| submit_captcha: "c_call (p = 0 \<or> q = 0 \<or> n) (coded (atr_auth_session_submit_captcha env p q n))"
| submit_sms_code: "c_call (p = 0 \<or> q = 0 \<or> n) (coded (atr_auth_session_submit_sms_code env p q n))"
| complete_callback: "c_call (p = 0 \<or> target = None \<or> n) (coded (atr_auth_session_complete_callback env p target n))"
| prepare_callback_login: "c_call (p = 0 \<or> q = 0) (coded (atr_auth_session_prepare_callback_login env p q))"
| complete_callback_with_device: "c_call (p = 0 \<or> target = None \<or> q = 0 \<or> n) (coded (atr_auth_session_complete_callback_with_device env p target q n))"
| fetch_client_resource: "c_call (p = 0 \<or> n) (coded (atr_auth_session_fetch_client_resource env p n))"
| get_client_resource: "c_call (p = 0 \<or> n) (coded (atr_auth_session_get_client_resource env p n))"
| import_session: "c_call (p = 0 \<or> mat = None) (coded (atr_auth_session_import_session env p mat))"
| resume_session: "c_call (p = 0 \<or> mat = None \<or> n) (coded (atr_auth_session_resume_session env p mat n))"
| export_session: "c_call (p = 0 \<or> n) (coded (atr_auth_session_export_session p n))"
| open_tcp: "c_call (p = 0 \<or> q = 0 \<or> n) (coded (atr_client_open_tcp env p q port n))"
| open_udp: "c_call (p = 0 \<or> q = 0 \<or> n) (coded (atr_client_open_udp env p q port n))"
| tcp_close: "c_call (p = 0) (coded (atr_tcp_tunnel_close p))"
| tcp_read: "c_call (p = 0 \<or> buf = 0 \<or> n) (coded (atr_tcp_tunnel_read p buf len n))"
| tcp_write: "c_call (p = 0 \<or> buf = 0 \<or> n) (coded (atr_tcp_tunnel_write p buf len n))"
| udp_close: "c_call (p = 0) (coded (atr_udp_tunnel_close p))"
| udp_read: "c_call (p = 0 \<or> buf = 0 \<or> n) (coded (atr_udp_tunnel_read p buf len n))"
| udp_write: "c_call (p = 0 \<or> buf = 0 \<or> n) (coded (atr_udp_tunnel_write env p buf len n))"
| open_l3: "c_call (p = 0 \<or> n) (coded (atr_client_open_l3 env p n))"
| l3_close: "c_call (p = 0) (coded (atr_l3_tunnel_close p))"
| l3_send_heartbeat: "c_call (p = 0) (coded (atr_l3_tunnel_send_heartbeat env p))"
| l3_read_packet: "c_call (p = 0 \<or> buf = 0 \<or> n) (coded (atr_l3_tunnel_read_packet p buf len n))"
| l3_write_packet: "c_call (p = 0 \<or> buf = 0 \<or> n) (coded (atr_l3_tunnel_write_packet env p buf len n))"
| l3_get_virtual_ips: "c_call (p = 0 \<or> n) (coded (atr_l3_tunnel_get_virtual_ips p n))"
| start_proxy_service: "c_call (p = 0 \<or> pcfg = None \<or> n) (coded (atr_client_start_proxy_service env p pcfg n))"
| proxy_stop: "c_call (p = 0) (coded (atr_proxy_service_stop env p))"
| proxy_status: "c_call (p = 0 \<or> n) (coded (atr_proxy_service_status p n))"
| proxy_get_endpoint: "c_call (p = 0 \<or> n) (coded (atr_proxy_service_get_endpoint p n))"
| proxy_get_stats: "c_call (p = 0 \<or> n) (coded (atr_proxy_service_get_stats p n))"
| proxy_get_traffic_stats: "c_call (p = 0 \<or> n) (coded (atr_proxy_service_get_traffic_stats p n))"
| proxy_take_event: "c_call (p = 0 \<or> n \<or> n2) (coded (atr_proxy_service_take_event p n n2))"
| proxy_set_event_callback: "c_call (p = 0) (coded (atr_proxy_service_set_event_callback p cb))"
| route_tcp: "c_call (p = 0 \<or> q = 0 \<or> n) (coded (atr_client_route_tcp p q port n))"
| route_udp: "c_call (p = 0 \<or> q = 0 \<or> n) (coded (atr_client_route_udp p q port n))"
| route_icmp: "c_call (p = 0 \<or> q = 0 \<or> n) (coded (atr_client_route_icmp p q n))"

text \<open>The calls that release the object of a kind behind a handle, and those that release what a structure owns.\<close>

definition done_with :: "(ffi \<Rightarrow> ('a \<times> ffi) outcome) \<Rightarrow> ffi \<Rightarrow> ffi outcome" where
  "done_with m s = (case m s of Ret (r, s') \<Rightarrow> Ret s' | Stuck \<Rightarrow> Stuck | Undef \<Rightarrow> Undef)"

inductive c_frees :: "mem_kind \<Rightarrow> ptr \<Rightarrow> (ffi \<Rightarrow> ffi outcome) \<Rightarrow> bool" where
  client_free: "c_frees KClient p (done_with (atr_client_free p))"
| auth_free: "c_frees KAuth p (done_with (atr_auth_session_free p))"
| tcp_free: "c_frees KTcp p (done_with (atr_tcp_tunnel_free p))"
| udp_free: "c_frees KUdp p (done_with (atr_udp_tunnel_free p))"
| l3_free: "c_frees KL3 p (done_with (atr_l3_tunnel_free p))"
| proxy_free: "c_frees KProxy p (done_with (atr_proxy_service_free env p))"

inductive c_releases :: "(ffi \<Rightarrow> ffi outcome) \<Rightarrow> bool" where
  snapshot_free: "c_releases (done_with (atr_resource_snapshot_free rs))"
| endpoint_free: "c_releases (done_with (atr_proxy_service_endpoint_free ep))"
| stats_free: "c_releases (done_with (atr_proxy_service_stats_free st))"
| blob_free: "c_releases (done_with (atr_blob_free sl))"
| string_list_free: "c_releases (done_with (atr_string_list_free sl))"
| method_list_free: "c_releases (done_with (atr_auth_method_list_free sl))"
| session_free: "c_releases (done_with (atr_session_material_free sm))"
| challenge_free: "c_releases (done_with (atr_auth_challenge_free ch))"
| string_free: "c_releases (atr_string_free p)"

text \<open>The calls that give a handle to a new object of a kind.\<close>

inductive c_creates :: "mem_kind \<Rightarrow> (ffi \<Rightarrow> ((int \<times> ptr option) \<times> ffi) outcome) \<Rightarrow> bool" where
  client: "c_creates KClient (atr_client_new cfg n)"
| auth: "c_creates KAuth (atr_auth_session_new env acfg n)"
| tcp: "c_creates KTcp (atr_client_open_tcp env p q port n)"
| udp: "c_creates KUdp (atr_client_open_udp env p q port n)"
| l3: "c_creates KL3 (atr_client_open_l3 env p n)"
| proxy: "c_creates KProxy (atr_client_start_proxy_service env p pcfg n)"

text \<open>
  One step of a C program, with the code it returned (0 for functions that return none). Besides calling, the program
  allocates and releases memory of its own.
\<close>

inductive c_step :: "ffi \<Rightarrow> int \<Rightarrow> ffi \<Rightarrow> bool" where
  calls: "c_call null m \<Longrightarrow> m s = Ret (c, s') \<Longrightarrow> c_step s c s'"
| frees: "c_frees k p m \<Longrightarrow> m s = Ret s' \<Longrightarrow> c_step s 0 s'"
| releases: "c_releases m \<Longrightarrow> m s = Ret s' \<Longrightarrow> c_step s 0 s'"
| caller_alloc: "alloc cell (ff_heap s) = (p, h) \<Longrightarrow> c_step s 0 (s\<lparr>ff_heap := h\<rparr>)"
| caller_release: "c_step s 0 (s\<lparr>ff_heap := release S (ff_heap s)\<rparr>)"

inductive c_reachable :: "ffi \<Rightarrow> bool" where
  start: "c_reachable ffi_start"
| step: "c_reachable s \<Longrightarrow> c_step s c s' \<Longrightarrow> c_reachable s'"

lemma report_ok: "ff_last_error s' = ff_last_error s \<Longrightarrow> report 0 s s'"
  by (simp add: report_def atr_last_error_message_def)

lemma alloc_wf:
  assumes "ffi_wf s" "alloc cell (ff_heap s) = (p, h)"
  shows "ffi_wf (s\<lparr>ff_heap := h\<rparr>)"
proof -
  from assms have "grows KCell s (s\<lparr>ff_heap := h\<rparr>)"
    by (auto simp: alloc_def grows_def ffi_wf_def heap_wf_def has_heap split: if_splits)
  with assms(1) show ?thesis by (rule grows_wf)
qed

lemma coded_Ret: "coded m s = Ret (c, s') \<longleftrightarrow> (\<exists>out. m s = Ret ((c, out), s'))"
  by (auto simp: coded_def split: outcome.splits prod.splits)

lemma done_with_Ret: "done_with m s = Ret s' \<longleftrightarrow> (\<exists>r. m s = Ret (r, s'))"
  by (auto simp: done_with_def split: outcome.splits prod.splits)

lemmas call_reports = client_calls auth_calls tunnel_and_proxy_calls route_calls

text \<open>Every call reports, and keeps every object; a free call keeps every other object.\<close>

definition call_sound :: "bool \<Rightarrow> (ffi \<Rightarrow> (int \<times> ffi) outcome) \<Rightarrow> bool" where
  "call_sound null m \<longleftrightarrow> (null \<longrightarrow> (\<forall>s. m s = Ret (1, s))) \<and>
     (\<not> null \<longrightarrow> (\<forall>s c s'. ffi_wf s \<longrightarrow> m s = Ret (c, s') \<longrightarrow> ffi_wf s' \<and> report c s s' \<and>
        (\<forall>k p. k \<noteq> KCell \<longrightarrow> has s k p \<longrightarrow> has s' k p)))"

lemma reports_coded: "reports null f \<Longrightarrow> call_sound null (coded f)"
  unfolding reports_def call_sound_def coded_Ret by blast

lemma c_call_sound: "c_call null m \<Longrightarrow> call_sound null m"
  by (induction rule: c_call.induct) (rule call_reports [THEN reports_coded])+

definition free_sound :: "(mem_kind \<times> ptr) set \<Rightarrow> (ffi \<Rightarrow> ffi outcome) \<Rightarrow> bool" where
  "free_sound gone m \<longleftrightarrow> (\<forall>s s'. ffi_wf s \<longrightarrow> m s = Ret s' \<longrightarrow> ffi_wf s' \<and> ff_last_error s' = ff_last_error s \<and>
     (\<forall>k p. k \<noteq> KCell \<longrightarrow> has s k p \<longrightarrow> (k, p) \<notin> gone \<longrightarrow> has s' k p))"

lemma keeps_done: "keeps gone f \<Longrightarrow> free_sound gone (done_with f)"
  unfolding keeps_def free_sound_def done_with_Ret by blast

lemma c_frees_sound: "c_frees k p m \<Longrightarrow> free_sound {(k, p)} m"
  by (induction rule: c_frees.induct) (rule free_calls [THEN keeps_done])+

lemma string_free_sound: "free_sound {} (atr_string_free p)"
  unfolding free_sound_def
proof (intro allI impI)
  fix s s'
  assume wf: "ffi_wf s" and "atr_string_free p s = Ret s'"
  then obtain S where "s' = s\<lparr>ff_heap := release S (ff_heap s)\<rparr>"
    using releases_string [of p] by (auto simp: atr_string_free_def releases_def split: option.splits)
  with wf show "ffi_wf s' \<and> ff_last_error s' = ff_last_error s \<and>
      (\<forall>k p. k \<noteq> KCell \<longrightarrow> has s k p \<longrightarrow> (k, p) \<notin> {} \<longrightarrow> has s' k p)" by (auto simp: has_heap intro: release_wf)
qed

lemma c_releases_sound: "c_releases m \<Longrightarrow> free_sound {} m"
  by (induction rule: c_releases.induct) (rule string_free_sound free_calls [THEN keeps_done])+

lemma c_step_sound:
  assumes "c_step s c s'" "ffi_wf s"
  shows "ffi_wf s'" "k \<noteq> KCell \<Longrightarrow> has s k p \<Longrightarrow> has s' k p \<or> (\<exists>m. c_frees k p m \<and> m s = Ret s')"
proof -
  have "ffi_wf s' \<and> (\<forall>k p. k \<noteq> KCell \<longrightarrow> has s k p \<longrightarrow> has s' k p \<or> (\<exists>m. c_frees k p m \<and> m s = Ret s'))"
    using assms(1)
  proof cases
    case (calls null m)
    with c_call_sound [OF calls(1)] assms(2) show ?thesis by (cases null) (auto simp: call_sound_def)
  next
    case (frees k p m)
    with c_frees_sound [OF frees(2)] assms(2) show ?thesis unfolding free_sound_def by blast
  next
    case (releases m)
    with c_releases_sound [OF releases(2)] assms(2) show ?thesis unfolding free_sound_def by blast
  qed (use assms(2) in \<open>auto simp: has_heap intro: alloc_wf release_wf\<close>)
  then show "ffi_wf s'" "k \<noteq> KCell \<Longrightarrow> has s k p \<Longrightarrow> has s' k p \<or> (\<exists>m. c_frees k p m \<and> m s = Ret s')" by blast+
qed

lemma reachable_wf: "c_reachable s \<Longrightarrow> ffi_wf s"
proof (induction rule: c_reachable.induct)
  case start
  have "has ffi_start k p = False" for k p by (cases k) (simp_all add: ffi_start_def heap_start_def)
  then show ?case by (simp add: ffi_wf_def ffi_start_def heap_start_def heap_wf_def)
next
  case step
  then show ?case using c_step_sound(1) by blast
qed

subsection \<open>Creating and freeing\<close>

text \<open>The conversions of input only read.\<close>

definition reads :: "'a body \<Rightarrow> bool" where
  "reads m \<longleftrightarrow> (\<forall>s r s'. m s = Ret (r, s') \<longrightarrow> s' = s)"

named_theorems reads_intros "steps that only read"

lemma reads_pure [reads_intros]: "reads (retB v)" "reads (liftB r)" "reads (readB f)" "reads (deref tbl p)"
  by (auto simp: reads_def retB_def liftB_def readB_def deref_def split: option.splits)

lemma reads_bind [reads_intros]: "reads m \<Longrightarrow> (\<And>v. reads (f v)) \<Longrightarrow> reads (bindB m f)"
  unfolding reads_def using bindB_Ret by metis

lemma reads_if [reads_intros]: "(b \<Longrightarrow> reads m) \<Longrightarrow> (\<not> b \<Longrightarrow> reads m') \<Longrightarrow> reads (if b then m else m')"
  by simp

lemma reads_each [reads_intros]: "(\<And>c. reads (f c)) \<Longrightarrow> reads (each_from_ffi f cs)"
  by (induction cs) (simp_all add: reads_intros)

lemma reads_input [reads_intros]:
  "reads (read_cstr p)" "reads (to_str p)" "reads (cstr_to_string p field)" "reads (read_slice unwrap p len)" "reads (opt_string p field)"
  by (simp_all add: read_cstr_def to_str_def cstr_to_string_def read_slice_def opt_string_def reads_intros)

lemma reads_from_ffi [reads_intros]:
  "reads (client_config_from_ffi cc)" "reads (auth_config_from_ffi ac)" "reads (proxy_service_config_from_ffi px)"
  unfolding client_config_from_ffi_def auth_config_from_ffi_def proxy_service_config_from_ffi_def
  by (intro reads_intros)+

text \<open>A body that reads and then, if nothing failed, puts one object in a box of a kind.\<close>

definition boxes :: "mem_kind \<Rightarrow> ptr body \<Rightarrow> bool" where
  "boxes k m \<longleftrightarrow> (\<forall>s. ffi_wf s \<longrightarrow>
     (\<forall>p s'. m s = Ret (Inr p, s') \<longrightarrow> p \<noteq> 0 \<and> (\<forall>k'. \<not> has s k' p) \<and> (\<forall>k' q. has s' k' q \<longleftrightarrow> has s k' q \<or> k' = k \<and> q = p)) \<and>
     (\<forall>e s'. m s = Ret (Inl e, s') \<longrightarrow> s' = s))"

named_theorems boxes_intros "bodies that end by boxing an object"

lemma boxes_bind [boxes_intros]:
  assumes "reads m" "\<And>v. boxes k (f v)"
  shows "boxes k (bindB m f)"
  unfolding boxes_def
proof (intro allI impI, rule conjI; intro allI impI)
  fix s p s'
  assume wf: "ffi_wf s" and "bindB m f s = Ret (Inr p, s')"
  then obtain v where "m s = Ret (Inr v, s)" "f v s = Ret (Inr p, s')" using assms(1) bindB_Ret unfolding reads_def by blast
  with assms(2) [of v] wf show "p \<noteq> 0 \<and> (\<forall>k'. \<not> has s k' p) \<and> (\<forall>k' q. has s' k' q \<longleftrightarrow> has s k' q \<or> k' = k \<and> q = p)"
    unfolding boxes_def by blast
next
  fix s e s'
  assume wf: "ffi_wf s" and "bindB m f s = Ret (Inl e, s')"
  then consider "m s = Ret (Inl e, s')" | v where "m s = Ret (Inr v, s)" "f v s = Ret (Inl e, s')"
    using assms(1) bindB_Ret unfolding reads_def by blast
  then show "s' = s" using assms wf unfolding reads_def boxes_def by cases blast+
qed

lemma boxes_stuck [boxes_intros]: "boxes k (\<lambda>s. Stuck)"
  by (simp add: boxes_def)

lemma boxes_case [boxes_intros]: "boxes k m \<Longrightarrow> (\<And>v. boxes k (f v)) \<Longrightarrow> boxes k (case r of None \<Rightarrow> m | Some v \<Rightarrow> f v)"
  by (cases r) simp_all

context obj_table
begin

lemma boxes_box: "boxes kind (box upd x)"
  unfolding boxes_def
proof (intro allI impI, rule conjI; intro allI impI)
  fix s p s'
  assume wf: "ffi_wf s" and run: "box upd x s = Ret (Inr p, s')"
  have "has s' k q \<longleftrightarrow> has s k q \<or> k = kind \<and> q = p" for k q
    using run not_cell tbl_has [of s q] by (auto simp: box_def Let_def has_upd has_heap tbl_heap split: if_splits)
  with boxed(1,2) [OF wf run] show "p \<noteq> 0 \<and> (\<forall>k'. \<not> has s k' p) \<and> (\<forall>k' q. has s' k' q \<longleftrightarrow> has s k' q \<or> k' = kind \<and> q = p)"
    by blast
qed (simp add: box_def Let_def)

text \<open>
  Giving a box back: nothing for null, undefined when no object of the kind is there; otherwise that object alone goes, if
  dropping it returns.
\<close>

lemma drop_exact:
  "p = 0 \<Longrightarrow> done_with (\<lambda>s. dropped f (unbox tbl upd p s)) s = Ret s"
  "p \<noteq> 0 \<Longrightarrow> \<not> has s kind p \<Longrightarrow> done_with (\<lambda>s. dropped f (unbox tbl upd p s)) s = Undef"
  "p \<noteq> 0 \<Longrightarrow> has s kind p \<Longrightarrow> (done_with (\<lambda>s. dropped f (unbox tbl upd p s)) s = Stuck \<and> (\<exists>x. f x = None)) \<or>
     (\<exists>s'. done_with (\<lambda>s. dropped f (unbox tbl upd p s)) s = Ret s' \<and> (\<forall>k q. has s' k q \<longleftrightarrow> has s k q \<and> (k, q) \<noteq> (kind, p)))"
  using tbl_has [of s] by (auto simp: unbox_def dropped_def done_with_def has_upd split: option.splits)

end

lemmas [boxes_intros] = clients.boxes_box auths.boxes_box tcps.boxes_box udps.boxes_box l3s.boxes_box proxies.boxes_box

lemma call_creates:
  assumes "boxes k body" "ffi_wf s" "ffi_call n body s = Ret ((c, out), s')"
  shows "(\<exists>p. c = 0 \<and> out = Some p \<and> p \<noteq> 0 \<and> (\<forall>k'. \<not> has s k' p) \<and> (\<forall>k' q. has s' k' q \<longleftrightarrow> has s k' q \<or> k' = k \<and> q = p)) \<or>
    c \<noteq> 0 \<and> out = None \<and> (\<forall>k' q. has s' k' q \<longleftrightarrow> has s k' q)"
proof -
  have e: "error_code_i32 (code e) \<noteq> 0" for e by (cases e) simp_all
  have h: "has (s\<lparr>ff_last_error := m\<rparr>) k' q = has s k' q" for m k' q by (cases k') auto
  from assms(3) consider "n" "c = 1" "out = None" "s' = s"
    | p where "body s = Ret (Inr p, s')" "c = 0" "out = Some p"
    | err s1 where "body s = Ret (Inl err, s1)" "c = error_code_i32 (code err)" "out = None" "s' = s1\<lparr>ff_last_error := Some (error_text err)\<rparr>"
    by (auto simp: ffi_call_def ffi_result_def store_error_def error_text_def split: if_splits outcome.splits prod.splits sum.splits)
  then show ?thesis
  proof cases
    case (2 p)
    with assms(1,2) show ?thesis unfolding boxes_def by blast
  next
    case (3 err s1)
    with assms(1,2) have "s1 = s" unfolding boxes_def by blast
    with 3 e h show ?thesis by simp
  qed simp
qed

lemma c_creates_boxes:
  assumes "c_creates k m"
  obtains n body where "boxes k body" "m = ffi_call n body"
proof -
  have "\<exists>n body. m = ffi_call n body \<and> boxes k body"
    using assms
  proof cases
    case client
    show ?thesis unfolding client atr_client_new_def by (rule exI, rule exI, rule conjI, rule refl, intro boxes_intros reads_intros)
  next
    case auth
    show ?thesis unfolding auth atr_auth_session_new_def by (rule exI, rule exI, rule conjI, rule refl, intro boxes_intros reads_intros)
  next
    case tcp
    show ?thesis unfolding tcp atr_client_open_tcp_def by (rule exI, rule exI, rule conjI, rule refl, intro boxes_intros reads_intros)
  next
    case udp
    show ?thesis unfolding udp atr_client_open_udp_def by (rule exI, rule exI, rule conjI, rule refl, intro boxes_intros reads_intros)
  next
    case l3
    show ?thesis unfolding l3 atr_client_open_l3_def by (rule exI, rule exI, rule conjI, rule refl, intro boxes_intros reads_intros)
  next
    case proxy
    show ?thesis unfolding proxy atr_client_start_proxy_service_def by (rule exI, rule exI, rule conjI, rule refl, intro boxes_intros reads_intros)
  qed
  then show thesis using that by blast
qed

text \<open>A call that frees a handle does what giving back a box does.\<close>

lemma undropped: "done_with (unbox tbl upd p) = done_with (\<lambda>s. dropped Some (unbox tbl upd p s))"
  by (auto simp: fun_eq_iff done_with_def dropped_def split: outcome.splits prod.splits option.splits)

lemma c_frees_exact:
  assumes "c_frees k p m"
  shows "p = 0 \<Longrightarrow> m s = Ret s" "p \<noteq> 0 \<Longrightarrow> \<not> has s k p \<Longrightarrow> m s = Undef"
    "p \<noteq> 0 \<Longrightarrow> has s k p \<Longrightarrow> k \<in> {KTcp, KProxy} \<and> m s = Stuck \<or>
       (\<exists>s'. m s = Ret s' \<and> (\<forall>k' q. has s' k' q \<longleftrightarrow> has s k' q \<and> (k', q) \<noteq> (k, p)))"
proof -
  have "(p = 0 \<longrightarrow> m s = Ret s) \<and> (p \<noteq> 0 \<longrightarrow> \<not> has s k p \<longrightarrow> m s = Undef) \<and>
    (p \<noteq> 0 \<longrightarrow> has s k p \<longrightarrow> k \<in> {KTcp, KProxy} \<and> m s = Stuck \<or>
       (\<exists>s'. m s = Ret s' \<and> (\<forall>k' q. has s' k' q \<longleftrightarrow> has s k' q \<and> (k', q) \<noteq> (k, p))))"
    using assms
  proof cases
    case client_free
    with clients.drop_exact [where p = p and s = s and f = Some] show ?thesis unfolding atr_client_free_def undropped by simp
  next
    case auth_free
    with auths.drop_exact [where p = p and s = s and f = Some] show ?thesis unfolding atr_auth_session_free_def undropped by simp
  next
    case tcp_free
    with tcps.drop_exact [where p = p and s = s and f = tunnel_close] show ?thesis unfolding atr_tcp_tunnel_free_def by blast
  next
    case udp_free
    with udps.drop_exact [where p = p and s = s and f = "\<lambda>t. Some (udp_close t)"] show ?thesis unfolding atr_udp_tunnel_free_def by simp
  next
    case l3_free
    with l3s.drop_exact [where p = p and s = s and f = "\<lambda>t. Some (l3_close t)"] show ?thesis unfolding atr_l3_tunnel_free_def by simp
  next
    case (proxy_free env)
    with proxies.drop_exact [where p = p and s = s and f = "fe_stop env"] show ?thesis unfolding atr_proxy_service_free_def by blast
  qed
  then show "p = 0 \<Longrightarrow> m s = Ret s" "p \<noteq> 0 \<Longrightarrow> \<not> has s k p \<Longrightarrow> m s = Undef"
    "p \<noteq> 0 \<Longrightarrow> has s k p \<Longrightarrow> k \<in> {KTcp, KProxy} \<and> m s = Stuck \<or>
       (\<exists>s'. m s = Ret s' \<and> (\<forall>k' q. has s' k' q \<longleftrightarrow> has s k' q \<and> (k', q) \<noteq> (k, p)))" by blast+
qed

subsection \<open>A program that creates a client\<close>

definition demo_texts :: ffi where
  "demo_texts = ffi_start\<lparr>ff_heap := snd (alloc (CStr ''agent'') (snd (alloc (CStr ''vpn'') heap_start)))\<rparr>"

definition demo_client_config :: atr_client_config_t where
  "demo_client_config = \<lparr>fc_server_host = 2, fc_server_port = 443, fc_user_agent = 3, fc_connect_timeout_ms = 5000,
     fc_io_timeout_ms = 5000, fc_node_probe_timeout_ms = 5000, fc_allow_insecure_tls = False, fc_bind_interface = 0,
     fc_auto_detect_interface = True\<rparr>"

definition demo_fresh_client :: AtrClient where
  "demo_fresh_client = \<lparr>cl_config = \<lparr>server_host = ''vpn'', server_port = 443, user_agent = ''agent'', connect_timeout_ms = 5000,
     io_timeout_ms = 5000, node_probe_timeout_ms = 5000, allow_insecure_tls = False, bind_interface = None,
     auto_detect_interface = True\<rparr>, cl_session = None, cl_resource = None, cl_resource_bytes = None\<rparr>"

definition demo_ffi :: ffi where
  "demo_ffi = demo_texts\<lparr>ff_heap := (ff_heap demo_texts)\<lparr>hp_next := 5\<rparr>, ff_clients := (ff_clients demo_texts)(4 \<mapsto> demo_fresh_client)\<rparr>"

lemma demo_cells:
  "hp_cells (ff_heap demo_texts) = [2 \<mapsto> CStr ''vpn'', 3 \<mapsto> CStr ''agent'']" "hp_next (ff_heap demo_texts) = 4"
  by (simp_all add: demo_texts_def heap_start_def alloc_def)

lemma utf8_demo: "str_from_utf8 (str_bytes ''vpn'') = Inr ''vpn''" "str_from_utf8 (str_bytes ''agent'') = Inr ''agent''"
  by (simp_all add: str_from_utf8_ascii ascii_def)

lemma demo_new: "atr_client_new (Some demo_client_config) False demo_texts = Ret ((0, Some 4), demo_ffi)"
proof -
  have "to_str 2 demo_texts = Ret (Inr ''vpn'', demo_texts)" "to_str 3 demo_texts = Ret (Inr ''agent'', demo_texts)"
    by (simp_all add: to_str_def read_cstr_def readB_def bindB_def liftB_def demo_cells utf8_demo)
  then have "client_config_from_ffi demo_client_config demo_texts = Ret (Inr (cl_config demo_fresh_client), demo_texts)"
    by (simp add: client_config_from_ffi_def bindB_def cstr_to_string_def opt_string_def retB_def demo_client_config_def
        demo_fresh_client_def)
  then show ?thesis
    by (simp add: atr_client_new_def ffi_call_def ffi_result_def bindB_def liftB_def client_new_def box_def Let_def
        demo_cells demo_ffi_def demo_fresh_client_def)
qed

lemma demo_reachable: "c_reachable demo_texts" "c_reachable demo_ffi"
proof -
  let ?h = "snd (alloc (CStr ''vpn'') heap_start)"
  have "c_step ffi_start 0 (ffi_start\<lparr>ff_heap := ?h\<rparr>)"
    by (rule caller_alloc [where p = 2]) (simp add: ffi_start_def alloc_def heap_start_def)
  moreover have "c_step (ffi_start\<lparr>ff_heap := ?h\<rparr>) 0 ((ffi_start\<lparr>ff_heap := ?h\<rparr>)\<lparr>ff_heap := snd (alloc (CStr ''agent'') ?h)\<rparr>)"
    by (rule caller_alloc [where p = 3]) (simp add: alloc_def heap_start_def)
  ultimately have "c_reachable ((ffi_start\<lparr>ff_heap := ?h\<rparr>)\<lparr>ff_heap := snd (alloc (CStr ''agent'') ?h)\<rparr>)"
    using c_reachable.intros by blast
  then show "c_reachable demo_texts" by (simp add: demo_texts_def)
  moreover have "coded (atr_client_new (Some demo_client_config) False) demo_texts = Ret (0, demo_ffi)"
    using demo_new by (auto simp: coded_Ret)
  ultimately show "c_reachable demo_ffi" using c_reachable.step calls client_new by blast
qed

section \<open>Properties\<close>

text \<open>
  C13. Handles are valid from their creation to their release, whatever a C program does. In every state a program reaches by
  any sequence of the calls of the interface with any arguments, and by allocating and releasing on its own: (1) a call that creates an object
  and returns 0 gives a handle that is not null, that nothing lived at, and behind which exactly one object of the right kind is
  added; with another code it gives no handle and adds nothing; (2) whatever the next step is, an
  object stays behind its handle unless that step is the free call of its kind for that handle; (3) a free call does nothing for null, is undefined
  for a handle with no object of its kind behind it, in particular for one already freed, and otherwise removes exactly that object; only
  for a TCP tunnel or a proxy service may it wait, for the worker or the connections, and not return.
\<close>

theorem c_handle_lifecycle:
  assumes "c_reachable s"
  shows "(c_creates k create \<and> create s = Ret ((c, out), s1) \<longrightarrow>
       (\<exists>h. c = 0 \<and> out = Some h \<and> h \<noteq> 0 \<and> (\<forall>k'. \<not> has s k' h) \<and> (\<forall>k' q. has s1 k' q \<longleftrightarrow> has s k' q \<or> k' = k \<and> q = h)) \<or>
       c \<noteq> 0 \<and> out = None \<and> (\<forall>k' q. has s1 k' q \<longleftrightarrow> has s k' q)) \<and>
    (c_step s c2 s2 \<and> k \<noteq> KCell \<and> has s k p \<longrightarrow> has s2 k p \<or> (\<exists>m. c_frees k p m \<and> m s = Ret s2)) \<and>
    (c_frees k p free \<longrightarrow>
       (if p = 0 then free s = Ret s
        else if \<not> has s k p then free s = Undef
        else k \<in> {KTcp, KProxy} \<and> free s = Stuck \<or>
          (\<exists>s3. free s = Ret s3 \<and> (\<forall>k' q. has s3 k' q \<longleftrightarrow> has s k' q \<and> (k', q) \<noteq> (k, p)))))"
proof (intro conjI impI)
  note wf = reachable_wf [OF assms]
  assume "c_creates k create \<and> create s = Ret ((c, out), s1)"
  then show "(\<exists>h. c = 0 \<and> out = Some h \<and> h \<noteq> 0 \<and> (\<forall>k'. \<not> has s k' h) \<and> (\<forall>k' q. has s1 k' q \<longleftrightarrow> has s k' q \<or> k' = k \<and> q = h)) \<or>
       c \<noteq> 0 \<and> out = None \<and> (\<forall>k' q. has s1 k' q \<longleftrightarrow> has s k' q)"
    by (elim conjE c_creates_boxes) (rule call_creates [OF _ wf], assumption, simp)
next
  assume "c_step s c2 s2 \<and> k \<noteq> KCell \<and> has s k p"
  then show "has s2 k p \<or> (\<exists>m. c_frees k p m \<and> m s = Ret s2)" using c_step_sound(2) reachable_wf [OF assms] by blast
next
  assume "c_frees k p free"
  then show "if p = 0 then free s = Ret s
        else if \<not> has s k p then free s = Undef
        else k \<in> {KTcp, KProxy} \<and> free s = Stuck \<or>
          (\<exists>s3. free s = Ret s3 \<and> (\<forall>k' q. has s3 k' q \<longleftrightarrow> has s k' q \<and> (k', q) \<noteq> (k, p)))"
    using c_frees_exact [OF \<open>c_frees k p free\<close>] by presburger
qed

theorem c_handle_lifecycle_witness:
  "has demo_ffi KClient 4 \<and> (\<exists>s. done_with (atr_client_free 4) demo_ffi = Ret s \<and> \<not> has s KClient 4 \<and>
     done_with (atr_client_free 4) s = Undef)"
proof -
  have here: "has demo_ffi KClient 4" by (simp add: demo_ffi_def)
  note life = c_handle_lifecycle [where k = KClient and p = 4 and free = "done_with (atr_client_free 4)", THEN conjunct2, THEN conjunct2,
      rule_format, OF _ client_free]
  from life [OF demo_reachable(2)] here obtain s where s: "done_with (atr_client_free 4) demo_ffi = Ret s" "\<not> has s KClient 4"
    by (auto simp del: has.simps)
  have "c_reachable s" by (rule c_reachable.step [OF demo_reachable(2) frees [OF client_free s(1)]])
  from life [OF this] s here show ?thesis by (auto simp del: has.simps)
qed

text \<open>
  C15. Failures are reported. A call that needs a pointer which is null returns 1 and changes nothing at all, so that the
  last message is a stale one. Any other call that returns 0 leaves the message of an earlier failure as it was, and
  one that returns another code failed with an error whose code it returned and whose text, without NUL
  and never empty, is now the last error message.
\<close>

theorem c_errors_reported:
  assumes "c_reachable s" "c_call null m"
  shows "(null \<longrightarrow> m s = Ret (1, s)) \<and>
     (\<not> null \<longrightarrow> m s = Ret (c, s') \<longrightarrow>
        c = 0 \<and> atr_last_error_message s' = atr_last_error_message s \<or>
        (\<exists>e msg. c = error_code_i32 (code e) \<and> c \<noteq> 0 \<and> atr_last_error_message s' = Some msg \<and> CHR 0x00 \<notin> set msg \<and> msg \<noteq> [] \<and>
           (CHR 0x00 \<notin> set (error_display e) \<longrightarrow> msg = error_display e)))"
proof (intro conjI impI)
  have sound: "call_sound null m" by (rule c_call_sound [OF assms(2)])
  show "m s = Ret (1, s)" if null using sound that by (simp add: call_sound_def)
  have t: "error_code_i32 (code e) \<noteq> 0 \<and> error_text e \<noteq> [] \<and> CHR 0x00 \<notin> set (error_text e) \<and>
      (CHR 0x00 \<notin> set (error_display e) \<longrightarrow> error_text e = error_display e)" for e
    by (cases e) (simp_all add: error_text_def)
  assume "\<not> null" "m s = Ret (c, s')"
  then have "report c s s'" using sound reachable_wf [OF assms(1)] unfolding call_sound_def by blast
  then consider "c = 0" "atr_last_error_message s' = atr_last_error_message s"
    | e where "c = error_code_i32 (code e)" "atr_last_error_message s' = Some (error_text e)"
    unfolding report_def by auto
  then show "c = 0 \<and> atr_last_error_message s' = atr_last_error_message s \<or>
        (\<exists>e msg. c = error_code_i32 (code e) \<and> c \<noteq> 0 \<and> atr_last_error_message s' = Some msg \<and> CHR 0x00 \<notin> set msg \<and> msg \<noteq> [] \<and>
           (CHR 0x00 \<notin> set (error_display e) \<longrightarrow> msg = error_display e))"
  proof cases
    case (2 e)
    with t [of e] show ?thesis by (intro disjI2 exI [of _ e] exI [of _ "error_text e"]) auto
  qed simp
qed

lemma demo_null_host:
  "atr_client_new (Some (demo_client_config\<lparr>fc_server_host := 0\<rparr>)) False demo_texts =
     Ret ((1, None), demo_texts\<lparr>ff_last_error := Some ''invalid argument: server_host is null''\<rparr>)"
  by (simp add: atr_client_new_def ffi_call_def ffi_result_def client_config_from_ffi_def bindB_def cstr_to_string_def liftB_def
      store_error_def demo_client_config_def)

theorem c_errors_reported_witness:
  "coded (atr_client_new (Some demo_client_config) True) demo_texts = Ret (1, demo_texts) \<and>
   (\<exists>e msg. (1::int) = error_code_i32 (code e) \<and>
     atr_last_error_message (demo_texts\<lparr>ff_last_error := Some ''invalid argument: server_host is null''\<rparr>) = Some msg \<and>
     CHR 0x00 \<notin> set msg \<and> msg \<noteq> [])"
proof
  show "coded (atr_client_new (Some demo_client_config) True) demo_texts = Ret (1, demo_texts)"
    using c_errors_reported [OF demo_reachable(1) client_new, of "Some demo_client_config" True] by blast
  have "coded (atr_client_new (Some (demo_client_config\<lparr>fc_server_host := 0\<rparr>)) False) demo_texts =
      Ret (1, demo_texts\<lparr>ff_last_error := Some ''invalid argument: server_host is null''\<rparr>)"
    using demo_null_host by (auto simp: coded_Ret)
  with c_errors_reported [OF demo_reachable(1) client_new, of "Some (demo_client_config\<lparr>fc_server_host := 0\<rparr>)" False]
  show "\<exists>e msg. (1::int) = error_code_i32 (code e) \<and>
     atr_last_error_message (demo_texts\<lparr>ff_last_error := Some ''invalid argument: server_host is null''\<rparr>) = Some msg \<and>
     CHR 0x00 \<notin> set msg \<and> msg \<noteq> []" by fastforce
qed

end
