(* ===== verification/Ffi_Contract.thy ===== *)
theory Ffi_Contract
  imports Ffi_Safety
begin

text \<open>
  What the calls of the C interface (src/src/ffi.rs) promise: structures handed out hold the values of the model, own exactly
  what the call allocated and are released by the matching function, once and at any later time; structures handed out are
  accepted as input and give the same value back (locale \<open>ffi_input\<close>); resources, routes and packets seen
  through the interface are those of the client and the tunnels.
\<close>

section \<open>Structures handed out\<close>

text \<open>The addresses allocated between two states.\<close>

definition allocated :: "ffi \<Rightarrow> ffi \<Rightarrow> ptr set" where
  "allocated s s1 = {hp_next (ff_heap s) ..< hp_next (ff_heap s1)}"

text \<open>
  \<open>c\<close>, handed out by a call from \<open>s\<close> to \<open>s1\<close>, can be released in any state that still has its cells, which removes exactly
  them; done at once, this leaves the memory as it was. Releasing the cleared structure again does nothing.
\<close>

definition handed_out ::
  "('c option \<Rightarrow> ffi \<Rightarrow> ('c option \<times> ffi) outcome) \<Rightarrow> 'c \<Rightarrow> 'c \<Rightarrow> ffi \<Rightarrow> ffi \<Rightarrow> bool" where
  "handed_out free_fn cleared c s s1 \<longleftrightarrow>
     (\<forall>s'. (\<forall>q \<in> allocated s s1. hp_cells (ff_heap s') q = hp_cells (ff_heap s1) q) \<longrightarrow>
        free_fn (Some c) s' = Ret (Some cleared, s'\<lparr>ff_heap := release (allocated s s1) (ff_heap s')\<rparr>)) \<and>
     hp_cells (release (allocated s s1) (ff_heap s1)) = hp_cells (ff_heap s) \<and>
     (\<forall>s'. free_fn (Some cleared) s' = Ret (Some cleared, s'))"

context ffi_optional
begin

lemma given_out:
  assumes "ffi_wf s" "heapB (copy v) s = Ret (Inr c, s1)"
  shows "at c v (ff_heap s1) (allocated s s1)" "(\<And>x. clear x = null) \<Longrightarrow> handed_out (free_struct free clear) null c s s1" "s1\<lparr>ff_heap := ff_heap s\<rparr> = s"
proof -
  from assms(2) have run: "copy v (ff_heap s) = (Inr c, ff_heap s1)" and s1: "s1 = s\<lparr>ff_heap := ff_heap s1\<rparr>"
    by (auto simp: heapB_def split: prod.splits)
  from assms(1) have wf: "heap_wf (ff_heap s)" by (simp add: ffi_wf_def)
  show a: "at c v (ff_heap s1) (allocated s s1)"
    using copy_then_free(1) [OF wf run] by (simp add: allocated_def)
  show "s1\<lparr>ff_heap := ff_heap s\<rparr> = s" by (subst s1) simp
  assume clear: "\<And>x. clear x = null"
  have "free_struct free clear (Some c) s' = Ret (Some null, s'\<lparr>ff_heap := release (allocated s s1) (ff_heap s')\<rparr>)"
    if "\<forall>q \<in> allocated s s1. hp_cells (ff_heap s') q = hp_cells (ff_heap s1) q" for s'
  proof -
    have "at c v (ff_heap s') (allocated s s1)" by (rule footedD [OF at_footed a]) (use that in simp)
    then show ?thesis using free_at [of c v] by (simp add: frees_def free_struct_def clear)
  qed
  moreover have "hp_cells (release (allocated s s1) (ff_heap s1)) = hp_cells (ff_heap s)"
    using copy_then_free(2) [OF wf run] free_at [of c v] a by (auto simp: frees_def)
  ultimately show "handed_out (free_struct free clear) null c s s1"
    by (simp add: handed_out_def free_struct_def free_null clear)
qed

end

interpretation session_out: ffi_optional copy_session_material session_at free_session_material no_session
  by unfold_locales (rule free_no_session)

interpretation challenge_out: ffi_optional challenge_to_ffi challenge_at free_challenge no_challenge
  by unfold_locales (simp add: free_challenge_def no_challenge_def free_no_session free_blob_def free_boxed_slice_def
      no_slice_def free_c_string_def thenF_def)

interpretation snapshot_out: ffi_optional "\<lambda>v. copy_resource_snapshot (fst v) (snd v)" snapshot_at free_resource_snapshot no_snapshot
  by unfold_locales (simp add: free_resource_snapshot_def no_snapshot_def free_blob_def free_boxed_slice_def no_slice_def
      free_c_string_def thenF_def free_ip_resource_list_def free_domain_resource_list_def free_dns_resource_list_def
      free_node_group_list_def free_string_list_def free_items_def)

interpretation strings_out: ffi_optional "copy_list c_string CPtrs" "list_at str_at CPtrs" free_string_list no_slice
  unfolding free_string_list_def
  by unfold_locales (simp add: free_items_def no_slice_def)

interpretation methods_out: ffi_optional "copy_list copy_auth_method CMethods" "list_at method_at CMethods"
  auth_method_list_free no_slice
  unfolding auth_method_list_free_def
  by unfold_locales (simp add: free_items_def no_slice_def)

text \<open>A call that returned 0 and wrote through its out pointer ran its closure to the end.\<close>

lemma call_ok:
  assumes "ffi_call n body s = Ret ((0, Some v), s1)"
  shows "body s = Ret (Inr v, s1)" "\<not> n"
proof -
  have "error_code_i32 (code e) \<noteq> 0" for e by (cases e) simp_all
  with assms show "body s = Ret (Inr v, s1)" "\<not> n"
    by (auto simp: ffi_call_def ffi_result_def store_error_def split: if_splits outcome.splits prod.splits sum.splits)
qed

lemma bindB_ok:
  assumes "bindB m f s = Ret (Inr v, s1)"
  obtains u s0 where "m s = Ret (Inr u, s0)" "f u s0 = Ret (Inr v, s1)"
  using assms bindB_Ret by blast

lemma deref_ok: "deref tbl p s = Ret (Inr x, s1) \<longleftrightarrow> tbl s p = Some x \<and> s1 = s"
  by (auto simp: deref_def split: option.splits)

lemma liftB_ok: "liftB (ok_or e r) s = Ret (Inr x, s1) \<longleftrightarrow> r = Some x \<and> s1 = s"
  by (auto simp: liftB_def ok_or_def split: option.splits)

text \<open>
  C14. A resource snapshot handed to C is the client's, and its memory is accounted for. When the call succeeds, the structure
  holds the snapshot and the raw bytes of that client, owns exactly the addresses allocated by the call, and
  nothing else changed. \<open>atr_resource_snapshot_free\<close> then releases exactly these addresses, whatever else
  was allocated or released meanwhile; called at once it leaves memory as it was before, and called a second time on the
  structure it cleared it does nothing.
\<close>

theorem snapshot_handed_out:
  assumes "ffi_wf s" and "atr_client_get_resource_snapshot p out_null s = Ret ((0, Some c), s1)"
  shows "\<exists>client snap. ff_clients s p = Some client \<and> cl_resource client = Some snap \<and>
     snapshot_at c (snap, cl_resource_bytes client) (ff_heap s1) (allocated s s1) \<and>
     handed_out atr_resource_snapshot_free no_snapshot c s s1 \<and> s1\<lparr>ff_heap := ff_heap s\<rparr> = s"
proof -
  from call_ok(1) [OF assms(2) [unfolded atr_client_get_resource_snapshot_def]] obtain client snap where
    c: "ff_clients s p = Some client" "cl_resource client = Some snap"
      "heapB (copy_resource_snapshot snap (cl_resource_bytes client)) s = Ret (Inr c, s1)"
    by (elim bindB_ok) (simp add: deref_ok liftB_ok)
  from snapshot_out.given_out [OF assms(1), of "(snap, cl_resource_bytes client)" c s1] c
  show ?thesis by (auto simp: atr_resource_snapshot_free_def clears_all)
qed

section \<open>Structures handed back\<close>

text \<open>
  A structure that can be passed back in: the conversion of one that holds \<open>v\<close> gives \<open>v\<close>, if all its texts are
  UTF-8, as every Rust string is.
\<close>

definition utf8_text :: "string \<Rightarrow> bool" where
  "utf8_text v \<longleftrightarrow> from_utf8 (str_bytes v) = Some v"

locale ffi_input = ffi_object copy at free
  for copy :: "'v \<Rightarrow> 'c heapm" and at :: "'c \<Rightarrow> 'v \<Rightarrow> assn" and free :: "'c \<Rightarrow> freem" +
  fixes conv :: "'c \<Rightarrow> 'v body"
    and text_ok :: "'v \<Rightarrow> bool"
  assumes conv_at: "at c v (ff_heap s) S \<Longrightarrow> text_ok v \<Longrightarrow> conv c s = Ret (Inr v, s)"
begin

lemma copied_back:
  assumes "ffi_wf s" "heapB (copy v) s = Ret (Inr c, s1)" "text_ok v"
    and "\<And>q. q \<in> allocated s s1 \<Longrightarrow> hp_cells (ff_heap s') q = hp_cells (ff_heap s1) q"
  shows "conv c s' = Ret (Inr v, s')"
proof -
  from assms(2) have run: "copy v (ff_heap s) = (Inr c, ff_heap s1)" by (auto simp: heapB_def split: prod.splits)
  from assms(1) have wf: "heap_wf (ff_heap s)" by (simp add: ffi_wf_def)
  have "at c v (ff_heap s') (allocated s s1)"
    using copy_then_free(1) [OF wf run] assms(4) by (auto simp: allocated_def intro: footedD [OF at_footed])
  then show ?thesis using assms(3) by (rule conv_at)
qed

lemma each_at:
  assumes "length cs = length vs" "stars (map2 at cs vs) (ff_heap s) S" "list_all text_ok vs"
  shows "each_from_ffi conv cs s = Ret (Inr vs, s)"
  using assms
proof (induction cs vs arbitrary: S rule: list_induct2)
  case Nil
  show ?case by (simp add: retB_def)
next
  case (Cons c cs v vs)
  then obtain S1 S2 where "at c v (ff_heap s) S1" "stars (map2 at cs vs) (ff_heap s) S2" by (auto elim: starE)
  with Cons.IH Cons.prems conv_at show ?case by (simp add: bindB_def retB_def)
qed

end

interpretation text_in: ffi_input c_string str_at free_c_string "\<lambda>p. cstr_to_string p field" utf8_text for field
  by unfold_locales (simp add: str_at_def cstr_to_string_def to_str_def read_cstr_def readB_def bindB_def liftB_def utf8_text_def
      str_from_utf8_def ok_or_def)

lemma starsD: "stars As h S \<Longrightarrow> A \<in> set As \<Longrightarrow> \<exists>S'. A h S'"
  by (induction As arbitrary: S) (auto elim!: starE)

fun cookie_text :: "CookieRecord \<Rightarrow> bool" where
  "cookie_text v \<longleftrightarrow> list_all utf8_text [ck_host v, ck_scheme v, ck_name v, ck_value v]"

interpretation cookie_in: ffi_input copy_cookie_record cookie_at free_cookie_record cookie_from_ffi cookie_text
proof
  fix c v S and s :: ffi
  assume at: "cookie_at c v (ff_heap s) S" and ok: "cookie_text v"
  note parts = at [unfolded cookie_at_def, THEN starsD]
  from parts ok have "cstr_to_string (cc_host c) f s = Ret (Inr (ck_host v), s)"
    "cstr_to_string (cc_scheme c) f s = Ret (Inr (ck_scheme v), s)" "cstr_to_string (cc_name c) f s = Ret (Inr (ck_name v), s)"
    "cstr_to_string (cc_value c) f s = Ret (Inr (ck_value v), s)" for f
    using text_in.conv_at by fastforce+
  then show "cookie_from_ffi c s = Ret (Inr v, s)"
    by (simp add: cookie_from_ffi_def bindB_def retB_def)
qed

fun session_text :: "SessionMaterial \<Rightarrow> bool" where
  "session_text v \<longleftrightarrow> list_all utf8_text [sm_username v, sm_sid v, sm_device_id v, sm_connection_id v, sm_sign_key_hex v] \<and>
     list_all cookie_text (sm_cookies v)"

lemma cookies_in:
  assumes "list_at cookie_at CCookies sl vs (ff_heap s) S" "list_all cookie_text vs"
  shows "bindB (read_slice (\<lambda>c. case c of CCookies cs \<Rightarrow> Some cs | _ \<Rightarrow> None) (cl_items sl) (cl_len sl))
      (each_from_ffi cookie_from_ffi) s = Ret (Inr vs, s)" "cl_items sl \<noteq> 0"
proof -
  from assms(1) obtain cs S1 S2 where cs: "length cs = length vs" "stars (map2 cookie_at cs vs) (ff_heap s) S1"
    "slice_at CCookies sl cs (ff_heap s) S2"
    by (auto simp: list_at_def elim: starE)
  show "cl_items sl \<noteq> 0" using cs(3) by (simp add: slice_at_def)
  have "read_slice (\<lambda>c. case c of CCookies cs \<Rightarrow> Some cs | _ \<Rightarrow> None) (cl_items sl) (cl_len sl) s = Ret (Inr cs, s)"
    using cs(3) by (auto simp: slice_at_def read_slice_def readB_def split: if_splits)
  then show "bindB (read_slice (\<lambda>c. case c of CCookies cs \<Rightarrow> Some cs | _ \<Rightarrow> None) (cl_items sl) (cl_len sl))
      (each_from_ffi cookie_from_ffi) s = Ret (Inr vs, s)"
    using cookie_in.each_at [OF cs(1,2) assms(2)] by (simp add: bindB_def)
qed

interpretation session_in: ffi_input copy_session_material session_at free_session_material session_material_from_ffi session_text
proof
  fix c v S and s :: ffi
  assume at: "session_at c v (ff_heap s) S" and ok: "session_text v"
  note parts = at [unfolded session_at_def, THEN starsD]
  from parts ok have texts: "cstr_to_string (cs_username c) f s = Ret (Inr (sm_username v), s)"
    "cstr_to_string (cs_sid c) f s = Ret (Inr (sm_sid v), s)" "cstr_to_string (cs_device_id c) f s = Ret (Inr (sm_device_id v), s)"
    "cstr_to_string (cs_connection_id c) f s = Ret (Inr (sm_connection_id v), s)"
    "cstr_to_string (cs_sign_key_hex c) f s = Ret (Inr (sm_sign_key_hex v), s)" for f
    using text_in.conv_at by fastforce+
  from parts obtain S' where "list_at cookie_at CCookies (cs_cookies c) (sm_cookies v) (ff_heap s) S'" by fastforce
  from cookies_in [OF this] ok texts show "session_material_from_ffi c s = Ret (Inr v, s)"
    by (simp add: session_material_from_ffi_def bindB_def [of _ _ s] retB_def)
qed

text \<open>
  C25. A session survives the C interface. The material that \<open>atr_auth_session_export_session\<close> hands out can be passed to
  \<open>atr_client_set_session\<close> and \<open>atr_auth_session_import_session\<close> at any later time, while its memory is untouched: both succeed
  and work with exactly the session material of the login, cookies in order included. The texts are taken to be UTF-8.
\<close>

theorem exported_session_accepted:
  assumes "ffi_wf s" and "atr_auth_session_export_session a out_null s = Ret ((0, Some c), s1)"
    and "ff_auths s a = Some auth" and "session_text (session_material auth)"
    and "\<forall>q \<in> allocated s s1. hp_cells (ff_heap s') q = hp_cells (ff_heap s1) q"
    and "ff_clients s' p = Some client" and "ff_auths s' b = Some other" and "p \<noteq> 0" and "b \<noteq> 0"
  shows "atr_client_set_session p (Some c) s' =
       Ret ((0, Some ()), s'\<lparr>ff_clients := (ff_clients s')(p \<mapsto> set_session (session_material auth) client)\<rparr>) \<and>
     atr_auth_session_import_session env b (Some c) s' =
       Ret ((0, Some ()), s'\<lparr>ff_auths := (ff_auths s')(b \<mapsto>
         import_session (fe_lib env) (fe_fill env) (fe_micros env) (session_material auth) other)\<rparr>)"
proof -
  from call_ok(1) [OF assms(2) [unfolded atr_auth_session_export_session_def]] assms(3)
  have "heapB (copy_session_material (session_material auth)) s = Ret (Inr c, s1)"
    by (elim bindB_ok) (simp add: deref_ok)
  from session_in.copied_back [OF assms(1) this assms(4)] assms(5)
  have "session_material_from_ffi c s' = Ret (Inr (session_material auth), s')" by blast
  with assms(6-9) show ?thesis
    by (simp add: atr_client_set_session_def atr_auth_session_import_session_def ffi_call_def ffi_result_def bindB_def
        on_client_def on_auth_def on_obj_def modA_def fun_upd_def)
qed


section \<open>When copies succeed\<close>

text \<open>A copy fails only for a text with a NUL byte, whatever the heap.\<close>

definition succeeds :: "'a heapm \<Rightarrow> bool \<Rightarrow> bool" where
  "succeeds m b \<longleftrightarrow> (\<forall>h. (\<exists>v h'. m h = (Inr v, h')) \<longleftrightarrow> b)"

definition nul_free :: "string \<Rightarrow> bool" where
  "nul_free v \<longleftrightarrow> CHR 0x00 \<notin> set v"

named_theorems succeeds_intros "when copies succeed"

lemma succeeds_basic [succeeds_intros]:
  "succeeds (retH v) True" "succeeds (c_string t) (nul_free t)" "succeeds (leak_boxed_slice wrap cs) True"
  by (auto simp: succeeds_def retH_def c_string_def nul_free_def leak_boxed_slice_def alloc_def)

lemma succeeds_bind [succeeds_intros]:
  assumes "succeeds m b" "\<And>v. succeeds (f v) b'"
  shows "succeeds (bindH m f) (b \<and> b')"
  unfolding succeeds_def
proof
  fix h
  obtain r h1 where m: "m h = (r, h1)" by fastforce
  have "(\<exists>v h'. m h = (Inr v, h')) \<longleftrightarrow> b" using assms(1) unfolding succeeds_def by blast
  with m have "(\<exists>v. r = Inr v) \<longleftrightarrow> b" by auto
  with m assms(2) show "(\<exists>v h'. bindH m f h = (Inr v, h')) \<longleftrightarrow> b \<and> b'"
    by (cases r) (auto simp: bindH_def succeeds_def)
qed

lemma succeeds_iff: "succeeds m b \<Longrightarrow> b = b' \<Longrightarrow> succeeds m b'"
  by simp

lemma succeeds_items: "(\<And>v. succeeds (copy v) (ok v)) \<Longrightarrow> succeeds (copy_items copy vs) (list_all ok vs)"
proof (induction vs)
  case (Cons v vs)
  then have "succeeds (copy_items copy (v # vs)) (ok v \<and> list_all ok vs \<and> True)"
    unfolding copy_items.simps by (intro succeeds_intros) auto
  then show ?case by simp
qed (simp add: succeeds_intros)

lemma succeeds_list: "(\<And>v. succeeds (copy v) (ok v)) \<Longrightarrow> succeeds (copy_list copy wrap vs) (list_all ok vs)"
  unfolding copy_list_def by (rule succeeds_iff, rule succeeds_bind, erule succeeds_items, rule succeeds_basic) simp

definition cookie_nul_free :: "CookieRecord \<Rightarrow> bool" where
  "cookie_nul_free v \<longleftrightarrow> list_all nul_free [ck_host v, ck_scheme v, ck_name v, ck_value v]"

definition session_nul_free :: "SessionMaterial \<Rightarrow> bool" where
  "session_nul_free v \<longleftrightarrow> list_all nul_free [sm_username v, sm_sid v, sm_device_id v, sm_connection_id v, sm_sign_key_hex v] \<and>
     list_all cookie_nul_free (sm_cookies v)"

lemma succeeds_cookie: "succeeds (copy_cookie_record v) (cookie_nul_free v)"
  unfolding copy_cookie_record_def by (rule succeeds_iff, (rule succeeds_intros)+) (simp add: cookie_nul_free_def)

lemma succeeds_session: "succeeds (copy_session_material v) (session_nul_free v)"
  unfolding copy_session_material_def
  by (rule succeeds_iff, (rule succeeds_intros succeeds_list succeeds_cookie)+) (auto simp: session_nul_free_def)

text \<open>Every text of a snapshot but the printed addresses, which have no NUL.\<close>

definition snapshot_nul_free :: "ResourceSnapshot \<Rightarrow> bool" where
  "snapshot_nul_free v \<longleftrightarrow> nul_free (major_node_group v) \<and> pred_option nul_free (dns_server v) \<and>
     list_all (\<lambda>r. list_all nul_free [ir_protocol r, ir_app_id r, ir_node_group_id r]) (ip_resources v) \<and>
     list_all (\<lambda>d. list_all nul_free [fst d, dr_protocol (snd d), dr_app_id (snd d), dr_node_group_id (snd d)]) (domain_resources v) \<and>
     list_all (\<lambda>n. nul_free (fst n)) (dns_resource v) \<and> list_all (\<lambda>g. list_all nul_free (fst g # snd g)) (node_groups v)"

lemma nul_free_ipv4 [simp]: "nul_free (show_ipv4 ip)"
  using show_ipv4_chars [of "CHR 0x00" ip] by (auto simp: nul_free_def ascii_digit_def)

lemma succeeds_resources:
  "succeeds (copy_ip_resource r) (list_all nul_free [ir_protocol r, ir_app_id r, ir_node_group_id r])"
  "succeeds (copy_domain_resource d) (list_all nul_free [fst d, dr_protocol (snd d), dr_app_id (snd d), dr_node_group_id (snd d)])"
  "succeeds (copy_dns_resource n) (nul_free (fst n))"
  "succeeds (copy_node_group g) (list_all nul_free (fst g # snd g))"
  unfolding copy_ip_resource_def copy_domain_resource_def copy_dns_resource_def copy_node_group_def copy_string_list_def case_prod_beta
  by (rule succeeds_iff, (rule succeeds_intros succeeds_list)+, auto)+

lemma succeeds_snapshot: "succeeds (copy_resource_snapshot v bs) (snapshot_nul_free v)"
proof -
  have opt: "succeeds (copy_opt copy_blob no_slice bs) True" "succeeds (copy_opt c_string 0 d) (pred_option nul_free d)" for d
    by (cases bs; cases d; simp add: copy_opt_def copy_blob_def succeeds_intros)+
  show ?thesis unfolding copy_resource_snapshot_def copy_node_groups_def copy_string_list_def
    by (rule succeeds_iff, (rule succeeds_bind succeeds_items succeeds_list succeeds_resources succeeds_basic opt)+)
      (auto simp: snapshot_nul_free_def list_all_iff)
qed

lemma heapB_total:
  assumes "succeeds m b" b
  shows "\<exists>c s1. heapB m s = Ret (Inr c, s1)"
proof -
  from assms obtain c h where "m (ff_heap s) = (Inr c, h)" unfolding succeeds_def by blast
  then show ?thesis by (simp add: heapB_def)
qed

text \<open>A copy that fails half-way leaves the parts it has already copied allocated: nobody holds their addresses.\<close>

lemma failed_copy_leaks:
  assumes "nul_free (ck_host v)" "\<not> nul_free (ck_scheme v)"
  shows "copy_cookie_record v h = (Inl (nul_error (ck_scheme v)), snd (alloc (CStr (ck_host v)) h))"
  using assms by (simp add: copy_cookie_record_def bindH_def c_string_def nul_free_def alloc_def)

section \<open>Concrete runs\<close>

definition demo_login_ffi :: ffi where
  "demo_login_ffi = demo_ffi\<lparr>ff_heap := (ff_heap demo_ffi)\<lparr>hp_next := 6\<rparr>, ff_auths := (ff_auths demo_ffi)(5 \<mapsto> demo_session)\<rparr>"

lemma demo_ffi_objects: "hp_next (ff_heap demo_ffi) = 5" "ff_clients demo_ffi 4 = Some demo_fresh_client"
  by (simp_all add: demo_ffi_def)

lemma demo_login_wf: "ffi_wf demo_login_ffi"
proof -
  have "box ff_auths_update demo_session demo_ffi = Ret (Inr 5, demo_login_ffi)"
    by (simp add: box_def demo_login_ffi_def demo_ffi_objects)
  then show ?thesis using auths.keeps_box [of demo_session] reachable_wf [OF demo_reachable(2)] unfolding keeps_def by blast
qed

definition demo_resource_ffi :: ffi where
  "demo_resource_ffi = demo_ffi\<lparr>ff_clients := (ff_clients demo_ffi)(4 \<mapsto> set_resource_bytes [1, 2] (set_resource
     (default_snapshot\<lparr>major_node_group := ''g'', node_groups := [(''g'', [''n:443''])]\<rparr>) demo_fresh_client))\<rparr>"

lemma demo_resource_wf: "ffi_wf demo_resource_ffi"
  unfolding demo_resource_ffi_def
  by (rule clients.keeps_upd [OF reachable_wf [OF demo_reachable(2)]]) (auto simp: demo_ffi_objects split: if_splits)

theorem snapshot_handed_out_witness:
  "\<exists>c s1 client snap. ff_clients demo_resource_ffi 4 = Some client \<and> cl_resource client = Some snap \<and>
     snapshot_at c (snap, cl_resource_bytes client) (ff_heap s1) (allocated demo_resource_ffi s1) \<and>
     handed_out atr_resource_snapshot_free no_snapshot c demo_resource_ffi s1 \<and> s1\<lparr>ff_heap := ff_heap demo_resource_ffi\<rparr> = demo_resource_ffi"
proof -
  let ?snap = "default_snapshot\<lparr>major_node_group := ''g'', node_groups := [(''g'', [''n:443''])]\<rparr>"
  have "snapshot_nul_free ?snap" by (simp add: snapshot_nul_free_def default_snapshot_def nul_free_def)
  then obtain c s1 where "heapB (copy_resource_snapshot ?snap (Some [1, 2])) demo_resource_ffi = Ret (Inr c, s1)"
    using heapB_total [OF succeeds_snapshot] by blast
  then have "atr_client_get_resource_snapshot 4 False demo_resource_ffi = Ret ((0, Some c), s1)"
    by (simp add: atr_client_get_resource_snapshot_def ffi_call_def ffi_result_def bindB_def deref_def liftB_def ok_or_def
        demo_resource_ffi_def set_resource_bytes_def set_resource_def)
  from snapshot_handed_out [OF demo_resource_wf this] show ?thesis by blast
qed

theorem exported_session_accepted_witness:
  "\<exists>c s1. atr_client_set_session 4 (Some c) s1 =
     Ret ((0, Some ()), s1\<lparr>ff_clients := (ff_clients s1)(4 \<mapsto> set_session (session_material demo_session) demo_fresh_client)\<rparr>)"
proof -
  have m: "session_material demo_session = \<lparr>sm_username = [], sm_sid = [], sm_device_id = [], sm_connection_id = [],
      sm_sign_key_hex = random_hex (\<lambda>n. replicate n 0) 64, sm_cookies = []\<rparr>"
    by (simp add: session_material_def demo_session_def collect_cookies_def hm_values_def)
  have key: "random_hex (\<lambda>n. replicate n 0) 64 = replicate 64 (CHR ''0'')" by code_simp
  have ok: "session_nul_free (session_material demo_session)" "session_text (session_material demo_session)"
    by (simp_all add: m key session_nul_free_def nul_free_def utf8_text_def from_utf8_ascii ascii_def list_all_iff)
  then obtain c s1 where e: "heapB (copy_session_material (session_material demo_session)) demo_login_ffi = Ret (Inr c, s1)"
    using heapB_total [OF succeeds_session] by blast
  have a: "ff_auths demo_login_ffi 5 = Some demo_session" by (simp add: demo_login_ffi_def)
  with e have ex: "atr_auth_session_export_session 5 False demo_login_ffi = Ret ((0, Some c), s1)"
    by (simp add: atr_auth_session_export_session_def ffi_call_def ffi_result_def bindB_def deref_def)
  have "ff_clients s1 4 = Some demo_fresh_client" "ff_auths s1 5 = Some demo_session"
    using e by (auto simp: heapB_def demo_login_ffi_def demo_ffi_def split: prod.splits)
  from exported_session_accepted [OF demo_login_wf ex a ok(2) _ this] show ?thesis by auto
qed


section \<open>Resources\<close>

text \<open>
  C27. Resources set through the interface take effect as a whole or not at all. When the bytes parse, the call returns 0, every later
  question about a host is answered by the router on the parsed snapshot, for TCP, UDP and ICMP, and the bytes can be
  read back; when they do not parse, the code and the text of the parse error are reported and every object,
  the client included, is as before.
\<close>

theorem resource_set_takes_effect:
  assumes "ff_clients s p = Some client" and "p \<noteq> 0" and "buf \<noteq> 0" and "q \<noteq> 0"
    and "byte_slice buf len s = Ret (Inr bs, s)" and "to_str q s = Ret (Inr host, s)"
  shows "case parse_resource_bytes (fe_from_slice env) (fe_parse_net env) bs host of
     Inl e \<Rightarrow> atr_client_set_resource env p buf len q s =
       Ret ((error_code_i32 (code e), None), s\<lparr>ff_last_error := Some (error_text e)\<rparr>)
   | Inr snap \<Rightarrow> \<exists>s1. atr_client_set_resource env p buf len q s = Ret ((0, Some ()), s1) \<and>
       (\<forall>t target port. t \<noteq> 0 \<and> to_str t s1 = Ret (Inr target, s1) \<longrightarrow>
          atr_client_route_tcp p t port False s1 = Ret ((0, Some (managed_decision (route snap target port Tcp))), s1) \<and>
          atr_client_route_udp p t port False s1 = Ret ((0, Some (managed_decision (route snap target port Udp))), s1) \<and>
          atr_client_route_icmp p t False s1 = Ret ((0, Some (managed_decision (route snap target 0 Icmp))), s1)) \<and>
       (\<exists>c s2. atr_client_get_resource_bytes p False s1 = Ret ((0, Some c), s2) \<and>
          (heap_wf (ff_heap s1) \<longrightarrow> blob_at c bs (ff_heap s2) (allocated s1 s2)))"
proof (cases "parse_resource_bytes (fe_from_slice env) (fe_parse_net env) bs host")
  case (Inl e)
  with assms show ?thesis
    by (simp add: atr_client_set_resource_def ffi_call_def ffi_result_def bindB_def liftB_def store_error_def error_text_def)
next
  case (Inr snap)
  let ?s = "s\<lparr>ff_clients := (ff_clients s)(p \<mapsto> set_resource_bytes bs (set_resource snap client))\<rparr>"
  have "atr_client_set_resource env p buf len q s = Ret ((0, Some ()), ?s)"
    using assms Inr by (simp add: atr_client_set_resource_def ffi_call_def ffi_result_def bindB_def liftB_def on_client_def
        on_obj_def fun_upd_def)
  moreover have "ffi_route p t port False kind ?s = Ret ((0, Some (managed_decision (route snap target (if kind = Icmp then 0 else port) kind))), ?s)"
    if "t \<noteq> 0" "to_str t ?s = Ret (Inr target, ?s)" for t target port kind
    using that assms(2) by (cases kind) (auto simp: ffi_route_def ffi_result_def bindB_def deref_def retB_def route_tcp_def route_udp_def
        route_icmp_def client_route_def set_resource_def set_resource_bytes_def)
  moreover obtain c s2 where b: "heapB (copy_blob bs) ?s = Ret (Inr c, s2)"
    using heapB_total [OF succeeds_basic(3) TrueI] unfolding copy_blob_def by blast
  then have "atr_client_get_resource_bytes p False ?s = Ret ((0, Some c), s2)"
    using assms(2) by (simp add: atr_client_get_resource_bytes_def ffi_call_def ffi_result_def bindB_def deref_def liftB_def ok_or_def
        set_resource_bytes_def)
  moreover have "heap_wf (ff_heap ?s) \<Longrightarrow> blob_at c bs (ff_heap s2) (allocated ?s s2)"
    using b blob.copy_then_free(1) [of "ff_heap ?s" bs c] by (auto simp: heapB_def allocated_def split: prod.splits)
  ultimately show ?thesis using Inr
    by (auto simp: atr_client_route_tcp_def atr_client_route_udp_def atr_client_route_icmp_def)
qed

section \<open>Packets\<close>

text \<open>
  C40. Reading a packet through the interface. When the next packet of the layer-3 tunnel fits the caller's buffer, the call
  returns 0 with its length, the buffer holds the packet followed by what it held there before, and the tunnel goes on
  with the packets after it. When it does not fit, the call fails with code 1 and leaves the buffer alone,
  but the packet is gone all the same: a second call with a larger buffer reads the one after it.
\<close>

theorem l3_packet_read_or_lost:
  assumes "ff_l3s s t = Some st" and "t \<noteq> 0" and "buf \<noteq> 0" and "\<not> l3_closed st" and "l3_incoming st = packet # rest"
    and "hp_cells (ff_heap s) buf = Some (CBytes old)" and "len \<le> length old"
  shows "\<exists>c out s1. atr_l3_tunnel_read_packet t buf len False s = Ret ((c, out), s1) \<and>
     ff_l3s s1 = (ff_l3s s)(t \<mapsto> st\<lparr>l3_incoming := rest\<rparr>) \<and>
     (if length packet \<le> len
      then c = 0 \<and> out = Some (length packet) \<and>
        hp_cells (ff_heap s1) = (hp_cells (ff_heap s))(buf \<mapsto> CBytes (packet @ drop (length packet) old))
      else c = 1 \<and> out = None \<and> ff_heap s1 = ff_heap s)"
proof -
  have slice: "byte_slice buf len s = Ret (Inr (take len old), s)"
    using assms(6,7) by (simp add: byte_slice_def read_slice_def readB_def)
  let ?s = "s\<lparr>ff_l3s := (ff_l3s s)(t \<mapsto> st\<lparr>l3_incoming := rest\<rparr>)\<rparr>"
  have read: "on_obj ff_l3s ff_l3s_update t l3_read_packet s = Ret (Inr packet, ?s)"
    using assms(1,4,5) by (simp add: on_obj_def l3_read_packet_def fun_upd_def)
  show ?thesis
  proof (cases "length packet \<le> len")
    case True
    with slice read assms show ?thesis
      by (auto simp: atr_l3_tunnel_read_packet_def ffi_call_def ffi_result_def bindB_def write_buf_def overwrite_def fun_eq_iff)
  next
    case False
    with slice read assms show ?thesis
      by (simp add: atr_l3_tunnel_read_packet_def ffi_call_def ffi_result_def bindB_def liftB_def store_error_def)
  qed
qed


section \<open>Login\<close>

text \<open>Steps that do not touch the heap.\<close>

definition same_heap :: "'a body \<Rightarrow> bool" where
  "same_heap m \<longleftrightarrow> (\<forall>s r s'. m s = Ret (r, s') \<longrightarrow> ff_heap s' = ff_heap s)"

named_theorems same_heap_intros "steps that do not touch the heap"

lemma same_heap_pure [same_heap_intros]: "same_heap (retB v)" "same_heap (liftB r)" "same_heap (readB f)" "same_heap (on_auth p g)"
  by (auto simp: same_heap_def retB_def liftB_def readB_def on_auth_def on_obj_def split: option.splits prod.splits)

lemma same_heap_bind [same_heap_intros]: "same_heap m \<Longrightarrow> (\<And>v. same_heap (f v)) \<Longrightarrow> same_heap (bindB m f)"
  unfolding same_heap_def by (metis bindB_Ret)

lemma same_heap_input [same_heap_intros]:
  "same_heap (cstr_to_string p field)" "same_heap (to_str p)" "same_heap (password_input_from_ffi pw)"
  "same_heap (sms_input_from_ffi sm)" "same_heap (callback_target_from_ffi ct)"
proof -
  show "same_heap (to_str p)" for p unfolding to_str_def read_cstr_def by (intro same_heap_intros)
  then show "same_heap (cstr_to_string p field)" for p field by (simp add: cstr_to_string_def same_heap_intros)
  then show "same_heap (password_input_from_ffi pw)" "same_heap (sms_input_from_ffi sm)" "same_heap (callback_target_from_ffi ct)"
    unfolding password_input_from_ffi_def sms_input_from_ffi_def callback_target_from_ffi_def by (intro same_heap_intros; simp)+
qed

text \<open>A call that runs one of the login calls of a session and hands out the challenge.\<close>

definition hands_out_challenge :: "ptr \<Rightarrow> atr_auth_challenge_t body \<Rightarrow> bool" where
  "hands_out_challenge a m \<longleftrightarrow> (\<forall>s c s1. ffi_wf s \<longrightarrow> m s = Ret (Inr c, s1) \<longrightarrow>
     (\<exists>auth v. ff_auths s1 a = Some auth \<and> challenge_fits v auth \<and> challenge_at c v (ff_heap s1) (allocated s s1) \<and>
        handed_out atr_auth_challenge_free no_challenge c s s1))"

lemma hands_out_perform:
  assumes "g = perform lib move"
  shows "hands_out_challenge a (bindB (on_auth a g) (\<lambda>challenge. heapB (challenge_to_ffi challenge)))"
  unfolding hands_out_challenge_def
proof (intro allI impI)
  fix s c s1
  assume wf: "ffi_wf s" and run: "bindB (on_auth a g) (\<lambda>challenge. heapB (challenge_to_ffi challenge)) s = Ret (Inr c, s1)"
  then obtain v s0 where v: "on_auth a g s = Ret (Inr v, s0)" "heapB (challenge_to_ffi v) s0 = Ret (Inr c, s1)" by (elim bindB_ok)
  from v(1) obtain auth auth' where auth: "ff_auths s a = Some auth" "g auth = (Inr v, auth')"
    "s0 = s\<lparr>ff_auths := (ff_auths s)(a \<mapsto> auth')\<rparr>"
    by (auto simp: on_auth_def on_obj_def fun_upd_def split: option.splits prod.splits)
  have "challenge_fits v auth'" using auth(2) ends_in_perform [of lib move] assms by (simp add: ends_in_def)
  moreover have "ffi_wf s0" using keepsD [OF keeps_on(2) wf v(1)] by simp
  note given = challenge_out.given_out [OF this v(2)]
  note out = given(1) given(2) [where clear = clear_challenge, OF clears_all(3)] given(3)
  moreover have "ff_auths s1 a = Some auth'" using arg_cong [OF out(3), of ff_auths] auth(3) by simp
  moreover have "ff_heap s0 = ff_heap s" using auth(3) by simp
  ultimately show "\<exists>auth v. ff_auths s1 a = Some auth \<and> challenge_fits v auth \<and> challenge_at c v (ff_heap s1) (allocated s s1) \<and>
        handed_out atr_auth_challenge_free no_challenge c s s1"
    by (auto simp: allocated_def handed_out_def atr_auth_challenge_free_def)
qed

lemma hands_out_bind:
  assumes "same_heap m" "keeps {} m" "\<And>x. hands_out_challenge a (f x)"
  shows "hands_out_challenge a (bindB m f)"
  unfolding hands_out_challenge_def
proof (intro allI impI)
  fix s c s1
  assume wf: "ffi_wf s" and run: "bindB m f s = Ret (Inr c, s1)"
  then obtain x s0 where x: "m s = Ret (Inr x, s0)" "f x s0 = Ret (Inr c, s1)" by (elim bindB_ok)
  have "ff_heap s0 = ff_heap s" "ffi_wf s0"
    using assms(1) x(1) keepsD [OF assms(2) wf x(1)] by (auto simp: same_heap_def)
  with assms(3) [of x] x(2) show "\<exists>auth v. ff_auths s1 a = Some auth \<and> challenge_fits v auth \<and>
      challenge_at c v (ff_heap s1) (allocated s s1) \<and> handed_out atr_auth_challenge_free no_challenge c s s1"
    unfolding hands_out_challenge_def allocated_def handed_out_def by metis
qed

definition challenge_call :: "ptr \<Rightarrow> (ffi \<Rightarrow> ((int \<times> atr_auth_challenge_t option) \<times> ffi) outcome) \<Rightarrow> bool" where
  "challenge_call a run \<longleftrightarrow> (\<exists>n body. run = ffi_call n body \<and> hands_out_challenge a body)"

lemma challenge_callI: "hands_out_challenge a body \<Longrightarrow> challenge_call a (ffi_call n body)"
  unfolding challenge_call_def by blast

lemmas hands_out_performs = perform.simps [symmetric, THEN hands_out_perform]

lemma challenge_calls:
  "challenge_call a (atr_auth_session_login_password env a pw q n)"
  "challenge_call a (atr_auth_session_login_sms env a sms q n)"
  "challenge_call a (atr_auth_session_submit_captcha env a q n)"
  "challenge_call a (atr_auth_session_submit_sms_code env a q n)"
  "challenge_call a (atr_auth_session_complete_callback env a target n)"
  "challenge_call a (atr_auth_session_complete_callback_with_device env a target q n)"
  unfolding atr_auth_session_login_password_def atr_auth_session_login_sms_def atr_auth_session_submit_captcha_def
    atr_auth_session_submit_sms_code_def atr_auth_session_complete_callback_def atr_auth_session_complete_callback_with_device_def
  by (rule challenge_callI, (rule hands_out_performs hands_out_bind same_heap_intros keeps_intros)+)+

text \<open>
  C26. The challenge handed to C fits the login. Whichever of the six calls that move a login forward returns 0, the structure
  handed out holds a challenge that the session behind the handle is waiting for: a captcha or code it will accept, or the
  session itself when nothing is pending; its memory is exactly what the call allocated, and
  \<open>atr_auth_challenge_free\<close> releases exactly that, once.
\<close>

theorem login_challenge_handed_out:
  assumes "ffi_wf s"
    and "run \<in> {atr_auth_session_login_password env a pw q out_null, atr_auth_session_login_sms env a sms q out_null,
       atr_auth_session_submit_captcha env a q out_null, atr_auth_session_submit_sms_code env a q out_null,
       atr_auth_session_complete_callback env a target out_null,
       atr_auth_session_complete_callback_with_device env a target q out_null}"
    and "run s = Ret ((0, Some c), s1)"
  shows "\<exists>auth v. ff_auths s1 a = Some auth \<and> challenge_fits v auth \<and> challenge_at c v (ff_heap s1) (allocated s s1) \<and>
     handed_out atr_auth_challenge_free no_challenge c s s1"
proof -
  have "challenge_call a run" using assms(2) challenge_calls [of a env] by auto
  then obtain n body where b: "run = ffi_call n body" "hands_out_challenge a body" unfolding challenge_call_def by blast
  from call_ok(1) [OF assms(3) [unfolded b(1)]] b(2) assms(1) show ?thesis unfolding hands_out_challenge_def by blast
qed


section \<open>More concrete runs\<close>

definition demo_env :: ffi_env where
  "demo_env = \<lparr>fe_lib = demo_lib, fe_built = Inr (), fe_fill = (\<lambda>n. replicate n 0), fe_micros = 0,
     fe_from_slice = (\<lambda>bs. if bs = [1] then Inr (demo_response demo_apps) else Inl ''expected value''), fe_parse_net = demo_net,
     fe_tls = (\<lambda>_ _. Inl (NetworkFailed ''down'')), fe_start = Inr (), fe_sha256 = id, fe_hex_decode = (\<lambda>_. Inr []),
     fe_hmac = (\<lambda>_ m. m), fe_encode_upper = (\<lambda>_. []), fe_windows = False, fe_os = ''linux'', fe_lookup = (\<lambda>_. Inr []),
     fe_spawn = Inr (), fe_connect = (\<lambda>_ _ _. Inl (NetworkFailed ''down'')), fe_build = (\<lambda>_ _. Inr []), fe_meanwhile = id,
     fe_bind = (\<lambda>_. Inr ()), fe_local_addr = Inr (V4 0x7F000001, 1080), fe_listener = Inr (), fe_stop = Some\<rparr>"

definition demo_buffer_ffi :: ffi where
  "demo_buffer_ffi = demo_ffi\<lparr>ff_heap := \<lparr>hp_cells = [2 \<mapsto> CStr ''vpn.example.org'', 3 \<mapsto> CBytes [1, 7, 7]], hp_next = 5\<rparr>,
     ff_l3s := [9 \<mapsto> (l3_new demo_fresh_client)\<lparr>l3_incoming := [[4, 5], [6, 6, 6, 6], [8]]\<rparr>]\<rparr>"

text \<open>A packet that fits, and one that does not.\<close>

theorem l3_packet_read_or_lost_witness:
  "\<exists>c out s1. atr_l3_tunnel_read_packet 9 3 3 False demo_buffer_ffi = Ret ((c, out), s1) \<and> c = 0 \<and> out = Some 2 \<and>
     hp_cells (ff_heap s1) 3 = Some (CBytes [4, 5, 7])"
  using l3_packet_read_or_lost [of demo_buffer_ffi 9 "(l3_new demo_fresh_client)\<lparr>l3_incoming := [[4, 5], [6, 6, 6, 6], [8]]\<rparr>"
      3 "[4, 5]" "[[6, 6, 6, 6], [8]]" "[1, 7, 7]" 3]
  by (auto simp: demo_buffer_ffi_def l3_new_def numeral_2_eq_2)

lemma too_small_buffer_loses_packet:
  "\<exists>s1. atr_l3_tunnel_read_packet 9 3 1 False demo_buffer_ffi = Ret ((1, None), s1) \<and> ff_heap s1 = ff_heap demo_buffer_ffi \<and>
     ff_l3s s1 9 = Some ((l3_new demo_fresh_client)\<lparr>l3_incoming := [[6, 6, 6, 6], [8]]\<rparr>)"
  by (simp add: atr_l3_tunnel_read_packet_def ffi_call_def ffi_result_def bindB_def byte_slice_def read_slice_def readB_def
      demo_buffer_ffi_def on_obj_def l3_read_packet_def l3_new_def liftB_def store_error_def)

theorem resource_set_takes_effect_witness:
  "\<exists>s1. atr_client_set_resource demo_env 4 3 1 2 demo_buffer_ffi = Ret ((0, Some ()), s1) \<and>
     atr_client_route_tcp 4 2 441 False s1 = Ret ((0, Some (managed_decision (route demo_snapshot ''vpn.example.org'' 441 Tcp))), s1)"
proof -
  have u: "str_from_utf8 (str_bytes ''vpn.example.org'') = Inr ''vpn.example.org''" by (simp add: str_from_utf8_ascii ascii_def)
  have t: "to_str 2 s = Ret (Inr ''vpn.example.org'', s)" if "hp_cells (ff_heap s) 2 = Some (CStr ''vpn.example.org'')" for s
    using that u by (simp add: to_str_def read_cstr_def readB_def bindB_def liftB_def)
  have b: "byte_slice 3 1 demo_buffer_ffi = Ret (Inr [1], demo_buffer_ffi)"
    by (simp add: byte_slice_def read_slice_def readB_def demo_buffer_ffi_def)
  have c: "ff_clients demo_buffer_ffi 4 = Some demo_fresh_client" "hp_cells (ff_heap demo_buffer_ffi) 2 = Some (CStr ''vpn.example.org'')"
    by (simp_all add: demo_buffer_ffi_def demo_ffi_def)
  have p: "parse_resource_bytes (fe_from_slice demo_env) (fe_parse_net demo_env) [1] ''vpn.example.org'' = Inr demo_snapshot"
    by (simp add: parse_resource_bytes_def demo_env_def demo_build)
  from resource_set_takes_effect [OF c(1) _ _ _ b t [OF c(2)], of demo_env, unfolded p] obtain s1 where
    s1: "atr_client_set_resource demo_env 4 3 1 2 demo_buffer_ffi = Ret ((0, Some ()), s1)"
      "\<And>target. to_str 2 s1 = Ret (Inr target, s1) \<Longrightarrow> atr_client_route_tcp 4 2 441 False s1 =
        Ret ((0, Some (managed_decision (route demo_snapshot target 441 Tcp))), s1)"
    by auto
  from s1(1) have "ff_heap s1 = ff_heap demo_buffer_ffi"
    using b t [OF c(2)] p c(1)
    by (simp add: atr_client_set_resource_def ffi_call_def ffi_result_def bindB_def liftB_def on_client_def on_obj_def) auto
  with c(2) have "to_str 2 s1 = Ret (Inr ''vpn.example.org'', s1)" by (intro t) simp
  with s1 show ?thesis by blast
qed

definition demo_waiting_ffi :: ffi where
  "demo_waiting_ffi = demo_login_ffi\<lparr>ff_auths := (ff_auths demo_login_ffi)(5 \<mapsto>
     demo_session\<lparr>au_pending := Some (PendingSmsVerify ''555'' ''local'' ''1'')\<rparr>)\<rparr>"

theorem login_challenge_handed_out_witness:
  "\<exists>c s1 auth v. atr_auth_session_submit_sms_code demo_env 5 2 False demo_waiting_ffi = Ret ((0, Some c), s1) \<and>
     ff_auths s1 5 = Some auth \<and> challenge_fits v auth \<and> challenge_at c v (ff_heap s1) (allocated demo_waiting_ffi s1)"
proof -
  let ?a = "demo_session\<lparr>au_pending := Some (PendingSmsVerify ''555'' ''local'' ''1'')\<rparr>"
  have wf: "ffi_wf demo_waiting_ffi" unfolding demo_waiting_ffi_def
    by (rule auths.keeps_upd [OF demo_login_wf]) (auto simp: demo_login_ffi_def split: if_splits)
  have t: "to_str 2 demo_waiting_ffi = Ret (Inr ''vpn'', demo_waiting_ffi)"
    by (simp add: to_str_def read_cstr_def readB_def bindB_def liftB_def demo_waiting_ffi_def demo_login_ffi_def demo_ffi_def
        demo_cells utf8_demo)
  have "fst (submit_sms_code demo_lib ''vpn'' ?a) = Inr (NeedCaptcha [9])"
    by (simp add: submit_sms_code_def withA_def run_sms_verify_def post_sms_verify_def need_captcha_def fetch_captcha_def
        bindA_def ask_def call_def exchange_def capture_cookies_def decode_text_def body_bytes_def liftA_def retA_def
        set_pending_def modA_def demo_lib_def Let_def)
  then obtain a' where a': "submit_sms_code demo_lib ''vpn'' ?a = (Inr (NeedCaptcha [9]), a')" by (metis prod.collapse)
  let ?s = "demo_waiting_ffi\<lparr>ff_auths := (ff_auths demo_waiting_ffi)(5 \<mapsto> a')\<rparr>"
  have "ff_auths demo_waiting_ffi 5 = Some ?a" by (simp add: demo_waiting_ffi_def)
  with a' have o: "on_auth 5 (submit_sms_code (fe_lib demo_env) ''vpn'') demo_waiting_ffi = Ret (Inr (NeedCaptcha [9]), ?s)"
    by (simp add: on_auth_def on_obj_def demo_env_def fun_upd_def)
  obtain c s1 where "heapB (challenge_to_ffi (NeedCaptcha [9])) ?s = Ret (Inr c, s1)"
    by (auto simp: heapB_def bindH_def copy_blob_def leak_boxed_slice_def alloc_def retH_def)
  with t o have "atr_auth_session_submit_sms_code demo_env 5 2 False demo_waiting_ffi = Ret ((0, Some c), s1)"
    unfolding atr_auth_session_submit_sms_code_def by (simp add: ffi_call_def ffi_result_def bindB_def)
  with login_challenge_handed_out [OF wf, of "atr_auth_session_submit_sms_code demo_env 5 2 False" demo_env 5 _ 2 False _ _ c s1]
  show ?thesis by blast
qed


section \<open>Handles and events\<close>

text \<open>An event whose message has a NUL byte cannot be handed out, and is lost: the slot is already empty.\<close>

lemma event_with_nul_is_lost:
  assumes "ff_proxies s p = Some v" "p \<noteq> 0" "sv_last_event v = Some (ErrorEvent m)" "\<not> nul_free m"
  shows "atr_proxy_service_take_event p False False s =
     Ret ((255, None), s\<lparr>ff_proxies := (ff_proxies s)(p \<mapsto> v\<lparr>sv_last_event := None\<rparr>),
       ff_last_error := Some (error_text (nul_error m))\<rparr>)"
  using assms
  by (simp add: atr_proxy_service_take_event_def ffi_call_def ffi_result_def bindB_def on_obj_def take_event_def heapB_def bindH_def
      c_string_def nul_free_def nul_error_def store_error_def error_text_def fun_upd_def)


end
