(* ===== verification/Spec2Isabelle.thy ===== *)
theory Spec2Isabelle
  imports Pac Sockets L3_Buffer Ffi_Contract
begin

text \<open>
  \<^bold>\<open>libreatrust\<close>: a verification development of the Rust client library for aTrust access
  services under src/crates/libreatrust-core/src (file names below are relative to it) and of its C
  interface src/src/ffi.rs.

  \<^bold>\<open>The program.\<close> A user logs in (auth.rs) and gets a session; the server's resource list is parsed
  into a snapshot (resource.rs) that decides, per host, port and protocol, whether traffic is
  managed. A client object (client.rs, sign.rs) holds configuration, session and snapshot and
  answers routing questions. Managed traffic goes through a TCP tunnel, or, as IP packets, through a layer-3 tunnel
  with one remote per node group, per-flow authorisation and a keep-alive; a UDP tunnel sits on
  the layer-3 tunnel (all in transport.rs). A local proxy (proxy_service.rs) accepts SOCKS5 and HTTP
  clients, asks the client object for the route, opens a tunnel or a direct connection and relays
  bytes; it serves a PAC script (pac.rs) to browsers. A rotated log (log.rs) is shared by all. C programs use
  all of this through handles, structures they have to release, integer codes and a last error message (ffi.rs).

  \<^bold>\<open>Theories and sources.\<close>
  \<^item> \<open>Prelude\<close>, \<open>Rust_Str\<close>, \<open>Rust_Net\<close>: what the sources use of the language and its standard library: words,
    results, checked indexing, hash maps (locale \<open>hash_map\<close>), UTF-8 strings, number and address
    parsing and printing.
  \<^item> \<open>Types\<close>: error.rs and types.rs.
  \<^item> \<open>Resource\<close>: resource.rs, the snapshot and \<open>route\<close>; \<open>Client\<close>: client.rs and sign.rs, with the
    router contract as locale \<open>router\<close>; \<open>Pac\<close>: pac.rs, the tables, the script text and the meaning of the script.
  \<^item> \<open>Net_IO\<close>: a byte stream as a list of reads to come (chunks, timeouts, failures), bytes written, and
    a script of write failures; the monad of I/O steps and its refinement calculus. \<open>Tcp_Tunnel\<close>: handshake,
    framing, worker and handle of the TCP tunnel (transport.rs).
  \<^item> \<open>Packets\<close>, \<open>L3_Remote\<close>, \<open>L3_Tunnel\<close>: packet coding and checksums; connection tracking,
    authorisation and the I/O worker of one remote; the tunnel with its remotes, keep-alive and UDP
    tunnel (transport.rs). \<open>L3_Buffer\<close>: the frame readers for any reader (locale \<open>reader\<close>, interpreted on the plain and on the
    buffered stream) and \<open>L3BufferedStream\<close>, through which the worker of a remote reads.
  \<^item> \<open>Ttl_Cache\<close>: the contract of a cache with a lifetime as a locale, interpreted on the interface cache and
    the DNS cache. \<open>Interfaces\<close>: connection attempts and the choice of a network interface
    (transport.rs). \<open>Sockets\<close>: one attempt on a table of open descriptors, with the contract of an attempt and of
    the two attempts of a connection as locales (\<open>socket_attempt\<close>, \<open>bound_connection\<close>) interpreted for Unix and for Windows; socket
    addresses, readiness, wake streams, the Windows choice of an interface, the TLS client and \<open>L3Remote::connect\<close> (transport.rs).
  \<^item> \<open>Proxy_Parse\<close>, \<open>Proxy_Conn\<close>, \<open>Proxy_Relay\<close>, \<open>Proxy_Service\<close>: protocol parsing; one connection from its first byte
    to the relay; the relay threads; the service with its listener, connection threads and \<open>stop\<close>
    (proxy_service.rs).
  \<^item> \<open>Auth\<close>: auth.rs. \<open>Log\<close>: log.rs.
  \<^item> \<open>Ffi_Heap\<close>: the C structures of ffi.rs over an explicit heap, the functions that copy values into them and release
    them, and a logic of ownership (separating conjunction of assertions on addresses); the contract of a structure is the
    locale \<open>ffi_object\<close>, with sublocales for lists and optional parts. \<open>Ffi_Input\<close>: the state behind the interface, error
    reporting and the conversion of input structures. \<open>Ffi\<close>: the 66 exported calls. \<open>Ffi_Safety\<close>: the life of handles over
    every sequence of calls (locale \<open>obj_table\<close>, step relation \<open>c_step\<close>), and what each call does with null arguments and failures (\<open>c_call\<close>). \<open>Ffi_Contract\<close>: what the calls promise about
    structures, sessions, resources, packets and challenges (locale \<open>ffi_input\<close>).
  \<^item> This theory: a connection across the components, from the PAC script through the proxy to the node of a tunnel.

  Each source structure is a record and each enum a datatype with the source's names (a prefix on
  field names keeps them apart); each function is a definition of the same name that takes and returns the state it
  changes. Rust's \<open>Result\<close> is a sum with the error on the left. A panic and a call that still
  waits for input are both \<open>None\<close>; where it matters they are told apart by separate totality lemmas. Loops over
  a stream recurse on the stream model, whose size every read decreases, so they are total without
  fuel (only the readers written for any reader are partial functions, shown equal to the total ones on both readers); the only numeric bound is the source's own, the eight turns of \<open>continue_auth\<close>. Threads
  that share state are steps of an inductive relation: \<open>relay_step\<close> for the two copying threads, the tunnel's
  worker and the client, \<open>service_step\<close> for listener, connections and any number of callers of \<open>stop\<close>; \<open>c_step\<close> is one call
  of a C program. In the C interface following a pointer to nothing is \<open>Undef\<close>, told apart from a call that does not
  return (\<open>Stuck\<close>). Clocks, random
  bytes, system calls and crates are arguments of the definitions that use them.

  \<^bold>\<open>Granularity.\<close> A call that locks a structure more than once is one step of the relations unless its theory says otherwise:
  \<open>get_or_create\<close> of a flow (its steps are definitions too, and \<open>get_or_create_race\<close> shows what other threads can do between them),
  \<open>resolve_ipv4_addresses\<close>, and the end of the worker of a remote (close flag, failing the waiting flows, shutdown). Flows created
  while that worker runs arrive with its rounds. A hash map is a list of entries whose order stands for the iteration order; where the
  order shows in a result, as for the cookies of a session, the result is stated for every order or up to reordering.

  \<^bold>\<open>What is shown.\<close>
  \<^item> Routing: a managed decision comes from an entry of the response that grants it; nodes are never
    managed; matching of domains, ranges and ports; contents of the snapshot; the PAC script sends to the proxy exactly the hosts the router
    manages on some port when the addresses of the nodes are left out of account, for rules the script can express (\<open>pac_router_differences\<close> has
    the others); the proxy manages a connection exactly when the router manages the host or an address it resolves to.
  \<^item> Across components: a browser's managed connection is sent to the proxy by the script and, asked for by HTTP \<open>CONNECT\<close>, an absolute HTTP
    request or SOCKS5, ends on an open tunnel to a node that was sent the session's signed request, the destination and what the client sent early.
  \<^item> Connections: no attempt and no sequence of attempts leaks a descriptor, on any failure of any step; a TLS peer is verified for the right name unless the
    configuration says otherwise; on Windows the chosen interface is operational and has a default route of lowest metric.
  \<^item> Tunnels: delivery of the stream in any segmentation, the handshake, reading in order; round trips of
    packets, payloads and checksums; no decoder indexes out of range; flows are tracked without confusion,
    only authorised flows send, and the end of a worker answers every waiting caller; its buffer is transparent and empty whenever it waits; the keep-alive ends.
  \<^item> Proxy: parsing of requests however they arrive, rewriting, the dialogue, caches that are fresh
    and bounded; the relay loses and reorders nothing in any interleaving; the bookkeeping of the service
    is an invariant, and when \<open>stop\<close> has returned the listener has ended, the keep-alive tunnel is closed and what still runs is awaited by another caller of \<open>stop\<close>.
  \<^item> Login: every call is bounded and leaves the session waiting for the answer it asks for, the identity
    of a login is stable, and stored sessions are restored.
  \<^item> C interface: a handle is usable from its creation until the call that frees it and no other call takes it away; a null argument is refused
    without any effect and every other failure is reported by code and message; structures handed
    out hold the values of the library, own exactly what was allocated for them and are released completely, once;
    sessions survive being handed out and back, and resources set are the ones that decide routes.
  \<^item> Log: the files are bounded and hold the end of what was logged; the calendar is right.
  Lemmas also show the defects the development found, among them overwritten domain rules, a byte lost by one
  framing, authorisations never retried, a SOCKS5 request lost when it follows its greeting in one segment, resources
  kept across logins, a \<open>stop\<close> that waits for a connection it did not shut down, a second \<open>stop\<close> that returns while threads still run, two
  authorisations of one flow, and, in the C interface, packets lost to
  buffers that are too small and memory lost when a copy fails half-way. With an I/O timeout of zero no tunnel ever connects.

  \<^bold>\<open>Not modelled.\<close> System calls and what the kernel does with them; the TLS protocol; the Windows branch of the log path; failures of setting or clearing the read
  timeout of an open stream, other than the refusal of zero; the JSON, URL, HTTP, RSA,
  HMAC, MD5, base64, hex and CIDR crates, which are parameters; the engine that runs the PAC script, whose meaning is given for ASCII hosts by \<open>find_proxy_for_url\<close>; most log lines;
  memory limits. Mutex poisoning after a panic in another thread is left out, and a panic ends a run of the model.
\<close>

section \<open>From the browser to the node\<close>

text \<open>A node that accepts a connect request: an accepting status message, the status code zero, then \<open>rest\<close>, in any segmentation.\<close>

definition node_accepts :: "conn \<Rightarrow> bytes \<Rightarrow> bool" where
  "node_accepts c rest \<longleftrightarrow>
     benign (rx c) \<and> tx_script c = [] \<and>
     (\<exists>payload. length payload < 65536 \<and> contains_str ''OK'' (from_utf8_lossy payload) \<and>
        rx_bytes (rx c) = [0x53, 0x00] @ u16_to_be_bytes (word_of_nat (length payload)) @ payload @ [0x05, 0x00] @ rest)"

text \<open>The signed request of a session for an application, as it goes to the node before the destination.\<close>

definition signed_request ::
  "(bytes \<Rightarrow> bytes) \<Rightarrow> (bytes \<Rightarrow> bytes \<Rightarrow> bytes) \<Rightarrow> (bytes \<Rightarrow> string) \<Rightarrow> bool \<Rightarrow> string \<Rightarrow> bytes \<Rightarrow> SessionMaterial \<Rightarrow> string \<Rightarrow> string \<Rightarrow> u16 \<Rightarrow> bytes" where
  "signed_request sha256 hmac_sha256 encode_upper is_windows os key session aid host port =
     (let msg = tcp_init_message sha256 is_windows os session aid host port
      in tcp_init_frame (sign_message (calc_request_sig hmac_sha256 encode_upper key (str_bytes msg)) msg))"

text \<open>An open tunnel on a stream: nothing queued, nothing read.\<close>

definition fresh_tunnel :: "conn \<Rightarrow> TcpTunnel" where
  "fresh_tunnel c = \<lparr>tt_worker = \<lparr>wk_conn = c, wk_commands = [], wk_incoming = [], wk_receiver = True, wk_acks = [], wk_running = True\<rparr>,
     tt_read_buf = [], tt_closed = False\<rparr>"

lemma node_accepts_handshake:
  assumes "node_accepts c rest"
  obtains evs where "wait_for_tcp_connect_status c = Some (Inr (), c\<lparr>rx := evs, tx := tx c @ [0x01, 0x00, 0x00, 0x00]\<rparr>)" "rx_bytes evs = rest"
proof -
  from assms obtain payload where p: "benign (rx c)" "tx_script c = []" "length payload < 65536" "contains_str ''OK'' (from_utf8_lossy payload)"
    "rx_bytes (rx c) = [0x53, 0x00] @ u16_to_be_bytes (word_of_nat (length payload)) @ payload @ [0x05, 0x00] @ rest"
    unfolding node_accepts_def by blast
  from tcp_connect_handshake [OF p(1-3) disjI1 [OF p(4)] p(5)] that show thesis by blast
qed

lemma node_accepts_written: "node_accepts c rest \<Longrightarrow> node_accepts (c\<lparr>tx := bs\<rparr>) rest"
  by (simp add: node_accepts_def)

text \<open>Opening a tunnel to a managed host whose node accepts.\<close>

lemma tunnel_connect_ready:
  assumes "route_tcp client host port = Managed hit" "best_node_for client (node_group_id hit) = Some node" "cl_session client = Some session"
    and "hex_decode (sm_sign_key_hex session) = Inr key" "tcp_dest_frame host port = Inr dest"
    and "open_tls node (cl_config client) = Inr c" "node_accepts c rest"
  obtains evs where "rx_bytes evs = rest"
    "tunnel_connect open_tls (Inr ()) sha256 hex_decode hmac_sha256 encode_upper is_windows os client host port =
       Some (Inr (fresh_tunnel (c\<lparr>rx := evs, tx := tx c @
         signed_request sha256 hmac_sha256 encode_upper is_windows os key session (app_id hit) host port @ dest @ [0x01, 0x00, 0x00, 0x00]\<rparr>)))"
proof -
  let ?init = "signed_request sha256 hmac_sha256 encode_upper is_windows os key session (app_id hit) host port"
  have quiet: "tx_script c = []" using assms(7) by (simp add: node_accepts_def)
  obtain evs where evs: "rx_bytes evs = rest"
    "wait_for_tcp_connect_status (c\<lparr>tx := tx c @ ?init @ dest\<rparr>) = Some (Inr (), c\<lparr>rx := evs, tx := tx c @ ?init @ dest @ [0x01, 0x00, 0x00, 0x00]\<rparr>)"
    using node_accepts_handshake [OF node_accepts_written [OF assms(7), of "tx c @ ?init @ dest"]] by auto
  have "send_tcp_init sha256 hex_decode hmac_sha256 encode_upper is_windows os session (app_id hit) host port c = Some (Inr (), c\<lparr>tx := tx c @ ?init\<rparr>)"
    by (simp add: send_tcp_init_def signed_request_def assms(4) Let_def io_bind_def write_all_def flush_def quiet)
  moreover have "send_tcp_dest host port (c\<lparr>tx := tx c @ ?init\<rparr>) = Some (Inr (), c\<lparr>tx := tx c @ ?init @ dest\<rparr>)"
    by (simp add: send_tcp_dest_def assms(5) io_bind_def write_all_def flush_def quiet)
  ultimately show thesis
    using evs assms(1-3,6) by (intro that [of evs]) (simp_all add: tunnel_connect_def io_bind_def mapR_def fresh_tunnel_def)
qed

text \<open>A managed route needs no resolver, so the proxy opens the tunnel under the name it was given.\<close>

lemma open_managed_target:
  assumes "route_tcp client host port = Managed hit" "pe_open_tunnel env client host port = Some (Inr tunnel)"
  shows "open_proxy_target env client config host port cache = Some (Inr (RemoteManaged tunnel), cache)"
  using assms by (simp add: open_proxy_target_def resolved_tcp_route_def is_managed_route_def mapR_def)

text \<open>The data frames of a text, and a tunnel that has sent them.\<close>

definition data_frames :: "bytes \<Rightarrow> bytes" where
  "data_frames bs = concat (map tcp_data_frame (chunks 65535 bs))"

definition carries :: "TcpTunnel \<Rightarrow> conn \<Rightarrow> bytes \<Rightarrow> bool" where
  "carries t c bs \<longleftrightarrow> wk_conn (tt_worker t) = c\<lparr>tx := tx c @ data_frames bs\<rparr> \<and> \<not> tt_closed t \<and> wk_running (tt_worker t) \<and>
     wk_commands (tt_worker t) = [] \<and> tunnel_pending t = []"

lemma carries_fresh: "carries (fresh_tunnel c) c []"
  by (simp add: carries_def fresh_tunnel_def data_frames_def chunks.simps [of _ "[]"] tunnel_pending_def)

lemma send_early_fresh:
  assumes "tx_script c = []"
  obtains t where "carries t c bs"
    "send_early bs (RemoteManaged (fresh_tunnel c)) pc = Some (Inr (RemoteManaged t), pc\<lparr>pc_up := pc_up pc + word_of_nat (length bs)\<rparr>)"
proof (cases "bs = []")
  case True
  with that [of "fresh_tunnel c"] carries_fresh show thesis by (simp add: send_early_def remote_write_all_def tunnel_write_def mapR_def is_managed_remote_def)
next
  case False
  let ?w = "tt_worker (fresh_tunnel c)"
  let ?t = "(fresh_tunnel c)\<lparr>tt_worker := ?w\<lparr>wk_conn := c\<lparr>tx := tx c @ data_frames bs\<rparr>, wk_acks := [Inr (length bs)]\<rparr>\<rparr>"
  have "worker_commands (worker_arrive [CmdWrite bs] [] ?w) = Some (?w\<lparr>wk_conn := c\<lparr>tx := tx c @ data_frames bs\<rparr>, wk_acks := [Inr (length bs)]\<rparr>)"
    using assms by (simp add: worker_commands_def worker_arrive_def fresh_tunnel_def write_tcp_payload_ok data_frames_def)
  then have "tunnel_write bs (fresh_tunnel c) = Some (Inr (length bs), ?t)"
    using False by (simp add: tunnel_write_def Let_def fresh_tunnel_def)
  moreover have "carries ?t c bs" by (simp add: carries_def fresh_tunnel_def tunnel_pending_def)
  ultimately show thesis using that by (simp add: send_early_def remote_write_all_def mapR_def is_managed_remote_def)
qed

lemma accept_fresh:
  assumes "tx_script c = []" "tx_script (pc_client pc) = []"
  obtains t where "carries t c early"
    "accept_target relay reply early (RemoteManaged (fresh_tunnel c)) pc =
       run_relay relay (RemoteManaged t) (pc\<lparr>pc_client := (pc_client pc)\<lparr>tx := tx (pc_client pc) @ reply\<rparr>, pc_up := pc_up pc + word_of_nat (length early)\<rparr>)"
proof -
  let ?pc = "pc\<lparr>pc_client := (pc_client pc)\<lparr>tx := tx (pc_client pc) @ reply\<rparr>\<rparr>"
  obtain t where t: "carries t c early"
    "send_early early (RemoteManaged (fresh_tunnel c)) ?pc = Some (Inr (RemoteManaged t), ?pc\<lparr>pc_up := pc_up pc + word_of_nat (length early)\<rparr>)"
    using send_early_fresh [OF assms(1), of early ?pc] by auto
  have io: "io_bind (write_all reply) (\<lambda>_. flush) (pc_client pc) = Some (Inr (), (pc_client pc)\<lparr>tx := tx (pc_client pc) @ reply\<rparr>)"
    using assms(2) by (simp add: io_bind_def write_all_def flush_def)
  show thesis
  proof (cases "early = []")
    case True
    with io that [of "fresh_tunnel c"] carries_fresh show thesis by (simp add: accept_target_def)
  next
    case False
    with t io that show thesis by (simp add: accept_target_def)
  qed
qed

text \<open>
  What a client sends to be connected to a host and port, as the events of its connection: \<open>answer\<close> is what it is told before the relay
  starts, \<open>header\<close> what the proxy itself sends to the remote first, and \<open>data\<close> what the client sends behind its request. The three ways
  are a SOCKS5 greeting, in any segmentation, whose answer the client awaits before it sends its request; an HTTP \<open>CONNECT\<close> request; and an HTTP
  request with an absolute target, for which the proxy rewrites the header. The two kinds of HTTP requests come in any segmentation and have at most 64 KiB with the data behind them.
\<close>

inductive asks_for :: "ProxyServiceConfig \<Rightarrow> rx_event list \<Rightarrow> string \<Rightarrow> u16 \<Rightarrow> bytes \<Rightarrow> bytes \<Rightarrow> bytes \<Rightarrow> bool" where
  socks5: "enable_socks5 config \<Longrightarrow> socks_ok t \<Longrightarrow> length methods \<le> 255 \<Longrightarrow> 0x00 \<in> set methods \<Longrightarrow>
     flowing greeting \<Longrightarrow> rx_bytes greeting = socks_greeting methods \<Longrightarrow> flowing request \<Longrightarrow> rx_bytes request = socks_encode t port @ data \<Longrightarrow>
     asks_for config (greeting @ request) (socks_host t) port ([0x05, 0x00] @ socks5_reply 0x00) [] data"
| connect: "enable_http config \<Longrightarrow> clean_request r \<Longrightarrow> length (http_text r) \<le> 65536 \<Longrightarrow> flowing evs \<Longrightarrow> rx_bytes evs = http_text r \<Longrightarrow>
     eq_ignore_ascii_case (hr_method r) ''CONNECT'' \<Longrightarrow> hr_target r = authority_form host port \<Longrightarrow>
     CHR ''['' \<notin> set host \<Longrightarrow> CHR '']'' \<notin> set host \<Longrightarrow>
     asks_for config evs host port connect_established [] (hr_body r)"
| absolute: "enable_http config \<Longrightarrow> clean_request r \<Longrightarrow> length (http_text r) \<le> 65536 \<Longrightarrow> flowing evs \<Longrightarrow> rx_bytes evs = http_text r \<Longrightarrow>
     \<not> eq_ignore_ascii_case (hr_method r) ''CONNECT'' \<Longrightarrow> \<not> starts_with ''/'' (hr_target r) \<Longrightarrow>
     rewrite_http_proxy_request r = Inr (host, port, header @ hr_body r) \<Longrightarrow>
     asks_for config evs host port [] header (hr_body r)"

lemma asks_for_relayed:
  assumes "asks_for config (rx (pc_client pc)) host port answer header data" "tx_script (pc_client pc) = []" "tx_script c = []"
    and "open_proxy_target env client config host port (pc_cache pc) = Some (Inr (RemoteManaged (fresh_tunnel c)), pc_cache pc)"
  obtains early evs tunnel where "early @ rx_bytes evs = data" "carries tunnel c (header @ early)"
    "handle_connection (Inr ()) js_string env relay client config pc =
       run_relay relay (RemoteManaged tunnel)
         (pc\<lparr>pc_client := (pc_client pc)\<lparr>rx := evs, tx := tx (pc_client pc) @ answer\<rparr>, pc_up := pc_up pc + word_of_nat (length (header @ early))\<rparr>)"
  using assms(1)
proof cases
  case (socks5 t methods greeting request)
  obtain early evs where e: "early @ rx_bytes evs = data"
    "handle_connection (Inr ()) js_string env relay client config pc =
       accept_target relay (socks5_reply 0x00) early (RemoteManaged (fresh_tunnel c))
         (pc\<lparr>pc_client := (pc_client pc)\<lparr>rx := evs, tx := tx (pc_client pc) @ [0x05, 0x00]\<rparr>, pc_cache := pc_cache pc\<rparr>)"
    using handle_connection_socks5 [where env = env and client = client and js_string = js_string and relay = relay,
        OF socks5(5-8) assms(2) socks5(1) socks5(9-12) assms(4) [unfolded socks5(2)]] by blast
  let ?pc = "pc\<lparr>pc_client := (pc_client pc)\<lparr>rx := evs, tx := tx (pc_client pc) @ [0x05, 0x00]\<rparr>, pc_cache := pc_cache pc\<rparr>"
  have "tx_script (pc_client ?pc) = []" using assms(2) by simp
  from accept_fresh [where relay = relay and reply = "socks5_reply 0x00" and early = early, OF assms(3) this] e that [of early evs] socks5(3,4)
  show thesis by auto
next
  case (connect r)
  have small: "length (http_text r) \<le> MAX_HEADER_SIZE" using connect(6) by (simp add: MAX_HEADER_SIZE_def)
  obtain early evs where e: "early @ rx_bytes evs = hr_body r"
    "handle_connection (Inr ()) js_string env relay client config pc =
       handle_http_connect (open_proxy_target env client config) relay (r\<lparr>hr_body := early\<rparr>) (pc\<lparr>pc_client := (pc_client pc)\<lparr>rx := evs\<rparr>\<rparr>)"
    using handle_connection_http [where env = env and client = client and js_string = js_string and relay = relay, OF connect(4,5) small connect(7,8)]
      connect(9) by (auto simp: Let_def)
  let ?pc = "pc\<lparr>pc_client := (pc_client pc)\<lparr>rx := evs\<rparr>\<rparr>"
  have "handle_http_connect (open_proxy_target env client config) relay (r\<lparr>hr_body := early\<rparr>) ?pc =
      accept_target relay connect_established early (RemoteManaged (fresh_tunnel c)) ?pc"
    using assms(4) connect(10-12) by (simp add: handle_http_connect_def parse_authority_form)
  moreover have "tx_script (pc_client ?pc) = []" using assms(2) by simp
  ultimately show thesis
    using accept_fresh [where relay = relay and reply = connect_established and early = early, OF assms(3), of ?pc] e that [of early evs] connect(1-3) by auto
next
  case (absolute r)
  have small: "length (http_text r) \<le> MAX_HEADER_SIZE" using absolute(5) by (simp add: MAX_HEADER_SIZE_def)
  obtain early evs where e: "early @ rx_bytes evs = hr_body r"
    "handle_connection (Inr ()) js_string env relay client config pc =
       handle_http_forward (open_proxy_target env client config) relay (r\<lparr>hr_body := early\<rparr>) (pc\<lparr>pc_client := (pc_client pc)\<lparr>rx := evs\<rparr>\<rparr>)"
    using handle_connection_http [where env = env and client = client and js_string = js_string and relay = relay, OF absolute(3,4) small absolute(6,7)]
      absolute(8,9) by (auto simp: Let_def)
  let ?pc = "pc\<lparr>pc_client := (pc_client pc)\<lparr>rx := evs\<rparr>\<rparr>"
  obtain t where "carries t c (header @ early)"
    "send_early (header @ early) (RemoteManaged (fresh_tunnel c)) ?pc = Some (Inr (RemoteManaged t), ?pc\<lparr>pc_up := pc_up pc + word_of_nat (length (header @ early))\<rparr>)"
    using send_early_fresh [OF assms(3), of "header @ early" ?pc] by auto
  moreover have "rewrite_http_proxy_request (r\<lparr>hr_body := early\<rparr>) = Inr (host, port, header @ early)" using absolute(10) by (rule rewrite_body)
  ultimately show thesis
    using e assms(4) absolute(1,2) that [of early evs t] by (simp add: handle_http_forward_def remote_flush_def)
qed

text \<open>
  C8. A managed connection of a browser reaches its node. Take a client with resources and a session, a host and port
  the router manages, a connection that asks for them in one of the three ways of \<open>asks_for\<close> (HTTP \<open>CONNECT\<close>, an absolute HTTP request, or SOCKS5 with a client that
  awaits the answer to its greeting), and a node of the group that accepts. Then the PAC script
  sends the browser to the proxy; the client is told that it is connected (an absolute request is answered by the remote alone); and the relay starts on an open tunnel to that
  node, over which exactly the signed request of the session for the application of the resource, the destination, the empty data
  frame and the data frames of the rewritten header and of the data the client sent early went out, and of whose stream exactly the handshake has been read.
  What the client sent behind its request is, in order, on the tunnel or still unread. Rules with wildcards the script cannot express and hosts that end in two dots are excluded.
\<close>

theorem managed_connection_tunnelled:
  assumes "cl_resource client = Some snap" "\<forall>(domain, r) \<in> set (domain_resources snap). pac_rule domain"
    and "\<not> ends_with ''..'' host" "parse_ipv4 host = None \<or> (\<exists>ip. host = show_ipv4 ip)"
    and "route_tcp client host port = Managed hit"
    and "best_node_for client (node_group_id hit) = Some node" "cl_session client = Some session"
    and "hex_decode (sm_sign_key_hex session) = Inr key" "tcp_dest_frame host port = Inr dest"
    and "open_tls node (cl_config client) = Inr c" "node_accepts c rest"
    and "pe_open_tunnel env = tunnel_connect open_tls (Inr ()) sha256 hex_decode hmac_sha256 encode_upper is_windows os"
    and "tx_script (pc_client pc) = []" "asks_for config (rx (pc_client pc)) host port answer header data"
  shows "find_proxy_for_url (proxy_line proxy) (pac_domains snap) (pac_ranges snap) dns host = proxy_line proxy \<and>
    (\<exists>early evs evs' tunnel.
       handle_connection (Inr ()) js_string env relay client config pc =
         run_relay relay (RemoteManaged tunnel)
           (pc\<lparr>pc_client := (pc_client pc)\<lparr>rx := evs, tx := tx (pc_client pc) @ answer\<rparr>, pc_up := pc_up pc + word_of_nat (length (header @ early))\<rparr>) \<and>
       early @ rx_bytes evs = data \<and>
       wk_conn (tt_worker tunnel) = c\<lparr>rx := evs', tx := tx c @
         signed_request sha256 hmac_sha256 encode_upper is_windows os key session (app_id hit) host port @ dest @ [0x01, 0x00, 0x00, 0x00] @
         concat (map tcp_data_frame (chunks 65535 (header @ early)))\<rparr> \<and>
       rx_bytes evs' = rest \<and> \<not> tt_closed tunnel \<and> wk_running (tt_worker tunnel) \<and> tunnel_pending tunnel = [])"
proof -
  have pac: "find_proxy_for_url (proxy_line proxy) (pac_domains snap) (pac_ranges snap) dns host = proxy_line proxy"
    using pac_covers_router [OF assms(2-4)] assms(1,5) by (simp add: route_tcp_def client_route_def)
  let ?sent = "signed_request sha256 hmac_sha256 encode_upper is_windows os key session (app_id hit) host port @ dest @ [0x01, 0x00, 0x00, 0x00]"
  obtain evs' where tunnel: "rx_bytes evs' = rest"
    "pe_open_tunnel env client host port = Some (Inr (fresh_tunnel (c\<lparr>rx := evs', tx := tx c @ ?sent\<rparr>)))"
    using tunnel_connect_ready [where hex_decode = hex_decode and open_tls = open_tls, OF assms(5-11), of sha256 hmac_sha256 encode_upper is_windows os]
    unfolding assms(12) by blast
  let ?c = "c\<lparr>rx := evs', tx := tx c @ ?sent\<rparr>"
  have "tx_script ?c = []" using assms(11) by (simp add: node_accepts_def)
  then obtain early evs t where "early @ rx_bytes evs = data" "carries t ?c (header @ early)"
    "handle_connection (Inr ()) js_string env relay client config pc =
       run_relay relay (RemoteManaged t)
         (pc\<lparr>pc_client := (pc_client pc)\<lparr>rx := evs, tx := tx (pc_client pc) @ answer\<rparr>, pc_up := pc_up pc + word_of_nat (length (header @ early))\<rparr>)"
    using asks_for_relayed [OF assms(14,13) _ open_managed_target [OF assms(5) tunnel(2)]] by blast
  with pac tunnel(1) show ?thesis by (auto simp: carries_def data_frames_def)
qed

definition demo_tunnel_client :: AtrClient where
  "demo_tunnel_client = \<lparr>cl_config = default_client_config, cl_session = Some \<lparr>sm_username = ''u'', sm_sid = ''s1'', sm_device_id = ''d'',
     sm_connection_id = ''c'', sm_sign_key_hex = ''00'', sm_cookies = []\<rparr>, cl_resource = Some demo_snapshot, cl_resource_bytes = None\<rparr>"

definition demo_node :: conn where
  "demo_node = conn_of [Chunk [0x53, 0x00, 0x00], Chunk [0x02, 0x4F, 0x4B, 0x05, 0x00, 0x07]]"

definition demo_open_tunnel :: "AtrClient \<Rightarrow> string \<Rightarrow> u16 \<Rightarrow> (AtrError + TcpTunnel) option" where
  "demo_open_tunnel = tunnel_connect (\<lambda>_ _. Inr demo_node) (Inr ()) (\<lambda>_. []) (\<lambda>_. Inr [0]) (\<lambda>_ _. []) (\<lambda>_. []) False ''linux''"

definition demo_px_env :: px_env where
  "demo_px_env = \<lparr>pe_lookup = (\<lambda>_ _ _. Inr []), pe_t0 = 0, pe_t1 = 0, pe_open_tunnel = demo_open_tunnel,
     pe_socket_addrs = (\<lambda>_ _. Inr []), pe_connect_any = (\<lambda>_ _ _. Inl (NetworkFailed [])), pe_set_nodelay = (\<lambda>_. Inr ())\<rparr>"

text \<open>A browser's \<open>CONNECT\<close> request, in two segments.\<close>

definition demo_connect :: HttpProxyRequest where
  "demo_connect = \<lparr>hr_method = ''CONNECT'', hr_target = ''git.example.com:443'', hr_version = ''HTTP/1.1'',
     hr_headers = [(''Host'', ''git.example.com:443'')], hr_body = []\<rparr>"

definition demo_px_conn :: px_conn where
  "demo_px_conn = \<lparr>pc_client = conn_of [Chunk (take 30 (http_text demo_connect)), Chunk (drop 30 (http_text demo_connect))], pc_cache = [], pc_up = 0, pc_down = 0\<rparr>"

theorem managed_connection_tunnelled_witness:
  "\<exists>evs tunnel. handle_connection (Inr ()) id demo_px_env (\<lambda>_ _ _ _. None) demo_tunnel_client default_proxy_config demo_px_conn =
      run_relay (\<lambda>_ _ _ _. None) (RemoteManaged tunnel)
        (demo_px_conn\<lparr>pc_client := (pc_client demo_px_conn)\<lparr>rx := evs, tx := connect_established\<rparr>, pc_up := 0\<rparr>) \<and>
    rx_bytes evs = [] \<and> rx_bytes (rx (wk_conn (tt_worker tunnel))) = [0x07]"
proof -
  let ?host = "''git.example.com''"
  have snap: "cl_resource demo_tunnel_client = Some demo_snapshot" by (simp add: demo_tunnel_client_def)
  have rules: "\<forall>(domain, r) \<in> set (domain_resources demo_snapshot). pac_rule domain" by code_simp
  have host: "\<not> ends_with ''..'' ?host" "parse_ipv4 ?host = None" by code_simp+
  have routed: "route_tcp demo_tunnel_client ?host 443 = Managed \<lparr>app_id = ''a1'', node_group_id = ''g1''\<rparr>" by code_simp
  have node: "best_node_for demo_tunnel_client (node_group_id \<lparr>app_id = ''a1'', node_group_id = ''g1''\<rparr>) = Some ''192.0.2.1:441''" by code_simp
  have session: "cl_session demo_tunnel_client = Some (the (cl_session demo_tunnel_client))" by (simp add: demo_tunnel_client_def)
  obtain dest where dest: "tcp_dest_frame ?host 443 = Inr dest"
    by (simp add: tcp_dest_frame_def host(2) [simplified] str_bytes_def)
  have "u16_to_be_bytes (word_of_nat 2) = [0, 2]" "contains_str ''OK'' (from_utf8_lossy [0x4F, 0x4B])" by code_simp+
  then have accepts: "node_accepts demo_node [0x07]"
    unfolding node_accepts_def by (intro conjI exI [of _ "[0x4F, 0x4B]"]) (simp_all add: demo_node_def conn_of_def)
  have env: "pe_open_tunnel demo_px_env = tunnel_connect (\<lambda>_ _. Inr demo_node) (Inr ()) (\<lambda>_. []) (\<lambda>_. Inr [0]) (\<lambda>_ _. []) (\<lambda>_. []) False ''linux''"
    by (simp add: demo_px_env_def demo_open_tunnel_def)
  have conn: "tx_script (pc_client demo_px_conn) = []" "tx (pc_client demo_px_conn) = []" "pc_up demo_px_conn = 0"
    by (simp_all add: demo_px_conn_def conn_of_def)
  have "enable_http default_proxy_config" "clean_request demo_connect" "length (http_text demo_connect) \<le> 65536"
    "eq_ignore_ascii_case (hr_method demo_connect) ''CONNECT''" "hr_target demo_connect = authority_form ?host 443"
    "CHR ''['' \<notin> set ?host" "CHR '']'' \<notin> set ?host" "flowing (rx (pc_client demo_px_conn))" "hr_body demo_connect = []"
    by code_simp+
  moreover have "rx_bytes (rx (pc_client demo_px_conn)) = http_text demo_connect" by (simp add: demo_px_conn_def conn_of_def)
  ultimately have "asks_for default_proxy_config (rx (pc_client demo_px_conn)) ?host 443 connect_established [] []"
    using asks_for.connect [of default_proxy_config demo_connect "rx (pc_client demo_px_conn)" ?host 443] by simp
  from managed_connection_tunnelled [where open_tls = "\<lambda>_ _. Inr demo_node" and hex_decode = "\<lambda>_. Inr [0]" and js_string = id and relay = "\<lambda>_ _ _ _. None",
      OF snap rules host(1) disjI1 [OF host(2)] routed node session refl dest refl accepts env conn(1) this]
  show ?thesis unfolding conn(2,3) append_Nil by fastforce
qed

end
